(* ===== verification/Prelude.thy ===== *)
theory Prelude
  imports Main "HOL-Library.Word" "HOL-Library.Monad_Syntax"
begin

unbundle bit_operations_syntax

text \<open>
  What the component theories share. C memory is modelled by lists: an object is the list of
  its cells, an access outside it is undefined behaviour, and undefined behaviour is the value
  \<open>None\<close> of the option monad. So \<open>Some\<close> in front of a result says that the C code executed
  without an access outside its objects, and a theorem that a routine returns \<open>Some\<close> is a
  memory-safety theorem. Error codes the C code returns are ordinary values inside \<open>Some\<close>.

  The theory also holds the interface \<open>keyed_list\<close>: the intrusive lists of the code
  (\<open>LIST_\<close> and \<open>STAILQ_\<close> macros) are all searched by a key from the head, and what that means
  is proved once.
\<close>

named_theorems mem_simps \<open>reads, writes and copies of C objects\<close>

section \<open>Types\<close>

type_synonym byte = "8 word"
type_synonym u16 = "16 word"
type_synonym u32 = "32 word"

text \<open>Error codes of ESP-IDF.\<close>

abbreviation (input) ESP_OK :: int where "ESP_OK \<equiv> 0"
abbreviation (input) ESP_FAIL :: int where "ESP_FAIL \<equiv> -1"
abbreviation (input) ESP_ERR_NO_MEM :: int where "ESP_ERR_NO_MEM \<equiv> 0x101"
abbreviation (input) ESP_ERR_INVALID_ARG :: int where "ESP_ERR_INVALID_ARG \<equiv> 0x102"
abbreviation (input) ESP_ERR_INVALID_STATE :: int where "ESP_ERR_INVALID_STATE \<equiv> 0x103"
abbreviation (input) ESP_ERR_TIMEOUT :: int where "ESP_ERR_TIMEOUT \<equiv> 0x107"
abbreviation (input) ESP_ERR_NOT_FOUND :: int where "ESP_ERR_NOT_FOUND \<equiv> 0x105"

section \<open>Objects in memory\<close>

definition rd :: "'a list \<Rightarrow> nat \<Rightarrow> 'a option" where
  "rd xs i = (if i < length xs then Some (xs ! i) else None)"

definition wr :: "'a list \<Rightarrow> nat \<Rightarrow> 'a \<Rightarrow> 'a list option" where
  "wr xs i v = (if i < length xs then Some (xs[i := v]) else None)"

text \<open>\<open>memcpy(dst + off, src, length src)\<close>.\<close>

definition blit :: "'a list \<Rightarrow> nat \<Rightarrow> 'a list \<Rightarrow> 'a list option" where
  "blit dst off src =
     (if off + length src \<le> length dst
      then Some (take off dst @ src @ drop (off + length src) dst) else None)"

lemma rd_Some [mem_simps]: "i < length xs \<Longrightarrow> rd xs i = Some (xs ! i)"
  by (simp add: rd_def)

lemma rd_None [mem_simps]: "length xs \<le> i \<Longrightarrow> rd xs i = None"
  by (simp add: rd_def)

lemma rd_eq_Some_iff: "rd xs i = Some v \<longleftrightarrow> i < length xs \<and> xs ! i = v"
  by (auto simp: rd_def)

lemma wr_Some [mem_simps]: "i < length xs \<Longrightarrow> wr xs i v = Some (xs[i := v])"
  by (simp add: wr_def)

lemma wr_eq_Some_iff: "wr xs i v = Some ys \<longleftrightarrow> i < length xs \<and> ys = xs[i := v]"
  by (auto simp: wr_def)

lemma wr_length: "wr xs i v = Some ys \<Longrightarrow> length ys = length xs"
  by (auto simp: wr_def split: if_splits)

lemma blit_Some [mem_simps]:
  "off + length src \<le> length dst \<Longrightarrow>
     blit dst off src = Some (take off dst @ src @ drop (off + length src) dst)"
  by (simp add: blit_def)

lemma blit_length: "blit dst off src = Some ys \<Longrightarrow> length ys = length dst"
  by (auto simp: blit_def split: if_splits)

lemma blit_eq_Some_iff:
  "blit dst off src = Some ys \<longleftrightarrow>
     off + length src \<le> length dst \<and> ys = take off dst @ src @ drop (off + length src) dst"
  by (auto simp: blit_def)

lemma blit_take: "blit dst off src = Some ys \<Longrightarrow> take (off + length src) ys = take off dst @ src"
  by (auto simp: blit_def split: if_splits)

lemma list_update_append_at: "length xs = i \<Longrightarrow> (xs @ y # ys)[i := v] = xs @ v # ys"
  by (induction xs arbitrary: i) auto

text \<open>Writing a cell past a prefix leaves the prefix, writing the next cell extends it.\<close>

lemma take_Suc_update: "i < length xs \<Longrightarrow> take (Suc i) (xs[i := v]) = take i xs @ [v]"
  by (simp add: take_Suc_conv_app_nth)

lemma take_update_beyond: "n \<le> i \<Longrightarrow> take n (xs[i := v]) = take n xs"
  by simp

section \<open>Strings\<close>

text \<open>C string literals, the string an object holds (\<open>None\<close> when it has no terminator, and reading
  it runs off the object), and \<open>strstr\<close>, whose result is the rest of the string from the match.\<close>

definition ascii :: "string \<Rightarrow> byte list" where
  "ascii s = map of_char s"

definition c_str :: "byte list \<Rightarrow> byte list option" where
  "c_str mem = (if 0 \<in> set mem then Some (takeWhile (\<lambda>b. b \<noteq> 0) mem) else None)"

fun strstr :: "byte list \<Rightarrow> byte list \<Rightarrow> byte list option" where
  "strstr [] needle = (if needle = [] then Some [] else None)"
| "strstr (c # s) needle =
     (if take (length needle) (c # s) = needle then Some (c # s) else strstr s needle)"

text \<open>\<open>isspace\<close> and \<open>tolower\<close> of the C locale, and what \<open>strcasecmp\<close> compares.\<close>

definition isspace :: "byte \<Rightarrow> bool" where
  "isspace c \<longleftrightarrow> c = 0x20 \<or> 9 \<le> c \<and> c \<le> 13"

definition tolower :: "byte \<Rightarrow> byte" where
  "tolower c = (if 65 \<le> c \<and> c \<le> 90 then c + 32 else c)"

definition lower :: "byte list \<Rightarrow> byte list" where
  "lower s = map tolower s"

lemma lower_lower [simp]: "lower (lower s) = lower s"
proof -
  have "tolower (tolower c) = tolower c" for c :: byte
  proof (cases "65 \<le> c \<and> c \<le> 90")
    case True
    then have u: "65 \<le> unat c" "unat c \<le> 90" by (simp_all add: word_le_nat_alt)
    then have "unat (c + 32) = unat c + 32" by (simp add: unat_word_ariths)
    then have "\<not> c + 32 \<le> 90" using u by (simp add: word_le_nat_alt)
    with True show ?thesis by (simp add: tolower_def)
  qed (auto simp: tolower_def)
  then show ?thesis by (simp add: lower_def comp_def)
qed

text \<open>Bytes as two lower case hexadecimal digits each, as \<open>%02x\<close> prints them.\<close>

definition lower_hex :: "nat \<Rightarrow> byte" where
  "lower_hex n = of_nat (if n < 10 then 48 + n else 87 + n)"

definition hex_text :: "byte list \<Rightarrow> byte list" where
  "hex_text bs = concat (map (\<lambda>b. [lower_hex (unat b div 16), lower_hex (unat b mod 16)]) bs)"

text \<open>\<open>%d\<close> of a number that is not negative.\<close>

fun decimal :: "nat \<Rightarrow> byte list" where
  "decimal n = (if n < 10 then [of_nat (48 + n)] else decimal (n div 10) @ [of_nat (48 + n mod 10)])"

declare decimal.simps [simp del]

text \<open>\<open>strtol(s, NULL, 10)\<close> of a string of digits, up to the first other character.\<close>

definition strtol10 :: "byte list \<Rightarrow> int" where
  "strtol10 s = min (2 ^ 31 - 1)
     (fold (\<lambda>d n. n * 10 + int (unat (d - 0x30))) (takeWhile (\<lambda>d. 0x30 \<le> d \<and> d \<le> 0x39) s) 0)"

lemma c_str_append: "0 \<notin> set s \<Longrightarrow> c_str (s @ 0 # rest) = Some s"
  by (induction s) (auto simp: c_str_def)

lemma strstr_skip:
  assumes "\<forall>k < length pre. take (length needle) (drop k (pre @ needle @ post)) \<noteq> needle"
  shows "strstr (pre @ needle @ post) needle = Some (needle @ post)"
  using assms
proof (induction pre)
  case Nil
  have "take (length needle) (needle @ post) = needle" by simp
  then show ?case by (cases "needle @ post") (auto simp del: append_eq_append_conv2)
next
  case (Cons c pre)
  have "take (length needle) (c # pre @ needle @ post) \<noteq> needle" using Cons.prems [rule_format, of 0] by simp
  moreover have "\<forall>k < length pre. take (length needle) (drop k (pre @ needle @ post)) \<noteq> needle"
    using Cons.prems by (metis Suc_mono append_Cons drop_Suc_Cons length_Cons)
  ultimately show ?case using Cons.IH by simp
qed

lemma strstr_SomeD: "strstr s needle = Some r \<Longrightarrow> \<exists>pre post. s = pre @ r \<and> r = needle @ post"
proof (induction s needle rule: strstr.induct)
  case (1 needle)
  then show ?case by (auto split: if_splits)
next
  case (2 c s needle)
  show ?case
  proof (cases "take (length needle) (c # s) = needle")
    case True
    then have "r = needle @ drop (length needle) (c # s)" using 2(2) by (metis append_take_drop_id option.inject strstr.simps(2))
    then show ?thesis using True 2(2) by (metis append_Nil option.inject strstr.simps(2))
  next
    case False
    then obtain pre post where "s = pre @ r" "r = needle @ post" using 2 by auto
    then show ?thesis by (metis append_Cons)
  qed
qed

section \<open>Signed arithmetic\<close>

text \<open>\<open>v << k\<close> on an \<open>int\<close>: undefined for a count of 32 or more and for a result out of range.\<close>

definition shl_int :: "nat \<Rightarrow> nat \<Rightarrow> nat option" where
  "shl_int v k = (if k < 32 \<and> v * 2 ^ k < 2 ^ 31 then Some (v * 2 ^ k) else None)"

section \<open>Intrusive lists searched by a key\<close>

text \<open>\<open>LIST_FOREACH\<close> / \<open>STAILQ_FOREACH\<close> with a test and an early return.\<close>

fun first_with :: "('a \<Rightarrow> bool) \<Rightarrow> 'a list \<Rightarrow> 'a option" where
  "first_with p [] = None"
| "first_with p (x # xs) = (if p x then Some x else first_with p xs)"

text \<open>\<open>LIST_REMOVE\<close> of the first element that passes the test.\<close>

fun remove_first :: "('a \<Rightarrow> bool) \<Rightarrow> 'a list \<Rightarrow> 'a list" where
  "remove_first p [] = []"
| "remove_first p (x # xs) = (if p x then xs else x # remove_first p xs)"

text \<open>A write through the iterator to the first element that passes the test.\<close>

fun update_first :: "('a \<Rightarrow> bool) \<Rightarrow> ('a \<Rightarrow> 'a) \<Rightarrow> 'a list \<Rightarrow> 'a list" where
  "update_first p f [] = []"
| "update_first p f (x # xs) = (if p x then f x # xs else x # update_first p f xs)"

lemma first_with_None_iff: "first_with p xs = None \<longleftrightarrow> (\<forall>x \<in> set xs. \<not> p x)"
  by (induction xs) auto

lemma first_with_SomeD: "first_with p xs = Some x \<Longrightarrow> x \<in> set xs \<and> p x"
  by (induction xs) (auto split: if_splits)

lemma first_with_append:
  "first_with p (xs @ ys) = (case first_with p xs of None \<Rightarrow> first_with p ys | Some x \<Rightarrow> Some x)"
  by (induction xs) auto

lemma remove_first_none: "first_with p xs = None \<Longrightarrow> remove_first p xs = xs"
  by (induction xs) (auto split: if_splits)

lemma update_first_none: "first_with p xs = None \<Longrightarrow> update_first p f xs = xs"
  by (induction xs) (auto split: if_splits)

lemma remove_first_subset: "set (remove_first p xs) \<subseteq> set xs"
  by (induction xs) auto

lemma remove_first_length:
  "length (remove_first p xs) =
     (case first_with p xs of None \<Rightarrow> length xs | Some _ \<Rightarrow> length xs - 1)"
proof (induction xs)
  case Nil
  then show ?case by simp
next
  case (Cons x xs)
  then show ?case
    by (cases "first_with p xs"; cases xs) (auto simp: first_with_None_iff)
qed

lemma distinct_remove_first: "distinct (map f xs) \<Longrightarrow> distinct (map f (remove_first p xs))"
proof (induction xs)
  case Nil
  then show ?case by simp
next
  case (Cons x xs)
  then show ?case
    using remove_first_subset [of p xs] by auto
qed

lemma set_remove_first_distinct:
  "distinct (map f xs) \<Longrightarrow> set (remove_first (\<lambda>e. f e = k) xs) = {e \<in> set xs. f e \<noteq> k}"
  by (induction xs) (auto simp: rev_image_eqI)

lemma first_with_distinct:
  "distinct (map f xs) \<Longrightarrow> first_with (\<lambda>e. f e = k) xs = Some x \<longleftrightarrow> x \<in> set xs \<and> f x = k"
  by (induction xs) (auto simp: rev_image_eqI)

lemma map_update_first: "(\<And>x. k (f x) = k x) \<Longrightarrow> map k (update_first p f xs) = map k xs"
  by (induction xs) auto

lemma first_with_update_first:
  "(\<And>x. key (f x) = key x) \<Longrightarrow>
     first_with (\<lambda>x. key x = k) (update_first (\<lambda>x. key x = h) f xs) =
     (if k = h then map_option f (first_with (\<lambda>x. key x = h) xs) else first_with (\<lambda>x. key x = k) xs)"
  by (induction xs) auto

section \<open>Codecs whose encodings can be read off the front of a stream\<close>

fun dec_many :: "('b list \<Rightarrow> ('a \<times> 'b list) option) \<Rightarrow> nat \<Rightarrow> 'b list \<Rightarrow> ('a list \<times> 'b list) option" where
  "dec_many dec 0 s = Some ([], s)"
| "dec_many dec (Suc n) s =
     do { (x, s') \<leftarrow> dec s; (xs, s'') \<leftarrow> dec_many dec n s'; Some (x # xs, s'') }"

locale prefix_codec =
  fixes enc :: "'a \<Rightarrow> 'b list"
    and dec :: "'b list \<Rightarrow> ('a \<times> 'b list) option"
    and ok :: "'a \<Rightarrow> bool"
  assumes dec_enc: "ok x \<Longrightarrow> dec (enc x @ s) = Some (x, s)"
begin

lemma dec_many_enc:
  "list_all ok xs \<Longrightarrow> dec_many dec (length xs) (concat (map enc xs) @ s) = Some (xs, s)"
  by (induction xs) (simp_all add: dec_enc)

lemma prefix_free: "ok x \<Longrightarrow> ok y \<Longrightarrow> enc x @ s = enc y @ t \<Longrightarrow> x = y \<and> s = t"
  using dec_enc [of x s] dec_enc [of y t] by (metis option.inject prod.inject)

lemma concat_inj:
  "list_all ok xs \<Longrightarrow> list_all ok ys \<Longrightarrow> length xs = length ys \<Longrightarrow>
     concat (map enc xs) @ s = concat (map enc ys) @ t \<Longrightarrow> xs = ys \<and> s = t"
  using dec_many_enc [of xs s] dec_many_enc [of ys t] by (metis option.inject prod.inject)

end

section \<open>The interface of a list searched by a key\<close>

text \<open>
  A client of such a list looks elements up by their key and inserts new ones. The contract
  only speaks of the set of elements, so it does not matter at which end the code inserts.
\<close>

locale keyed_list =
  fixes elems :: "'s \<Rightarrow> 'e list"
    and key :: "'e \<Rightarrow> 'k"
    and find :: "'k \<Rightarrow> 's \<Rightarrow> 'e option"
    and ins :: "'e \<Rightarrow> 's \<Rightarrow> 's"
  assumes find_eq: "find k s = first_with (\<lambda>e. key e = k) (elems s)"
    and set_ins: "set (elems (ins e s)) = insert e (set (elems s))"
    and distinct_ins: "distinct (map key (elems s)) \<Longrightarrow> key e \<notin> key ` set (elems s) \<Longrightarrow>
      distinct (map key (elems (ins e s)))"
begin

definition wf :: "'s \<Rightarrow> bool" where
  "wf s \<longleftrightarrow> distinct (map key (elems s))"

lemma find_iff: "wf s \<Longrightarrow> find k s = Some e \<longleftrightarrow> e \<in> set (elems s) \<and> key e = k"
  unfolding wf_def find_eq by (rule first_with_distinct)

lemma find_None_iff: "find k s = None \<longleftrightarrow> k \<notin> key ` set (elems s)"
  by (auto simp: find_eq first_with_None_iff)

lemma wf_ins: "wf s \<Longrightarrow> find (key e) s = None \<Longrightarrow> wf (ins e s)"
  by (simp add: wf_def find_None_iff distinct_ins)

lemma find_ins_same: "wf s \<Longrightarrow> find (key e) s = None \<Longrightarrow> find (key e) (ins e s) = Some e"
  using find_iff [OF wf_ins] by (simp add: set_ins)

lemma find_ins_other:
  assumes "wf s" "find (key e) s = None" "k \<noteq> key e"
  shows "find k (ins e s) = find k s"
proof -
  have "find k (ins e s) = Some x \<longleftrightarrow> find k s = Some x" for x
    using find_iff [OF wf_ins [OF assms(1,2)], of k x] find_iff [OF assms(1), of k x] assms(3)
    by (auto simp: set_ins)
  then show ?thesis by (metis not_None_eq)
qed

end

locale keyed_store = keyed_list elems key find ins
  for elems :: "'s \<Rightarrow> 'e list"
    and key :: "'e \<Rightarrow> 'k"
    and find :: "'k \<Rightarrow> 's \<Rightarrow> 'e option"
    and ins :: "'e \<Rightarrow> 's \<Rightarrow> 's" +
  fixes del :: "'k \<Rightarrow> 's \<Rightarrow> 's"
  assumes elems_del: "elems (del k s) = remove_first (\<lambda>e. key e = k) (elems s)"
begin

lemma wf_del: "wf s \<Longrightarrow> wf (del k s)"
  by (simp add: wf_def elems_del distinct_remove_first)

lemma set_del: "wf s \<Longrightarrow> set (elems (del k s)) = {e \<in> set (elems s). key e \<noteq> k}"
  unfolding wf_def elems_del by (rule set_remove_first_distinct)

lemma find_del_same: "wf s \<Longrightarrow> find k (del k s) = None"
  by (auto simp: find_None_iff set_del)

lemma find_del_other:
  assumes "wf s" "k' \<noteq> k"
  shows "find k' (del k s) = find k' s"
proof -
  have "find k' (del k s) = Some e \<longleftrightarrow> find k' s = Some e" for e
    using find_iff [OF wf_del [OF assms(1)], of k' k e] find_iff [OF assms(1), of k' e] assms
    by (auto simp: set_del)
  then show ?thesis by (metis not_None_eq)
qed

end

end
