(* ===== verification/Utf8.thy ===== *)
theory Utf8
  imports Prelude
begin

text \<open>
  The UTF-8 codec and character classes of \<open>main/utf8.c\<close>. A \<open>char *\<close> that walks a string is
  the list of the bytes that remain from it; reading past the object is \<open>None\<close>. Code points
  are 32-bit words, compared as the signed \<open>ucs4_t\<close> of the header where the code does.
\<close>

section \<open>Decoding\<close>

text \<open>The lead-byte table \<open>umap\<close>: the number of bytes of a sequence, 0 for a byte that cannot
  start one.\<close>

definition umap :: "byte \<Rightarrow> nat" where
  "umap b =
     (let i = unat b in
      if i < 0x80 then 1
      else if i \<ge> 0xc0 \<and> i < 0xe0 then 2
      else if i \<ge> 0xe0 \<and> i < 0xf0 then 3
      else if i \<ge> 0xf0 \<and> i < 0xf8 then 4
      else if i \<ge> 0xf8 \<and> i < 0xfc then 5
      else if i \<ge> 0xfc \<and> i < 0xfe then 6
      else 0)"

text \<open>\<open>while (umap[*s] == 0) { ++s; ++r_illegal; }\<close>\<close>

fun getu8c_skip :: "byte list \<Rightarrow> nat \<Rightarrow> (byte list \<times> nat) option" where
  "getu8c_skip [] r_illegal = None"
| "getu8c_skip (b # s) r_illegal =
     (if umap b = 0 then getu8c_skip s (Suc r_illegal) else Some (b # s, r_illegal))"

text \<open>\<open>uc = *s++ & (0xff >> byte_num)\<close>\<close>

definition lead_bits :: "byte \<Rightarrow> u32" where
  "lead_bits b = ucast b AND drop_bit (umap b) 0xff"

text \<open>
  The loop over the continuation bytes with its \<open>goto repeat_label\<close>: \<open>todo\<close> is
  \<open>byte_num - i\<close> and \<open>used\<close> is \<open>s - t\<close>. A byte that starts a sequence restarts the loop
  there and counts what was read as illegal.
\<close>

fun getu8c_loop :: "byte list \<Rightarrow> u32 \<Rightarrow> nat \<Rightarrow> nat \<Rightarrow> nat \<Rightarrow> (u32 \<times> byte list \<times> nat) option" where
  "getu8c_loop s uc 0 used r_illegal = Some (uc, s, r_illegal)"
| "getu8c_loop [] uc (Suc todo) used r_illegal = None"
| "getu8c_loop (b # s) uc (Suc todo) used r_illegal =
     (if umap b \<noteq> 0
      then getu8c_loop s (lead_bits b) (umap b - 1) 1 (r_illegal + used)
      else getu8c_loop s (push_bit 6 uc + (ucast b AND 0x3f)) todo (Suc used) r_illegal)"

definition getu8c :: "byte list \<Rightarrow> (u32 \<times> byte list \<times> nat) option" where
  "getu8c src =
     do { (s, r_illegal) \<leftarrow> getu8c_skip src 0;
          b \<leftarrow> rd s 0;
          getu8c_loop (tl s) (lead_bits b) (umap b - 1) 1 r_illegal }"

text \<open>Each call moves \<open>*src\<close> forward, which is why the loop of \<open>u8decode\<close> ends.\<close>

lemma getu8c_skip_suffix:
  "getu8c_skip s r = Some (s', r') \<Longrightarrow>
     s' \<noteq> [] \<and> umap (hd s') \<noteq> 0 \<and> length s' \<le> length s \<and> length s' + r' = length s + r"
  by (induction s r rule: getu8c_skip.induct) (auto split: if_splits)

lemma getu8c_loop_shorter:
  "getu8c_loop s uc todo used r = Some (uc', s', r') \<Longrightarrow> length s' \<le> length s"
  by (induction s uc todo used r rule: getu8c_loop.induct) (fastforce split: if_splits)+

lemma getu8c_shorter:
  assumes "getu8c s = Some (uc, s', r)"
  shows "length s' < length s"
proof -
  from assms obtain t r0 b where skip: "getu8c_skip s 0 = Some (t, r0)"
    and b: "rd t 0 = Some b"
    and loop: "getu8c_loop (tl t) (lead_bits b) (umap b - 1) 1 r0 = Some (uc, s', r)"
    by (auto simp: getu8c_def split: Option.bind_splits)
  from getu8c_skip_suffix [OF skip] have "t \<noteq> []" and "length t \<le> length s" by auto
  moreover from getu8c_loop_shorter [OF loop] have "length s' \<le> length (tl t)" .
  ultimately show ?thesis by (cases t) auto
qed

text \<open>
  The loop of \<open>u8decode\<close>. The result is \<open>i\<close>, the array, \<open>r_illegal_all\<close> and the
  \<open>r_illegal\<close> of the last call.
\<close>

function u8decode_loop ::
  "byte list \<Rightarrow> u32 list \<Rightarrow> nat \<Rightarrow> nat \<Rightarrow> nat \<Rightarrow> (nat \<times> u32 list \<times> nat \<times> nat) option" where
  "u8decode_loop s des n i r_all =
     (case getu8c s of
        None \<Rightarrow> None
      | Some (uc, s', r) \<Rightarrow>
          if uc \<noteq> 0
          then if i < n - 1
               then (case wr des i uc of
                       None \<Rightarrow> None
                     | Some des' \<Rightarrow> u8decode_loop s' des' n (Suc i) (r_all + r))
               else Some (i, des, r_all, r)
          else Some (i, des, r_all, r))"
  by pat_completeness auto
termination
  by (relation "measure (\<lambda>(s, _). length s)") (auto dest: getu8c_shorter)

declare u8decode_loop.simps [simp del]

text \<open>Result: the count, the array, and \<open>*illegal\<close> where it is written (it is not for \<open>n = 0\<close>).\<close>

definition u8decode :: "byte list \<Rightarrow> u32 list \<Rightarrow> nat \<Rightarrow> (nat \<times> u32 list \<times> nat option) option" where
  "u8decode str des n =
     (if n = 0 then Some (0, des, None)
      else do { (i, des', r_all, r) \<leftarrow> u8decode_loop str des n 0 0;
                des'' \<leftarrow> wr des' i 0;
                Some (i, des'', Some (r_all + r)) })"

section \<open>Encoding\<close>

text \<open>\<open>IF_CAN_HOLD\<close>: \<open>None\<close> is the \<open>return -2\<close> of the macro.\<close>

definition if_can_hold :: "nat \<Rightarrow> nat \<Rightarrow> nat option" where
  "if_can_hold left m = (if left < m + 1 then None else Some (left - m))"

definition putu8c_byte_num :: "u32 \<Rightarrow> nat" where
  "putu8c_byte_num uc =
     (if sint uc < 2 ^ 11 then 2
      else if sint uc < 2 ^ 16 then 3
      else if sint uc < 2 ^ 21 then 4
      else if sint uc < 2 ^ 26 then 5
      else 6)"

text \<open>\<open>for (i = byte_num - 1; i > 0; --i)\<close>: writes the continuation bytes backwards; the result
  holds the bits of \<open>uc\<close> that are left.\<close>

fun putu8c_tail :: "byte list \<Rightarrow> nat \<Rightarrow> nat \<Rightarrow> u32 \<Rightarrow> (byte list \<times> u32) option" where
  "putu8c_tail buf des 0 uc = Some (buf, uc)"
| "putu8c_tail buf des (Suc i) uc =
     (case wr buf (des + Suc i) (ucast ((uc AND 0x3f) OR 0x80)) of
        None \<Rightarrow> None
      | Some buf' \<Rightarrow> putu8c_tail buf' des i (signed_drop_bit 6 uc))"

text \<open>Result: the return value, the buffer, \<open>*des\<close> as an index of the buffer, and \<open>*left\<close>.\<close>

definition putu8c :: "u32 \<Rightarrow> byte list \<Rightarrow> nat \<Rightarrow> nat \<Rightarrow> (int \<times> byte list \<times> nat \<times> nat) option" where
  "putu8c uc buf des left =
     (if sint uc < 0 then Some (-1, buf, des, left)
      else if sint uc < 2 ^ 7
      then (case if_can_hold left 1 of
              None \<Rightarrow> Some (-2, buf, des, left)
            | Some left' \<Rightarrow>
                do { buf1 \<leftarrow> wr buf des (ucast uc);
                     buf2 \<leftarrow> wr buf1 (des + 1) 0;
                     Some (1, buf2, des + 1, left') })
      else let byte_num = putu8c_byte_num uc in
           (case if_can_hold left byte_num of
              None \<Rightarrow> Some (-2, buf, des, left)
            | Some left' \<Rightarrow>
                do { (buf1, uc') \<leftarrow> putu8c_tail buf des (byte_num - 1) uc;
                     buf2 \<leftarrow> wr buf1 des (ucast (uc' OR push_bit (8 - byte_num) 0xff));
                     buf3 \<leftarrow> wr buf2 (des + byte_num) 0;
                     Some (int byte_num, buf3, des + byte_num, left') }))"

text \<open>The loop of \<open>u8encode\<close> over the 0-terminated array \<open>us\<close>.\<close>

fun u8encode_loop ::
  "u32 list \<Rightarrow> byte list \<Rightarrow> nat \<Rightarrow> nat \<Rightarrow> nat \<Rightarrow> nat \<Rightarrow> (nat \<times> byte list \<times> nat) option" where
  "u8encode_loop [] buf s left len r_illegal = None"
| "u8encode_loop (u # us) buf s left len r_illegal =
     (if u = 0 then Some (len, buf, r_illegal)
      else case putu8c u buf s left of
             None \<Rightarrow> None
           | Some (ret, buf', s', left') \<Rightarrow>
               if ret > 0 then u8encode_loop us buf' s' left' (len + nat ret) r_illegal
               else if ret = -1 then u8encode_loop us buf' s' left' len (Suc r_illegal)
               else Some (len, buf', r_illegal))"

definition u8encode :: "u32 list \<Rightarrow> byte list \<Rightarrow> nat \<Rightarrow> (nat \<times> byte list \<times> nat option) option" where
  "u8encode us des n =
     (if n = 0 then Some (0, des, None)
      else do { des1 \<leftarrow> wr des 0 0;
                (len, des2, r_illegal) \<leftarrow> u8encode_loop us des1 0 n 0 0;
                Some (len, des2, Some r_illegal) })"

section \<open>Character classes\<close>

text \<open>The tests are on the signed value of \<open>ucs4_t\<close>, in the order of the source.\<close>

definition isufullwidth :: "u32 \<Rightarrow> int" where
  "isufullwidth uc =
     (if sint uc = 0x3000 then 1
      else if sint uc \<ge> 0xff01 \<and> sint uc \<le> 0xff5e then 1
      else 0)"

definition isufullwidthalpha :: "u32 \<Rightarrow> int" where
  "isufullwidthalpha uc =
     (if sint uc \<ge> 0xff21 \<and> sint uc \<le> 0xff3a then 1
      else if sint uc \<ge> 0xff41 \<and> sint uc \<le> 0xff5a then 2
      else 0)"

definition isufullwidthdigit :: "u32 \<Rightarrow> int" where
  "isufullwidthdigit uc = (if sint uc \<ge> 0xff10 \<and> sint uc \<le> 0xff19 then 1 else 0)"

definition ufull2half :: "u32 \<Rightarrow> u32" where
  "ufull2half uc =
     (if sint uc = 0x3000 then 0x20
      else if sint uc \<ge> 0xff01 \<and> sint uc \<le> 0xff5e then uc - 0xfee0
      else uc)"

definition uhalf2full :: "u32 \<Rightarrow> u32" where
  "uhalf2full uc =
     (if sint uc = 0x20 then 0x3000
      else if sint uc \<ge> 0x21 \<and> sint uc \<le> 0x7e then uc + 0xfee0
      else uc)"

definition isuchiness :: "u32 \<Rightarrow> int" where
  "isuchiness uc =
     (if sint uc \<ge> 0x4e00 \<and> sint uc \<le> 0x9fcc then 1
      else if sint uc \<ge> 0x3400 \<and> sint uc \<le> 0x4db5 then 2
      else if sint uc \<ge> 0x20000 \<and> sint uc \<le> 0x2a6d6 then 3
      else if sint uc \<ge> 0x2a700 \<and> sint uc \<le> 0x2b734 then 4
      else if sint uc \<ge> 0x2b740 \<and> sint uc \<le> 0x2b81f then 5
      else if sint uc \<ge> 0x2b820 \<and> sint uc \<le> 0x2f7ff then 6
      else if sint uc \<ge> 0x2f800 \<and> sint uc \<le> 0x2fa1d then 7
      else if sint uc \<ge> 0xfa70 \<and> sint uc \<le> 0xfad9 then 8
      else if sint uc \<ge> 0xf900 \<and> sint uc \<le> 0xfa2d then 9
      else if sint uc \<ge> 0xfa30 \<and> sint uc \<le> 0xfa6d then 10
      else 0)"

definition isuzhpunct :: "u32 \<Rightarrow> int" where
  "isuzhpunct uc =
     (if sint uc \<ge> 0x3001 \<and> sint uc \<le> 0x3002 then 1
      else if sint uc \<ge> 0x3008 \<and> sint uc \<le> 0x300f then 1
      else if sint uc \<ge> 0xff01 \<and> sint uc \<le> 0xff0f then 1
      else if sint uc \<ge> 0xff1a \<and> sint uc \<le> 0xff20 then 1
      else if sint uc \<ge> 0xff3b \<and> sint uc \<le> 0xff40 then 1
      else if sint uc \<ge> 0xff5b \<and> sint uc \<le> 0xff5e then 1
      else if sint uc \<ge> 0x2012 \<and> sint uc \<le> 0x201f then 1
      else if sint uc \<ge> 0xfe41 \<and> sint uc \<le> 0xfe44 then 1
      else if sint uc \<ge> 0xfe49 \<and> sint uc \<le> 0xfe4f then 1
      else if sint uc \<ge> 0x3010 \<and> sint uc \<le> 0x3017 then 1
      else 0)"

definition isuhiragana :: "u32 \<Rightarrow> int" where
  "isuhiragana uc = (if sint uc \<ge> 0x3040 \<and> sint uc \<le> 0x309f then 1 else 0)"

definition isukatakana :: "u32 \<Rightarrow> int" where
  "isukatakana uc =
     (if sint uc \<ge> 0x30a0 \<and> sint uc \<le> 0x30ff then 1
      else if sint uc \<ge> 0x31f0 \<and> sint uc \<le> 0x31ff then 2
      else 0)"

definition isukorean :: "u32 \<Rightarrow> int" where
  "isukorean uc =
     (if sint uc \<ge> 0xac00 \<and> sint uc \<le> 0xd7af then 1
      else if sint uc \<ge> 0x1100 \<and> sint uc \<le> 0x11ff then 2
      else if sint uc \<ge> 0x3130 \<and> sint uc \<le> 0x318f then 3
      else 0)"

section \<open>What the encoder writes\<close>

text \<open>
  The specification of the codec: \<open>u8_bytes uc\<close> is the byte sequence of the code point
  \<open>uc\<close>, its lead byte \<open>u8_lead\<close> followed by the six-bit groups of \<open>u8_tail\<close>.
\<close>

fun u8_tail :: "nat \<Rightarrow> u32 \<Rightarrow> byte list" where
  "u8_tail 0 uc = []"
| "u8_tail (Suc i) uc = u8_tail i (signed_drop_bit 6 uc) @ [ucast ((uc AND 0x3f) OR 0x80)]"

fun u8_rest :: "nat \<Rightarrow> u32 \<Rightarrow> u32" where
  "u8_rest 0 uc = uc"
| "u8_rest (Suc i) uc = u8_rest i (signed_drop_bit 6 uc)"

definition u8_lead :: "nat \<Rightarrow> u32 \<Rightarrow> byte" where
  "u8_lead n x = ucast (x OR push_bit (8 - n) 0xff)"

definition u8_bytes :: "u32 \<Rightarrow> byte list" where
  "u8_bytes uc =
     (if sint uc < 2 ^ 7 then [ucast uc]
      else let n = putu8c_byte_num uc in u8_lead n (u8_rest (n - 1) uc) # u8_tail (n - 1) uc)"

lemma length_u8_tail [simp]: "length (u8_tail i uc) = i"
  by (induction i uc rule: u8_tail.induct) auto

lemma putu8c_tail_eq:
  "des + i < length buf \<Longrightarrow>
     putu8c_tail buf des i uc =
       Some (take (Suc des) buf @ u8_tail i uc @ drop (Suc (des + i)) buf, u8_rest i uc)"
proof (induction i arbitrary: buf uc)
  case 0
  then show ?case by (simp add: id_take_nth_drop [symmetric])
next
  case (Suc i)
  let ?c = "ucast ((uc AND 0x3f) OR 0x80) :: byte"
  let ?b = "buf[des + Suc i := ?c]"
  have "drop (Suc (des + i)) ?b = ?c # drop (Suc (des + Suc i)) buf"
    using Suc.prems by (simp add: drop_update_swap Cons_nth_drop_Suc [symmetric])
  moreover have "take (Suc des) ?b = take (Suc des) buf" by simp
  ultimately show ?case
    using Suc.IH [of ?b "signed_drop_bit 6 uc"] Suc.prems by (simp add: mem_simps)
qed


text \<open>The lead and continuation bytes, checked for every value they can carry.\<close>

lemma u8_lead_table:
  "list_all (\<lambda>n. list_all (\<lambda>k. umap (u8_lead n (of_nat k)) = n \<and>
     lead_bits (u8_lead n (of_nat k)) = of_nat k) [0..<2 ^ (7 - n)]) [2..<7]"
  by code_simp

lemma u8_ascii_table:
  "list_all (\<lambda>k. umap (ucast (of_nat k :: u32)) = 1 \<and>
     lead_bits (ucast (of_nat k :: u32)) = of_nat k) [0..<128]"
  by code_simp

lemma u8_cont_table:
  "list_all (\<lambda>k. umap (ucast ((of_nat k :: u32) OR 0x80)) = 0 \<and>
     ucast (ucast ((of_nat k :: u32) OR 0x80) :: byte) AND 0x3f = (of_nat k :: u32)) [0..<64]"
  by code_simp

lemma low6: "uc AND 0x3f = take_bit 6 (uc :: u32)"
  by (simp add: take_bit_eq_mask mask_eq_exp_minus_1)

lemma u8_cont:
  "umap (ucast (((uc :: u32) AND 0x3f) OR 0x80)) = 0"
  "ucast (ucast ((uc AND 0x3f) OR 0x80) :: byte) AND 0x3f = uc AND 0x3f"
proof -
  let ?k = "unat (uc AND 0x3f)"
  have "?k = take_bit 6 (unat uc)" by (simp only: low6 unsigned_take_bit_eq)
  then have "?k < 64" by (simp add: take_bit_eq_mod)
  moreover have "of_nat ?k = uc AND 0x3f" by simp
  ultimately show "umap (ucast ((uc AND 0x3f) OR 0x80)) = 0"
    and "ucast (ucast ((uc AND 0x3f) OR 0x80) :: byte) AND 0x3f = uc AND 0x3f"
    using u8_cont_table unfolding list_all_iff by (metis atLeastLessThan_upt atLeastLessThan_iff zero_le)+
qed

lemma signed_drop_bit_nonneg: "0 \<le> sint uc \<Longrightarrow> signed_drop_bit n uc = drop_bit n (uc :: u32)"
proof (rule bit_word_eqI)
  fix m assume "0 \<le> sint uc" and "m < LENGTH(32)"
  then show "bit (signed_drop_bit n uc) m \<longleftrightarrow> bit (drop_bit n uc) m"
    using bit_last_iff [of uc] by (auto simp: bit_simps dest: bit_imp_le_length)
qed

lemma split6: "0 \<le> sint uc \<Longrightarrow> push_bit 6 (signed_drop_bit 6 uc) + (uc AND 0x3f) = (uc :: u32)"
  by (simp add: signed_drop_bit_nonneg low6 bits_ident)

lemma u8_rest_sint: "sint (u8_rest i uc) = sint uc div 64 ^ i"
proof (induction i arbitrary: uc)
  case 0
  then show ?case by simp
next
  case (Suc i)
  have "sint (u8_rest (Suc i) uc) = sint uc div 64 div 64 ^ i"
    by (simp add: Suc sint_signed_drop_bit_eq drop_bit_eq_div)
  then show ?case by (simp add: zdiv_zmult2_eq mult.commute)
qed

lemma u8_tail_loop:
  "0 \<le> sint uc \<Longrightarrow>
     getu8c_loop (u8_tail i uc @ bs) (u8_rest i uc) (i + k) used r = getu8c_loop bs uc k (i + used) r"
proof (induction i arbitrary: uc bs k used)
  case 0
  then show ?case by simp
next
  case (Suc i)
  have pos: "0 \<le> sint (signed_drop_bit 6 uc)"
    using Suc.prems by (simp add: sint_signed_drop_bit_eq drop_bit_eq_div pos_imp_zdiv_nonneg_iff)
  show ?case
    using Suc.IH [OF pos, of "ucast ((uc AND 0x3f) OR 0x80) # bs" "Suc k" used]
    by (simp add: u8_cont split6 [OF Suc.prems])
qed

lemma u8_lead_facts:
  assumes "2 \<le> n" "n < 7" "0 \<le> sint x" "sint x < 2 ^ (7 - n)"
  shows "umap (u8_lead n x) = n" "lead_bits (u8_lead n x) = x"
proof -
  let ?k = "nat (sint x)"
  have x: "of_nat ?k = x" using assms(3) by simp
  have "n \<in> set [2..<7]" using assms(1,2) by auto
  moreover have "?k < 2 ^ (7 - n)" using assms(3,4) by (simp add: nat_less_iff)
  then have "?k \<in> set [0..<2 ^ (7 - n)]" by simp
  ultimately show "umap (u8_lead n x) = n" "lead_bits (u8_lead n x) = x"
    using u8_lead_table x unfolding list_all_iff by metis+
qed

lemma putu8c_byte_num_bounds:
  assumes "2 ^ 7 \<le> sint uc"
  defines "n \<equiv> putu8c_byte_num uc"
  shows "2 \<le> n" "n < 7" "sint uc div 64 ^ (n - 1) < 2 ^ (7 - n)" "n \<le> 6"
proof -
  have "sint uc < 2 ^ 31" using sint_lt [of uc] by simp
  with assms(1) show "2 \<le> n" "n < 7" "sint uc div 64 ^ (n - 1) < 2 ^ (7 - n)" "n \<le> 6"
    unfolding n_def putu8c_byte_num_def by (auto simp: div_less_iff_less_mult)
qed

lemma getu8c_u8_bytes:
  assumes "0 \<le> sint uc"
  shows "getu8c (u8_bytes uc @ s) = Some (uc, s, 0)"
proof (cases "sint uc < 2 ^ 7")
  case True
  then have "uc = of_nat (nat (sint uc))" using assms by simp
  moreover have "nat (sint uc) \<in> set [0..<128]" using True assms by auto
  ultimately have "umap (ucast uc) = 1 \<and> lead_bits (ucast uc) = uc"
    using u8_ascii_table unfolding list_all_iff by metis
  with True show ?thesis
    by (simp add: u8_bytes_def getu8c_def rd_def)
next
  case False
  let ?n = "putu8c_byte_num uc"
  let ?x = "u8_rest (?n - 1) uc"
  note b = putu8c_byte_num_bounds [of uc, OF leI, OF False]
  have x: "0 \<le> sint ?x" "sint ?x < 2 ^ (7 - ?n)"
    using assms b by (simp_all add: u8_rest_sint pos_imp_zdiv_nonneg_iff)
  note lead = u8_lead_facts [OF b(1,2) x]
  have "getu8c_loop (u8_tail (?n - 1) uc @ s) ?x (?n - 1) 1 0 = Some (uc, s, 0)"
    using u8_tail_loop [OF assms, of "?n - 1" s 0 1 0] by simp
  with False lead b(1) show ?thesis
    by (simp add: u8_bytes_def getu8c_def rd_def Let_def)
qed

lemma length_u8_bytes: "length (u8_bytes uc) = (if sint uc < 2 ^ 7 then 1 else putu8c_byte_num uc)"
proof (cases "sint uc < 2 ^ 7")
  case True
  then show ?thesis by (simp add: u8_bytes_def)
next
  case False
  with putu8c_byte_num_bounds(1) [of uc] show ?thesis by (simp add: u8_bytes_def Let_def)
qed

lemma putu8c_eq:
  assumes "0 \<le> sint uc" and "des + left \<le> length buf"
  defines "k \<equiv> length (u8_bytes uc)"
  shows "putu8c uc buf des left =
    (if left < k + 1 then Some (-2, buf, des, left)
     else Some (int k, take des buf @ u8_bytes uc @ 0 # drop (des + k + 1) buf, des + k, left - k))"
proof (cases "sint uc < 2 ^ 7")
  case True
  then have k: "k = 1" and bs: "u8_bytes uc = [ucast uc]"
    by (simp_all add: k_def length_u8_bytes u8_bytes_def)
  show ?thesis
  proof (cases "left < 2")
    case True
    then show ?thesis using \<open>sint uc < 2 ^ 7\<close> assms(1)
      by (simp add: putu8c_def if_can_hold_def k)
  next
    case False
    then have "des + 1 < length buf" using assms(2) by simp
    moreover have "buf[des := x, Suc des := y] = take des buf @ x # y # drop (des + 2) buf"
      if "Suc des < length buf" for x y :: byte
      using that by (simp add: upd_conv_take_nth_drop take_Suc_update)
    ultimately show ?thesis using False \<open>sint uc < 2 ^ 7\<close> assms(1)
      by (simp add: putu8c_def if_can_hold_def k bs mem_simps)
  qed
next
  case big: False
  let ?x = "u8_rest (k - Suc 0) uc"
  have k: "k = putu8c_byte_num uc" and k2: "2 \<le> k"
    using big putu8c_byte_num_bounds(1) [of uc] by (simp_all add: k_def length_u8_bytes)
  then have bs: "u8_bytes uc = u8_lead k ?x # u8_tail (k - Suc 0) uc"
    using big by (simp add: u8_bytes_def Let_def)
  show ?thesis
  proof (cases "left < k + 1")
    case True
    then show ?thesis using big assms(1) by (simp add: putu8c_def if_can_hold_def k Let_def)
  next
    case False
    then have len: "des + k < length buf" using assms(2) by simp
    let ?b1 = "take (Suc des) buf @ u8_tail (k - Suc 0) uc @ drop (des + k) buf"
    have tail: "putu8c_tail buf des (k - Suc 0) uc = Some (?b1, ?x)"
      using putu8c_tail_eq [of des "k - Suc 0" buf uc] len k2 by simp
    have b2: "?b1[des := v] = take des buf @ v # u8_tail (k - Suc 0) uc @ drop (des + k) buf" for v
      using len by (simp add: take_Suc_conv_app_nth list_update_append)
    have b3: "(take des buf @ v # u8_tail (k - Suc 0) uc @ drop (des + k) buf)[des + k := 0]
        = take des buf @ v # u8_tail (k - Suc 0) uc @ 0 # drop (des + k + 1) buf" for v
      using len k2 by (cases k) (simp_all add: list_update_append Cons_nth_drop_Suc [symmetric])
    show ?thesis using big False assms(1) len k2
      by (simp add: putu8c_def if_can_hold_def k [symmetric] Let_def tail mem_simps b2 b3 bs u8_lead_def)
  qed
qed

text \<open>
  What \<open>u8encode\<close> writes into \<open>left\<close> bytes: the sequences of the code points up to the
  first that does not fit with a terminator, without the negative ones, which are counted.
\<close>

fun u8_fit :: "u32 list \<Rightarrow> nat \<Rightarrow> byte list \<times> nat" where
  "u8_fit [] left = ([], 0)"
| "u8_fit (u # us) left =
     (if u = 0 then ([], 0)
      else if sint u < 0 then map_prod id Suc (u8_fit us left)
      else if left < length (u8_bytes u) + 1 then ([], 0)
      else map_prod ((@) (u8_bytes u)) id (u8_fit us (left - length (u8_bytes u))))"

lemma u8_fit_bound: "0 < left \<Longrightarrow> length (fst (u8_fit us left)) < left"
  by (induction us left rule: u8_fit.induct) (auto simp: less_diff_conv2)

lemma u8encode_loop_eq:
  assumes "0 \<in> set us" and "length acc + left \<le> length des" and "0 < left"
  shows "u8encode_loop us (acc @ 0 # drop (Suc (length acc)) des) (length acc) left len r =
    (let (out, ill) = u8_fit us left
     in Some (len + length out,
              acc @ out @ 0 # drop (Suc (length acc + length out)) des, r + ill))"
  using assms
proof (induction us arbitrary: acc left len r)
  case Nil
  then show ?case by simp
next
  case (Cons u us)
  let ?buf = "acc @ 0 # drop (Suc (length acc)) des"
  let ?bs = "u8_bytes u"
  consider "u = 0" | "sint u < 0" | "u \<noteq> 0" "0 \<le> sint u" "left < length ?bs + 1"
    | "u \<noteq> 0" "0 \<le> sint u" "length ?bs + 1 \<le> left" by linarith
  then show ?case
  proof cases
    case 1
    then show ?thesis by simp
  next
    case 2
    then have "putu8c u ?buf (length acc) left = Some (-1, ?buf, length acc, left)" and "u \<noteq> 0"
      by (auto simp: putu8c_def)
    with 2 Cons show ?thesis by (simp add: case_prod_beta Let_def)
  next
    case 3
    then have "putu8c u ?buf (length acc) left = Some (-2, ?buf, length acc, left)"
      using Cons.prems putu8c_eq [of u "length acc" left ?buf] by simp
    with 3 show ?thesis by simp
  next
    case 4
    have put: "putu8c u ?buf (length acc) left = Some (int (length ?bs),
        (acc @ ?bs) @ 0 # drop (Suc (length (acc @ ?bs))) des, length (acc @ ?bs), left - length ?bs)"
      using 4 Cons.prems putu8c_eq [of u "length acc" left ?buf] by (simp add: add.commute)
    have pos: "0 < length ?bs" using putu8c_byte_num_bounds(1) [of u] by (auto simp: length_u8_bytes)
    have "u8encode_loop us ((acc @ ?bs) @ 0 # drop (Suc (length (acc @ ?bs))) des)
        (length (acc @ ?bs)) (left - length ?bs) (len + length ?bs) r =
      (let (out, ill) = u8_fit us (left - length ?bs)
       in Some (len + length ?bs + length out,
            (acc @ ?bs) @ out @ 0 # drop (Suc (length (acc @ ?bs) + length out)) des, r + ill))"
      using 4 Cons.prems by (intro Cons.IH) auto
    with 4 put pos show ?thesis by (simp add: case_prod_beta Let_def add.assoc)
  qed
qed

lemma u8_fit_all:
  "list_all (\<lambda>u. 0 < sint u) us \<Longrightarrow> length (concat (map u8_bytes us)) < left \<Longrightarrow>
     u8_fit (us @ [0]) left = (concat (map u8_bytes us), 0)"
  by (induction us arbitrary: left) auto

lemma u8encode_terminated:
  assumes "0 \<in> set us" and "0 < n" and "n \<le> length des"
  shows "u8encode us des n =
    (let (out, ill) = u8_fit us n
     in Some (length out, out @ 0 # drop (Suc (length out)) des, Some ill))"
proof -
  have "des[0 := 0] = [] @ 0 # drop (Suc (length [])) des"
    using assms by (cases des) auto
  with u8encode_loop_eq [of us "[]" n des 0 0] assms show ?thesis
    by (cases des) (auto simp: u8encode_def wr_def case_prod_beta Let_def)
qed

section \<open>What the decoder reads\<close>

lemma u8decode_loop_encoded:
  assumes "list_all (\<lambda>u. 0 < sint u) us" and "i + length us < n" and "n \<le> length des"
  shows "u8decode_loop (concat (map u8_bytes us) @ 0 # junk) des n i r =
    Some (i + length us, take i des @ us @ drop (i + length us) des, r, 0)"
  using assms
proof (induction us arbitrary: i des)
  case Nil
  have "getu8c (0 # junk) = Some (0, junk, 0)"
    using getu8c_u8_bytes [of 0 junk] by (simp add: u8_bytes_def)
  then show ?case by (simp add: u8decode_loop.simps [of "0 # junk"])
next
  case (Cons u us)
  let ?rest = "concat (map u8_bytes us) @ 0 # junk"
  have u: "0 \<le> sint u" "u \<noteq> 0" using Cons.prems(1) by auto
  have "u8decode_loop (u8_bytes u @ ?rest) des n i r =
      u8decode_loop ?rest (des[i := u]) n (Suc i) r"
    using u Cons.prems getu8c_u8_bytes [OF u(1), of ?rest]
    by (subst u8decode_loop.simps) (auto simp: mem_simps)
  also have "\<dots> = Some (Suc i + length us,
      take (Suc i) (des[i := u]) @ us @ drop (Suc i + length us) (des[i := u]), r, 0)"
    using Cons.prems by (intro Cons.IH) auto
  finally show ?case using Cons.prems by (simp add: take_Suc_update)
qed

text \<open>
  A complete sequence is a lead byte and the number of continuation bytes it announces;
  its value is what the decoder's shifts compute from it.
\<close>

definition cont_value :: "u32 \<Rightarrow> byte list \<Rightarrow> u32" where
  "cont_value = foldl (\<lambda>uc b. push_bit 6 uc + (ucast b AND 0x3f))"

definition u8_sequence :: "byte list \<Rightarrow> bool" where
  "u8_sequence bs \<longleftrightarrow> bs \<noteq> [] \<and> umap (hd bs) = length bs \<and> list_all (\<lambda>b. umap b = 0) (tl bs)"

definition u8_value :: "byte list \<Rightarrow> u32" where
  "u8_value bs = cont_value (lead_bits (hd bs)) (tl bs)"

lemma getu8c_skip_split:
  "getu8c_skip s r = Some (s', r') \<Longrightarrow>
     \<exists>pre. s = pre @ s' \<and> r' = r + length pre \<and> list_all (\<lambda>b. umap b = 0) pre"
proof (induction s r rule: getu8c_skip.induct)
  case (2 b s r)
  show ?case
  proof (cases "umap b = 0")
    case True
    with 2 obtain pre where "s = pre @ s'" "r' = Suc r + length pre" "list_all (\<lambda>b. umap b = 0) pre"
      by auto
    with True show ?thesis by (intro exI [of _ "b # pre"]) simp
  next
    case False
    with 2 show ?thesis by simp
  qed
qed simp

lemma getu8c_loop_split:
  assumes "getu8c_loop s uc todo used r = Some (uc', s', r')"
  shows "(\<exists>cs. s = cs @ s' \<and> length cs = todo \<and> list_all (\<lambda>b. umap b = 0) cs \<and>
            uc' = cont_value uc cs \<and> r' = r) \<or>
         (\<exists>pre bs. s = pre @ bs @ s' \<and> u8_sequence bs \<and> uc' = u8_value bs \<and>
            r' = r + used + length pre)"
  using assms
proof (induction s uc todo used r rule: getu8c_loop.induct)
  case (1 s uc used r)
  then show ?case by (auto simp: cont_value_def)
next
  case (2 uc todo used r)
  then show ?case by simp
next
  case (3 b s uc todo used r)
  show ?case
  proof (cases "umap b = 0")
    case False
    then have "getu8c_loop s (lead_bits b) (umap b - 1) 1 (r + used) = Some (uc', s', r')"
      using "3.prems" by simp
    from "3.IH"(1) [OF False this] show ?thesis
    proof (elim disjE exE conjE)
      fix cs assume "s = cs @ s'" "length cs = umap b - 1" "list_all (\<lambda>b. umap b = 0) cs"
        "uc' = cont_value (lead_bits b) cs" "r' = r + used"
      with False have "b # s = [] @ (b # cs) @ s'" "u8_sequence (b # cs)" "uc' = u8_value (b # cs)"
        "r' = r + used + length ([] :: byte list)"
        by (auto simp: u8_sequence_def u8_value_def)
      then show ?thesis by blast
    next
      fix pre bs assume "s = pre @ bs @ s'" "u8_sequence bs" "uc' = u8_value bs"
        "r' = r + used + 1 + length pre"
      then have "b # s = (b # pre) @ bs @ s'" "r' = r + used + length (b # pre)" by auto
      with \<open>u8_sequence bs\<close> \<open>uc' = u8_value bs\<close> show ?thesis by blast
    qed
  next
    case True
    let ?uc = "push_bit 6 uc + (ucast b AND 0x3f)"
    have "getu8c_loop s ?uc todo (Suc used) r = Some (uc', s', r')"
      using True "3.prems" by simp
    from "3.IH"(2) [OF _ this] True show ?thesis
    proof (simp, elim disjE exE conjE)
      fix cs assume "s = cs @ s'" "length cs = todo" "list_all (\<lambda>b. umap b = 0) cs"
        "uc' = cont_value ?uc cs" "r' = r"
      with True have "b # s = (b # cs) @ s'" "length (b # cs) = Suc todo"
        "list_all (\<lambda>b. umap b = 0) (b # cs)" "uc' = cont_value uc (b # cs)" "r' = r"
        by (auto simp: cont_value_def)
      then show ?thesis by blast
    next
      fix pre bs assume "s = pre @ bs @ s'" "u8_sequence bs" "uc' = u8_value bs"
        "r' = Suc (r + used + length pre)"
      then have "b # s = (b # pre) @ bs @ s'" "r' = r + used + length (b # pre)" by auto
      with \<open>u8_sequence bs\<close> \<open>uc' = u8_value bs\<close> show ?thesis by blast
    qed
  qed
qed

lemma getu8c_split:
  assumes "getu8c s = Some (uc, s', r)"
  shows "\<exists>pre bs. s = pre @ bs @ s' \<and> length pre = r \<and> u8_sequence bs \<and> uc = u8_value bs"
proof -
  from assms obtain t r0 b where skip: "getu8c_skip s 0 = Some (t, r0)"
    and b: "rd t 0 = Some b"
    and loop: "getu8c_loop (tl t) (lead_bits b) (umap b - 1) 1 r0 = Some (uc, s', r)"
    by (auto simp: getu8c_def split: Option.bind_splits)
  from getu8c_skip_suffix [OF skip] b have t: "t = b # tl t" and "umap b \<noteq> 0"
    by (cases t; auto simp: rd_def)+
  obtain pre where s: "s = pre @ t" and r0: "r0 = length pre"
    using getu8c_skip_split [OF skip] by auto
  from getu8c_loop_split [OF loop] show ?thesis
  proof (elim disjE exE conjE)
    fix cs assume *: "tl t = cs @ s'" "length cs = umap b - 1" "list_all (\<lambda>b. umap b = 0) cs"
      "uc = cont_value (lead_bits b) cs" "r = r0"
    then have "u8_sequence (b # cs)" "uc = u8_value (b # cs)"
      using \<open>umap b \<noteq> 0\<close> by (auto simp: u8_sequence_def u8_value_def)
    moreover have "s = pre @ (b # cs) @ s'" using s t * by simp
    ultimately show ?thesis using r0 * by blast
  next
    fix pre' bs assume *: "tl t = pre' @ bs @ s'" "u8_sequence bs" "uc = u8_value bs"
      "r = r0 + 1 + length pre'"
    then have "s = (pre @ b # pre') @ bs @ s'" "length (pre @ b # pre') = r"
      using s t r0 by (cases t; simp)+
    with * show ?thesis by blast
  qed
qed

section \<open>Safety on terminated strings\<close>

lemma getu8c_skip_nul: "0 \<in> set s \<Longrightarrow> \<exists>s' r'. getu8c_skip s r = Some (s', r') \<and> 0 \<in> set s'"
proof (induction s r rule: getu8c_skip.induct)
  case (2 b s r)
  then show ?case by (cases "b = 0") (auto simp: umap_def)
qed simp

lemma getu8c_loop_nul:
  "0 \<in> set s \<or> todo = 0 \<and> uc = 0 \<Longrightarrow>
     \<exists>uc' s' r'. getu8c_loop s uc todo used r = Some (uc', s', r') \<and> (uc' = 0 \<or> 0 \<in> set s')"
proof (induction s uc todo used r rule: getu8c_loop.induct)
  case (3 b s uc todo used r)
  show ?case
  proof (cases "umap b = 0")
    case True
    with 3 show ?thesis by (auto simp: umap_def)
  next
    case False
    have "0 \<in> set s \<or> umap b - 1 = 0 \<and> lead_bits b = 0"
      using "3.prems" by (auto simp: umap_def lead_bits_def)
    from "3.IH"(1) [OF False this] False show ?thesis by simp
  qed
qed auto

lemma getu8c_nul:
  assumes "0 \<in> set s"
  shows "\<exists>uc s' r. getu8c s = Some (uc, s', r) \<and> (uc = 0 \<or> 0 \<in> set s')"
proof -
  from getu8c_skip_nul [OF assms, of 0] obtain t r0
    where skip: "getu8c_skip s 0 = Some (t, r0)" and t: "0 \<in> set t" by blast
  then obtain b bs where bs: "t = b # bs" by (cases t) auto
  have "0 \<in> set bs \<or> umap b - 1 = 0 \<and> lead_bits b = 0"
    using t by (auto simp: bs umap_def lead_bits_def)
  from getu8c_loop_nul [OF this] show ?thesis
    using skip by (simp add: getu8c_def bs rd_def)
qed

lemma u8decode_loop_safe:
  assumes "0 \<in> set s" and "i < n" and "n \<le> length des"
  shows "\<exists>i' des' ra rl. u8decode_loop s des n i r = Some (i', des', ra, rl) \<and>
    i \<le> i' \<and> i' < n \<and> length des' = length des \<and>
    take i des' = take i des \<and> (\<forall>j. i \<le> j \<and> j < i' \<longrightarrow> des' ! j \<noteq> 0) \<and>
    drop i' des' = drop i' des"
  using assms
proof (induction s des n i r rule: u8decode_loop.induct)
  case (1 s des n i r_all)
  from getu8c_nul [OF "1.prems"(1)] obtain uc s' r
    where g: "getu8c s = Some (uc, s', r)" and nul: "uc = 0 \<or> 0 \<in> set s'" by blast
  note unf = u8decode_loop.simps [of s des n i r_all]
  show ?case
  proof (cases "uc \<noteq> 0 \<and> i < n - 1")
    case False
    with g "1.prems" show ?thesis by (auto simp: unf)
  next
    case True
    let ?des = "des[i := uc]"
    have w: "wr des i uc = Some ?des" using "1.prems" by (simp add: mem_simps)
    have "0 \<in> set s'" "Suc i < n" "n \<le> length ?des" using True nul "1.prems" by auto
    from "1.IH" [OF g refl refl conjunct1 [OF True] conjunct2 [OF True] w this]
    obtain i' des' ra rl where IH: "u8decode_loop s' ?des n (Suc i) (r_all + r) = Some (i', des', ra, rl)"
      "Suc i \<le> i'" "i' < n" "length des' = length des"
      "take (Suc i) des' = take (Suc i) ?des" "\<forall>j. Suc i \<le> j \<and> j < i' \<longrightarrow> des' ! j \<noteq> 0"
      "drop i' des' = drop i' ?des"
      by auto
    have "take i des' = take i des"
      using arg_cong [OF IH(5), of "take i"] by (simp add: min_def)
    moreover have "des' ! i = uc"
      using arg_cong [OF IH(5), of "\<lambda>xs. xs ! i"] "1.prems" by simp
    then have "\<forall>j. i \<le> j \<and> j < i' \<longrightarrow> des' ! j \<noteq> 0"
      using IH(6) True by (metis not_less_eq_eq le_antisym)
    moreover have "drop i' des' = drop i' des" using IH(2,7) by simp
    ultimately show ?thesis using g w True IH(1-4) by (simp add: unf)
  qed
qed

text \<open>The codec is an instance of the prelude's interface.\<close>

interpretation utf8: prefix_codec u8_bytes "map_option (\<lambda>(uc, s, _). (uc, s)) \<circ> getu8c" "\<lambda>uc. 0 \<le> sint uc"
  by unfold_locales (simp add: getu8c_u8_bytes)

section \<open>Properties\<close>

text \<open>
  C25. Round trip: \<open>u8encode\<close> followed by \<open>u8decode\<close> gives back every array of positive code
  points, with no illegal bytes counted, when both buffers hold the result and its terminator.
\<close>

theorem u8_roundtrip:
  assumes "list_all (\<lambda>u. 0 < sint u) us"
    and "length (concat (map u8_bytes us)) < n" and "n \<le> length des"
    and "length us < m" and "m \<le> length out"
  shows "\<exists>des'. u8encode (us @ [0]) des n = Some (length (concat (map u8_bytes us)), des', Some 0) \<and>
    u8decode des' out m = Some (length us, us @ 0 # drop (Suc (length us)) out, Some 0)"
proof -
  let ?bs = "concat (map u8_bytes us)"
  let ?des = "?bs @ 0 # drop (Suc (length ?bs)) des"
  have "u8encode (us @ [0]) des n = Some (length ?bs, ?des, Some 0)"
    using assms by (simp add: u8encode_terminated u8_fit_all)
  moreover have "u8decode ?des out m = Some (length us, us @ 0 # drop (Suc (length us)) out, Some 0)"
    using assms u8decode_loop_encoded [of us 0 m out _ 0]
    by (simp add: u8decode_def mem_simps list_update_append Cons_nth_drop_Suc [symmetric])
  ultimately show ?thesis by blast
qed

theorem u8_roundtrip_witness:
  "\<exists>des'. u8encode ([0x41, 0x4e2d, 0x1f600] @ [0]) (replicate 16 0) 16 =
      Some (length (concat (map u8_bytes [0x41, 0x4e2d, 0x1f600])), des', Some 0) \<and>
    u8decode des' (replicate 4 7) 4 =
      Some (length [0x41 :: u32, 0x4e2d, 0x1f600],
        [0x41, 0x4e2d, 0x1f600] @ 0 # drop (Suc (length [0x41 :: u32, 0x4e2d, 0x1f600])) (replicate 4 7),
        Some 0)"
  by (rule u8_roundtrip) code_simp+

text \<open>
  \<open>u8encode\<close> on any 0-terminated array and any buffer of at least \<open>n\<close> bytes writes
  exactly the sequences that fit, a terminator after them, and nothing else; it never writes
  outside the \<open>n\<close> bytes and counts the negative code points.
\<close>

theorem u8encode_writes:
  assumes "0 \<in> set us" and "0 < n" and "n \<le> length des"
  shows "u8encode us des n =
      Some (length (fst (u8_fit us n)),
        fst (u8_fit us n) @ 0 # drop (Suc (length (fst (u8_fit us n)))) des, Some (snd (u8_fit us n)))
    \<and> length (fst (u8_fit us n)) < n"
  using assms by (simp add: u8encode_terminated u8_fit_bound case_prod_beta)

theorem u8encode_writes_witness:
  "u8encode [0x41, 0xffffffff, 0x4e2d, 0x42, 0] (replicate 6 9) 5 =
      Some (length (fst (u8_fit [0x41, 0xffffffff, 0x4e2d, 0x42, 0] 5)),
        fst (u8_fit [0x41, 0xffffffff, 0x4e2d, 0x42, 0] 5) @
          0 # drop (Suc (length (fst (u8_fit [0x41, 0xffffffff, 0x4e2d, 0x42, 0] 5)))) (replicate 6 9),
        Some (snd (u8_fit [0x41, 0xffffffff, 0x4e2d, 0x42, 0] 5)))
    \<and> length (fst (u8_fit [0x41, 0xffffffff, 0x4e2d, 0x42, 0] 5)) < 5"
  by (rule u8encode_writes) simp_all

text \<open>
  \<open>getu8c\<close> returns the value of a complete sequence of its input, moves exactly past it,
  and reports exactly the number of bytes it skipped before that sequence.
\<close>

theorem getu8c_reads_sequence:
  assumes "getu8c s = Some (uc, s', r)"
  shows "\<exists>pre bs. s = pre @ bs @ s' \<and> length pre = r \<and> u8_sequence bs \<and> uc = u8_value bs"
  by (rule getu8c_split [OF assms])

theorem getu8c_reads_sequence_witness:
  "\<exists>pre bs. [0x80, 0xe4, 0xb8, 0xe4, 0xb8, 0xad, 0x41] = pre @ bs @ [0x41] \<and> length pre = 3 \<and>
     u8_sequence bs \<and> 0x4e2d = u8_value bs"
  by (rule getu8c_reads_sequence) code_simp

text \<open>
  On every 0-terminated string and every array of at least \<open>n\<close> cells, \<open>u8decode\<close> stays
  inside both objects, stores fewer than \<open>n\<close> non-zero code points, terminates them and leaves
  the cells after the terminator as they were.
\<close>

theorem u8decode_safe:
  assumes "0 \<in> set str" and "0 < n" and "n \<le> length des"
  shows "\<exists>i des' ill. u8decode str des n = Some (i, des', Some ill) \<and> i < n \<and>
    length des' = length des \<and> des' ! i = 0 \<and> (\<forall>j < i. des' ! j \<noteq> 0) \<and>
    drop (Suc i) des' = drop (Suc i) des"
proof -
  from u8decode_loop_safe [OF assms, of 0] obtain i d ra rl
    where loop: "u8decode_loop str des n 0 0 = Some (i, d, ra, rl)" and i: "i < n"
      and d: "length d = length des" "\<forall>j < i. d ! j \<noteq> 0" "drop i d = drop i des"
    by auto
  have "drop (Suc i) d = drop (Suc i) des"
    using arg_cong [OF d(3), of tl] by (simp add: drop_Suc tl_drop)
  then show ?thesis
    using loop i d assms by (simp add: u8decode_def mem_simps)
qed

theorem u8decode_safe_witness:
  "\<exists>i des' ill. u8decode [0x41, 0xe4, 0xb8, 0x42, 0] (replicate 4 7) 4 = Some (i, des', Some ill) \<and>
    i < 4 \<and> length des' = length (replicate 4 (7 :: u32)) \<and> des' ! i = 0 \<and> (\<forall>j < i. des' ! j \<noteq> 0) \<and>
    drop (Suc i) des' = drop (Suc i) (replicate 4 7)"
  by (rule u8decode_safe) simp_all

end
