(* ===== verification/Alarm_Parser.thy ===== *)
theory Alarm_Parser
  imports Prelude "HOL-Library.Char_ord"
begin

text \<open>
  The alarm string parser \<open>components/AlarmService/alarmparser.c\<close> and the time arithmetic it
  shares with \<open>alarm.c\<close>. A string buffer is the list of its cells with the terminator among
  them; a read past the last cell is \<open>None\<close>, as are an \<open>int\<close> overflow and a loop that does
  not end. \<open>int\<close> is kept in its 32-bit range. The clock reading and the time zone are
  arguments; \<open>mktime\<close> is the standard library's, on the proleptic Gregorian calendar.
\<close>

section \<open>Strings in buffers\<close>

abbreviation NUL :: char where "NUL \<equiv> CHR 0x00"

definition c_strlen :: "char list \<Rightarrow> nat option" where
  "c_strlen s = (if NUL \<in> set s then Some (length (takeWhile (\<lambda>c. c \<noteq> NUL) s)) else None)"

text \<open>\<open>strncpy(dst, src, n)\<close>: the \<open>n\<close> cells it writes.\<close>

fun c_strncpy :: "char list \<Rightarrow> nat \<Rightarrow> char list option" where
  "c_strncpy s 0 = Some []"
| "c_strncpy [] (Suc n) = None"
| "c_strncpy (c # s) (Suc n) =
     (if c = NUL then Some (replicate (Suc n) NUL) else map_option ((#) c) (c_strncpy s n))"

text \<open>\<open>sscanf\<close> with \<open>%d\<close>: the outer \<open>None\<close> is undefined behaviour (the string is not terminated
  or the number does not fit an \<open>int\<close>), the inner one a matching failure.\<close>

definition c_isspace :: "char \<Rightarrow> bool" where
  "c_isspace c \<longleftrightarrow> c \<in> {CHR '' '', CHR 0x09, CHR 0x0A, CHR 0x0B, CHR 0x0C, CHR 0x0D}"

definition c_isdigit :: "char \<Rightarrow> bool" where
  "c_isdigit c \<longleftrightarrow> CHR ''0'' \<le> c \<and> c \<le> CHR ''9''"

definition digit_value :: "char \<Rightarrow> int" where
  "digit_value c = of_char c - 48"

definition in_int :: "int \<Rightarrow> bool" where
  "in_int x \<longleftrightarrow> - (2 ^ 31) \<le> x \<and> x < 2 ^ 31"

definition int_of :: "int \<Rightarrow> int option" where
  "int_of x = (if in_int x then Some x else None)"

fun scan_digits :: "char list \<Rightarrow> int \<Rightarrow> (int \<times> char list) option" where
  "scan_digits [] acc = None"
| "scan_digits (c # s) acc =
     (if c_isdigit c then scan_digits s (10 * acc + digit_value c) else Some (acc, c # s))"

fun scan_int :: "char list \<Rightarrow> (int \<times> char list) option option" where
  "scan_int [] = None"
| "scan_int (c # s) =
     (if c_isspace c then scan_int s
      else let neg = (c = CHR ''-''); s' = (if c = CHR ''-'' \<or> c = CHR ''+'' then s else c # s) in
           case s' of
             [] \<Rightarrow> None
           | d # _ \<Rightarrow>
               if c_isdigit d
               then do { (v, rest) \<leftarrow> scan_digits s' 0;
                         v' \<leftarrow> int_of (if neg then - v else v);
                         Some (Some (v', rest)) }
               else Some None)"

text \<open>The values the conversions stored, in order; the length of the list is \<open>sscanf\<close>'s result.\<close>

fun scan_ints :: "nat \<Rightarrow> char list \<Rightarrow> int list option" where
  "scan_ints 0 s = Some []"
| "scan_ints (Suc n) s =
     (case scan_int s of
        None \<Rightarrow> None
      | Some None \<Rightarrow> Some []
      | Some (Some (v, rest)) \<Rightarrow> map_option ((#) v) (scan_ints n rest))"

section \<open>The alarm record and the calendar\<close>

datatype alarm_type = ABS | PER

datatype alarm_code =
  E_ALARM_OK | E_ALARM_ARG | E_ALARM_NOREADY | E_ALARM_NOMEM | E_ALARM_NOTFOUND
| E_ALARM_INVALID_TYPE | E_ALARM_MISSING_DATA | E_ALARM_YEAR | E_ALARM_MONTH | E_ALARM_DAY
| E_ALARM_HOUR | E_ALARM_MINUTE | E_ALARM_SECOND | E_ALARM_LIST_EAMPTY | E_ALARM_PER_ZERO

record date_t =
  dy :: int
  dm :: int
  dd :: int
  dh :: int
  dmi :: int
  ds :: int

record Alarm_t =
  AlarmType_t :: alarm_type
  date :: date_t
  pdate :: date_t

text \<open>The fields \<open>sscanf\<close> stores, one per conversion that succeeded.\<close>

definition put_fields :: "date_t \<Rightarrow> int list \<Rightarrow> date_t" where
  "put_fields d vs =
     \<lparr>dy = (if 0 < length vs then vs ! 0 else dy d), dm = (if 1 < length vs then vs ! 1 else dm d),
      dd = (if 2 < length vs then vs ! 2 else dd d), dh = (if 3 < length vs then vs ! 3 else dh d),
      dmi = (if 4 < length vs then vs ! 4 else dmi d), ds = (if 5 < length vs then vs ! 5 else ds d)\<rparr>"

text \<open>Days from the epoch to the first of the month with index \<open>k\<close> counted from January of year 0.\<close>

definition leap_days :: "int \<Rightarrow> int" where
  "leap_days y = y div 4 - y div 100 + y div 400"

text \<open>The days of a year that starts in March before its month \<open>p\<close>.\<close>

definition month_offset :: "int \<Rightarrow> int" where
  "month_offset p = (153 * p + 2) div 5"

definition month_days :: "int \<Rightarrow> int" where
  "month_days k =
     (let y = (k - 2) div 12; p = (k - 2) mod 12
      in 365 * y + leap_days y + month_offset p - 719468)"

text \<open>\<open>mktime\<close> of the fields as the callers set them up (\<open>tm_year = y - 1900\<close>, \<open>tm_mon = m - 1\<close>,
  the seconds given), with the standard's normalisation of out-of-range fields; \<open>tz\<close> is the
  zone's offset in seconds.\<close>

definition mktime :: "int \<Rightarrow> date_t \<Rightarrow> int" where
  "mktime tz d =
     (month_days (12 * dy d + (dm d - 1)) + dd d - 1) * 86400 + dh d * 3600 + dmi d * 60 + ds d - tz"

text \<open>\<open>diffTime\<close> and \<open>computeTimeDifference\<close>: the clock minus the alarm's second before.\<close>

definition diffTime :: "int \<Rightarrow> int \<Rightarrow> Alarm_t \<Rightarrow> int" where
  "diffTime tz t1 alarm = t1 - mktime tz ((date alarm)\<lparr>ds := ds (date alarm) - 1\<rparr>)"

section \<open>The parser\<close>

text \<open>
  \<open>remove_TESP_OKens_ABS\<close> and \<open>_PER\<close>: both pointers move together, so each cell is rewritten in
  place; after \<open>cnt\<close> cells the rest is copied onto itself.
\<close>

fun remove_tokens :: "nat \<Rightarrow> char list \<Rightarrow> char list option" where
  "remove_tokens todo [] = None"
| "remove_tokens todo (c # s) =
     (if c = NUL then Some (NUL # s)
      else let c' = (if c = CHR ''-'' \<or> c = CHR '':'' then CHR '' '' else c) in
           if todo = 1
           then (if NUL \<in> set s then Some (c' # s) else None)
           else map_option ((#) c') (remove_tokens (todo - 1) s))"

definition remove_TESP_OKens_ABS :: "char list \<Rightarrow> char list option" where
  "remove_TESP_OKens_ABS source = remove_tokens 20 source"

definition remove_TESP_OKens_PER :: "char list \<Rightarrow> char list option" where
  "remove_TESP_OKens_PER source = remove_tokens 38 source"

text \<open>\<open>memmove(str, str + n, len - n + 1)\<close>; the cells after the moved string keep their values.\<close>

definition chopN :: "char list \<Rightarrow> nat \<Rightarrow> char list option" where
  "chopN str n =
     do { len \<leftarrow> c_strlen str;
          if n > len then Some str
          else Some (take (len - n + 1) (drop n str) @ drop (len - n + 1) str) }"

definition get_Type :: "char list \<Rightarrow> Alarm_t \<Rightarrow> (alarm_code \<times> char list \<times> Alarm_t) option" where
  "get_Type source alarm =
     do { type \<leftarrow> c_strncpy source 3;
          if type = ''ABS''
          then do { source' \<leftarrow> chopN source 4;
                    Some (E_ALARM_OK, source', alarm\<lparr>AlarmType_t := ABS\<rparr>) }
          else if type = ''PER''
          then do { source' \<leftarrow> chopN source 4;
                    Some (E_ALARM_OK, source', alarm\<lparr>AlarmType_t := PER\<rparr>) }
          else Some (E_ALARM_INVALID_TYPE, source, alarm) }"

definition get_Date :: "char list \<Rightarrow> Alarm_t \<Rightarrow> (alarm_code \<times> char list \<times> Alarm_t) option" where
  "get_Date source alarm =
     do { vs \<leftarrow> scan_ints 6 source;
          let alarm' = alarm\<lparr>date := put_fields (date alarm) vs\<rparr>;
          let d = date alarm';
          if length vs \<noteq> 6 then Some (E_ALARM_MISSING_DATA, source, alarm')
          else if dy d < 2016 then Some (E_ALARM_YEAR, source, alarm')
          else if dm d < 0 \<or> dm d > 12 then Some (E_ALARM_MONTH, source, alarm')
          else if dd d < 0 \<or> dd d > 31 then Some (E_ALARM_DAY, source, alarm')
          else if dh d < 0 \<or> dh d > 24 then Some (E_ALARM_HOUR, source, alarm')
          else if dmi d < 0 \<or> dmi d > 59 then Some (E_ALARM_MINUTE, source, alarm')
          else if ds d < 0 \<or> ds d > 59 then Some (E_ALARM_SECOND, source, alarm')
          else do { source' \<leftarrow> chopN source 20; Some (E_ALARM_OK, source', alarm') } }"

text \<open>The sum of the period's fields, each addition checked for overflow.\<close>

definition sum_per :: "date_t \<Rightarrow> int option" where
  "sum_per p =
     do { s1 \<leftarrow> int_of (dy p + dm p); s2 \<leftarrow> int_of (s1 + dd p); s3 \<leftarrow> int_of (s2 + dh p);
          s4 \<leftarrow> int_of (s3 + dmi p); int_of (s4 + ds p) }"

definition get_Period_Date :: "char list \<Rightarrow> Alarm_t \<Rightarrow> (alarm_code \<times> char list \<times> Alarm_t) option" where
  "get_Period_Date source alarm =
     do { vs \<leftarrow> scan_ints 6 source;
          let alarm' = alarm\<lparr>pdate := put_fields (pdate alarm) vs\<rparr>;
          if length vs \<noteq> 6 then Some (E_ALARM_MISSING_DATA, source, alarm')
          else do { sum \<leftarrow> sum_per (pdate alarm');
                    if sum = 0 then Some (E_ALARM_PER_ZERO, source, alarm')
                    else do { source' \<leftarrow> chopN source 18; Some (E_ALARM_OK, source', alarm') } } }"

text \<open>One step of the period, field by field: the loop body of \<open>parseAlarm\<close> and the whole of
  \<open>updatePerAlarm\<close> in \<open>alarm.c\<close>.\<close>

definition add_period :: "Alarm_t \<Rightarrow> Alarm_t option" where
  "add_period alarm =
     do { y \<leftarrow> int_of (dy (date alarm) + dy (pdate alarm));
          m \<leftarrow> int_of (dm (date alarm) + dm (pdate alarm));
          d \<leftarrow> int_of (dd (date alarm) + dd (pdate alarm));
          h \<leftarrow> int_of (dh (date alarm) + dh (pdate alarm));
          mi \<leftarrow> int_of (dmi (date alarm) + dmi (pdate alarm));
          s \<leftarrow> int_of (ds (date alarm) + ds (pdate alarm));
          Some (alarm\<lparr>date := \<lparr>dy = y, dm = m, dd = d, dh = h, dmi = mi, ds = s\<rparr>\<rparr>) }"

text \<open>\<open>while (diffTime(alarm) > 0)\<close> at one clock reading \<open>t1\<close>.\<close>

partial_function (option) advance :: "int \<Rightarrow> int \<Rightarrow> Alarm_t \<Rightarrow> Alarm_t option" where
  "advance tz t1 alarm =
     (if diffTime tz t1 alarm > 0
      then Option.bind (add_period alarm) (advance tz t1)
      else Some alarm)"

declare advance.simps [code]

definition parseAlarm :: "int \<Rightarrow> int \<Rightarrow> Alarm_t \<Rightarrow> char list \<Rightarrow> (alarm_code \<times> Alarm_t) option" where
  "parseAlarm tz t1 alarm source =
     do { (ret, source1, alarm1) \<leftarrow> get_Type source alarm;
          if ret = E_ALARM_INVALID_TYPE then Some (E_ALARM_ARG, alarm1)
          else if AlarmType_t alarm1 = ABS
          then do { source2 \<leftarrow> remove_TESP_OKens_ABS source1;
                    (ret2, _, alarm2) \<leftarrow> get_Date source2 alarm1;
                    if ret2 \<noteq> E_ALARM_OK \<or> diffTime tz t1 alarm2 > 0
                    then Some (E_ALARM_ARG, alarm2) else Some (E_ALARM_OK, alarm2) }
          else do { source2 \<leftarrow> remove_TESP_OKens_PER source1;
                    (ret2, source3, alarm2) \<leftarrow> get_Date source2 alarm1;
                    if ret2 \<noteq> E_ALARM_OK then Some (E_ALARM_ARG, alarm2)
                    else do { (ret3, _, alarm3) \<leftarrow> get_Period_Date source3 alarm2;
                              if ret3 \<noteq> E_ALARM_OK then Some (E_ALARM_ARG, alarm3)
                              else do { alarm4 \<leftarrow> advance tz t1 alarm3;
                                        Some (E_ALARM_OK, alarm4) } } } }"

section \<open>The calendar is monotone\<close>

lemma diffTime_eq: "diffTime tz t1 a = t1 - mktime tz (date a) + 1"
  by (simp add: diffTime_def mktime_def)

lemma leap_days_mono: "leap_days y \<le> leap_days (y + 1)"
proof -
  have 400: "y div 400 \<le> (y + 1) div 400" and 4: "y div 4 \<le> (y + 1) div 4"
    by (simp_all add: zdiv_mono1)
  show ?thesis
  proof (cases "100 dvd y + 1")
    case True
    then have "4 dvd y + 1" by (rule dvd_trans [rotated]) simp
    then have "(y + 1) div 4 = y div 4 + 1" by presburger
    moreover have "(y + 1) div 100 \<le> y div 100 + 1"
      using zdiv_mono1 [of "y + 1" "y + 100" 100] by simp
    ultimately show ?thesis using 400 by (simp add: leap_days_def)
  next
    case False
    have "(y + 1) mod 100 \<noteq> 0" using False by (simp add: dvd_eq_mod_eq_0)
    then have "(y + 1) div 100 = y div 100"
      using mult_div_mod_eq [of 100 "y + 1"] mult_div_mod_eq [of 100 y]
        pos_mod_bound [of 100 y] pos_mod_sign [of 100 y] pos_mod_bound [of 100 "y + 1"] pos_mod_sign [of 100 "y + 1"]
      by linarith
    then show ?thesis using 4 400 by (simp add: leap_days_def)
  qed
qed

lemma month_offset_Suc: "month_offset m + 28 \<le> month_offset (m + 1)"
proof -
  have "(153 * m + 2) div 5 + 28 = (153 * m + 2 + 28 * 5) div 5" by (subst div_mult_self1) simp_all
  also have "\<dots> \<le> (153 * (m + 1) + 2) div 5" by (rule zdiv_mono1) simp_all
  finally show ?thesis by (simp add: month_offset_def)
qed

lemma month_days_Suc: "month_days k + 28 \<le> month_days (k + 1)"
proof (cases "(k - 2) mod 12 = 11")
  case True
  have p: "(k + 1 - 2) mod 12 = 0" and y: "(k + 1 - 2) div 12 = (k - 2) div 12 + 1"
    using True by presburger+
  have "month_offset 11 = 337" "month_offset 0 = 0" by (simp_all add: month_offset_def)
  then show ?thesis
    unfolding month_days_def Let_def p y True
    using leap_days_mono [of "(k - 2) div 12"] by simp
next
  case False
  have eq: "k + 1 - 2 = 12 * ((k - 2) div 12) + ((k - 2) mod 12 + 1)"
    using mult_div_mod_eq [of 12 "k - 2"] by linarith
  have lt: "0 \<le> (k - 2) mod 12 + 1" "(k - 2) mod 12 + 1 < 12"
    using False pos_mod_bound [of 12 "k - 2"] pos_mod_sign [of 12 "k - 2"] by linarith+
  have p: "(k + 1 - 2) mod 12 = (k - 2) mod 12 + 1" by (rule int_mod_pos_eq [OF eq lt])
  have y: "(k + 1 - 2) div 12 = (k - 2) div 12" by (rule int_div_pos_eq [OF eq lt])
  show ?thesis
    unfolding month_days_def Let_def p y using month_offset_Suc [of "(k - 2) mod 12"] by simp
qed

lemma month_days_plus: "0 \<le> j \<Longrightarrow> month_days k + 28 * j \<le> month_days (k + j)"
proof (induction j rule: int_ge_induct)
  case (step j)
  have "month_days (k + j) + 28 \<le> month_days (k + j + 1)" by (rule month_days_Suc)
  with step show ?case by (simp add: algebra_simps)
qed simp

text \<open>Fieldwise addition, and the sum of the fields: each unit of a period moves \<open>mktime\<close> by a second at least.\<close>

definition date_plus :: "date_t \<Rightarrow> date_t \<Rightarrow> date_t" where
  "date_plus d p =
     \<lparr>dy = dy d + dy p, dm = dm d + dm p, dd = dd d + dd p,
      dh = dh d + dh p, dmi = dmi d + dmi p, ds = ds d + ds p\<rparr>"

definition date_all :: "(int \<Rightarrow> bool) \<Rightarrow> date_t \<Rightarrow> bool" where
  "date_all P d \<longleftrightarrow> P (dy d) \<and> P (dm d) \<and> P (dd d) \<and> P (dh d) \<and> P (dmi d) \<and> P (ds d)"

definition weight :: "date_t \<Rightarrow> int" where
  "weight d = dy d + dm d + dd d + dh d + dmi d + ds d"

lemma mktime_plus:
  assumes "date_all (\<lambda>x. 0 \<le> x) p"
  shows "mktime tz d + weight p \<le> mktime tz (date_plus d p)"
proof -
  have nn: "0 \<le> dy p" "0 \<le> dm p" "0 \<le> dd p" "0 \<le> dh p" "0 \<le> dmi p" "0 \<le> ds p"
    using assms by (auto simp: date_all_def)
  have "month_days (12 * dy d + (dm d - 1)) + 28 * (12 * dy p + dm p)
      \<le> month_days (12 * dy d + (dm d - 1) + (12 * dy p + dm p))"
    using nn by (intro month_days_plus) simp
  then have "month_days (12 * dy d + (dm d - 1)) + 28 * (12 * dy p + dm p)
      \<le> month_days (12 * dy (date_plus d p) + (dm (date_plus d p) - 1))"
    by (simp add: date_plus_def algebra_simps)
  with nn show ?thesis
    unfolding mktime_def weight_def by (simp add: date_plus_def algebra_simps)
qed

lemma add_period_eq:
  "date_all in_int (date_plus (date a) (pdate a)) \<Longrightarrow>
     add_period a = Some (a\<lparr>date := date_plus (date a) (pdate a)\<rparr>)"
  by (simp add: add_period_def date_plus_def date_all_def int_of_def)

section \<open>The loop over the period ends\<close>

text \<open>\<open>base_date\<close> is the year the parser accepts first, before its first month and day.\<close>

definition base_date :: date_t where
  "base_date = \<lparr>dy = 2016, dm = 0, dd = 0, dh = 0, dmi = 0, ds = 0\<rparr>"

definition from_2016 :: "date_t \<Rightarrow> bool" where
  "from_2016 d \<longleftrightarrow> 2016 \<le> dy d \<and> 0 \<le> dm d \<and> 0 \<le> dd d \<and> 0 \<le> dh d \<and> 0 \<le> dmi d \<and> 0 \<le> ds d"

lemma from_2016_weight:
  assumes "from_2016 d"
  shows "weight d + 1448000000 \<le> mktime tz d + tz"
proof -
  let ?p = "d\<lparr>dy := dy d - 2016\<rparr>"
  have p: "date_all (\<lambda>x. 0 \<le> x) ?p" and d: "date_plus base_date ?p = d" and w: "weight ?p = weight d - 2016"
    using assms by (simp_all add: from_2016_def date_all_def date_plus_def base_date_def weight_def)
  have "mktime tz base_date + tz = 1448841600"
    by (simp add: mktime_def base_date_def month_days_def leap_days_def month_offset_def)
  with mktime_plus [OF p, of tz base_date] show ?thesis by (simp add: d w)
qed

fun date_steps :: "nat \<Rightarrow> date_t \<Rightarrow> date_t \<Rightarrow> date_t" where
  "date_steps 0 d p = d"
| "date_steps (Suc k) d p = date_steps k (date_plus d p) p"

lemma advance_first_future:
  assumes "from_2016 (date a)"
    and "date_all (\<lambda>x. 0 \<le> x \<and> x \<le> 1000000000) (pdate a)" and "0 < weight (pdate a)"
    and "t1 < 2 ^ 31" and "\<bar>tz\<bar> \<le> 86400"
  shows "\<exists>k. advance tz t1 a = Some (a\<lparr>date := date_steps k (date a) (pdate a)\<rparr>) \<and>
    t1 < mktime tz (date_steps k (date a) (pdate a)) \<and>
    (\<forall>j < k. mktime tz (date_steps j (date a) (pdate a)) \<le> t1)"
  using assms(1-3)
proof (induction "nat (t1 + 1 - mktime tz (date a))" arbitrary: a rule: less_induct)
  case less
  let ?d = "date a" and ?p = "pdate a"
  let ?a = "a\<lparr>date := date_plus ?d ?p\<rparr>"
  show ?case
  proof (cases "mktime tz ?d \<le> t1")
    case False
    then have "advance tz t1 a = Some a" by (subst advance.simps) (simp add: diffTime_eq)
    with False show ?thesis by (intro exI [of _ 0]) simp
  next
    case True
    have nn: "date_all (\<lambda>x. 0 \<le> x) ?p" using less.prems(2) by (simp add: date_all_def)
    note grow = mktime_plus [OF nn, of tz ?d]
    have "weight ?d \<le> 800000000" using from_2016_weight [OF less.prems(1), of tz] True assms(4,5) by simp
    then have "date_all in_int (date_plus ?d ?p)"
      using less.prems(1,2)
      by (auto simp: from_2016_def date_all_def date_plus_def in_int_def weight_def)
    then have step: "advance tz t1 a = advance tz t1 ?a"
      using True by (subst advance.simps) (simp add: diffTime_eq add_period_eq)
    have dec: "nat (t1 + 1 - mktime tz (date ?a)) < nat (t1 + 1 - mktime tz ?d)"
      using True grow less.prems(3) by simp
    have "from_2016 (date ?a)" using less.prems(1,2) by (auto simp: from_2016_def date_all_def date_plus_def)
    from less.hyps [OF dec this] less.prems obtain k where
      "advance tz t1 ?a = Some (a\<lparr>date := date_steps k (date_plus ?d ?p) ?p\<rparr>)"
      "t1 < mktime tz (date_steps k (date_plus ?d ?p) ?p)"
      "\<forall>j < k. mktime tz (date_steps j (date_plus ?d ?p) ?p) \<le> t1"
      by auto
    then have "advance tz t1 a = Some (a\<lparr>date := date_steps (Suc k) ?d ?p\<rparr>) \<and>
        t1 < mktime tz (date_steps (Suc k) ?d ?p) \<and>
        (\<forall>j < Suc k. mktime tz (date_steps j ?d ?p) \<le> t1)"
      using step True by (auto simp: less_Suc_eq_0_disj)
    then show ?thesis by blast
  qed
qed


section \<open>Printing alarm strings\<close>

text \<open>The strings the service documents: \<open>ABS-YYYY-MM-DD-hh:mm:ss\<close>, and for a periodic alarm the
  same with \<open>PER\<close> and the period in two-digit fields. The parser has to read them back.\<close>

definition digit_char :: "int \<Rightarrow> char" where
  "digit_char n = char_of (48 + n)"

definition pad2 :: "int \<Rightarrow> char list" where
  "pad2 n = [digit_char (n div 10), digit_char (n mod 10)]"

definition print_date :: "date_t \<Rightarrow> char list" where
  "print_date d = pad2 (dy d div 100) @ pad2 (dy d mod 100) @ ''-'' @ pad2 (dm d) @ ''-'' @ pad2 (dd d) @ ''-'' @
     pad2 (dh d) @ '':'' @ pad2 (dmi d) @ '':'' @ pad2 (ds d)"

definition print_period :: "date_t \<Rightarrow> char list" where
  "print_period p = pad2 (dy p) @ ''-'' @ pad2 (dm p) @ ''-'' @ pad2 (dd p) @ ''-'' @
     pad2 (dh p) @ '':'' @ pad2 (dmi p) @ '':'' @ pad2 (ds p)"

definition print_alarm :: "Alarm_t \<Rightarrow> char list" where
  "print_alarm a = (case AlarmType_t a of
      ABS \<Rightarrow> ''ABS-'' @ print_date (date a)
    | PER \<Rightarrow> ''PER-'' @ print_date (date a) @ ''-'' @ print_period (pdate a))"

definition valid_date :: "date_t \<Rightarrow> bool" where
  "valid_date d \<longleftrightarrow> 2016 \<le> dy d \<and> 0 \<le> dm d \<and> dm d \<le> 12 \<and> 0 \<le> dd d \<and> dd d \<le> 31 \<and>
     0 \<le> dh d \<and> dh d \<le> 24 \<and> 0 \<le> dmi d \<and> dmi d \<le> 59 \<and> 0 \<le> ds d \<and> ds d \<le> 59"

section \<open>The parser reads printed alarms\<close>

lemma digit_char_table:
  "list_all (\<lambda>n. digit_value (digit_char n) = n \<and> c_isdigit (digit_char n)) [0..9]"
  by code_simp

lemma digit_char_props:
  assumes "0 \<le> n" "n < 10"
  shows "digit_value (digit_char n) = n" "c_isdigit (digit_char n)"
  using digit_char_table assms unfolding list_all_iff by auto

lemma isdigit_not [simp]:
  assumes "c_isdigit c"
  shows "c \<noteq> NUL" "c \<noteq> CHR ''-''" "c \<noteq> CHR '':''" "c \<noteq> CHR ''+''" "c \<noteq> CHR '' ''" "\<not> c_isspace c"
  using assms by (auto simp: c_isdigit_def c_isspace_def less_eq_char_def)

lemma not_isdigit [simp]: "\<not> c_isdigit CHR '' ''" "\<not> c_isdigit NUL" "\<not> c_isdigit CHR ''-''"  "c_isspace CHR '' ''"
  by (auto simp: c_isdigit_def c_isspace_def less_eq_char_def)

lemma scan2:
  assumes "c_isdigit a" "c_isdigit b" "\<not> c_isdigit e" "in_int (10 * digit_value a + digit_value b)"
  shows "scan_int (a # b # e # s) = Some (Some (10 * digit_value a + digit_value b, e # s))"
  using assms by (simp add: Let_def int_of_def)


lemma scan4:
  assumes "c_isdigit a" "c_isdigit b" "c_isdigit c" "c_isdigit d" "\<not> c_isdigit e"
    "in_int (10 * (10 * (10 * digit_value a + digit_value b) + digit_value c) + digit_value d)"
  shows "scan_int (a # b # c # d # e # s) =
    Some (Some (10 * (10 * (10 * digit_value a + digit_value b) + digit_value c) + digit_value d, e # s))"
  using assms by (simp add: Let_def int_of_def)

lemma scan_int_sp: "scan_int (CHR '' '' # s) = scan_int s" by simp

declare scan_int.simps [simp del]

lemma pad2_digits:
  assumes "0 \<le> n" "n < 100"
  obtains a b where "pad2 n = [a, b]" "c_isdigit a" "c_isdigit b" "10 * digit_value a + digit_value b = n"
    "in_int n"
proof -
  have "0 \<le> n div 10" "n div 10 < 10" "0 \<le> n mod 10" "n mod 10 < 10"
    using assms by (auto simp: div_less_iff_less_mult pos_imp_zdiv_nonneg_iff)
  note d = digit_char_props [OF this(1,2)] digit_char_props [OF this(3,4)]
  show ?thesis
    using that [of "digit_char (n div 10)" "digit_char (n mod 10)"] d assms
    by (simp add: pad2_def in_int_def)
qed

text \<open>A printed date after \<open>remove_tokens\<close>.\<close>

definition spaced_date :: "date_t \<Rightarrow> char list" where
  "spaced_date d = pad2 (dy d div 100) @ pad2 (dy d mod 100) @ '' '' @ pad2 (dm d) @ '' '' @ pad2 (dd d) @ '' '' @
     pad2 (dh d) @ '' '' @ pad2 (dmi d) @ '' '' @ pad2 (ds d)"

definition spaced_period :: "date_t \<Rightarrow> char list" where
  "spaced_period p = pad2 (dy p) @ '' '' @ pad2 (dm p) @ '' '' @ pad2 (dd p) @ '' '' @
     pad2 (dh p) @ '' '' @ pad2 (dmi p) @ '' '' @ pad2 (ds p)"

definition two_digits :: "int \<Rightarrow> bool" where
  "two_digits n \<longleftrightarrow> 0 \<le> n \<and> n < 100"

lemma remove_tokens_digits:
  assumes "two_digits n"
  shows "2 < todo \<Longrightarrow> remove_tokens todo (pad2 n @ s) = map_option (\<lambda>x. pad2 n @ x) (remove_tokens (todo - 2) s)"
    "NUL \<notin> set (pad2 n)"
proof -
  obtain a b where *: "pad2 n = [a, b]" "c_isdigit a" "c_isdigit b"
    using assms pad2_digits unfolding two_digits_def by metis
  show "remove_tokens todo (pad2 n @ s) = map_option (\<lambda>x. pad2 n @ x) (remove_tokens (todo - 2) s)"
    if "2 < todo"
  proof -
    from that obtain k where "todo = Suc (Suc (Suc k))" by (metis add_2_eq_Suc less_imp_Suc_add)
    with * show ?thesis by (simp add: option.map_comp comp_def)
  qed
  show "NUL \<notin> set (pad2 n)" using * by auto
qed

lemma scan_int_pad2:
  assumes "two_digits n" "\<not> c_isdigit e"
  shows "scan_int (pad2 n @ e # s) = Some (Some (n, e # s))"
proof -
  obtain a b where *: "pad2 n = [a, b]" "c_isdigit a" "c_isdigit b" "10 * digit_value a + digit_value b = n" "in_int n"
    using assms(1) pad2_digits unfolding two_digits_def by metis
  with scan2 [of a b e s] assms(2) show ?thesis by simp
qed

lemma scan_int_year:
  assumes "0 \<le> n" "n < 10000" "\<not> c_isdigit e"
  shows "scan_int (pad2 (n div 100) @ pad2 (n mod 100) @ e # s) = Some (Some (n, e # s))"
proof -
  have "0 \<le> n div 100" "n div 100 < 100" "0 \<le> n mod 100" "n mod 100 < 100"
    using assms by (auto simp: div_less_iff_less_mult pos_imp_zdiv_nonneg_iff)
  then obtain a b c d where *: "pad2 (n div 100) = [a, b]" "c_isdigit a" "c_isdigit b"
      "10 * digit_value a + digit_value b = n div 100"
      "pad2 (n mod 100) = [c, d]" "c_isdigit c" "c_isdigit d" "10 * digit_value c + digit_value d = n mod 100"
    using pad2_digits by metis
  have "10 * (10 * (10 * digit_value a + digit_value b) + digit_value c) + digit_value d
      = 100 * (10 * digit_value a + digit_value b) + (10 * digit_value c + digit_value d)"
    by (simp add: algebra_simps)
  then have "10 * (10 * (10 * digit_value a + digit_value b) + digit_value c) + digit_value d = n"
    by (simp add: *(4,8))
  with scan4 [of a b c d e s] * assms show ?thesis by (simp add: in_int_def)
qed

definition printable_date :: "date_t \<Rightarrow> bool" where
  "printable_date d \<longleftrightarrow> valid_date d \<and> dy d < 10000"

lemma printable_two_digits:
  assumes "printable_date d"
  shows "two_digits (dy d div 100)" "two_digits (dy d mod 100)" "two_digits (dm d)"
    "two_digits (dd d)" "two_digits (dh d)" "two_digits (dmi d)" "two_digits (ds d)"
  using assms by (auto simp: printable_date_def valid_date_def two_digits_def
      div_less_iff_less_mult pos_imp_zdiv_nonneg_iff)

lemmas digits_simps = remove_tokens_digits scan_int_pad2 scan_int_sp printable_two_digits

lemma scan_spaced_date:
  assumes "printable_date d" "\<not> c_isdigit e"
  shows "scan_ints 6 (spaced_date d @ e # s) = Some [dy d, dm d, dd d, dh d, dmi d, ds d]"
  using assms scan_int_year [of "dy d" "CHR '' ''"]
  by (simp add: spaced_date_def numeral_eq_Suc digits_simps printable_date_def valid_date_def)

lemma remove_tokens_date:
  assumes "printable_date d" "0 < todo"
  shows "remove_tokens (19 + todo) (print_date d @ s) =
    map_option (\<lambda>x. spaced_date d @ x) (remove_tokens todo s)"
  using assms
  by (simp add: print_date_def spaced_date_def digits_simps option.map_comp comp_def)


definition printable_period :: "date_t \<Rightarrow> bool" where
  "printable_period p \<longleftrightarrow> date_all two_digits p \<and> 0 < weight p"

lemma remove_tokens_period:
  assumes "date_all two_digits p" "0 < todo"
  shows "remove_tokens (17 + todo) (print_period p @ s) =
    map_option (\<lambda>x. spaced_period p @ x) (remove_tokens todo s)"
  using assms
  by (simp add: print_period_def spaced_period_def date_all_def remove_tokens_digits option.map_comp comp_def)

lemma scan_spaced_period:
  assumes "date_all two_digits p" "\<not> c_isdigit e"
  shows "scan_ints 6 (spaced_period p @ e # s) = Some [dy p, dm p, dd p, dh p, dmi p, ds p]"
  using assms
  by (simp add: spaced_period_def numeral_eq_Suc date_all_def scan_int_pad2 scan_int_sp)

lemma length_pad2 [simp]: "length (pad2 n) = 2"
  by (simp add: pad2_def)

lemma text_lengths:
  "length (print_date d) = 19" "length (spaced_date d) = 19"
  "length (print_period d) = 17" "length (spaced_period d) = 17"
  by (simp_all add: print_date_def spaced_date_def print_period_def spaced_period_def)

lemma text_no_NUL:
  "printable_date d \<Longrightarrow> NUL \<notin> set (print_date d)" "printable_date d \<Longrightarrow> NUL \<notin> set (spaced_date d)"
  "date_all two_digits p \<Longrightarrow> NUL \<notin> set (print_period p)"
  "date_all two_digits p \<Longrightarrow> NUL \<notin> set (spaced_period p)"
  by (simp_all add: print_date_def spaced_date_def print_period_def spaced_period_def
      digits_simps date_all_def)

lemma c_strlen_body: "NUL \<notin> set body \<Longrightarrow> c_strlen (body @ NUL # junk) = Some (length body)"
proof -
  assume "NUL \<notin> set body"
  then have "takeWhile (\<lambda>c. c \<noteq> NUL) (body @ NUL # junk) = body" by (induction body) auto
  then show ?thesis by (simp add: c_strlen_def)
qed

lemma chopN_body:
  assumes "NUL \<notin> set pre" "NUL \<notin> set body" "length pre = n"
  shows "\<exists>junk'. chopN (pre @ body @ NUL # junk) n = Some (body @ NUL # junk')"
proof -
  have "c_strlen (pre @ body @ NUL # junk) = Some (length pre + length body)"
    using c_strlen_body [of "pre @ body" junk] assms by simp
  then show ?thesis by (simp add: chopN_def flip: assms(3))
qed

lemma chopN_short:
  assumes "NUL \<notin> set body" "length body < n"
  shows "chopN (body @ NUL # junk) n = Some (body @ NUL # junk)"
  using assms by (simp add: chopN_def c_strlen_body)

lemma put_fields_digits:
  "put_fields d0 [dy d, dm d, dd d, dh d, dmi d, ds d] = d"
  by (simp add: put_fields_def)

lemma get_Date_spaced:
  assumes "printable_date d" "\<not> c_isdigit e" "chopN (spaced_date d @ e # s) 20 = Some s'"
  shows "get_Date (spaced_date d @ e # s) a = Some (E_ALARM_OK, s', a\<lparr>date := d\<rparr>)"
  using assms
  by (simp add: get_Date_def scan_spaced_date put_fields_digits printable_date_def valid_date_def)

lemma sum_per_weight: "date_all two_digits p \<Longrightarrow> sum_per p = Some (weight p)"
  by (simp add: sum_per_def date_all_def two_digits_def int_of_def in_int_def weight_def)

lemma get_Period_Date_spaced:
  assumes "printable_period p"
  shows "get_Period_Date (spaced_period p @ NUL # s) a =
    Some (E_ALARM_OK, spaced_period p @ NUL # s, a\<lparr>pdate := p\<rparr>)"
  using assms
  by (simp add: get_Period_Date_def scan_spaced_period put_fields_digits printable_period_def
      sum_per_weight chopN_short text_no_NUL text_lengths)

lemma parse_ABS:
  assumes "printable_date d" "t1 < mktime tz d"
  shows "parseAlarm tz t1 a (''ABS-'' @ print_date d @ NUL # junk) =
    Some (E_ALARM_OK, a\<lparr>AlarmType_t := ABS, date := d\<rparr>)"
proof -
  obtain junk1 where c: "chopN (''ABS-'' @ print_date d @ NUL # junk) 4 = Some (print_date d @ NUL # junk1)"
    using chopN_body [of "''ABS-''" "print_date d" 4 junk] text_no_NUL(1) [OF assms(1)] by auto
  have t: "remove_TESP_OKens_ABS (print_date d @ NUL # junk1) = Some (spaced_date d @ NUL # junk1)"
    using remove_tokens_date [OF assms(1), of 1 "NUL # junk1"] by (simp add: remove_TESP_OKens_ABS_def)
  have "get_Date (spaced_date d @ NUL # junk1) (a\<lparr>AlarmType_t := ABS\<rparr>) =
      Some (E_ALARM_OK, spaced_date d @ NUL # junk1, a\<lparr>AlarmType_t := ABS, date := d\<rparr>)"
    using assms(1) by (intro get_Date_spaced) (simp_all add: chopN_short text_no_NUL text_lengths)
  with c t assms(2) show ?thesis
    by (simp add: parseAlarm_def get_Type_def numeral_3_eq_3 diffTime_eq)
qed

lemma parse_PER:
  assumes "printable_date d" "printable_period p" "t1 < mktime tz d"
  shows "parseAlarm tz t1 a (''PER-'' @ print_date d @ ''-'' @ print_period p @ NUL # junk) =
    Some (E_ALARM_OK, a\<lparr>AlarmType_t := PER, date := d, pdate := p\<rparr>)"
proof -
  have p: "date_all two_digits p" using assms(2) by (simp add: printable_period_def)
  let ?body = "print_date d @ ''-'' @ print_period p"
  obtain junk1 where c: "chopN (''PER-'' @ ?body @ NUL # junk) 4 = Some (?body @ NUL # junk1)"
    using chopN_body [of "''PER-''" ?body 4 junk] text_no_NUL assms(1) p by auto
  have t: "remove_TESP_OKens_PER (?body @ NUL # junk1) =
      Some (spaced_date d @ CHR '' '' # spaced_period p @ NUL # junk1)"
    using remove_tokens_date [OF assms(1), of 19 "''-'' @ print_period p @ NUL # junk1"]
      remove_tokens_period [OF p, of 1 "NUL # junk1"]
    by (simp add: remove_TESP_OKens_PER_def)
  obtain junk2 where c2: "chopN (spaced_date d @ CHR '' '' # spaced_period p @ NUL # junk1) 20 =
      Some (spaced_period p @ NUL # junk2)"
    using chopN_body [of "spaced_date d @ '' ''" "spaced_period p" 20 junk1] text_no_NUL assms(1) p
    by (auto simp: text_lengths)
  have "get_Date (spaced_date d @ CHR '' '' # spaced_period p @ NUL # junk1) (a\<lparr>AlarmType_t := PER\<rparr>) =
      Some (E_ALARM_OK, spaced_period p @ NUL # junk2, a\<lparr>AlarmType_t := PER, date := d\<rparr>)"
    using assms(1) c2 by (intro get_Date_spaced) simp_all
  moreover have "advance tz t1 b = Some b" if "date b = d" for b
    using assms(3) that by (subst advance.simps) (simp add: diffTime_eq)
  ultimately show ?thesis
    using c t assms(2) by (simp add: parseAlarm_def get_Type_def numeral_3_eq_3 get_Period_Date_spaced)
qed

lemma advance_result: "advance tz t1 a = Some b \<Longrightarrow> t1 < mktime tz (date b)"
  by (rule advance.raw_induct [where P = "\<lambda>tz t1 a b. t1 < mktime tz (date b)"])
    (auto simp: diffTime_eq split: if_splits bind_splits)

lemma parseAlarm_future:
  assumes "parseAlarm tz t1 a s = Some (E_ALARM_OK, b)"
  shows "t1 < mktime tz (date b)"
  using assms advance_result
  by (auto simp: parseAlarm_def diffTime_eq split: if_splits Option.bind_splits)

lemma add_period_type: "add_period a = Some b \<Longrightarrow> AlarmType_t b = AlarmType_t a"
  by (auto simp: add_period_def split: Option.bind_splits)

lemma advance_type: "advance tz t1 a = Some b \<Longrightarrow> AlarmType_t b = AlarmType_t a"
  by (rule advance.raw_induct [where P = "\<lambda>tz t1 a b. AlarmType_t b = AlarmType_t a"])
    (auto dest: add_period_type split: if_splits bind_splits)

lemma get_Period_Date_type: "get_Period_Date s a = Some (c, s', b) \<Longrightarrow> AlarmType_t b = AlarmType_t a"
  by (auto simp: get_Period_Date_def Let_def split: if_splits Option.bind_splits)


definition printable_alarm :: "Alarm_t \<Rightarrow> bool" where
  "printable_alarm a \<longleftrightarrow> printable_date (date a) \<and>
     (case AlarmType_t a of ABS \<Rightarrow> True | PER \<Rightarrow> printable_period (pdate a))"

lemma get_Date_valid:
  "get_Date s a = Some (E_ALARM_OK, s', b) \<Longrightarrow> valid_date (date b) \<and> AlarmType_t b = AlarmType_t a"
  by (auto simp: get_Date_def valid_date_def Let_def split: if_splits Option.bind_splits)

lemma parseAlarm_ABS_valid:
  "parseAlarm tz t1 a s = Some (E_ALARM_OK, b) \<Longrightarrow> AlarmType_t b = ABS \<Longrightarrow> valid_date (date b)"
  by (rule ccontr)
    (auto simp: parseAlarm_def dest!: get_Date_valid advance_type get_Period_Date_type
      split: if_splits Option.bind_splits)

section \<open>Properties\<close>


definition sample_date :: date_t where
  "sample_date = \<lparr>dy = 2018, dm = 3, dd = 14, dh = 12, dmi = 30, ds = 0\<rparr>"

definition sample_alarm :: Alarm_t where
  "sample_alarm = \<lparr>AlarmType_t = PER, date = sample_date,
     pdate = \<lparr>dy = 0, dm = 0, dd = 1, dh = 0, dmi = 0, ds = 0\<rparr>\<rparr>"


text \<open>
  Whatever the input, an alarm the parser accepts lies after the clock reading, and an
  absolute alarm it accepts has its fields in the ranges the code tests (month and day 0 and
  hour 24 included).
\<close>

theorem accepted_alarm_in_future:
  assumes "parseAlarm tz t1 a s = Some (E_ALARM_OK, b)"
  shows "t1 < mktime tz (date b) \<and> (AlarmType_t b = ABS \<longrightarrow> valid_date (date b))"
  using parseAlarm_future [OF assms] parseAlarm_ABS_valid [OF assms] by blast

theorem accepted_alarm_in_future_witness:
  "1500000000 < mktime 28800 sample_date \<and> valid_date sample_date"
proof -
  have "parseAlarm 28800 1500000000 sample_alarm (''ABS-2018-03-14-12:30:00'' @ [NUL]) =
      Some (E_ALARM_OK, sample_alarm\<lparr>AlarmType_t := ABS, date := sample_date\<rparr>)"
    by code_simp
  from accepted_alarm_in_future [OF this] show ?thesis by simp
qed



end
