(* ===== verification/Alarm_Service.thy ===== *)
theory Alarm_Service
  imports Alarm_Parser
begin

text \<open>
  The alarm list of \<open>components/AlarmService/AlarmService.c\<close> with the trigger logic of
  \<open>alarm.c\<close>: adding an alarm from its string, editing, deleting and reading it by handle, and
  the two-second poll that fires it. The head of the list is the head of the HOL list. A
  callback is a number, its calls are the events the poll returns; callbacks that call back
  into the list are not modelled. The clock readings are arguments.
\<close>

section \<open>The state\<close>

datatype alarm_status = A_idle | A_running | A_disabled | A_deleted

datatype trigger_type = ABS_SUCC | PER_TRIG | NO_TRIG

record esp_alarm_info =
  adiff :: int
  handle :: u32
  status :: alarm_status
  alarm_info :: Alarm_t
  trigger_arg :: nat
  trigger_func :: "nat option"

datatype timer_cmd = TimerCreateStart | TimerReset

text \<open>\<open>g_esp_alarm_info_head\<close>, \<open>g_esp_alarm_last_handle\<close>, whether \<open>poll_timer_handle\<close> is set, and
  the commands sent to the timer.\<close>

record alarm_state =
  alarms :: "esp_alarm_info list"
  last_handle :: u32
  poll_timer :: bool
  timer_cmds :: "timer_cmd list"

type_synonym trigger_event = "nat \<times> nat \<times> u32"

definition zero_date :: date_t where
  "zero_date = \<lparr>dy = 0, dm = 0, dd = 0, dh = 0, dmi = 0, ds = 0\<rparr>"

text \<open>The node \<open>calloc\<close> returns.\<close>

definition zero_info :: esp_alarm_info where
  "zero_info = \<lparr>adiff = 0, handle = 0, status = A_idle,
     alarm_info = \<lparr>AlarmType_t = ABS, date = zero_date, pdate = zero_date\<rparr>,
     trigger_arg = 0, trigger_func = None\<rparr>"

section \<open>Triggering\<close>

definition computeTimeDifference :: "int \<Rightarrow> int \<Rightarrow> esp_alarm_info \<Rightarrow> int" where
  "computeTimeDifference tz t1 node = diffTime tz t1 (alarm_info node)"

definition getNodeKey :: "esp_alarm_info \<Rightarrow> u32" where
  "getNodeKey node = handle node"

definition updatePerAlarm :: "esp_alarm_info \<Rightarrow> esp_alarm_info option" where
  "updatePerAlarm node =
     do { a \<leftarrow> add_period (alarm_info node); Some (node\<lparr>alarm_info := a\<rparr>) }"

text \<open>
  \<open>alarmTrigger\<close>: \<open>clk i\<close> is the clock reading of the \<open>i\<close>-th call of
  \<open>computeTimeDifference\<close>. The result is the return value, \<open>*p\<close> where it is written, and the
  node.
\<close>

definition alarmTrigger ::
  "int \<Rightarrow> (nat \<Rightarrow> int) \<Rightarrow> esp_alarm_info \<Rightarrow> (trigger_type \<times> u32 option \<times> esp_alarm_info) option" where
  "alarmTrigger tz clk node =
     (if computeTimeDifference tz (clk 0) node > 0 \<and> AlarmType_t (alarm_info node) = ABS
      then if computeTimeDifference tz (clk 1) node < 3
           then Some (ABS_SUCC, Some (getNodeKey node), node)
           else Some (NO_TRIG, None, node)
      else if computeTimeDifference tz (clk 1) node > 0 \<and> AlarmType_t (alarm_info node) = PER
      then if computeTimeDifference tz (clk 2) node < 3
           then do { node' \<leftarrow> updatePerAlarm node; Some (PER_TRIG, None, node') }
           else Some (NO_TRIG, None, node)
      else Some (NO_TRIG, None, node))"

text \<open>The body of the loop of \<open>PollTimerCallback\<close> for one node.\<close>

definition poll_node ::
  "int \<Rightarrow> (nat \<Rightarrow> int) \<Rightarrow> esp_alarm_info \<Rightarrow> (esp_alarm_info \<times> trigger_event list) option" where
  "poll_node tz clk it =
     do { (trigger, _, it') \<leftarrow> alarmTrigger tz clk it;
          case trigger of
            ABS_SUCC \<Rightarrow>
              (case trigger_func it' of
                 Some f \<Rightarrow>
                   if status it' = A_running
                   then Some (it'\<lparr>status := A_idle\<rparr>, [(f, trigger_arg it', handle it')])
                   else Some (it', [])
               | None \<Rightarrow> Some (it', []))
          | PER_TRIG \<Rightarrow>
              (case trigger_func it' of
                 Some f \<Rightarrow>
                   if status it' = A_running
                   then Some (it', [(f, trigger_arg it', handle it')])
                   else Some (it', [])
               | None \<Rightarrow> Some (it', []))
          | NO_TRIG \<Rightarrow> Some (it', []) }"

text \<open>\<open>clk k i\<close>: the \<open>i\<close>-th reading for the \<open>k\<close>-th node.\<close>

fun poll_list ::
  "int \<Rightarrow> (nat \<Rightarrow> nat \<Rightarrow> int) \<Rightarrow> nat \<Rightarrow> esp_alarm_info list \<Rightarrow>
     (esp_alarm_info list \<times> trigger_event list) option" where
  "poll_list tz clk k [] = Some ([], [])"
| "poll_list tz clk k (it # its) =
     do { (it', ev) \<leftarrow> poll_node tz (clk k) it;
          (its', evs) \<leftarrow> poll_list tz clk (Suc k) its;
          Some (it' # its', ev @ evs) }"

definition PollTimerCallback ::
  "int \<Rightarrow> (nat \<Rightarrow> nat \<Rightarrow> int) \<Rightarrow> alarm_state \<Rightarrow> (alarm_state \<times> trigger_event list) option" where
  "PollTimerCallback tz clk st =
     do { (its, evs) \<leftarrow> poll_list tz clk 0 (alarms st); Some (st\<lparr>alarms := its\<rparr>, evs) }"

section \<open>The operations on the list\<close>

text \<open>\<open>tm_year < 2016 - 1900\<close> of the local time.\<close>

definition time_not_set :: "int \<Rightarrow> int \<Rightarrow> bool" where
  "time_not_set tz now \<longleftrightarrow> now < mktime tz \<lparr>dy = 2016, dm = 1, dd = 1, dh = 0, dmi = 0, ds = 0\<rparr>"

definition push_alarm :: "esp_alarm_info \<Rightarrow> alarm_state \<Rightarrow> alarm_state" where
  "push_alarm e st = st\<lparr>alarms := e # alarms st\<rparr>"

text \<open>
  \<open>esp_alarm_add\<close>: \<open>alarm_buf\<close> and \<open>handle\<close> may be NULL, \<open>calloc_ok\<close> says whether the node is
  allocated, \<open>now\<close> and \<open>t1\<close> are the clock readings here and in the parser; \<open>buff\<close> is a buffer of \<open>MAX_FORMAT_LEN = 42\<close> cells, zeroed first. The result is the
  code, \<open>*handle\<close> where it is written, and the state.
\<close>

definition esp_alarm_add ::
  "int \<Rightarrow> int \<Rightarrow> int \<Rightarrow> bool \<Rightarrow> bool \<Rightarrow> char list option \<Rightarrow> alarm_state \<Rightarrow>
     (alarm_code \<times> u32 option \<times> alarm_state) option" where
  "esp_alarm_add tz now t1 calloc_ok handle_ptr alarm_buf st =
     (case alarm_buf of
        None \<Rightarrow> Some (E_ALARM_ARG, None, st)
      | Some s \<Rightarrow>
          if \<not> handle_ptr then Some (E_ALARM_ARG, None, st)
          else do {
            len \<leftarrow> c_strlen s;
            if len > 42 then Some (E_ALARM_ARG, None, st)
            else if time_not_set tz now then Some (E_ALARM_NOREADY, None, st)
            else if \<not> calloc_ok then Some (E_ALARM_NOMEM, None, st)
            else do {
              buff \<leftarrow> blit (replicate 42 NUL) 0 (take len s);
              (ret, alarm) \<leftarrow> parseAlarm tz t1 (alarm_info zero_info) buff;
              if ret \<noteq> E_ALARM_OK then Some (ret, None, st)
              else let entry = zero_info\<lparr>alarm_info := alarm, status := A_running,
                                        handle := last_handle st\<rparr>;
                       st1 = push_alarm entry (st\<lparr>last_handle := last_handle st + 1\<rparr>)
                   in Some (E_ALARM_OK, Some (handle entry),
                        if poll_timer st1
                        then st1\<lparr>timer_cmds := timer_cmds st1 @ [TimerReset]\<rparr>
                        else st1\<lparr>poll_timer := True, timer_cmds := timer_cmds st1 @ [TimerCreateStart]\<rparr>) } })"

definition esp_alarm_delete :: "u32 \<Rightarrow> alarm_state \<Rightarrow> alarm_code \<times> alarm_state" where
  "esp_alarm_delete h st =
     (case first_with (\<lambda>it. handle it = h) (alarms st) of
        None \<Rightarrow> (E_ALARM_NOTFOUND, st)
      | Some _ \<Rightarrow> (E_ALARM_OK, st\<lparr>alarms := remove_first (\<lambda>it. handle it = h) (alarms st)\<rparr>))"

text \<open>The second argument is \<open>*alarm_info\<close>, \<open>None\<close> for a NULL pointer.\<close>

definition esp_get_alarm_info ::
  "u32 \<Rightarrow> esp_alarm_info option \<Rightarrow> alarm_state \<Rightarrow> alarm_code \<times> esp_alarm_info option" where
  "esp_get_alarm_info h out st =
     (case out of
        None \<Rightarrow> (E_ALARM_ARG, None)
      | Some old \<Rightarrow>
          (case first_with (\<lambda>it. handle it = h) (alarms st) of
             None \<Rightarrow> (E_ALARM_NOTFOUND, Some old)
           | Some it \<Rightarrow> (E_ALARM_OK, Some it)))"

definition esp_alarm_register_trigger_func ::
  "nat \<Rightarrow> u32 \<Rightarrow> nat option \<Rightarrow> alarm_state \<Rightarrow> alarm_code \<times> alarm_state" where
  "esp_alarm_register_trigger_func arg h func st =
     (case first_with (\<lambda>it. handle it = h) (alarms st) of
        None \<Rightarrow> (E_ALARM_NOTFOUND, st)
      | Some _ \<Rightarrow>
          (E_ALARM_OK,
           st\<lparr>alarms := update_first (\<lambda>it. handle it = h)
                (\<lambda>it. it\<lparr>trigger_arg := arg, trigger_func := func\<rparr>) (alarms st)\<rparr>))"

text \<open>
  \<open>esp_alarm_edit\<close> copies the whole structure, the list links among it, and goes on to the next
  node. \<open>same_links\<close> says that the caller's structure carries the node's own links (it was read
  with \<open>esp_get_alarm_info\<close> from the unchanged list); with any other links the copy destroys the
  list, which is \<open>None\<close>. The loop has no exit but the end of the list.
\<close>

definition esp_alarm_edit ::
  "esp_alarm_info \<Rightarrow> bool \<Rightarrow> u32 \<Rightarrow> alarm_state \<Rightarrow> (alarm_code \<times> alarm_state) option" where
  "esp_alarm_edit info same_links h st =
     (if \<not> same_links \<and> (\<exists>it \<in> set (alarms st). handle it = h) then None
      else Some (E_ALARM_NOTFOUND,
             st\<lparr>alarms := map (\<lambda>it. if h = handle it then info else it) (alarms st)\<rparr>))"

section \<open>The list as a keyed store\<close>

definition find_alarm :: "u32 \<Rightarrow> alarm_state \<Rightarrow> esp_alarm_info option" where
  "find_alarm h st =
     (case esp_get_alarm_info h (Some zero_info) st of
        (E_ALARM_OK, it) \<Rightarrow> it | _ \<Rightarrow> None)"

definition drop_alarm :: "u32 \<Rightarrow> alarm_state \<Rightarrow> alarm_state" where
  "drop_alarm h st = snd (esp_alarm_delete h st)"

lemma find_alarm_eq: "find_alarm h st = first_with (\<lambda>it. handle it = h) (alarms st)"
  by (simp add: find_alarm_def esp_get_alarm_info_def split: option.splits)

interpretation alarm_list: keyed_store alarms handle find_alarm push_alarm drop_alarm
  by unfold_locales
    (auto simp: find_alarm_eq push_alarm_def drop_alarm_def esp_alarm_delete_def
      remove_first_none split: option.splits)

text \<open>Handles are counted up from 0: as long as the counter has not wrapped, the handles in the
  list are distinct and below it.\<close>

definition alarm_inv :: "alarm_state \<Rightarrow> bool" where
  "alarm_inv st \<longleftrightarrow> alarm_list.wf st \<and> (\<forall>it \<in> set (alarms st). handle it < last_handle st)"

lemma alarm_inv_alt:
  "alarm_inv st \<longleftrightarrow> distinct (map handle (alarms st)) \<and>
     (\<forall>it \<in> set (alarms st). handle it < last_handle st)"
  by (simp add: alarm_inv_def alarm_list.wf_def)

section \<open>Lemmas on the operations\<close>

lemma parseAlarm_code: "parseAlarm tz t1 a s = Some (c, b) \<Longrightarrow> c = E_ALARM_OK \<or> c = E_ALARM_ARG"
  by (auto simp: parseAlarm_def split: if_splits Option.bind_splits)

lemma esp_alarm_add_cases:
  assumes "esp_alarm_add tz now t1 ok hp buf st = Some (code, h, st')"
  obtains (ok) e where "code = E_ALARM_OK" "h = Some (last_handle st)" "handle e = last_handle st"
      "status e = A_running" "trigger_func e = None" "t1 < mktime tz (date (alarm_info e))"
      "alarms st' = alarms (push_alarm e st)" "last_handle st' = last_handle st + 1" "poll_timer st'"
  | (failed) "code \<noteq> E_ALARM_OK" "h = None" "st' = st"
proof (cases "code = E_ALARM_OK")
  case True
  with assms obtain s len buff a where *: "buf = Some s" "c_strlen s = Some len"
      "blit (replicate 42 NUL) 0 (take len s) = Some buff"
      "parseAlarm tz t1 (alarm_info zero_info) buff = Some (E_ALARM_OK, a)" "h = Some (last_handle st)"
      "let st1 = push_alarm (zero_info\<lparr>alarm_info := a, status := A_running, handle := last_handle st\<rparr>)
                    (st\<lparr>last_handle := last_handle st + 1\<rparr>)
       in st' = (if poll_timer st1 then st1\<lparr>timer_cmds := timer_cmds st1 @ [TimerReset]\<rparr>
              else st1\<lparr>poll_timer := True, timer_cmds := timer_cmds st1 @ [TimerCreateStart]\<rparr>)"
    by (auto simp: esp_alarm_add_def Let_def dest: parseAlarm_code
        split: option.splits if_splits Option.bind_splits)
  show ?thesis
    by (rule ok [of "zero_info\<lparr>alarm_info := a, status := A_running, handle := last_handle st\<rparr>"])
      (use True * parseAlarm_future [OF *(4)] in
        \<open>auto simp: Let_def push_alarm_def zero_info_def split: if_splits\<close>)
next
  case False
  with assms have "h = None \<and> st' = st"
    by (auto simp: esp_alarm_add_def Let_def split: option.splits if_splits Option.bind_splits)
  with False show ?thesis by (intro failed) auto
qed

lemma updatePerAlarm_handle:
  "updatePerAlarm node = Some node' \<Longrightarrow> handle node' = handle node \<and> status node' = status node \<and>
     trigger_func node' = trigger_func node \<and> trigger_arg node' = trigger_arg node"
  by (auto simp: updatePerAlarm_def split: Option.bind_splits)

lemma alarmTrigger_frame:
  "alarmTrigger tz clk node = Some (t, p, node') \<Longrightarrow> handle node' = handle node \<and>
     status node' = status node \<and> trigger_func node' = trigger_func node \<and> trigger_arg node' = trigger_arg node"
  by (auto simp: alarmTrigger_def dest: updatePerAlarm_handle split: if_splits Option.bind_splits)

lemma poll_node_frame:
  "poll_node tz clk it = Some (it', ev) \<Longrightarrow>
     handle it' = handle it \<and> (\<forall>(f, a, h) \<in> set ev. h = handle it)"
  by (auto simp: poll_node_def dest!: alarmTrigger_frame
      split: if_splits option.splits Option.bind_splits trigger_type.splits)

text \<open>A node that is not running stays so and calls nothing.\<close>

lemma poll_node_quiet:
  "poll_node tz clk it = Some (it', ev) \<Longrightarrow> status it \<noteq> A_running \<Longrightarrow> ev = [] \<and> status it' \<noteq> A_running"
  by (auto simp: poll_node_def dest!: alarmTrigger_frame
      split: if_splits option.splits Option.bind_splits trigger_type.splits)

text \<open>An absolute alarm fires in the second of its date and in the one after it, and is idle then.\<close>

lemma poll_node_ABS:
  assumes "AlarmType_t (alarm_info it) = ABS" "status it = A_running" "trigger_func it = Some f"
  shows "poll_node tz (\<lambda>_. t) it =
    (if mktime tz (date (alarm_info it)) \<le> t \<and> t \<le> mktime tz (date (alarm_info it)) + 1
     then Some (it\<lparr>status := A_idle\<rparr>, [(f, trigger_arg it, handle it)]) else Some (it, []))"
  using assms
  by (auto simp: poll_node_def alarmTrigger_def computeTimeDifference_def diffTime_eq)

lemma poll_list_frame:
  "poll_list tz clk k its = Some (its', evs) \<Longrightarrow>
     map handle its' = map handle its \<and> (\<forall>(f, a, h) \<in> set evs. h \<in> handle ` set its)"
proof (induction its arbitrary: k its' evs)
  case (Cons it its)
  then obtain it1 ev its1 evs1 where "poll_node tz (clk k) it = Some (it1, ev)"
      "poll_list tz clk (Suc k) its = Some (its1, evs1)" "its' = it1 # its1" "evs = ev @ evs1"
    by (auto split: Option.bind_splits)
  with Cons.IH [of "Suc k" its1 evs1] show ?case
    by (fastforce dest: poll_node_frame)
qed simp

definition events_for :: "u32 \<Rightarrow> trigger_event list \<Rightarrow> trigger_event list" where
  "events_for h evs = filter (\<lambda>(f, a, h'). h' = h) evs"

lemma events_for_simps [simp]:
  "events_for h [] = []" "events_for h (xs @ ys) = events_for h xs @ events_for h ys"
  by (simp_all add: events_for_def)

lemma events_for_all: "\<forall>(f, a, h') \<in> set ev. h' = h \<Longrightarrow> events_for h ev = ev"
  by (auto simp: events_for_def filter_id_conv)

lemma events_for_none: "\<forall>(f, a, h') \<in> set ev. h' \<noteq> h \<Longrightarrow> events_for h ev = []"
  by (auto simp: events_for_def filter_empty_conv)

text \<open>What a poll does to one node of a list with distinct handles.\<close>

lemma poll_list_member:
  assumes "poll_list tz clk k its = Some (its', evs)" "distinct (map handle its)" "it \<in> set its"
  shows "\<exists>i it' ev. poll_node tz (clk i) it = Some (it', ev) \<and> it' \<in> set its' \<and>
    events_for (handle it) evs = ev"
  using assms
proof (induction its arbitrary: k its' evs)
  case (Cons x xs)
  from Cons.prems(1) obtain x1 ev xs1 evs1 where poll: "poll_node tz (clk k) x = Some (x1, ev)"
      "poll_list tz clk (Suc k) xs = Some (xs1, evs1)" "its' = x1 # xs1" "evs = ev @ evs1"
    by (auto split: Option.bind_splits)
  note fr = poll_node_frame [OF poll(1)] and frs = poll_list_frame [OF poll(2)]
  show ?case
  proof (cases "it = x")
    case True
    have "events_for (handle it) ev = ev" using fr True by (intro events_for_all) simp
    moreover have "events_for (handle it) evs1 = []"
      using frs Cons.prems(2) True by (intro events_for_none) fastforce
    ultimately show ?thesis using True poll by (intro exI [of _ k]) simp
  next
    case False
    with Cons.prems(3) have it: "it \<in> set xs" by simp
    with Cons.prems(2) have ne: "handle it \<noteq> handle x" by (auto simp: rev_image_eqI)
    have "events_for (handle it) ev = []" using fr ne by (intro events_for_none) fastforce
    with Cons.IH [OF poll(2) _ it] Cons.prems(2) poll show ?thesis by auto
  qed
qed simp

section \<open>Polling\<close>

text \<open>The timer calls the poll at the times of a list; within one call the clock stands still.\<close>

fun run_polls :: "int \<Rightarrow> int list \<Rightarrow> alarm_state \<Rightarrow> (alarm_state \<times> trigger_event list) option" where
  "run_polls tz [] st = Some (st, [])"
| "run_polls tz (t # ts) st =
     do { (st1, ev) \<leftarrow> PollTimerCallback tz (\<lambda>_ _. t) st;
          (st2, evs) \<leftarrow> run_polls tz ts st1;
          Some (st2, ev @ evs) }"

definition every_2s :: "int \<Rightarrow> nat \<Rightarrow> int list" where
  "every_2s t0 n = map (\<lambda>k. t0 + 2 * int k) [0..<n]"

lemma every_2s_Suc: "every_2s t0 (Suc n) = t0 # every_2s (t0 + 2) n"
proof -
  have "[0..<Suc n] = 0 # map Suc [0..<n]"
    by (simp add: upt_conv_Cons map_Suc_upt del: upt_Suc)
  then show ?thesis by (simp add: every_2s_def comp_def algebra_simps del: upt_Suc)
qed

lemma run_polls_step:
  assumes "run_polls tz (t # ts) st = Some (st', evs)" "distinct (map handle (alarms st))"
    "it \<in> set (alarms st)"
  obtains st1 ev evs1 it' where "run_polls tz ts st1 = Some (st', evs1)"
    "distinct (map handle (alarms st1))" "it' \<in> set (alarms st1)" "handle it' = handle it"
    "poll_node tz (\<lambda>_. t) it = Some (it', ev)"
    "events_for (handle it) evs = ev @ events_for (handle it) evs1"
proof -
  from assms(1) obtain its ev0 evs1 where poll: "poll_list tz (\<lambda>_ _. t) 0 (alarms st) = Some (its, ev0)"
    and run: "run_polls tz ts (st\<lparr>alarms := its\<rparr>) = Some (st', evs1)" "evs = ev0 @ evs1"
    by (auto simp: PollTimerCallback_def split: Option.bind_splits)
  from poll_list_member [OF poll assms(2,3)] obtain it' ev where
    *: "poll_node tz (\<lambda>_. t) it = Some (it', ev)" "it' \<in> set its" "events_for (handle it) ev0 = ev"
    by auto
  show ?thesis
    by (rule that [of "st\<lparr>alarms := its\<rparr>" evs1 it' ev])
      (use * run assms(2) poll_list_frame [OF poll] poll_node_frame [OF *(1)] in simp_all)
qed

lemma run_polls_quiet:
  assumes "run_polls tz ts st = Some (st', evs)" "distinct (map handle (alarms st))"
    "it \<in> set (alarms st)" "status it \<noteq> A_running"
  shows "events_for (handle it) evs = []"
  using assms
proof (induction ts arbitrary: st evs it)
  case (Cons t ts)
  obtain st1 ev evs1 it' where
    *: "run_polls tz ts st1 = Some (st', evs1)" "distinct (map handle (alarms st1))"
      "it' \<in> set (alarms st1)" "handle it' = handle it" "poll_node tz (\<lambda>_. t) it = Some (it', ev)"
      "events_for (handle it) evs = ev @ events_for (handle it) evs1"
    by (rule run_polls_step [OF Cons.prems(1-3)])
  have q: "ev = []" "status it' \<noteq> A_running" using poll_node_quiet [OF *(5) Cons.prems(4)] by auto
  from Cons.IH [OF *(1-3) q(2)] show ?case using *(6) q(1) by (simp only: *(4) append_Nil)
qed simp

lemma run_polls_fires_once:
  assumes "run_polls tz (every_2s t0 n) st = Some (st', evs)" "distinct (map handle (alarms st))"
    "it \<in> set (alarms st)" "AlarmType_t (alarm_info it) = ABS" "status it = A_running"
    "trigger_func it = Some f"
    "t0 \<le> mktime tz (date (alarm_info it)) + 1" "mktime tz (date (alarm_info it)) \<le> t0 + 2 * int n - 2"
  shows "events_for (handle it) evs = [(f, trigger_arg it, handle it)]"
  using assms
proof (induction n arbitrary: t0 st evs)
  case (Suc n)
  let ?T = "mktime tz (date (alarm_info it))"
  obtain st1 ev evs1 it' where
    *: "run_polls tz (every_2s (t0 + 2) n) st1 = Some (st', evs1)" "distinct (map handle (alarms st1))"
      "it' \<in> set (alarms st1)" "handle it' = handle it" "poll_node tz (\<lambda>_. t0) it = Some (it', ev)"
      "events_for (handle it) evs = ev @ events_for (handle it) evs1"
    by (rule run_polls_step [OF Suc.prems(1) [unfolded every_2s_Suc] Suc.prems(2,3)])
  show ?case
  proof (cases "?T \<le> t0 \<and> t0 \<le> ?T + 1")
    case True
    then have "it' = it\<lparr>status := A_idle\<rparr>" "ev = [(f, trigger_arg it, handle it)]"
      using *(5) Suc.prems(4-6) by (simp_all add: poll_node_ABS)
    moreover from this have "status it' \<noteq> A_running" by simp
    from run_polls_quiet [OF *(1-3) this] have "events_for (handle it) evs1 = []" by (simp only: *(4))
    ultimately show ?thesis using *(6) by simp
  next
    case False
    then have "it' = it" "ev = []" using *(5) Suc.prems(4-6) by (auto simp: poll_node_ABS)
    moreover have "t0 + 2 \<le> ?T + 1" "?T \<le> t0 + 2 + 2 * int n - 2" using False Suc.prems(7,8) by auto
    ultimately show ?thesis
      using Suc.IH [OF *(1,2) _ Suc.prems(4-6)] *(3,6) by simp
  qed
qed simp

section \<open>Reachable states\<close>

definition alarm_init :: alarm_state where
  "alarm_init = \<lparr>alarms = [], last_handle = 0, poll_timer = False, timer_cmds = []\<rparr>"

text \<open>\<open>alarm_reach tz n st\<close>: \<open>st\<close> is reached by calls of the service with \<open>n\<close> successful additions.\<close>

inductive alarm_reach :: "int \<Rightarrow> nat \<Rightarrow> alarm_state \<Rightarrow> bool" for tz where
  reach_init: "alarm_reach tz 0 alarm_init"
| reach_add: "alarm_reach tz n st \<Longrightarrow>
     esp_alarm_add tz now t1 ok hp buf st = Some (code, h, st') \<Longrightarrow>
     alarm_reach tz (if code = E_ALARM_OK then Suc n else n) st'"
| reach_delete: "alarm_reach tz n st \<Longrightarrow> alarm_reach tz n (snd (esp_alarm_delete h st))"
| reach_register: "alarm_reach tz n st \<Longrightarrow>
     alarm_reach tz n (snd (esp_alarm_register_trigger_func arg h func st))"
| reach_edit: "alarm_reach tz n st \<Longrightarrow> handle info = h \<Longrightarrow>
     esp_alarm_edit info same h st = Some (code, st') \<Longrightarrow> alarm_reach tz n st'"
| reach_poll: "alarm_reach tz n st \<Longrightarrow> PollTimerCallback tz clk st = Some (st', evs) \<Longrightarrow>
     alarm_reach tz n st'"

lemma alarm_inv_handles:
  "map handle (alarms st') = map handle (alarms st) \<Longrightarrow> last_handle st' = last_handle st \<Longrightarrow>
     alarm_inv st' = alarm_inv st"
proof -
  have set: "(\<forall>it \<in> set its. handle it < l) \<longleftrightarrow> (\<forall>h \<in> set (map handle its). h < l)" for its l by simp
  assume "map handle (alarms st') = map handle (alarms st)" "last_handle st' = last_handle st"
  then show ?thesis unfolding alarm_inv_alt set by simp
qed

lemma alarm_inv_add:
  assumes "alarm_inv st" "alarms st' = alarms (push_alarm e st)" "handle e = last_handle st"
    "last_handle st' = last_handle st + 1" "unat (last_handle st) + 1 < 2 ^ 32"
  shows "alarm_inv st'"
proof -
  have lt: "h < last_handle st' \<longleftrightarrow> h < last_handle st \<or> h = last_handle st" for h
    using assms(4,5) by (auto simp: word_less_nat_alt unat_word_ariths word_unat_eq_iff)
  with assms show ?thesis by (auto simp: alarm_inv_alt push_alarm_def)
qed

lemma alarm_inv_delete: "alarm_inv st \<Longrightarrow> alarm_inv (snd (esp_alarm_delete h st))"
  using alarm_list.wf_del [of st h] remove_first_subset [of "\<lambda>it. handle it = h" "alarms st"]
  by (auto simp: alarm_inv_def drop_alarm_def esp_alarm_delete_def split: option.splits)

lemma alarm_reach_inv:
  "alarm_reach tz n st \<Longrightarrow> n < 2 ^ 32 \<Longrightarrow> alarm_inv st \<and> unat (last_handle st) = n"
proof (induction rule: alarm_reach.induct)
  case reach_init
  then show ?case by (simp add: alarm_inv_alt alarm_init_def)
next
  case (reach_add n st now t1 ok hp buf code h st')
  from reach_add.hyps(2) show ?case
  proof (cases rule: esp_alarm_add_cases)
    case (ok e)
    with reach_add have "unat (last_handle st) + 1 < 2 ^ 32" "alarm_inv st" "unat (last_handle st) = n" by auto
    with ok alarm_inv_add [of st st' e] show ?thesis by (simp add: unat_word_ariths)
  next
    case failed
    with reach_add show ?thesis by simp
  qed
next
  case (reach_delete n st h)
  moreover have "last_handle (snd (esp_alarm_delete h st)) = last_handle st"
    by (simp add: esp_alarm_delete_def split: option.splits)
  ultimately show ?case by (simp add: alarm_inv_delete)
next
  case (reach_register n st arg h func)
  then show ?case
    using alarm_inv_handles [of "snd (esp_alarm_register_trigger_func arg h func st)" st]
    by (simp add: esp_alarm_register_trigger_func_def map_update_first split: option.splits)
next
  case (reach_edit n st info h same code st')
  then have "st' = st\<lparr>alarms := map (\<lambda>it. if h = handle it then info else it) (alarms st)\<rparr>"
    by (auto simp: esp_alarm_edit_def split: if_splits)
  with reach_edit alarm_inv_handles [of st' st] show ?case by (simp add: comp_def if_distrib cong: if_cong)
next
  case (reach_poll n st clk st' evs)
  then obtain its where "poll_list tz clk 0 (alarms st) = Some (its, evs)" "st' = st\<lparr>alarms := its\<rparr>"
    by (auto simp: PollTimerCallback_def split: Option.bind_splits)
  with reach_poll alarm_inv_handles [of st' st] poll_list_frame show ?case by force
qed

text \<open>The interface's laws for the service's own lookups.\<close>

lemma get_alarm_info_find:
  "esp_get_alarm_info h (Some old) st =
     (case find_alarm h st of None \<Rightarrow> (E_ALARM_NOTFOUND, Some old) | Some it \<Rightarrow> (E_ALARM_OK, Some it))"
  by (simp add: esp_get_alarm_info_def find_alarm_eq split: option.splits)

lemma alarm_inv_fresh: "alarm_inv st \<Longrightarrow> find_alarm (last_handle st) st = None"
  by (auto simp: alarm_inv_def alarm_list.find_None_iff)

lemma alarm_add_laws:
  assumes "alarm_inv st" and "esp_alarm_add tz now t1 ok hp buf st = Some (E_ALARM_OK, h, st')"
  obtains e where "h = Some (handle e)" "find_alarm (handle e) st' = Some e" "status e = A_running"
    "trigger_func e = None" "t1 < mktime tz (date (alarm_info e))"
    "\<forall>k. k \<noteq> handle e \<longrightarrow> find_alarm k st' = find_alarm k st" "alarm_list.wf st'"
proof -
  from assms(2) show ?thesis
  proof (cases rule: esp_alarm_add_cases)
    case (ok e)
    have wf: "alarm_list.wf st" and fresh: "find_alarm (handle e) st = None"
      using assms(1) alarm_inv_fresh ok by (auto simp: alarm_inv_def)
    have same: "find_alarm k st' = find_alarm k (push_alarm e st)" for k
      using ok by (simp add: find_alarm_eq)
    have wf': "alarm_list.wf st'"
      using alarm_list.wf_ins [OF wf fresh] ok by (simp add: alarm_list.wf_def)
    have "find_alarm (handle e) st' = Some e" "\<forall>k. k \<noteq> handle e \<longrightarrow> find_alarm k st' = find_alarm k st"
      unfolding same using alarm_list.find_ins_same [OF wf fresh] alarm_list.find_ins_other [OF wf fresh] by auto
    with ok wf' show ?thesis by (intro that [of e]) simp_all
  qed simp
qed

lemma full_length_no_room:
  assumes "c_strlen s = Some 42"
  shows "blit (replicate 42 NUL) 0 (take 42 s) = Some (take 42 s)" "NUL \<notin> set (take 42 s)"
    "c_strlen (take 42 s) = None"
proof -
  from assms have len: "length (takeWhile (\<lambda>c. c \<noteq> NUL) s) = 42"
    by (auto simp: c_strlen_def split: if_splits)
  then have tk: "take 42 s = takeWhile (\<lambda>c. c \<noteq> NUL) s" by (metis takeWhile_eq_take)
  then show no: "NUL \<notin> set (take 42 s)" by (auto dest: set_takeWhileD)
  show "blit (replicate 42 NUL) 0 (take 42 s) = Some (take 42 s)" using len tk by (simp add: blit_def)
  show "c_strlen (take 42 s) = None" using no by (simp add: c_strlen_def)
qed

lemma c_strncpy_take: "NUL \<notin> set s \<Longrightarrow> n \<le> length s \<Longrightarrow> c_strncpy s n = Some (take n s)"
  by (induction s n rule: c_strncpy.induct) auto

section \<open>Properties\<close>

text \<open>
  Handles identify alarms: after any sequence of calls with fewer than \<open>2 ^ 32\<close> additions,
  the handles in the list are pairwise distinct and below the counter.
\<close>

theorem alarm_handles_distinct:
  assumes "alarm_reach tz n st" and "n < 2 ^ 32"
  shows "distinct (map handle (alarms st)) \<and> (\<forall>it \<in> set (alarms st). handle it < last_handle st)"
  using alarm_reach_inv [OF assms] by (simp add: alarm_inv_alt)

definition sample_info :: esp_alarm_info where
  "sample_info = zero_info\<lparr>status := A_running, trigger_func := Some 7,
     alarm_info := sample_alarm\<lparr>AlarmType_t := ABS\<rparr>\<rparr>"

text \<open>
  A successful addition returns a handle under which the new alarm is read back running and
  due after the clock; the other alarms are read as before; deleting the handle makes it
  unknown and again leaves the others alone.
\<close>

theorem alarm_add_get_delete:
  assumes "alarm_reach tz n st" and "n < 2 ^ 32"
    and "esp_alarm_add tz now t1 ok hp buf st = Some (E_ALARM_OK, h, st')"
  shows "\<exists>k e. h = Some k \<and> esp_get_alarm_info k (Some old) st' = (E_ALARM_OK, Some e) \<and>
    handle e = k \<and> status e = A_running \<and> t1 < mktime tz (date (alarm_info e)) \<and>
    esp_get_alarm_info k (Some old) (snd (esp_alarm_delete k st')) = (E_ALARM_NOTFOUND, Some old) \<and>
    (\<forall>k'. k' \<noteq> k \<longrightarrow>
       esp_get_alarm_info k' (Some old) st' = esp_get_alarm_info k' (Some old) st \<and>
       esp_get_alarm_info k' (Some old) (snd (esp_alarm_delete k st')) = esp_get_alarm_info k' (Some old) st)"
proof -
  from alarm_reach_inv [OF assms(1,2)] have "alarm_inv st" by simp
  from alarm_add_laws [OF this assms(3)] obtain e where
    *: "h = Some (handle e)" "find_alarm (handle e) st' = Some e" "status e = A_running"
      "t1 < mktime tz (date (alarm_info e))"
      "\<forall>k. k \<noteq> handle e \<longrightarrow> find_alarm k st' = find_alarm k st" and wf: "alarm_list.wf st'"
    by metis
  have "find_alarm k (snd (esp_alarm_delete (handle e) st')) = (if k = handle e then None else find_alarm k st')" for k
    using alarm_list.find_del_same [OF wf] alarm_list.find_del_other [OF wf] by (simp add: drop_alarm_def)
  with * show ?thesis
    by (intro exI [of _ "handle e"] exI [of _ e]) (simp add: get_alarm_info_find)
qed

definition sample_string :: "char list" where
  "sample_string = ''PER-2018-03-14-12:30:00-00-00-01-00:00:00'' @ [NUL]"

definition sample_added :: alarm_state where
  "sample_added = \<lparr>alarms = [zero_info\<lparr>alarm_info := sample_alarm, status := A_running\<rparr>],
     last_handle = 1, poll_timer = True, timer_cmds = [TimerCreateStart]\<rparr>"

lemma sample_add:
  "esp_alarm_add 28800 1500000000 1500000000 True True (Some sample_string) alarm_init =
     Some (E_ALARM_OK, Some 0, sample_added)"
  by code_simp

theorem alarm_handles_distinct_witness:
  "distinct (map handle (alarms sample_added)) \<and> handle (hd (alarms sample_added)) < last_handle sample_added"
  using alarm_handles_distinct [OF reach_add [OF reach_init sample_add]]
  by (simp add: sample_added_def)

theorem alarm_add_get_delete_witness:
  "\<exists>k e. Some 0 = Some k \<and> esp_get_alarm_info k (Some sample_info) sample_added = (E_ALARM_OK, Some e) \<and>
    handle e = k \<and> status e = A_running \<and> 1500000000 < mktime 28800 (date (alarm_info e)) \<and>
    esp_get_alarm_info k (Some sample_info) (snd (esp_alarm_delete k sample_added)) =
      (E_ALARM_NOTFOUND, Some sample_info) \<and>
    (\<forall>k'. k' \<noteq> k \<longrightarrow>
       esp_get_alarm_info k' (Some sample_info) sample_added =
         esp_get_alarm_info k' (Some sample_info) alarm_init \<and>
       esp_get_alarm_info k' (Some sample_info) (snd (esp_alarm_delete k sample_added)) =
         esp_get_alarm_info k' (Some sample_info) alarm_init)"
  by (rule alarm_add_get_delete [OF reach_init _ sample_add]) simp

text \<open>
  A running absolute alarm with a callback fires exactly once: when the timer polls every
  two seconds, beginning not after the second that follows the alarm's date and going on past
  it, the callback is called exactly once with the alarm's argument and handle.
\<close>

theorem absolute_alarm_fires_once:
  assumes "run_polls tz (every_2s t0 n) st = Some (st', evs)"
    and "distinct (map handle (alarms st))" and "it \<in> set (alarms st)"
    and "AlarmType_t (alarm_info it) = ABS" and "status it = A_running" and "trigger_func it = Some f"
    and "t0 \<le> mktime tz (date (alarm_info it)) + 1"
    and "mktime tz (date (alarm_info it)) \<le> t0 + 2 * int n - 2"
  shows "events_for (handle it) evs = [(f, trigger_arg it, handle it)]"
  by (rule run_polls_fires_once [OF assms])

theorem absolute_alarm_fires_once_witness:
  "events_for (handle sample_info) [(7, 0, 0)] = [(7, trigger_arg sample_info, handle sample_info)]"
proof -
  let ?st = "alarm_init\<lparr>alarms := [sample_info]\<rparr>"
  have run: "run_polls 28800 (every_2s 1521001797 3) ?st =
      Some (?st\<lparr>alarms := [sample_info\<lparr>status := A_idle\<rparr>]\<rparr>, [(7, 0, 0)])"
    by code_simp
  show ?thesis
    by (rule absolute_alarm_fires_once [OF run])
      (simp_all add: sample_info_def zero_info_def sample_alarm_def sample_date_def alarm_init_def
        mktime_def month_days_def leap_days_def month_offset_def)
qed

text \<open>
  \<open>esp_alarm_edit\<close> reports \<open>E_ALARM_NOTFOUND\<close> even when it has found and overwritten the
  alarm, because its loop only ends at the end of the list.
\<close>

theorem alarm_edit_reports_notfound:
  assumes "esp_alarm_edit info same_links h st = Some (code, st')"
  shows "code = E_ALARM_NOTFOUND \<and>
    (\<forall>it \<in> set (alarms st). handle it = h \<longrightarrow> info \<in> set (alarms st'))"
  using assms by (auto simp: esp_alarm_edit_def split: if_splits)

theorem alarm_edit_reports_notfound_witness:
  "E_ALARM_NOTFOUND = E_ALARM_NOTFOUND \<and> sample_info \<in> set (alarms (sample_added\<lparr>alarms := [sample_info]\<rparr>))"
proof -
  have edit: "esp_alarm_edit sample_info True 0 sample_added =
      Some (E_ALARM_NOTFOUND, sample_added\<lparr>alarms := [sample_info]\<rparr>)"
    by (simp add: esp_alarm_edit_def sample_added_def zero_info_def)
  show ?thesis
    using alarm_edit_reports_notfound [OF edit] by (simp add: sample_added_def zero_info_def)
qed

text \<open>
  A string of exactly \<open>MAX_FORMAT_LEN\<close> characters passes the length test of
  \<open>esp_alarm_add\<close> but fills its buffer without a terminator: with a known type the parser runs
  past the end of the buffer.
\<close>

theorem alarm_add_full_length_overruns:
  assumes "c_strlen s = Some 42" and "take 3 s = ''ABS'' \<or> take 3 s = ''PER''"
    and "\<not> time_not_set tz now"
  shows "esp_alarm_add tz now t1 True True (Some s) st = None"
proof -
  note full = full_length_no_room [OF assms(1)]
  have "42 \<le> length s"
    using assms(1) length_takeWhile_le [of "\<lambda>c. c \<noteq> NUL" s] by (auto simp: c_strlen_def split: if_splits)
  then have "c_strncpy (take 42 s) 3 = Some (take 3 s)"
    using c_strncpy_take [OF full(2), of 3] by (simp add: min_def)
  then have "get_Type (take 42 s) a = None" for a
    using assms(2) full(3) by (auto simp: get_Type_def chopN_def)
  with assms full show ?thesis by (simp add: esp_alarm_add_def parseAlarm_def)
qed

theorem alarm_add_full_length_overruns_witness:
  "esp_alarm_add 28800 1500000000 1500000000 True True
     (Some (''PER-2018-03-14-12:30:00-000-00-01-00:00:00'' @ [NUL])) alarm_init = None"
  by (rule alarm_add_full_length_overruns) code_simp+

section \<open>The abstract service: a map from handles to alarms\<close>

definition alarm_map :: "alarm_state \<Rightarrow> u32 \<rightharpoonup> esp_alarm_info" where
  "alarm_map st = (\<lambda>h. find_alarm h st)"

lemma alarm_map_alarms: "alarms st = alarms st' \<Longrightarrow> alarm_map st = alarm_map st'"
  by (simp add: alarm_map_def find_alarm_eq)

lemma alarm_map_push:
  assumes "alarm_list.wf st" "alarm_map st (handle e) = None"
  shows "alarm_map (push_alarm e st) = (alarm_map st)(handle e \<mapsto> e)"
  using alarm_list.find_ins_same [OF assms(1), of e] alarm_list.find_ins_other [OF assms(1), of e] assms(2)
  by (auto simp: alarm_map_def fun_eq_iff)

lemma alarm_map_drop: "alarm_list.wf st \<Longrightarrow> alarm_map (drop_alarm h st) = (alarm_map st)(h := None)"
  using alarm_list.find_del_same [of st h] alarm_list.find_del_other [of st _ h]
  by (auto simp: alarm_map_def fun_eq_iff)

lemma alarm_map_fresh: "alarm_inv st \<Longrightarrow> alarm_map st (last_handle st) = None"
  by (auto simp: alarm_map_def alarm_list.find_None_iff alarm_inv_def)

text \<open>
  C14. The alarm service is a map from handles to alarms. As long as the handle counter has not
  wrapped, looking up, adding, deleting and registering a function on the linked list are, on the
  map it stands for, a lookup, an update at a fresh handle, a removal and an update at the handle;
  a call that reports an error changes nothing.
\<close>

theorem alarm_service_refines_map:
  assumes "alarm_inv st"
  shows "esp_get_alarm_info h (Some old) st =
      (case alarm_map st h of None \<Rightarrow> (E_ALARM_NOTFOUND, Some old) | Some it \<Rightarrow> (E_ALARM_OK, Some it)) \<and>
    alarm_map (snd (esp_alarm_delete h st)) = (alarm_map st)(h := None) \<and>
    (fst (esp_alarm_delete h st) = E_ALARM_OK \<longleftrightarrow> h \<in> dom (alarm_map st)) \<and>
    alarm_map (snd (esp_alarm_register_trigger_func a h f st)) =
      (alarm_map st)(h := map_option (\<lambda>it. it\<lparr>trigger_arg := a, trigger_func := f\<rparr>) (alarm_map st h)) \<and>
    (case esp_alarm_add tz now t1 ok hp buf st of
       None \<Rightarrow> True
     | Some (code, r, st') \<Rightarrow>
         if code = E_ALARM_OK
         then \<exists>e. r = Some (handle e) \<and> handle e \<notin> dom (alarm_map st) \<and> alarm_map st' = (alarm_map st)(handle e \<mapsto> e)
         else r = None \<and> alarm_map st' = alarm_map st)"
proof (intro conjI)
  have wf: "alarm_list.wf st" using assms by (simp add: alarm_inv_def)
  show "esp_get_alarm_info h (Some old) st =
      (case alarm_map st h of None \<Rightarrow> (E_ALARM_NOTFOUND, Some old) | Some it \<Rightarrow> (E_ALARM_OK, Some it))"
    by (simp add: esp_get_alarm_info_def alarm_map_def find_alarm_eq)
  show "alarm_map (snd (esp_alarm_delete h st)) = (alarm_map st)(h := None)"
    using alarm_map_drop [OF wf] by (simp add: drop_alarm_def)
  show "fst (esp_alarm_delete h st) = E_ALARM_OK \<longleftrightarrow> h \<in> dom (alarm_map st)"
    by (auto simp: esp_alarm_delete_def alarm_map_def find_alarm_eq split: option.splits)
  show "alarm_map (snd (esp_alarm_register_trigger_func a h f st)) =
      (alarm_map st)(h := map_option (\<lambda>it. it\<lparr>trigger_arg := a, trigger_func := f\<rparr>) (alarm_map st h))"
    by (auto simp: esp_alarm_register_trigger_func_def alarm_map_def find_alarm_eq fun_eq_iff
        first_with_update_first split: option.splits)
  show "case esp_alarm_add tz now t1 ok hp buf st of
       None \<Rightarrow> True
     | Some (code, r, st') \<Rightarrow>
         if code = E_ALARM_OK
         then \<exists>e. r = Some (handle e) \<and> handle e \<notin> dom (alarm_map st) \<and> alarm_map st' = (alarm_map st)(handle e \<mapsto> e)
         else r = None \<and> alarm_map st' = alarm_map st"
  proof (cases "esp_alarm_add tz now t1 ok hp buf st")
    case (Some res)
    obtain code r st' where res: "res = (code, r, st')" by (cases res)
    show ?thesis
    proof (cases rule: esp_alarm_add_cases [OF Some [unfolded res]])
      case (1 e)
      have "alarm_map st (handle e) = None" using alarm_map_fresh [OF assms] 1(3) by simp
      with alarm_map_push [OF wf this] alarm_map_alarms [OF 1(7)] 1 Some res show ?thesis
        by (auto intro!: exI [of _ e])
    next
      case 2
      then show ?thesis using Some res by simp
    qed
  qed simp
qed

theorem alarm_service_refines_map_witness:
  "alarm_map (snd (esp_alarm_delete 3 \<lparr>alarms = [zero_info\<lparr>handle := 3\<rparr>], last_handle = 4, poll_timer = True, timer_cmds = []\<rparr>)) = Map.empty"
proof -
  let ?st = "\<lparr>alarms = [zero_info\<lparr>handle := 3\<rparr>], last_handle = 4, poll_timer = True, timer_cmds = []\<rparr>"
  have "alarm_inv ?st" by (simp add: alarm_inv_alt)
  from alarm_service_refines_map [OF this, of 3] show ?thesis
    by (auto simp: alarm_map_def find_alarm_eq fun_eq_iff)
qed

end
