(* ===== verification/Mqtt_Msg.thy ===== *)
theory Mqtt_Msg
  imports Prelude
begin

text \<open>
  The MQTT packet codec \<open>components/espmqtt/lib/mqtt_msg.c\<close> in the configuration of the
  repository's \<open>sdkconfig\<close> (\<open>CONFIG_MQTT_PROTOCOL_311\<close>). A connection is its output buffer and
  the message in it; \<open>message.data\<close> is an offset into the buffer. Strings are their characters
  without the terminator. The getters take the bytes of the input buffer.
\<close>

section \<open>Packet types and the first byte\<close>

abbreviation (input) MQTT_MSG_TYPE_CONNECT :: nat where "MQTT_MSG_TYPE_CONNECT \<equiv> 1"
abbreviation (input) MQTT_MSG_TYPE_CONNACK :: nat where "MQTT_MSG_TYPE_CONNACK \<equiv> 2"
abbreviation (input) MQTT_MSG_TYPE_PUBLISH :: nat where "MQTT_MSG_TYPE_PUBLISH \<equiv> 3"
abbreviation (input) MQTT_MSG_TYPE_PUBACK :: nat where "MQTT_MSG_TYPE_PUBACK \<equiv> 4"
abbreviation (input) MQTT_MSG_TYPE_PUBREC :: nat where "MQTT_MSG_TYPE_PUBREC \<equiv> 5"
abbreviation (input) MQTT_MSG_TYPE_PUBREL :: nat where "MQTT_MSG_TYPE_PUBREL \<equiv> 6"
abbreviation (input) MQTT_MSG_TYPE_PUBCOMP :: nat where "MQTT_MSG_TYPE_PUBCOMP \<equiv> 7"
abbreviation (input) MQTT_MSG_TYPE_SUBSCRIBE :: nat where "MQTT_MSG_TYPE_SUBSCRIBE \<equiv> 8"
abbreviation (input) MQTT_MSG_TYPE_SUBACK :: nat where "MQTT_MSG_TYPE_SUBACK \<equiv> 9"
abbreviation (input) MQTT_MSG_TYPE_UNSUBSCRIBE :: nat where "MQTT_MSG_TYPE_UNSUBSCRIBE \<equiv> 10"
abbreviation (input) MQTT_MSG_TYPE_UNSUBACK :: nat where "MQTT_MSG_TYPE_UNSUBACK \<equiv> 11"
abbreviation (input) MQTT_MSG_TYPE_PINGREQ :: nat where "MQTT_MSG_TYPE_PINGREQ \<equiv> 12"
abbreviation (input) MQTT_MSG_TYPE_PINGRESP :: nat where "MQTT_MSG_TYPE_PINGRESP \<equiv> 13"
abbreviation (input) MQTT_MSG_TYPE_DISCONNECT :: nat where "MQTT_MSG_TYPE_DISCONNECT \<equiv> 14"

definition header_byte :: "nat \<Rightarrow> nat \<Rightarrow> nat \<Rightarrow> nat \<Rightarrow> byte" where
  "header_byte type dup qos retain =
     push_bit 4 (of_nat type AND 0x0f) OR push_bit 3 (of_nat dup AND 1) OR
     push_bit 1 (of_nat qos AND 3) OR (of_nat retain AND 1)"

definition mqtt_get_type :: "byte list \<Rightarrow> nat option" where
  "mqtt_get_type buffer = do { b \<leftarrow> rd buffer 0; Some (unat (drop_bit 4 (b AND 0xf0))) }"

definition mqtt_get_connect_return_code :: "byte list \<Rightarrow> nat option" where
  "mqtt_get_connect_return_code buffer = do { b \<leftarrow> rd buffer 3; Some (unat b) }"

definition mqtt_get_dup :: "byte list \<Rightarrow> nat option" where
  "mqtt_get_dup buffer = do { b \<leftarrow> rd buffer 0; Some (unat (drop_bit 3 (b AND 0x08))) }"

definition mqtt_get_qos :: "byte list \<Rightarrow> nat option" where
  "mqtt_get_qos buffer = do { b \<leftarrow> rd buffer 0; Some (unat (drop_bit 1 (b AND 0x06))) }"

definition mqtt_get_retain :: "byte list \<Rightarrow> nat option" where
  "mqtt_get_retain buffer = do { b \<leftarrow> rd buffer 0; Some (unat (b AND 0x01)) }"

section \<open>The output buffer\<close>

record mqtt_connection =
  msg_data :: nat
  msg_length :: nat
  message_id :: u16
  buffer :: "byte list"
  buffer_length :: nat

text \<open>\<open>mqtt_msg_init\<close>: the length parameter is a \<open>uint16_t\<close>.\<close>

definition mqtt_msg_init :: "byte list \<Rightarrow> nat \<Rightarrow> mqtt_connection" where
  "mqtt_msg_init buf len =
     \<lparr>msg_data = 0, msg_length = 0, message_id = 0, buffer = buf, buffer_length = len mod 2 ^ 16\<rparr>"

text \<open>Storing one byte at \<open>message.length++\<close>.\<close>

definition put_byte :: "byte \<Rightarrow> mqtt_connection \<Rightarrow> mqtt_connection option" where
  "put_byte b c =
     do { buf \<leftarrow> wr (buffer c) (msg_length c) b;
          Some (c\<lparr>buffer := buf, msg_length := msg_length c + 1\<rparr>) }"

definition put_bytes :: "byte list \<Rightarrow> mqtt_connection \<Rightarrow> mqtt_connection option" where
  "put_bytes bs c =
     do { buf \<leftarrow> blit (buffer c) (msg_length c) bs;
          Some (c\<lparr>buffer := buf, msg_length := msg_length c + length bs\<rparr>) }"

text \<open>Result: the return value (\<open>-1\<close> without space) and the connection; \<open>len\<close> bytes of the
  object \<open>s\<close> are copied.\<close>

definition append_string :: "mqtt_connection \<Rightarrow> byte list \<Rightarrow> nat \<Rightarrow> (int \<times> mqtt_connection) option" where
  "append_string c s len =
     (if msg_length c + len + 2 > buffer_length c then Some (-1, c)
      else do { c1 \<leftarrow> put_byte (of_nat (len div 256)) c;
                c2 \<leftarrow> put_byte (of_nat (len mod 256)) c1;
                if len > length s then None
                else do { c3 \<leftarrow> put_bytes (take len s) c2; Some (int len + 2, c3) } })"

text \<open>The loop that draws a non-zero id; \<open>rand\<close> are the values \<open>platform_random(65535)\<close> returns
  in order, and \<open>None\<close> says that none of them ends the loop.\<close>

fun draw_message_id :: "u16 list \<Rightarrow> u16 option" where
  "draw_message_id [] = None"
| "draw_message_id (r # rand) = (if r = 0 then draw_message_id rand else Some r)"

definition append_message_id :: "mqtt_connection \<Rightarrow> u16 \<Rightarrow> u16 list \<Rightarrow> (u16 \<times> mqtt_connection) option" where
  "append_message_id c id0 rand =
     do { mid \<leftarrow> (if id0 = 0 then draw_message_id rand else Some id0);
          if msg_length c + 2 > buffer_length c then Some (0, c)
          else do { c1 \<leftarrow> put_byte (ucast (drop_bit 8 mid)) c;
                    c2 \<leftarrow> put_byte (ucast (mid AND 0xff)) c1;
                    Some (mid, c2) } }"

definition init_message :: "mqtt_connection \<Rightarrow> mqtt_connection" where
  "init_message c = c\<lparr>msg_length := 3\<rparr>"

definition fail_message :: "mqtt_connection \<Rightarrow> mqtt_connection" where
  "fail_message c = c\<lparr>msg_data := 0, msg_length := 0\<rparr>"

definition fini_message :: "mqtt_connection \<Rightarrow> nat \<Rightarrow> nat \<Rightarrow> nat \<Rightarrow> nat \<Rightarrow> mqtt_connection option" where
  "fini_message c type dup qos retain =
     (let remaining_length = msg_length c - 3 in
      if remaining_length > 127
      then do { b1 \<leftarrow> wr (buffer c) 0 (header_byte type dup qos retain);
                b2 \<leftarrow> wr b1 1 (0x80 OR of_nat (remaining_length mod 128));
                b3 \<leftarrow> wr b2 2 (of_nat (remaining_length div 128));
                Some (c\<lparr>buffer := b3, msg_length := remaining_length + 3, msg_data := 0\<rparr>) }
      else do { b1 \<leftarrow> wr (buffer c) 1 (header_byte type dup qos retain);
                b2 \<leftarrow> wr b1 2 (of_nat remaining_length);
                Some (c\<lparr>buffer := b2, msg_length := remaining_length + 2, msg_data := 1\<rparr>) })"

text \<open>The bytes of the message in the buffer, as they are sent.\<close>

definition wire :: "mqtt_connection \<Rightarrow> byte list" where
  "wire c = take (msg_length c) (drop (msg_data c) (buffer c))"

section \<open>Reading packets\<close>

text \<open>The loops over the remaining-length field from index \<open>i\<close>: the sum \<open>totlen\<close> and the index
  after the field. A shift by 32 or more, or out of the range of \<open>int\<close>, is undefined.\<close>

function length_field :: "byte list \<Rightarrow> nat \<Rightarrow> nat \<Rightarrow> nat \<Rightarrow> (nat \<times> nat) option" where
  "length_field buf n i totlen =
     (if i < n
      then do { b \<leftarrow> rd buf i;
                v \<leftarrow> shl_int (unat (b AND 0x7f)) (7 * (i - 1));
                if b AND 0x80 = 0 then Some (totlen + v, i + 1)
                else length_field buf n (i + 1) (totlen + v) }
      else Some (totlen, i))"
  by pat_completeness auto
termination
  by (relation "measure (\<lambda>(buf, n, i, totlen). n - i)") auto

declare length_field.simps [simp del]

definition mqtt_get_total_length :: "byte list \<Rightarrow> nat \<Rightarrow> nat option" where
  "mqtt_get_total_length buf n =
     do { (totlen, i) \<leftarrow> length_field buf n 1 0; Some ((totlen + i) mod 2 ^ 32) }"

text \<open>The pointer is an offset into the buffer, the inner \<open>None\<close> is NULL; the second component is
  \<open>*length\<close> afterwards.\<close>

definition mqtt_get_publish_topic :: "byte list \<Rightarrow> nat \<Rightarrow> (nat option \<times> nat) option" where
  "mqtt_get_publish_topic buf n =
     do { (_, i) \<leftarrow> length_field buf n 1 0;
          if i + 2 \<ge> n then Some (None, n)
          else do { hi \<leftarrow> rd buf i; lo \<leftarrow> rd buf (i + 1);
                    let topiclen = unat hi * 256 + unat lo; j = i + 2 in
                    if j + topiclen > n then Some (None, n) else Some (Some j, topiclen) } }"

definition mqtt_get_publish_data :: "byte list \<Rightarrow> nat \<Rightarrow> (nat option \<times> nat) option" where
  "mqtt_get_publish_data buf n =
     do { (len, i) \<leftarrow> length_field buf n 1 0;
          let totlen = len + i;
          if i + 2 \<ge> n then Some (None, 0)
          else do { hi \<leftarrow> rd buf i; lo \<leftarrow> rd buf (i + 1);
                    let topiclen = unat hi * 256 + unat lo;
                    let j = i + 2;
                    if j + topiclen \<ge> n then Some (None, 0)
                    else do { qos \<leftarrow> mqtt_get_qos buf;
                              let k = j + topiclen;
                              if qos > 0 \<and> k + 2 \<ge> n then Some (None, 0)
                              else let k' = (if qos > 0 then k + 2 else k) in
                                   if totlen < k' then Some (None, 0)
                                   else Some (Some k', if totlen \<le> n then totlen - k' else n - k') } } }"

text \<open>The loop of \<open>mqtt_get_id\<close> skips the field without computing its value.\<close>

function skip_length :: "byte list \<Rightarrow> nat \<Rightarrow> nat \<Rightarrow> nat option" where
  "skip_length buf n i =
     (if i < n
      then do { b \<leftarrow> rd buf i; if b AND 0x80 = 0 then Some (i + 1) else skip_length buf n (i + 1) }
      else Some i)"
  by pat_completeness auto
termination
  by (relation "measure (\<lambda>(buf, n, i). n - i)") auto

declare skip_length.simps [simp del]

definition be16 :: "byte \<Rightarrow> byte \<Rightarrow> u16" where
  "be16 hi lo = push_bit 8 (ucast hi) OR ucast lo"

definition mqtt_get_id :: "byte list \<Rightarrow> nat \<Rightarrow> u16 option" where
  "mqtt_get_id buf n =
     (if n < 1 then Some 0
      else do { type \<leftarrow> mqtt_get_type buf;
        if type = MQTT_MSG_TYPE_PUBLISH
        then do { i \<leftarrow> skip_length buf n 1;
                  if i + 2 \<ge> n then Some 0
                  else do { hi \<leftarrow> rd buf i; lo \<leftarrow> rd buf (i + 1);
                            let topiclen = unat hi * 256 + unat lo;
                            let j = i + 2;
                            if j + topiclen \<ge> n then Some 0
                            else do { qos \<leftarrow> mqtt_get_qos buf;
                                      let k = j + topiclen;
                                      if qos > 0
                                      then if k + 2 \<ge> n then Some 0
                                           else do { h \<leftarrow> rd buf k; l \<leftarrow> rd buf (k + 1); Some (be16 h l) }
                                      else Some 0 } } }
        else if type \<in> {MQTT_MSG_TYPE_PUBACK, MQTT_MSG_TYPE_PUBREC, MQTT_MSG_TYPE_PUBREL,
                        MQTT_MSG_TYPE_PUBCOMP, MQTT_MSG_TYPE_SUBACK, MQTT_MSG_TYPE_UNSUBACK,
                        MQTT_MSG_TYPE_SUBSCRIBE}
        then if n \<ge> 4
             then do { b \<leftarrow> rd buf 1;
                       if b AND 0x80 = 0
                       then do { h \<leftarrow> rd buf 2; l \<leftarrow> rd buf 3; Some (be16 h l) }
                       else Some 0 }
             else Some 0
        else Some 0 })"

section \<open>Building packets\<close>

text \<open>Pointers to strings are options, \<open>None\<close> for NULL; \<open>will_message\<close> is an object of which
  \<open>will_length\<close> bytes are sent.\<close>

record mqtt_connect_info =
  client_id :: "byte list option"
  username :: "byte list option"
  password :: "byte list option"
  will_topic :: "byte list option"
  will_message :: "byte list"
  keepalive :: nat
  will_length :: nat
  will_qos :: nat
  will_retain :: bool
  clean_session :: bool

text \<open>\<open>p != NULL && p[0] != '\0'\<close> and the string.\<close>

definition given :: "byte list option \<Rightarrow> byte list option" where
  "given p = (case p of None \<Rightarrow> None | Some s \<Rightarrow> if s = [] then None else Some s)"

definition CONNECT_FLAG_USERNAME :: byte where "CONNECT_FLAG_USERNAME = push_bit 7 1"
definition CONNECT_FLAG_PASSWORD :: byte where "CONNECT_FLAG_PASSWORD = push_bit 6 1"
definition CONNECT_FLAG_WILL_RETAIN :: byte where "CONNECT_FLAG_WILL_RETAIN = push_bit 5 1"
definition CONNECT_FLAG_WILL :: byte where "CONNECT_FLAG_WILL = push_bit 2 1"
definition CONNECT_FLAG_CLEAN_SESSION :: byte where "CONNECT_FLAG_CLEAN_SESSION = push_bit 1 1"

text \<open>\<open>variable_header->flags |= f\<close>: the flags byte is at offset 7 of the header, which starts at 3.\<close>

definition or_flags :: "byte \<Rightarrow> mqtt_connection \<Rightarrow> mqtt_connection option" where
  "or_flags f c =
     do { b \<leftarrow> rd (buffer c) 10; buf \<leftarrow> wr (buffer c) 10 (b OR f); Some (c\<lparr>buffer := buf\<rparr>) }"

text \<open>Appending a string that is sent only when it is given, with the flag it sets; a result of
  \<open>Inl\<close> is the \<open>return fail_message\<close> of the caller.\<close>

definition append_optional ::
  "byte list option \<Rightarrow> byte \<Rightarrow> mqtt_connection \<Rightarrow> (mqtt_connection + mqtt_connection) option" where
  "append_optional p f c =
     (case given p of
        None \<Rightarrow> Some (Inr c)
      | Some s \<Rightarrow>
          do { (r, c1) \<leftarrow> append_string c s (length s);
               if r < 0 then Some (Inl (fail_message c1))
               else do { c2 \<leftarrow> or_flags f c1; Some (Inr c2) } })"

definition append_will ::
  "mqtt_connect_info \<Rightarrow> mqtt_connection \<Rightarrow> (mqtt_connection + mqtt_connection) option" where
  "append_will info c =
     (case given (will_topic info) of
        None \<Rightarrow> Some (Inr c)
      | Some topic \<Rightarrow>
          do { (r1, c1) \<leftarrow> append_string c topic (length topic);
               if r1 < 0 then Some (Inl (fail_message c1))
               else do { (r2, c2) \<leftarrow> append_string c1 (will_message info) (will_length info);
                         if r2 < 0 then Some (Inl (fail_message c2))
                         else do { c3 \<leftarrow> or_flags CONNECT_FLAG_WILL c2;
                                   c4 \<leftarrow> (if will_retain info then or_flags CONNECT_FLAG_WILL_RETAIN c3 else Some c3);
                                   c5 \<leftarrow> or_flags (push_bit 3 (of_nat (will_qos info) AND 3)) c4;
                                   Some (Inr c5) } } })"

text \<open>The ten bytes of the variable header: protocol name \<open>MQTT\<close>, version 4, flags and keepalive.\<close>

definition variable_header :: "mqtt_connect_info \<Rightarrow> byte list" where
  "variable_header info =
     [0, 4, 0x4d, 0x51, 0x54, 0x54, 4, 0, of_nat (keepalive info div 256), of_nat (keepalive info mod 256)]"

definition mqtt_msg_connect :: "mqtt_connection \<Rightarrow> mqtt_connect_info \<Rightarrow> mqtt_connection option" where
  "mqtt_msg_connect c0 info =
     (let c = init_message c0 in
      if msg_length c + 10 > buffer_length c then Some (fail_message c)
      else do {
        c1 \<leftarrow> put_bytes (variable_header info) c;
        c2 \<leftarrow> (if clean_session info then or_flags CONNECT_FLAG_CLEAN_SESSION c1 else Some c1);
        case given (client_id info) of
          None \<Rightarrow> Some (fail_message c2)
        | Some cid \<Rightarrow> do {
            (r, c3) \<leftarrow> append_string c2 cid (length cid);
            if r < 0 then Some (fail_message c3)
            else do {
              w \<leftarrow> append_will info c3;
              case w of Inl f \<Rightarrow> Some f | Inr c4 \<Rightarrow> do {
                u \<leftarrow> append_optional (username info) CONNECT_FLAG_USERNAME c4;
                case u of Inl f \<Rightarrow> Some f | Inr c5 \<Rightarrow> do {
                  p \<leftarrow> append_optional (password info) CONNECT_FLAG_PASSWORD c5;
                  case p of Inl f \<Rightarrow> Some f
                  | Inr c6 \<Rightarrow> fini_message c6 MQTT_MSG_TYPE_CONNECT 0 0 0 } } } } })"

text \<open>The result is the message and \<open>*message_id\<close> where it is written.\<close>

definition mqtt_msg_publish ::
  "mqtt_connection \<Rightarrow> byte list option \<Rightarrow> byte list \<Rightarrow> nat \<Rightarrow> nat \<Rightarrow> u16 list \<Rightarrow>
     (mqtt_connection \<times> u16 option) option" where
  "mqtt_msg_publish c0 topic pdata qos retain rand =
     (let c = init_message c0 in
      case given topic of
        None \<Rightarrow> Some (fail_message c, None)
      | Some t \<Rightarrow> do {
          (r, c1) \<leftarrow> append_string c t (length t);
          if r < 0 then Some (fail_message c1, None)
          else do {
            (mid, c2) \<leftarrow> (if qos > 0 then append_message_id c1 0 rand else Some (0, c1));
            if qos > 0 \<and> mid = 0 then Some (fail_message c2, Some mid)
            else if msg_length c2 + length pdata > buffer_length c2 then Some (fail_message c2, Some mid)
            else do { c3 \<leftarrow> put_bytes pdata c2;
                      c4 \<leftarrow> fini_message c3 MQTT_MSG_TYPE_PUBLISH 0 qos retain;
                      Some (c4, Some mid) } } })"

text \<open>\<open>mqtt_msg_puback\<close>, \<open>_pubrec\<close>, \<open>_pubrel\<close> and \<open>_pubcomp\<close> differ in type and quality of service.\<close>

definition mqtt_msg_ack :: "nat \<Rightarrow> nat \<Rightarrow> mqtt_connection \<Rightarrow> u16 \<Rightarrow> u16 list \<Rightarrow> mqtt_connection option" where
  "mqtt_msg_ack type qos c0 mid rand =
     do { (r, c1) \<leftarrow> append_message_id (init_message c0) mid rand;
          if r = 0 then Some (fail_message c1) else fini_message c1 type 0 qos 0 }"

definition mqtt_msg_puback :: "mqtt_connection \<Rightarrow> u16 \<Rightarrow> u16 list \<Rightarrow> mqtt_connection option" where
  "mqtt_msg_puback c mid rand = mqtt_msg_ack MQTT_MSG_TYPE_PUBACK 0 c mid rand"

definition mqtt_msg_pubrec :: "mqtt_connection \<Rightarrow> u16 \<Rightarrow> u16 list \<Rightarrow> mqtt_connection option" where
  "mqtt_msg_pubrec c mid rand = mqtt_msg_ack MQTT_MSG_TYPE_PUBREC 0 c mid rand"

definition mqtt_msg_pubrel :: "mqtt_connection \<Rightarrow> u16 \<Rightarrow> u16 list \<Rightarrow> mqtt_connection option" where
  "mqtt_msg_pubrel c mid rand = mqtt_msg_ack MQTT_MSG_TYPE_PUBREL 1 c mid rand"

definition mqtt_msg_pubcomp :: "mqtt_connection \<Rightarrow> u16 \<Rightarrow> u16 list \<Rightarrow> mqtt_connection option" where
  "mqtt_msg_pubcomp c mid rand = mqtt_msg_ack MQTT_MSG_TYPE_PUBCOMP 0 c mid rand"

definition mqtt_msg_subscribe ::
  "mqtt_connection \<Rightarrow> byte list option \<Rightarrow> nat \<Rightarrow> u16 list \<Rightarrow> (mqtt_connection \<times> u16 option) option" where
  "mqtt_msg_subscribe c0 topic qos rand =
     (let c = init_message c0 in
      case given topic of
        None \<Rightarrow> Some (fail_message c, None)
      | Some t \<Rightarrow> do {
          (mid, c1) \<leftarrow> append_message_id c 0 rand;
          if mid = 0 then Some (fail_message c1, Some mid)
          else do {
            (r, c2) \<leftarrow> append_string c1 t (length t);
            if r < 0 then Some (fail_message c2, Some mid)
            else if msg_length c2 + 1 > buffer_length c2 then Some (fail_message c2, Some mid)
            else do { c3 \<leftarrow> put_byte (of_nat qos) c2;
                      c4 \<leftarrow> fini_message c3 MQTT_MSG_TYPE_SUBSCRIBE 0 1 0;
                      Some (c4, Some mid) } } })"

definition mqtt_msg_unsubscribe ::
  "mqtt_connection \<Rightarrow> byte list option \<Rightarrow> u16 list \<Rightarrow> (mqtt_connection \<times> u16 option) option" where
  "mqtt_msg_unsubscribe c0 topic rand =
     (let c = init_message c0 in
      case given topic of
        None \<Rightarrow> Some (fail_message c, None)
      | Some t \<Rightarrow> do {
          (mid, c1) \<leftarrow> append_message_id c 0 rand;
          if mid = 0 then Some (fail_message c1, Some mid)
          else do {
            (r, c2) \<leftarrow> append_string c1 t (length t);
            if r < 0 then Some (fail_message c2, Some mid)
            else do { c3 \<leftarrow> fini_message c2 MQTT_MSG_TYPE_UNSUBSCRIBE 0 1 0;
                      Some (c3, Some mid) } } })"

definition mqtt_msg_pingreq :: "mqtt_connection \<Rightarrow> mqtt_connection option" where
  "mqtt_msg_pingreq c = fini_message (init_message c) MQTT_MSG_TYPE_PINGREQ 0 0 0"

definition mqtt_msg_pingresp :: "mqtt_connection \<Rightarrow> mqtt_connection option" where
  "mqtt_msg_pingresp c = fini_message (init_message c) MQTT_MSG_TYPE_PINGRESP 0 0 0"

definition mqtt_msg_disconnect :: "mqtt_connection \<Rightarrow> mqtt_connection option" where
  "mqtt_msg_disconnect c = fini_message (init_message c) MQTT_MSG_TYPE_DISCONNECT 0 0 0"

section \<open>What the builders write\<close>

text \<open>
  The packets of the standard, and the invariant \<open>built c bs\<close> of a message under construction: the
  three bytes kept free for the fixed header are followed by the bytes \<open>bs\<close>, inside the buffer.
\<close>

definition mqtt_str :: "byte list \<Rightarrow> byte list" where
  "mqtt_str s = [of_nat (length s div 256), of_nat (length s mod 256)] @ s"

definition remaining_length_bytes :: "nat \<Rightarrow> byte list" where
  "remaining_length_bytes n =
     (if n > 127 then [0x80 OR of_nat (n mod 128), of_nat (n div 128)] else [of_nat n])"

definition packet :: "nat \<Rightarrow> nat \<Rightarrow> nat \<Rightarrow> nat \<Rightarrow> byte list \<Rightarrow> byte list" where
  "packet type dup qos retain body =
     header_byte type dup qos retain # remaining_length_bytes (length body) @ body"

definition has_buffer :: "mqtt_connection \<Rightarrow> bool" where
  "has_buffer c \<longleftrightarrow> 3 \<le> buffer_length c \<and> buffer_length c \<le> length (buffer c)"

definition built :: "mqtt_connection \<Rightarrow> byte list \<Rightarrow> bool" where
  "built c bs \<longleftrightarrow> has_buffer c \<and> msg_length c = 3 + length bs \<and> 3 + length bs \<le> buffer_length c \<and>
     take (length bs) (drop 3 (buffer c)) = bs"

lemma built_init: "has_buffer c \<Longrightarrow> built (init_message c) []"
  by (simp add: built_def has_buffer_def init_message_def)

lemma put_bytes_built:
  assumes "built c bs" and "3 + length bs + length xs \<le> buffer_length c"
  shows "\<exists>c'. put_bytes xs c = Some c' \<and> built c' (bs @ xs) \<and> buffer_length c' = buffer_length c"
proof -
  let ?k = "3 + length bs"
  let ?buf = "take ?k (buffer c) @ xs @ drop (?k + length xs) (buffer c)"
  have len: "?k + length xs \<le> length (buffer c)" and k: "msg_length c = ?k"
    using assms by (auto simp: built_def has_buffer_def)
  then have put: "put_bytes xs c = Some (c\<lparr>buffer := ?buf, msg_length := ?k + length xs\<rparr>)"
    by (simp add: put_bytes_def mem_simps)
  have bs: "take (length bs) (drop 3 (buffer c)) = bs" using assms(1) by (simp add: built_def)
  have "take (length (bs @ xs)) (drop 3 ?buf) = bs @ xs"
    using len bs by (simp add: drop_take)
  with put len assms show ?thesis
    by (intro exI [of _ "c\<lparr>buffer := ?buf, msg_length := ?k + length xs\<rparr>"])
      (simp add: built_def has_buffer_def)
qed

lemma put_byte_as_bytes: "msg_length c < length (buffer c) \<Longrightarrow> put_byte b c = put_bytes [b] c"
  by (simp add: put_byte_def put_bytes_def mem_simps upd_conv_take_nth_drop)

lemma put_byte_built:
  assumes "built c bs" and "3 + length bs + 1 \<le> buffer_length c"
  shows "\<exists>c'. put_byte b c = Some c' \<and> built c' (bs @ [b]) \<and> buffer_length c' = buffer_length c"
proof -
  have "msg_length c < length (buffer c)" using assms by (auto simp: built_def has_buffer_def)
  with put_bytes_built [OF assms(1), of "[b]"] assms(2) show ?thesis by (simp add: put_byte_as_bytes)
qed

lemma append_string_built:
  assumes "built c bs" and "len \<le> length s"
  shows "(3 + length bs + len + 2 > buffer_length c \<and> append_string c s len = Some (-1, c)) \<or>
    (3 + length bs + len + 2 \<le> buffer_length c \<and>
     (\<exists>c'. append_string c s len = Some (int len + 2, c') \<and> built c' (bs @ mqtt_str (take len s)) \<and>
        buffer_length c' = buffer_length c))"
proof (cases "3 + length bs + len + 2 > buffer_length c")
  case True
  then show ?thesis using assms by (simp add: append_string_def built_def)
next
  case False
  let ?hi = "of_nat (len div 256) :: byte" and ?lo = "of_nat (len mod 256) :: byte"
  obtain c1 where c1: "put_byte ?hi c = Some c1" "built c1 (bs @ [?hi])" "buffer_length c1 = buffer_length c"
    using put_byte_built [OF assms(1), of ?hi] False by auto
  obtain c2 where c2: "put_byte ?lo c1 = Some c2" "built c2 (bs @ [?hi, ?lo])" "buffer_length c2 = buffer_length c"
    using put_byte_built [OF c1(2), of ?lo] c1(3) False by auto
  obtain c3 where c3: "put_bytes (take len s) c2 = Some c3" "built c3 (bs @ [?hi, ?lo] @ take len s)"
      "buffer_length c3 = buffer_length c"
    using put_bytes_built [OF c2(2), of "take len s"] c2(3) False assms(2) by auto
  have "msg_length c = 3 + length bs" using assms(1) by (simp add: built_def)
  with c1 c2 c3 False assms(2) show ?thesis by (simp add: append_string_def mqtt_str_def min_absorb2)
qed

definition id_bytes :: "u16 \<Rightarrow> byte list" where
  "id_bytes mid = [ucast (drop_bit 8 mid), ucast (mid AND 0xff)]"

lemma append_message_id_built:
  assumes "built c bs" and "(if id0 = 0 then draw_message_id rand else Some id0) = Some mid"
  shows "(3 + length bs + 2 > buffer_length c \<and> append_message_id c id0 rand = Some (0, c)) \<or>
    (3 + length bs + 2 \<le> buffer_length c \<and>
     (\<exists>c'. append_message_id c id0 rand = Some (mid, c') \<and> built c' (bs @ id_bytes mid) \<and>
        buffer_length c' = buffer_length c))"
proof (cases "3 + length bs + 2 > buffer_length c")
  case True
  then show ?thesis using assms by (simp add: append_message_id_def built_def)
next
  case False
  let ?hi = "ucast (drop_bit 8 mid) :: byte" and ?lo = "ucast (mid AND 0xff) :: byte"
  obtain c1 where c1: "put_byte ?hi c = Some c1" "built c1 (bs @ [?hi])" "buffer_length c1 = buffer_length c"
    using put_byte_built [OF assms(1), of ?hi] False by auto
  obtain c2 where c2: "put_byte ?lo c1 = Some c2" "built c2 (bs @ [?hi, ?lo])" "buffer_length c2 = buffer_length c"
    using put_byte_built [OF c1(2), of ?lo] c1(3) False by auto
  have "msg_length c = 3 + length bs" using assms(1) by (simp add: built_def)
  with c1 c2 False assms(2) show ?thesis by (simp add: append_message_id_def id_bytes_def)
qed

lemma draw_nonzero: "draw_message_id rand = Some mid \<Longrightarrow> mid \<noteq> 0"
  by (induction rand) (auto split: if_splits)

lemma take3: "3 \<le> length xs \<Longrightarrow> xs = xs ! 0 # xs ! 1 # xs ! 2 # drop 3 xs"
  by (cases xs; cases "tl xs"; cases "tl (tl xs)") (auto simp: numeral_3_eq_3)

lemma fini_message_built:
  assumes "built c bs"
  shows "\<exists>c'. fini_message c type dup qos retain = Some c' \<and> wire c' = packet type dup qos retain bs \<and>
    buffer_length c' = buffer_length c \<and> length (buffer c') = length (buffer c) \<and>
    msg_length c' = length (packet type dup qos retain bs) \<and>
    msg_data c' + msg_length c' \<le> buffer_length c"
proof -
  have k: "msg_length c = 3 + length bs" "3 + length bs \<le> buffer_length c" "buffer_length c \<le> length (buffer c)"
    and bs: "take (length bs) (drop 3 (buffer c)) = bs"
    using assms by (auto simp: built_def has_buffer_def)
  obtain x y z r where buf: "buffer c = x # y # z # r" and r: "r = drop 3 (buffer c)"
    using take3 [of "buffer c"] k by (metis le_add1 le_trans)
  have tr: "take (length bs) r = bs" using bs r by simp
  show ?thesis
    using k tr
    by (simp add: fini_message_def Let_def buf wr_def wire_def packet_def remaining_length_bytes_def
        numeral_2_eq_2 numeral_3_eq_3)
qed

section \<open>Reading back what was built\<close>

text \<open>The bytes of the length field, checked for each of their 128 values.\<close>

lemma low_bytes_table:
  "\<forall>k \<in> set [0..<128]. (of_nat k :: byte) AND 0x80 = 0 \<and> unat ((of_nat k :: byte) AND 0x7f) = k \<and>
     (0x80 OR of_nat k :: byte) AND 0x80 \<noteq> 0 \<and> unat ((0x80 OR of_nat k :: byte) AND 0x7f) = k"
  by code_simp

lemma low_bytes:
  assumes "k < 128"
  shows "(of_nat k :: byte) AND 0x80 = 0" "unat ((of_nat k :: byte) AND 0x7f) = k"
    "(0x80 OR of_nat k :: byte) AND 0x80 \<noteq> 0" "unat ((0x80 OR of_nat k :: byte) AND 0x7f) = k"
  using low_bytes_table assms by auto

lemma length_field_packet:
  assumes "m < 16384" and "length (remaining_length_bytes m) < n"
  shows "length_field (h # remaining_length_bytes m @ rest) n 1 0 = Some (m, 1 + length (remaining_length_bytes m))"
proof (cases "m > 127")
  case True
  have d: "m div 128 < 128" using assms(1) by simp
  have e: "m mod 128 + m div 128 * 128 = m" by (rule mod_div_mult_eq)
  have n: "2 < n" using assms(2) True by (simp add: remaining_length_bytes_def)
  have r: "m mod 128 < 128" by simp
  have b: "m mod 128 < 2147483648" "m div 128 < 16777216" using r d by linarith+
  note lo = low_bytes [OF r] and hi = low_bytes [OF d]
  show ?thesis
    using True n lo hi b e
    by (simp add: remaining_length_bytes_def length_field.simps [of _ n "Suc 0"]
        length_field.simps [of _ n "Suc (Suc 0)"] rd_def shl_int_def)
next
  case False
  then have m: "m < 128" by simp
  have n: "1 < n" using assms(2) False by (simp add: remaining_length_bytes_def)
  show ?thesis
    using m n low_bytes [OF m]
    by (simp add: remaining_length_bytes_def length_field.simps [of _ n "Suc 0"] rd_def shl_int_def)
qed

lemma skip_length_packet:
  assumes "m < 16384" and "length (remaining_length_bytes m) < n"
  shows "skip_length (h # remaining_length_bytes m @ rest) n 1 = Some (1 + length (remaining_length_bytes m))"
proof (cases "m > 127")
  case True
  have d: "m div 128 < 128" using assms(1) by simp
  have n: "2 < n" using assms(2) True by (simp add: remaining_length_bytes_def)
  have "m mod 128 < 128" by simp
  note lo = low_bytes [OF this] and hi = low_bytes [OF d]
  show ?thesis
    using True n lo hi
    by (simp add: remaining_length_bytes_def skip_length.simps [of _ n "Suc 0"]
        skip_length.simps [of _ n "Suc (Suc 0)"] rd_def)
next
  case False
  then have m: "m < 128" by simp
  have n: "1 < n" using assms(2) False by (simp add: remaining_length_bytes_def)
  show ?thesis
    using m n low_bytes [OF m]
    by (simp add: remaining_length_bytes_def skip_length.simps [of _ n "Suc 0"] rd_def)
qed

text \<open>The fields of the first byte.\<close>

lemma header_byte_table:
  "\<forall>type \<in> set [0..<16]. \<forall>dup \<in> set [0..<2]. \<forall>qos \<in> set [0..<4]. \<forall>retain \<in> set [0..<2].
     unat (drop_bit 4 (header_byte type dup qos retain AND 0xf0)) = type \<and>
     unat (drop_bit 3 (header_byte type dup qos retain AND 0x08)) = dup \<and>
     unat (drop_bit 1 (header_byte type dup qos retain AND 0x06)) = qos \<and>
     unat (header_byte type dup qos retain AND 0x01) = retain"
  by code_simp

lemma header_fields:
  assumes "type < 16" "dup < 2" "qos < 4" "retain < 2"
  shows "mqtt_get_type (header_byte type dup qos retain # rest) = Some type"
    "mqtt_get_dup (header_byte type dup qos retain # rest) = Some dup"
    "mqtt_get_qos (header_byte type dup qos retain # rest) = Some qos"
    "mqtt_get_retain (header_byte type dup qos retain # rest) = Some retain"
  using header_byte_table assms
  by (auto simp: mqtt_get_type_def mqtt_get_dup_def mqtt_get_qos_def mqtt_get_retain_def rd_def)

lemma be16_id_bytes: "be16 (ucast (drop_bit 8 (mid::u16))) (ucast (mid AND 0xff)) = mid"
proof (rule bit_word_eqI)
  fix n
  assume "n < LENGTH(16)"
  have "mid AND 0xff = take_bit 8 mid" by (simp add: take_bit_eq_mask mask_eq_exp_minus_1)
  then show "bit (be16 (ucast (drop_bit 8 mid)) (ucast (mid AND 0xff))) n = bit mid n"
    using \<open>n < LENGTH(16)\<close> by (auto simp: be16_def bit_simps)
qed

lemma be16_len: "k < 65536 \<Longrightarrow> unat (of_nat (k div 256) :: byte) * 256 + unat (of_nat (k mod 256) :: byte) = k"
  by (simp add: unat_of_nat take_bit_eq_mod)

subsection \<open>PUBLISH\<close>

definition publish_body :: "byte list \<Rightarrow> byte list \<Rightarrow> nat \<Rightarrow> u16 \<Rightarrow> byte list" where
  "publish_body t pdata qos mid = mqtt_str t @ (if qos > 0 then id_bytes mid else []) @ pdata"

lemma length_mqtt_str: "length (mqtt_str s) = length s + 2"
  by (simp add: mqtt_str_def)

lemma publish_shape:
  assumes "has_buffer c" and "t \<noteq> []" and "draw_message_id rand = Some mid"
  shows "\<exists>c' mid'. mqtt_msg_publish c (Some t) pdata qos retain rand = Some (c', mid') \<and>
    (if 3 + length (publish_body t pdata qos mid) \<le> buffer_length c
     then wire c' = packet MQTT_MSG_TYPE_PUBLISH 0 qos retain (publish_body t pdata qos mid) \<and>
       mid' = Some (if qos > 0 then mid else 0) \<and>
       msg_length c' = length (packet MQTT_MSG_TYPE_PUBLISH 0 qos retain (publish_body t pdata qos mid)) \<and>
       msg_data c' + msg_length c' \<le> buffer_length c
     else msg_length c' = 0)"
proof -
  let ?c = "init_message c"
  have g: "given (Some t) = Some t" using assms(2) by (simp add: given_def)
  have b0: "built ?c []" by (rule built_init [OF assms(1)])
  have l0: "buffer_length ?c = buffer_length c" by (simp add: init_message_def)
  consider (no_topic) "append_string ?c t (length t) = Some (-1, ?c)" "3 + length t + 2 > buffer_length c"
    | (topic) c1 where "append_string ?c t (length t) = Some (int (length t) + 2, c1)"
        "built c1 (mqtt_str t)" "buffer_length c1 = buffer_length c" "3 + length t + 2 \<le> buffer_length c"
    using append_string_built [OF b0, of "length t" t] l0 by auto
  then show ?thesis
  proof cases
    case no_topic
    then show ?thesis
      by (simp add: mqtt_msg_publish_def g publish_body_def length_mqtt_str fail_message_def Let_def)
  next
    case topic
    define ids where "ids = (if qos > 0 then id_bytes mid else [])"
    consider (no_id) "qos > 0" "append_message_id c1 0 rand = Some (0, c1)"
        "3 + length (mqtt_str t) + 2 > buffer_length c"
      | (id) c2 where "(if qos > 0 then append_message_id c1 0 rand else Some (0, c1)) =
            Some (if qos > 0 then mid else 0, c2)"
          "built c2 (mqtt_str t @ ids)" "buffer_length c2 = buffer_length c"
      using append_message_id_built [OF topic(2), of 0 rand mid] assms(3) topic
      by (cases "qos > 0") (auto simp: ids_def)
    then show ?thesis
    proof cases
      case no_id
      then show ?thesis
        using topic by (simp add: mqtt_msg_publish_def g publish_body_def length_mqtt_str fail_message_def Let_def id_bytes_def)
    next
      case id
      have k: "msg_length c2 = 3 + length (mqtt_str t @ ids)" using id(2) by (simp add: built_def)
      have ok: "mid \<noteq> 0" by (rule draw_nonzero [OF assms(3)])
      have pub: "mqtt_msg_publish c (Some t) pdata qos retain rand =
          (if msg_length c2 + length pdata > buffer_length c2
           then Some (fail_message c2, Some (if qos > 0 then mid else 0))
           else do { c3 \<leftarrow> put_bytes pdata c2;
                     c4 \<leftarrow> fini_message c3 MQTT_MSG_TYPE_PUBLISH 0 qos retain;
                     Some (c4, Some (if qos > 0 then mid else 0)) })"
        using topic(1) id(1) ok by (simp add: mqtt_msg_publish_def g Let_def)
      show ?thesis
      proof (cases "msg_length c2 + length pdata > buffer_length c2")
        case True
        then show ?thesis
          using pub k id(3) by (simp add: publish_body_def fail_message_def ids_def)
      next
        case False
        obtain c3 where c3: "put_bytes pdata c2 = Some c3" "built c3 ((mqtt_str t @ ids) @ pdata)"
          "buffer_length c3 = buffer_length c"
          using put_bytes_built [OF id(2), of pdata] False k id(3) by auto
        have body: "(mqtt_str t @ ids) @ pdata = publish_body t pdata qos mid"
          by (simp add: publish_body_def ids_def)
        show ?thesis
          using pub False k id(3) c3(1,3) fini_message_built [OF c3(2), of MQTT_MSG_TYPE_PUBLISH 0 qos retain]
          unfolding body by (auto simp: publish_body_def ids_def)
      qed
    qed
  qed
qed


lemma id_bytes_read: "be16 (id_bytes mid ! 0) (id_bytes mid ! 1) = mid"
  by (simp add: id_bytes_def be16_id_bytes)

text \<open>Reading the fields of a packet that is followed by other bytes of the input buffer.\<close>

lemma publish_fields:
  fixes t pdata junk :: "byte list" and qos retain :: nat and mid :: u16
  defines "body \<equiv> publish_body t pdata qos mid"
  defines "buf \<equiv> packet MQTT_MSG_TYPE_PUBLISH 0 qos retain body @ junk"
  assumes "qos < 4" "retain < 2" "length t < 65536" "length body < 16384" "pdata \<noteq> []"
    and n: "length (packet MQTT_MSG_TYPE_PUBLISH 0 qos retain body) \<le> n" "n \<le> length buf"
  shows "mqtt_get_total_length buf n = Some (length (packet MQTT_MSG_TYPE_PUBLISH 0 qos retain body))"
    and "\<exists>k. mqtt_get_publish_topic buf n = Some (Some k, length t) \<and> take (length t) (drop k buf) = t"
    and "\<exists>k. mqtt_get_publish_data buf n = Some (Some k, length pdata) \<and> take (length pdata) (drop k buf) = pdata"
    and "mqtt_get_id buf n = Some (if qos > 0 then mid else 0)"
proof -
  define rl where "rl = remaining_length_bytes (length body)"
  define ids where "ids = (if qos > 0 then id_bytes mid else [])"
  let ?h = "header_byte MQTT_MSG_TYPE_PUBLISH 0 qos retain"
  let ?hi = "of_nat (length t div 256) :: byte" and ?lo = "of_nat (length t mod 256) :: byte"
  have body: "body = ?hi # ?lo # t @ ids @ pdata"
    by (simp add: body_def publish_body_def mqtt_str_def ids_def)
  have buf: "buf = ?h # rl @ ?hi # ?lo # t @ ids @ pdata @ junk"
    by (simp add: buf_def packet_def rl_def body)
  have n1: "1 + length rl + length body \<le> n" using n(1) by (simp add: packet_def rl_def)
  have lenfield: "length_field buf n 1 0 = Some (length body, 1 + length rl)"
    using length_field_packet [OF assms(6), of n ?h] n1 by (simp add: buf rl_def)
  have skip: "skip_length buf n 1 = Some (1 + length rl)"
    using skip_length_packet [OF assms(6), of n ?h] n1 by (simp add: buf rl_def)
  have rlen: "length rl \<le> 2" by (simp add: rl_def remaining_length_bytes_def)
  have rds: "rd buf (1 + length rl) = Some ?hi" "rd buf (1 + length rl + 1) = Some ?lo"
    by (simp_all add: buf rd_def nth_append)
  have tl: "unat ?hi * 256 + unat ?lo = length t" by (rule be16_len [OF assms(5)])
  have lb: "length body = 2 + length t + length ids + length pdata" by (simp add: body)
  have p0: "Suc 0 \<le> length pdata" using assms(7) by (simp add: Suc_le_eq)
  have idl: "length ids = (if qos > 0 then 2 else 0)" by (simp add: ids_def id_bytes_def)
  have ty: "mqtt_get_type buf = Some MQTT_MSG_TYPE_PUBLISH" "mqtt_get_qos buf = Some qos"
    using header_fields [of MQTT_MSG_TYPE_PUBLISH 0 qos retain] assms(3,4) by (simp_all add: buf)
  show "mqtt_get_total_length buf n = Some (length (packet MQTT_MSG_TYPE_PUBLISH 0 qos retain body))"
    using lenfield rlen assms(6) by (simp add: mqtt_get_total_length_def packet_def rl_def)
  show "\<exists>k. mqtt_get_publish_topic buf n = Some (Some k, length t) \<and> take (length t) (drop k buf) = t"
    using lenfield rds tl n1 lb p0
    by (intro exI [of _ "1 + length rl + 2"]) (simp add: mqtt_get_publish_topic_def Let_def, simp add: buf)
  have at: "take (length pdata) (drop (1 + length rl + 2 + length t + length ids) buf) = pdata"
    by (simp add: buf)
  have "mqtt_get_publish_data buf n = Some (Some (1 + length rl + 2 + length t + length ids), length pdata)"
    using lenfield rds tl n1 lb p0 ty(2) idl
    by (cases "qos > 0") (simp_all add: mqtt_get_publish_data_def Let_def)
  with at show "\<exists>k. mqtt_get_publish_data buf n = Some (Some k, length pdata) \<and> take (length pdata) (drop k buf) = pdata"
    by blast
  have ids: "rd buf (1 + length rl + 2 + length t) = Some (id_bytes mid ! 0)"
    "rd buf (1 + length rl + 2 + length t + 1) = Some (id_bytes mid ! 1)" if "qos > 0"
    using that by (simp_all add: buf ids_def id_bytes_def rd_def nth_append)
  show "mqtt_get_id buf n = Some (if qos > 0 then mid else 0)"
    using skip rds tl n1 lb p0 ty idl ids id_bytes_read [of mid]
    by (cases "qos > 0") (simp_all add: mqtt_get_id_def Let_def)
qed

subsection \<open>CONNECT\<close>

definition connect_header :: "mqtt_connect_info \<Rightarrow> byte \<Rightarrow> byte list" where
  "connect_header info flags =
     [0, 4, 0x4d, 0x51, 0x54, 0x54, 4, flags, of_nat (keepalive info div 256), of_nat (keepalive info mod 256)]"

definition optional_string :: "byte list option \<Rightarrow> byte list" where
  "optional_string p = (case given p of None \<Rightarrow> [] | Some s \<Rightarrow> mqtt_str s)"

definition optional_flag :: "byte list option \<Rightarrow> byte \<Rightarrow> byte" where
  "optional_flag p f = (case given p of None \<Rightarrow> 0 | Some _ \<Rightarrow> f)"

definition will_bytes :: "mqtt_connect_info \<Rightarrow> byte list" where
  "will_bytes info =
     (case given (will_topic info) of None \<Rightarrow> []
      | Some t \<Rightarrow> mqtt_str t @ mqtt_str (take (will_length info) (will_message info)))"

definition will_flags :: "mqtt_connect_info \<Rightarrow> byte" where
  "will_flags info =
     (case given (will_topic info) of None \<Rightarrow> 0
      | Some t \<Rightarrow> CONNECT_FLAG_WILL OR (if will_retain info then CONNECT_FLAG_WILL_RETAIN else 0) OR
          push_bit 3 (of_nat (will_qos info) AND 3))"

definition connect_flags :: "mqtt_connect_info \<Rightarrow> byte" where
  "connect_flags info =
     (if clean_session info then CONNECT_FLAG_CLEAN_SESSION else 0) OR will_flags info OR
     optional_flag (username info) CONNECT_FLAG_USERNAME OR
     optional_flag (password info) CONNECT_FLAG_PASSWORD"

definition connect_body :: "mqtt_connect_info \<Rightarrow> byte list \<Rightarrow> byte list" where
  "connect_body info cid =
     connect_header info (connect_flags info) @ mqtt_str cid @ will_bytes info @
     optional_string (username info) @ optional_string (password info)"

lemma length_connect_header [simp]: "length (connect_header info fl) = 10"
  by (simp add: connect_header_def)

lemma or_flags_built:
  assumes "built c (connect_header info fl @ rest)"
  shows "\<exists>c'. or_flags f c = Some c' \<and> built c' (connect_header info (fl OR f) @ rest) \<and>
    buffer_length c' = buffer_length c"
proof -
  have len: "13 + length rest \<le> length (buffer c)"
    and b: "take (10 + length rest) (drop 3 (buffer c)) = connect_header info fl @ rest"
    using assms by (auto simp: built_def has_buffer_def)
  have "buffer c ! 10 = (take (10 + length rest) (drop 3 (buffer c))) ! 7" using len by simp
  also have "\<dots> = fl" unfolding b by (simp add: connect_header_def)
  finally have fl: "buffer c ! 10 = fl" .
  have upd: "(connect_header info fl @ rest)[7 := fl OR f] = connect_header info (fl OR f) @ rest"
    by (simp add: connect_header_def)
  have "take (10 + length rest) (drop 3 ((buffer c)[10 := fl OR f])) =
      (take (10 + length rest) (drop 3 (buffer c)))[7 := fl OR f]"
    by (simp add: drop_update_swap take_update_swap)
  with b upd have "take (10 + length rest) (drop 3 ((buffer c)[10 := fl OR f])) = connect_header info (fl OR f) @ rest"
    by simp
  with len fl assms show ?thesis
    by (intro exI [of _ "c\<lparr>buffer := (buffer c)[10 := fl OR f]\<rparr>"])
      (simp add: or_flags_def mem_simps built_def has_buffer_def)
qed

text \<open>A stage of \<open>mqtt_msg_connect\<close> either extends the body and the flags, or fails for want of space.\<close>

definition stage :: "(mqtt_connection \<Rightarrow> (mqtt_connection + mqtt_connection) option) \<Rightarrow>
    mqtt_connect_info \<Rightarrow> byte \<Rightarrow> byte list \<Rightarrow> bool" where
  "stage op info f xs \<longleftrightarrow> (\<forall>c fl rest. built c (connect_header info fl @ rest) \<longrightarrow>
     (if 13 + length rest + length xs \<le> buffer_length c
      then \<exists>c'. op c = Some (Inr c') \<and> built c' (connect_header info (fl OR f) @ rest @ xs) \<and>
        buffer_length c' = buffer_length c
      else \<exists>c'. op c = Some (Inl c') \<and> msg_length c' = 0))"

lemma stage_optional: "stage (append_optional p f) info (optional_flag p f) (optional_string p)"
  unfolding stage_def
proof (intro allI impI)
  fix c fl rest
  assume b: "built c (connect_header info fl @ rest)"
  show "if 13 + length rest + length (optional_string p) \<le> buffer_length c
      then \<exists>c'. append_optional p f c = Some (Inr c') \<and>
        built c' (connect_header info (fl OR optional_flag p f) @ rest @ optional_string p) \<and>
        buffer_length c' = buffer_length c
      else \<exists>c'. append_optional p f c = Some (Inl c') \<and> msg_length c' = 0"
  proof (cases "given p")
    case None
    then show ?thesis using b
      by (simp add: append_optional_def optional_flag_def optional_string_def built_def)
  next
    case (Some s)
    show ?thesis
    proof (cases "13 + length rest + length (optional_string p) \<le> buffer_length c")
      case True
      then obtain c1 where c1: "append_string c s (length s) = Some (int (length s) + 2, c1)"
        "built c1 (connect_header info fl @ rest @ mqtt_str s)" "buffer_length c1 = buffer_length c"
        using append_string_built [OF b, of "length s" s] Some
        by (auto simp: optional_string_def length_mqtt_str)
      then show ?thesis
        using or_flags_built [OF c1(2), of f] True Some
        by (auto simp: append_optional_def optional_flag_def optional_string_def)
    next
      case False
      then show ?thesis
        using append_string_built [OF b, of "length s" s] Some
        by (auto simp: append_optional_def optional_string_def length_mqtt_str fail_message_def)
    qed
  qed
qed

lemma stage_will:
  assumes "will_length info \<le> length (will_message info)"
  shows "stage (append_will info) info (will_flags info) (will_bytes info)"
  unfolding stage_def
proof (intro allI impI)
  fix c fl rest
  let ?w = "take (will_length info) (will_message info)"
  assume b: "built c (connect_header info fl @ rest)"
  show "if 13 + length rest + length (will_bytes info) \<le> buffer_length c
      then \<exists>c'. append_will info c = Some (Inr c') \<and>
        built c' (connect_header info (fl OR will_flags info) @ rest @ will_bytes info) \<and>
        buffer_length c' = buffer_length c
      else \<exists>c'. append_will info c = Some (Inl c') \<and> msg_length c' = 0"
  proof (cases "given (will_topic info)")
    case None
    then show ?thesis using b
      by (simp add: append_will_def will_flags_def will_bytes_def built_def)
  next
    case (Some t)
    have wlen: "length (will_bytes info) = length t + will_length info + 4"
      using Some assms by (simp add: will_bytes_def length_mqtt_str)
    consider (f1) "append_string c t (length t) = Some (-1, c)" "13 + length rest + length t + 2 > buffer_length c"
      | (ok1) c1 where "append_string c t (length t) = Some (int (length t) + 2, c1)"
        "built c1 (connect_header info fl @ rest @ mqtt_str t)" "buffer_length c1 = buffer_length c"
        "13 + length rest + length t + 2 \<le> buffer_length c"
      using append_string_built [OF b, of "length t" t] by auto
    then show ?thesis
    proof cases
      case f1
      then show ?thesis using Some wlen by (simp add: append_will_def fail_message_def)
    next
      case ok1
      consider (f2) "append_string c1 (will_message info) (will_length info) = Some (-1, c1)"
          "13 + length rest + length (will_bytes info) > buffer_length c"
        | (ok2) c2 where "append_string c1 (will_message info) (will_length info) = Some (int (will_length info) + 2, c2)"
          "built c2 (connect_header info fl @ rest @ will_bytes info)" "buffer_length c2 = buffer_length c"
          "13 + length rest + length (will_bytes info) \<le> buffer_length c"
        using append_string_built [OF ok1(2) assms] ok1(3) wlen Some
        by (auto simp: will_bytes_def length_mqtt_str)
      then show ?thesis
      proof cases
        case f2
        then show ?thesis using Some ok1 by (simp add: append_will_def fail_message_def)
      next
        case ok2
        let ?r = "if will_retain info then CONNECT_FLAG_WILL_RETAIN else 0"
        obtain c3 where c3: "or_flags CONNECT_FLAG_WILL c2 = Some c3"
          "built c3 (connect_header info (fl OR CONNECT_FLAG_WILL) @ rest @ will_bytes info)" "buffer_length c3 = buffer_length c"
          using or_flags_built [OF ok2(2)] ok2(3) by metis
        obtain c4 where c4: "(if will_retain info then or_flags CONNECT_FLAG_WILL_RETAIN c3 else Some c3) = Some c4"
          "built c4 (connect_header info (fl OR CONNECT_FLAG_WILL OR ?r) @ rest @ will_bytes info)" "buffer_length c4 = buffer_length c"
        proof (cases "will_retain info")
          case True
          then show ?thesis using that or_flags_built [OF c3(2), of CONNECT_FLAG_WILL_RETAIN] c3(3)
            by (auto simp: or.assoc)
        next
          case False
          then show ?thesis using that c3 by simp
        qed
        obtain c5 where c5: "or_flags (push_bit 3 (of_nat (will_qos info) AND 3)) c4 = Some c5"
          "built c5 (connect_header info (fl OR will_flags info) @ rest @ will_bytes info)" "buffer_length c5 = buffer_length c"
          using or_flags_built [OF c4(2), of "push_bit 3 (of_nat (will_qos info) AND 3)"] c4(3) Some
          by (auto simp: will_flags_def or.assoc)
        show ?thesis using Some ok1(1) ok2(1,4) c3(1) c4(1) c5 by (simp add: append_will_def)
      qed
    qed
  qed
qed

lemma stageE:
  assumes "stage op info f xs" and "built c (connect_header info fl @ rest)"
  obtains (fail) c' where "op c = Some (Inl c')" "msg_length c' = 0" "buffer_length c < 13 + length rest + length xs"
    | (ok) c' where "op c = Some (Inr c')" "built c' (connect_header info (fl OR f) @ rest @ xs)"
      "buffer_length c' = buffer_length c"
  using assms unfolding stage_def by (metis not_le)

lemma connect_shape:
  assumes "has_buffer c" and cid: "given (client_id info) = Some cid"
    and will: "will_length info \<le> length (will_message info)"
  shows "\<exists>c'. mqtt_msg_connect c info = Some c' \<and>
    (if 3 + length (connect_body info cid) \<le> buffer_length c
     then wire c' = packet MQTT_MSG_TYPE_CONNECT 0 0 0 (connect_body info cid) \<and>
       msg_length c' = length (packet MQTT_MSG_TYPE_CONNECT 0 0 0 (connect_body info cid)) \<and>
       msg_data c' + msg_length c' \<le> buffer_length c
     else msg_length c' = 0)"
proof (cases "13 \<le> buffer_length c")
  case False
  then show ?thesis
    by (simp add: mqtt_msg_connect_def init_message_def connect_body_def fail_message_def Let_def)
next
  case True
  let ?c = "init_message c"
  let ?cl = "if clean_session info then CONNECT_FLAG_CLEAN_SESSION else 0"
  have b0: "built ?c []" by (rule built_init [OF assms(1)])
  have l0: "buffer_length ?c = buffer_length c" "msg_length ?c = 3" by (simp_all add: init_message_def)
  have vh: "variable_header info = connect_header info 0 @ []" by (simp add: variable_header_def connect_header_def)
  obtain c1 where c1: "put_bytes (variable_header info) ?c = Some c1" "built c1 (connect_header info 0 @ [])"
      "buffer_length c1 = buffer_length c"
    using put_bytes_built [OF b0, of "variable_header info"] True l0 by (auto simp: vh)
  obtain c2 where c2: "(if clean_session info then or_flags CONNECT_FLAG_CLEAN_SESSION c1 else Some c1) = Some c2"
      "built c2 (connect_header info ?cl @ [])" "buffer_length c2 = buffer_length c"
    using or_flags_built [OF c1(2), of CONNECT_FLAG_CLEAN_SESSION] c1(2,3) by (cases "clean_session info") auto
  have start: "mqtt_msg_connect c info = do {
      (r, c3) \<leftarrow> append_string c2 cid (length cid);
      if r < 0 then Some (fail_message c3)
      else do { w \<leftarrow> append_will info c3;
        case w of Inl f \<Rightarrow> Some f | Inr c4 \<Rightarrow> do {
          u \<leftarrow> append_optional (username info) CONNECT_FLAG_USERNAME c4;
          case u of Inl f \<Rightarrow> Some f | Inr c5 \<Rightarrow> do {
            p \<leftarrow> append_optional (password info) CONNECT_FLAG_PASSWORD c5;
            case p of Inl f \<Rightarrow> Some f
            | Inr c6 \<Rightarrow> fini_message c6 MQTT_MSG_TYPE_CONNECT 0 0 0 } } } }"
    using True l0 c1(1) c2(1) cid by (simp add: mqtt_msg_connect_def Let_def)
  have body: "3 + length (connect_body info cid) = 13 + (length cid + 2) + length (will_bytes info) +
      length (optional_string (username info)) + length (optional_string (password info))"
    by (simp add: connect_body_def length_mqtt_str)
  consider (fail) "append_string c2 cid (length cid) = Some (-1, c2)" "13 + (length cid + 2) > buffer_length c"
    | (ok) c3 where "append_string c2 cid (length cid) = Some (int (length cid) + 2, c3)"
      "built c3 (connect_header info ?cl @ mqtt_str cid)" "buffer_length c3 = buffer_length c"
    using append_string_built [OF c2(2), of "length cid" cid] c2(3) by auto
  then show ?thesis
  proof cases
    case fail
    then show ?thesis using start body by (simp add: fail_message_def)
  next
    case c3: ok
    show ?thesis
    proof (rule stageE [OF stage_will [OF will] c3(2)], goal_cases)
      case (1 f)
      then show ?case using start c3(1,3) body by (simp add: length_mqtt_str)
    next
      case c4: (2 c4)
      show ?case
      proof (rule stageE [OF stage_optional [of "username info" CONNECT_FLAG_USERNAME] c4(2)], goal_cases)
        case (1 f)
        then show ?case using start c3(1,3) c4(1,3) body by (simp add: length_mqtt_str)
      next
        case c5: (2 c5)
        show ?case
        proof (rule stageE [OF stage_optional [of "password info" CONNECT_FLAG_PASSWORD] c5(2)], goal_cases)
          case (1 f)
          then show ?case using start c3(1,3) c4(1,3) c5(1,3) body by (simp add: length_mqtt_str)
        next
          case c6: (2 c6)
          have b6: "built c6 (connect_body info cid)"
            using c6(2) by (simp add: connect_body_def connect_flags_def or.assoc)
          have "3 + length (connect_body info cid) \<le> buffer_length c"
            using b6 c3(3) c4(3) c5(3) c6(3) by (simp add: built_def)
          then show ?case
            using start c3(1,3) c4(1,3) c5(1,3) c6(1,3)
              fini_message_built [OF b6, of MQTT_MSG_TYPE_CONNECT 0 0 0] by auto
        qed
      qed
    qed
  qed
qed

subsection \<open>Acknowledgements and subscriptions\<close>

lemma ack_shape:
  assumes "has_buffer c" and "5 \<le> buffer_length c" and "mid \<noteq> 0"
  shows "\<exists>c'. mqtt_msg_ack type qos c mid rand = Some c' \<and> wire c' = packet type 0 qos 0 (id_bytes mid) \<and>
    msg_data c' + msg_length c' \<le> buffer_length c"
proof -
  have l0: "buffer_length (init_message c) = buffer_length c" by (simp add: init_message_def)
  obtain c1 where c1: "append_message_id (init_message c) mid rand = Some (mid, c1)"
      "built c1 (id_bytes mid)" "buffer_length c1 = buffer_length c"
    using append_message_id_built [OF built_init [OF assms(1)], of mid rand mid] assms(2,3) l0 by auto
  then show ?thesis
    using fini_message_built [OF c1(2), of type 0 qos 0] assms(3) by (auto simp: mqtt_msg_ack_def)
qed

lemma small_packet: "length body < 128 \<Longrightarrow>
    packet type dup qos retain body = header_byte type dup qos retain # of_nat (length body) # body"
  by (simp add: packet_def remaining_length_bytes_def)

lemma id_read:
  assumes "type \<in> {4, 5, 6, 7, 8, 9, 11}" "qos < 4" "length rest < 126" "wire c = packet type 0 qos 0 (id_bytes mid @ rest)"
    and "4 \<le> n"
  shows "mqtt_get_type (wire c) = Some type" "mqtt_get_id (wire c) n = Some mid"
proof -
  have t16: "type < 16" "type \<noteq> 3" using assms(1) by auto
  have w: "wire c = header_byte type 0 qos 0 # of_nat (2 + length rest) # id_bytes mid @ rest"
    using assms(3,4) by (simp add: small_packet id_bytes_def)
  show ty: "mqtt_get_type (wire c) = Some type"
    using header_fields(1) [of type 0 qos 0] t16 assms(2) by (simp add: w)
  have "(of_nat (2 + length rest) :: byte) AND 0x80 = 0" using assms(3) by (intro low_bytes(1)) simp
  then show "mqtt_get_id (wire c) n = Some mid"
    using ty t16 assms(1,5) id_bytes_read [of mid]
    by (auto simp: mqtt_get_id_def rd_def w id_bytes_def numeral_3_eq_3 numeral_2_eq_2)
qed

lemma subscribe_shape:
  assumes "has_buffer c" and "t \<noteq> []" and "draw_message_id rand = Some mid"
    and "3 + 2 + (length t + 2) + 1 \<le> buffer_length c"
  shows "\<exists>c'. mqtt_msg_subscribe c (Some t) qos rand = Some (c', Some mid) \<and>
    4 \<le> msg_length c' \<and>
    wire c' = packet MQTT_MSG_TYPE_SUBSCRIBE 0 1 0 (id_bytes mid @ mqtt_str t @ [of_nat qos]) \<and>
    msg_data c' + msg_length c' \<le> buffer_length c"
proof -
  have g: "given (Some t) = Some t" using assms(2) by (simp add: given_def)
  have l0: "buffer_length (init_message c) = buffer_length c" by (simp add: init_message_def)
  obtain c1 where c1: "append_message_id (init_message c) 0 rand = Some (mid, c1)"
      "built c1 (id_bytes mid)" "buffer_length c1 = buffer_length c"
    using append_message_id_built [OF built_init [OF assms(1)], of 0 rand mid] assms(3,4) l0 by auto
  obtain c2 where c2: "append_string c1 t (length t) = Some (int (length t) + 2, c2)"
      "built c2 (id_bytes mid @ mqtt_str t)" "buffer_length c2 = buffer_length c"
    using append_string_built [OF c1(2), of "length t" t] assms(4) c1(3) by (auto simp: id_bytes_def)
  have k: "msg_length c2 = 7 + length t" using c2(2) by (simp add: built_def id_bytes_def length_mqtt_str)
  obtain c3 where c3: "put_byte (of_nat qos) c2 = Some c3"
      "built c3 (id_bytes mid @ mqtt_str t @ [of_nat qos])" "buffer_length c3 = buffer_length c"
    using put_byte_built [OF c2(2), of "of_nat qos"] assms(4) c2(3) by (auto simp: id_bytes_def length_mqtt_str)
  show ?thesis
    using fini_message_built [OF c3(2), of MQTT_MSG_TYPE_SUBSCRIBE 0 1 0] draw_nonzero [OF assms(3)]
      c1(1) c2(1,3) c3(1,3) k assms(4)
    by (auto simp: mqtt_msg_subscribe_def g Let_def packet_def id_bytes_def)
qed

lemma unsubscribe_shape:
  assumes "has_buffer c" and "t \<noteq> []" and "draw_message_id rand = Some mid"
    and "3 + 2 + (length t + 2) \<le> buffer_length c"
  shows "\<exists>c'. mqtt_msg_unsubscribe c (Some t) rand = Some (c', Some mid) \<and>
    wire c' = packet MQTT_MSG_TYPE_UNSUBSCRIBE 0 1 0 (id_bytes mid @ mqtt_str t) \<and>
    msg_data c' + msg_length c' \<le> buffer_length c"
proof -
  have g: "given (Some t) = Some t" using assms(2) by (simp add: given_def)
  have l0: "buffer_length (init_message c) = buffer_length c" by (simp add: init_message_def)
  obtain c1 where c1: "append_message_id (init_message c) 0 rand = Some (mid, c1)"
      "built c1 (id_bytes mid)" "buffer_length c1 = buffer_length c"
    using append_message_id_built [OF built_init [OF assms(1)], of 0 rand mid] assms(3,4) l0 by auto
  obtain c2 where c2: "append_string c1 t (length t) = Some (int (length t) + 2, c2)"
      "built c2 (id_bytes mid @ mqtt_str t)" "buffer_length c2 = buffer_length c"
    using append_string_built [OF c1(2), of "length t" t] assms(4) c1(3) by (auto simp: id_bytes_def)
  show ?thesis
    using fini_message_built [OF c2(2), of MQTT_MSG_TYPE_UNSUBSCRIBE 0 1 0] draw_nonzero [OF assms(3)]
      c1(1) c2(1,3) assms(4)
    by (auto simp: mqtt_msg_unsubscribe_def g Let_def)
qed

text \<open>What the receiver reads out of a buffer that starts with a publish message of \<open>len\<close> bytes.\<close>

definition reads_publish ::
  "byte list \<Rightarrow> nat \<Rightarrow> byte list \<Rightarrow> byte list \<Rightarrow> nat \<Rightarrow> nat \<Rightarrow> u16 \<Rightarrow> bool" where
  "reads_publish buf len t pdata qos retain mid \<longleftrightarrow>
     mqtt_get_type buf = Some MQTT_MSG_TYPE_PUBLISH \<and> mqtt_get_dup buf = Some 0 \<and>
     mqtt_get_qos buf = Some qos \<and> mqtt_get_retain buf = Some retain \<and>
     mqtt_get_total_length buf (length buf) = Some len \<and>
     (\<exists>k. mqtt_get_publish_topic buf (length buf) = Some (Some k, length t) \<and> take (length t) (drop k buf) = t) \<and>
     (\<exists>k. mqtt_get_publish_data buf (length buf) = Some (Some k, length pdata) \<and>
        take (length pdata) (drop k buf) = pdata) \<and>
     mqtt_get_id buf (length buf) = Some mid"


text \<open>A connection with a buffer of 64 bytes, for the witnesses.\<close>

definition conn64 :: mqtt_connection where
  "conn64 = mqtt_msg_init (replicate 64 0) 64"


text \<open>
  The CONNECT packet is the one of MQTT 3.1.1. With a client id and a will message of its
  stated length, \<open>mqtt_msg_connect\<close> writes the fixed header, protocol name and level, the flags
  that say which fields follow, the keep-alive and the fields in their order, when they fit into
  the buffer, and fails with an empty message when they do not; it never leaves the buffer.
\<close>

theorem mqtt_connect_packet:
  assumes "has_buffer c" and "given (client_id info) = Some cid"
    and "will_length info \<le> length (will_message info)"
  shows "\<exists>c'. mqtt_msg_connect c info = Some c' \<and>
    (if 3 + length (connect_body info cid) \<le> buffer_length c
     then wire c' = packet MQTT_MSG_TYPE_CONNECT 0 0 0 (connect_body info cid) \<and>
       msg_length c' = length (packet MQTT_MSG_TYPE_CONNECT 0 0 0 (connect_body info cid)) \<and>
       msg_data c' + msg_length c' \<le> buffer_length c
     else msg_length c' = 0)"
  using assms by (rule connect_shape)

definition sample_info :: mqtt_connect_info where
  "sample_info = \<lparr>client_id = Some [0x64, 0x64], username = Some [0x75], password = Some [],
     will_topic = Some [0x77], will_message = [0x62, 0x79, 0x65], keepalive = 300, will_length = 3,
     will_qos = 1, will_retain = True, clean_session = True\<rparr>"

theorem mqtt_connect_packet_witness:
  "\<exists>c'. mqtt_msg_connect conn64 sample_info = Some c' \<and>
     wire c' = [0x10, 25, 0, 4, 0x4d, 0x51, 0x54, 0x54, 4, 0xae, 1, 44, 0, 2, 0x64, 0x64,
       0, 1, 0x77, 0, 3, 0x62, 0x79, 0x65, 0, 1, 0x75]"
proof -
  have "connect_body sample_info [0x64, 0x64] = [0, 4, 0x4d, 0x51, 0x54, 0x54, 4, 0xae, 1, 44, 0, 2, 0x64, 0x64,
       0, 1, 0x77, 0, 3, 0x62, 0x79, 0x65, 0, 1, 0x75]"
    "header_byte 1 0 0 0 = 0x10"
    by code_simp+
  then show ?thesis
    using mqtt_connect_packet [of conn64 sample_info "[0x64, 0x64]"]
    by (auto simp: has_buffer_def conn64_def mqtt_msg_init_def sample_info_def given_def packet_def
        remaining_length_bytes_def)
qed

text \<open>
  Each of the four acknowledgements carries its message id over the wire: for an id that is
  not zero and a buffer of five bytes, the message is built inside the buffer and its receiver
  reads the right type and that id.
\<close>

theorem mqtt_ack_roundtrip:
  assumes "has_buffer c" and "5 \<le> buffer_length c" and "mid \<noteq> 0"
    and "(type, build) \<in> {(MQTT_MSG_TYPE_PUBACK, mqtt_msg_puback), (MQTT_MSG_TYPE_PUBREC, mqtt_msg_pubrec),
      (MQTT_MSG_TYPE_PUBREL, mqtt_msg_pubrel), (MQTT_MSG_TYPE_PUBCOMP, mqtt_msg_pubcomp)}"
  shows "\<exists>c'. build c mid rand = Some c' \<and> msg_data c' + msg_length c' \<le> buffer_length c \<and>
    mqtt_get_type (wire c') = Some type \<and> mqtt_get_id (wire c') 4 = Some mid"
proof -
  obtain qos where qos: "build c mid rand = mqtt_msg_ack type qos c mid rand" "qos < 4" "type \<in> {4, 5, 6, 7, 8, 9, 11}"
    using assms(4)
    by (auto simp: mqtt_msg_puback_def mqtt_msg_pubrec_def mqtt_msg_pubrel_def mqtt_msg_pubcomp_def)
  obtain c' where c': "mqtt_msg_ack type qos c mid rand = Some c'" "wire c' = packet type 0 qos 0 (id_bytes mid @ [])"
      "msg_data c' + msg_length c' \<le> buffer_length c"
    using ack_shape [OF assms(1-3), of type qos rand] by auto
  show ?thesis
    using qos(1) c' id_read [OF qos(3,2) _ c'(2), of 4] by simp
qed

theorem mqtt_ack_roundtrip_witness:
  "\<exists>c'. mqtt_msg_pubrel conn64 0xbeef [] = Some c' \<and> mqtt_get_id (wire c') 4 = Some 0xbeef"
  using mqtt_ack_roundtrip [of conn64 "0xbeef" MQTT_MSG_TYPE_PUBREL mqtt_msg_pubrel "[]"]
  by (auto simp: has_buffer_def conn64_def mqtt_msg_init_def)

text \<open>
  SUBSCRIBE and UNSUBSCRIBE are the packets of the standard and carry the drawn id: the id, the
  topic and, for SUBSCRIBE, the requested quality of service, under the first byte with the
  reserved flags; the receiver reads the id out of a SUBSCRIBE with a short topic.
\<close>

theorem mqtt_subscribe_packets:
  assumes "has_buffer c" and "t \<noteq> []" and "draw_message_id rand = Some mid"
    and "8 + length t \<le> buffer_length c"
  shows "(\<exists>c'. mqtt_msg_subscribe c (Some t) qos rand = Some (c', Some mid) \<and>
      wire c' = packet MQTT_MSG_TYPE_SUBSCRIBE 0 1 0 (id_bytes mid @ mqtt_str t @ [of_nat qos]) \<and>
      (if length t < 123 then mqtt_get_id (wire c') (msg_length c') = Some mid else True) \<and>
      msg_data c' + msg_length c' \<le> buffer_length c) \<and>
    (\<exists>c'. mqtt_msg_unsubscribe c (Some t) rand = Some (c', Some mid) \<and>
      wire c' = packet MQTT_MSG_TYPE_UNSUBSCRIBE 0 1 0 (id_bytes mid @ mqtt_str t) \<and>
      msg_data c' + msg_length c' \<le> buffer_length c)"
proof -
  obtain c1 where c1: "mqtt_msg_subscribe c (Some t) qos rand = Some (c1, Some mid)"
      "wire c1 = packet MQTT_MSG_TYPE_SUBSCRIBE 0 1 0 (id_bytes mid @ mqtt_str t @ [of_nat qos])"
      "msg_data c1 + msg_length c1 \<le> buffer_length c" "4 \<le> msg_length c1"
    using subscribe_shape [OF assms(1-3), of qos] assms(4) by auto
  have "mqtt_get_id (wire c1) (msg_length c1) = Some mid" if "length t < 123"
    using id_read(2) [OF _ _ _ c1(2) c1(4)] that by (simp add: length_mqtt_str)
  moreover obtain c2 where "mqtt_msg_unsubscribe c (Some t) rand = Some (c2, Some mid)"
      "wire c2 = packet MQTT_MSG_TYPE_UNSUBSCRIBE 0 1 0 (id_bytes mid @ mqtt_str t)"
      "msg_data c2 + msg_length c2 \<le> buffer_length c"
    using unsubscribe_shape [OF assms(1-3)] assms(4) by auto
  ultimately show ?thesis using c1 by auto
qed

theorem mqtt_subscribe_packets_witness:
  "\<exists>c'. mqtt_msg_subscribe conn64 (Some [0x61]) 1 [7] = Some (c', Some 7) \<and>
     wire c' = [0x82, 6, 0, 7, 0, 1, 0x61, 1]"
proof -
  have "header_byte 8 0 1 0 = 0x82" "id_bytes 7 = [0, 7]" by code_simp+
  then show ?thesis
    using mqtt_subscribe_packets [of conn64 "[0x61]" "[7]" 7 1]
    by (auto simp: has_buffer_def conn64_def mqtt_msg_init_def small_packet mqtt_str_def)
qed

subsection \<open>Memory safety of the readers on any input\<close>

definition field_ends :: "byte list \<Rightarrow> nat \<Rightarrow> bool" where
  "field_ends buf n \<longleftrightarrow> n \<le> 5 \<or> list_ex (\<lambda>i. buf ! i AND 0x80 = 0) [1, 2, 3, 4]"

lemma seven_bits: "unat (b AND 0x7f :: byte) < 128"
proof -
  have "b AND 0x7f = take_bit 7 b" by (simp add: take_bit_eq_mask mask_eq_exp_minus_1)
  then have "unat (b AND 0x7f) = take_bit 7 (unat b)" by (simp only: unsigned_take_bit_eq)
  then show ?thesis by (simp only: take_bit_eq_mod) simp
qed

lemma length_field_safe:
  assumes "n \<le> length buf" and "1 \<le> i"
    and "n \<le> 5 \<or> (\<exists>j. i \<le> j \<and> j < 5 \<and> buf ! j AND 0x80 = 0)"
  shows "\<exists>v i'. length_field buf n i t = Some (v, i') \<and> i' \<le> max i n"
  using assms
proof (induction buf n i t rule: length_field.induct)
  case (1 buf n i t)
  show ?case
  proof (cases "i < n")
    case False
    then show ?thesis by (simp add: length_field.simps [of buf n i])
  next
    case True
    with 1(2,4) have i5: "i < 5" by auto
    let ?v = "unat (buf ! i AND 0x7f)"
    have "7 * (i - 1) \<le> 21" using i5 by simp
    then have "?v * 2 ^ (7 * (i - 1)) \<le> 127 * 2 ^ 21"
      using seven_bits [of "buf ! i"] by (intro mult_mono power_increasing) auto
    then have sh: "shl_int ?v (7 * (i - 1)) = Some (?v * 2 ^ (7 * (i - 1)))"
      using \<open>7 * (i - 1) \<le> 21\<close> by (simp add: shl_int_def)
    have rdi: "rd buf i = Some (buf ! i)" using True 1(2) by (simp add: mem_simps)
    show ?thesis
    proof (cases "buf ! i AND 0x80 = 0")
      case c: True
      then show ?thesis using True rdi sh by (simp add: length_field.simps [of buf n i])
    next
      case c: False
      have "n \<le> 5 \<or> (\<exists>j\<ge>i + 1. j < 5 \<and> buf ! j AND 0x80 = 0)"
        using 1(4) c by (metis Suc_eq_plus1 Suc_leI le_neq_implies_less)
      then have "\<exists>v i'. length_field buf n (i + 1) (t + ?v * 2 ^ (7 * (i - 1))) = Some (v, i') \<and> i' \<le> max (i + 1) n"
        using 1(1) [OF True rdi sh c] 1(2,3) by simp
      then show ?thesis using True rdi sh c by (auto simp add: length_field.simps [of buf n i])
    qed
  qed
qed

lemma skip_length_safe:
  "n \<le> length buf \<Longrightarrow> \<exists>i'. skip_length buf n i = Some i' \<and> i' \<le> max i n"
proof (induction buf n i rule: skip_length.induct)
  case (1 buf n i)
  show ?case
  proof (cases "i < n")
    case False
    then show ?thesis by (simp add: skip_length.simps [of buf n i])
  next
    case True
    then have rdi: "rd buf i = Some (buf ! i)" using 1(2) by (simp add: mem_simps)
    show ?thesis
    proof (cases "buf ! i AND 0x80 = 0")
      case c: True
      then show ?thesis using True rdi by (simp add: skip_length.simps [of buf n i])
    next
      case c: False
      from 1(1) [OF True rdi c 1(2)] True rdi c show ?thesis
        by (auto simp: skip_length.simps [of buf n i])
    qed
  qed
qed

text \<open>
  C29. Reading a packet that came from the network is memory safe and free of integer overflow
  whenever its length field ends within its four bytes (or the packet has at most five): every
  reader returns, and the topic and the data it points to lie inside the packet.
\<close>

theorem mqtt_readers_safe:
  assumes "n \<le> length buf" and "0 < n" and "field_ends buf n"
  shows "(\<exists>len. mqtt_get_total_length buf n = Some len) \<and>
    (\<exists>t. mqtt_get_publish_topic buf n = Some t \<and> (case t of (Some k, l) \<Rightarrow> k + l \<le> n | (None, _) \<Rightarrow> True)) \<and>
    (\<exists>d. mqtt_get_publish_data buf n = Some d \<and> (case d of (Some k, l) \<Rightarrow> k + l \<le> n | (None, _) \<Rightarrow> True)) \<and>
    (\<exists>mid. mqtt_get_id buf n = Some mid)"
proof -
  have ends: "n \<le> 5 \<or> (\<exists>j. 1 \<le> j \<and> j < 5 \<and> buf ! j AND 0x80 = 0)"
    using assms(3) unfolding field_ends_def by (auto simp: numeral_eq_Suc)
  obtain v i where lf: "length_field buf n 1 0 = Some (v, i)" and i: "i \<le> max 1 n"
    using length_field_safe [OF assms(1) _ ends, of 0] by auto
  obtain i' where sk: "skip_length buf n 1 = Some i'" and i': "i' \<le> max 1 n"
    using skip_length_safe [OF assms(1), of 1] by auto
  have rds: "rd buf k = Some (buf ! k)" if "k < n" for k
    using that assms(1) by (simp add: mem_simps)
  have q: "\<exists>q. mqtt_get_qos buf = Some q" "\<exists>ty. mqtt_get_type buf = Some ty"
    using rds [of 0] assms(2) by (simp_all add: mqtt_get_qos_def mqtt_get_type_def)
  show ?thesis
  proof (intro conjI)
    show "\<exists>len. mqtt_get_total_length buf n = Some len" using lf by (simp add: mqtt_get_total_length_def)
    show "\<exists>t. mqtt_get_publish_topic buf n = Some t \<and> (case t of (Some k, l) \<Rightarrow> k + l \<le> n | (None, _) \<Rightarrow> True)"
      using lf by (cases "i + 2 \<ge> n") (auto simp: mqtt_get_publish_topic_def Let_def rds)
    show "\<exists>d. mqtt_get_publish_data buf n = Some d \<and> (case d of (Some k, l) \<Rightarrow> k + l \<le> n | (None, _) \<Rightarrow> True)"
      using lf q(1) by (cases "i + 2 \<ge> n") (auto simp: mqtt_get_publish_data_def Let_def rds)
    show "\<exists>mid. mqtt_get_id buf n = Some mid"
      using sk q assms(2) by (cases "i' + 2 \<ge> n") (auto simp: mqtt_get_id_def Let_def rds)
  qed
qed

theorem mqtt_readers_safe_witness:
  "(\<exists>len. mqtt_get_total_length [0x30, 0x85, 0x01, 0, 9] 5 = Some len) \<and>
   (\<exists>mid. mqtt_get_id [0x30, 0x85, 0x01, 0, 9] 5 = Some mid)"
  using mqtt_readers_safe [of 5 "[0x30, 0x85, 0x01, 0, 9]"] by (simp add: field_ends_def)

end
