(* ===== verification/Mqtt_Outbox.thy ===== *)
theory Mqtt_Outbox
  imports Prelude
begin

text \<open>
  The queue of unacknowledged messages, \<open>components/espmqtt/lib/mqtt_outbox.c\<close>. The list behind
  \<open>outbox_handle_t\<close> is an Isabelle list from head to tail; \<open>NULL\<close> results are \<open>None\<close>. Whether the
  two allocations of \<open>outbox_enqueue\<close> succeed are arguments. Ticks are \<open>int\<close> values and their
  difference must be one: a difference out of range is undefined behaviour, the value \<open>None\<close> of
  \<open>outbox_delete_expired\<close>. The sum of the sizes is not wrapped: all the buffers are live at once,
  so it is below the size of the heap.
\<close>

section \<open>Operations\<close>

record outbox_item =
  ob_buffer :: "byte list"
  ob_len :: int
  ob_msg_id :: int
  ob_msg_type :: int
  ob_tick :: int
  ob_retry_count :: int
  ob_pending :: bool

type_synonym outbox = "outbox_item list"


definition outbox_init :: "bool \<Rightarrow> outbox option" where
  "outbox_init alloc = (if alloc then Some [] else None)"

text \<open>The outer option is the \<open>memcpy\<close> of \<open>len\<close> bytes, which must lie in the object \<open>data\<close>; the
  inner one is the returned handle.\<close>

definition outbox_enqueue ::
  "outbox \<Rightarrow> byte list \<Rightarrow> int \<Rightarrow> int \<Rightarrow> int \<Rightarrow> int \<Rightarrow> bool \<Rightarrow> bool \<Rightarrow> (outbox_item option \<times> outbox) option" where
  "outbox_enqueue outbox data len msg_id msg_type tick alloc_item alloc_buffer =
     (if \<not> alloc_item then Some (None, outbox)
      else if \<not> alloc_buffer then Some (None, outbox)
      else if len < 0 \<or> length data < nat len then None
      else let item = \<lparr>ob_buffer = take (nat len) data, ob_len = len, ob_msg_id = msg_id,
                 ob_msg_type = msg_type, ob_tick = tick, ob_retry_count = 0, ob_pending = False\<rparr>
           in Some (Some item, outbox @ [item]))"

definition outbox_get :: "outbox \<Rightarrow> int \<Rightarrow> outbox_item option" where
  "outbox_get outbox msg_id = first_with (\<lambda>item. ob_msg_id item = msg_id) outbox"

definition outbox_dequeue :: "outbox \<Rightarrow> outbox_item option" where
  "outbox_dequeue outbox = first_with (\<lambda>item. \<not> ob_pending item) outbox"

fun outbox_delete :: "outbox \<Rightarrow> int \<Rightarrow> int \<Rightarrow> int \<times> outbox" where
  "outbox_delete [] msg_id msg_type = (ESP_FAIL, [])"
| "outbox_delete (item # rest) msg_id msg_type =
     (if ob_msg_id item = msg_id \<and> ob_msg_type item = msg_type then (ESP_OK, rest)
      else let (err, rest') = outbox_delete rest msg_id msg_type in (err, item # rest'))"

fun outbox_delete_msgid :: "outbox \<Rightarrow> int \<Rightarrow> int \<times> outbox" where
  "outbox_delete_msgid [] msg_id = (ESP_OK, [])"
| "outbox_delete_msgid (item # rest) msg_id =
     (let (err, rest') = outbox_delete_msgid rest msg_id
      in (err, if ob_msg_id item = msg_id then rest' else item # rest'))"

definition outbox_set_pending :: "outbox \<Rightarrow> int \<Rightarrow> int \<times> outbox" where
  "outbox_set_pending outbox msg_id =
     (case outbox_get outbox msg_id of
        Some _ \<Rightarrow> (ESP_OK, update_first (\<lambda>item. ob_msg_id item = msg_id) (\<lambda>item. item\<lparr>ob_pending := True\<rparr>) outbox)
      | None \<Rightarrow> (ESP_FAIL, outbox))"

fun outbox_delete_msgtype :: "outbox \<Rightarrow> int \<Rightarrow> int \<times> outbox" where
  "outbox_delete_msgtype [] msg_type = (ESP_OK, [])"
| "outbox_delete_msgtype (item # rest) msg_type =
     (let (err, rest') = outbox_delete_msgtype rest msg_type
      in (err, if ob_msg_type item = msg_type then rest' else item # rest'))"

definition in_int :: "int \<Rightarrow> bool" where
  "in_int v \<longleftrightarrow> - (2 ^ 31) \<le> v \<and> v < 2 ^ 31"

fun outbox_delete_expired :: "outbox \<Rightarrow> int \<Rightarrow> int \<Rightarrow> (int \<times> outbox) option" where
  "outbox_delete_expired [] current_tick timeout = Some (ESP_OK, [])"
| "outbox_delete_expired (item # rest) current_tick timeout =
     (if \<not> in_int (current_tick - ob_tick item) then None
      else do { (err, rest') \<leftarrow> outbox_delete_expired rest current_tick timeout;
                Some (err, if current_tick - ob_tick item > timeout then rest' else item # rest') })"

fun outbox_get_size :: "outbox \<Rightarrow> int" where
  "outbox_get_size [] = 0"
| "outbox_get_size (item # rest) = ob_len item + outbox_get_size rest"

text \<open>Each pass of the loop removes one item, so it ends.\<close>

function outbox_cleanup :: "outbox \<Rightarrow> int \<Rightarrow> int \<times> outbox" where
  "outbox_cleanup outbox max_size =
     (if outbox_get_size outbox > max_size
      then case outbox_dequeue outbox of
             None \<Rightarrow> (ESP_FAIL, outbox)
           | Some _ \<Rightarrow> outbox_cleanup (remove_first (\<lambda>item. \<not> ob_pending item) outbox) max_size
      else (ESP_OK, outbox))"
  by pat_completeness auto
termination
proof (relation "measure (\<lambda>(outbox, max_size). length outbox)", goal_cases)
  case (2 outbox max_size item)
  then have "length outbox > 0" by (cases outbox) (auto simp: outbox_dequeue_def)
  with 2 show ?case by (simp add: outbox_dequeue_def remove_first_length)
qed simp

declare outbox_cleanup.simps [simp del]

text \<open>\<open>outbox_destroy\<close> frees the list head; the result is what is still allocated then.\<close>

definition outbox_destroy :: "outbox \<Rightarrow> outbox" where
  "outbox_destroy outbox = snd (outbox_cleanup outbox 0)"

section \<open>The list as a queue searched by message id\<close>

lemmas outbox_defs = outbox_get_def outbox_dequeue_def outbox_set_pending_def

interpretation outbox_list: keyed_list "\<lambda>outbox. outbox" ob_msg_id "\<lambda>k outbox. outbox_get outbox k"
  "\<lambda>item outbox. outbox @ [item]"
  by unfold_locales (auto simp: outbox_get_def)

lemma outbox_delete_eq:
  "outbox_delete outbox i t =
     (if \<exists>item \<in> set outbox. ob_msg_id item = i \<and> ob_msg_type item = t then ESP_OK else ESP_FAIL,
      remove_first (\<lambda>item. ob_msg_id item = i \<and> ob_msg_type item = t) outbox)"
  by (induction outbox) (auto simp: Let_def split: prod.splits)

lemma outbox_delete_msgid_eq:
  "outbox_delete_msgid outbox i = (ESP_OK, filter (\<lambda>item. ob_msg_id item \<noteq> i) outbox)"
  by (induction outbox) auto

lemma outbox_delete_msgtype_eq:
  "outbox_delete_msgtype outbox t = (ESP_OK, filter (\<lambda>item. ob_msg_type item \<noteq> t) outbox)"
  by (induction outbox) auto

lemma outbox_delete_expired_eq:
  "outbox_delete_expired outbox now timeout =
     (if list_all (\<lambda>item. in_int (now - ob_tick item)) outbox
      then Some (ESP_OK, filter (\<lambda>item. now - ob_tick item \<le> timeout) outbox) else None)"
  by (induction outbox) auto

lemma outbox_size_append: "outbox_get_size (xs @ ys) = outbox_get_size xs + outbox_get_size ys"
  by (induction xs) auto

lemma first_with_split:
  "first_with p xs = Some x \<Longrightarrow> \<exists>ys zs. xs = ys @ x # zs \<and> p x \<and> list_all (\<lambda>y. \<not> p y) ys"
proof (induction xs)
  case (Cons a xs)
  show ?case
  proof (cases "p a")
    case True
    then show ?thesis using Cons.prems by (intro exI [of _ "[]"] exI [of _ xs]) simp
  next
    case False
    then obtain ys zs where "xs = ys @ x # zs" "p x" "list_all (\<lambda>y. \<not> p y) ys"
      using Cons by auto
    then show ?thesis using False by (intro exI [of _ "a # ys"] exI [of _ zs]) simp
  qed
qed simp

lemma remove_first_split:
  "p x \<Longrightarrow> list_all (\<lambda>y. \<not> p y) ys \<Longrightarrow> remove_first p (ys @ x # zs) = ys @ zs"
  by (induction ys) auto

section \<open>Making room\<close>

text \<open>The first \<open>k\<close> items that are not pending taken away: what \<open>k\<close> passes of the loop leave.\<close>

fun drop_unsent :: "nat \<Rightarrow> outbox \<Rightarrow> outbox" where
  "drop_unsent 0 outbox = outbox"
| "drop_unsent (Suc k) outbox = drop_unsent k (remove_first (\<lambda>item. \<not> ob_pending item) outbox)"

lemma filter_pending_remove_first:
  "filter ob_pending (remove_first (\<lambda>item. \<not> ob_pending item) xs) = filter ob_pending xs"
  by (induction xs) auto

lemma filter_unsent_remove_first:
  "filter (\<lambda>item. \<not> ob_pending item) (remove_first (\<lambda>item. \<not> ob_pending item) xs) =
     tl (filter (\<lambda>item. \<not> ob_pending item) xs)"
  by (induction xs) auto

lemma drop_unsent_pending: "filter ob_pending (drop_unsent k xs) = filter ob_pending xs"
  by (induction k arbitrary: xs) (simp_all add: filter_pending_remove_first)

lemma drop_unsent_unsent:
  "filter (\<lambda>item. \<not> ob_pending item) (drop_unsent k xs) = drop k (filter (\<lambda>item. \<not> ob_pending item) xs)"
  by (induction k arbitrary: xs) (simp_all add: filter_unsent_remove_first drop_Suc)

lemma dequeue_None_iff: "outbox_dequeue xs = None \<longleftrightarrow> filter (\<lambda>item. \<not> ob_pending item) xs = []"
  by (auto simp: outbox_dequeue_def first_with_None_iff filter_empty_conv)

lemma dequeue_None_pending: "outbox_dequeue xs = None \<Longrightarrow> list_all ob_pending xs"
  by (auto simp: outbox_dequeue_def first_with_None_iff list_all_iff)

lemma cleanup_runs:
  "\<exists>k. snd (outbox_cleanup xs m) = drop_unsent k xs \<and>
     (\<forall>j < k. outbox_get_size (drop_unsent j xs) > m \<and> outbox_dequeue (drop_unsent j xs) \<noteq> None) \<and>
     (if outbox_get_size (drop_unsent k xs) \<le> m then fst (outbox_cleanup xs m) = ESP_OK
      else fst (outbox_cleanup xs m) = ESP_FAIL \<and> outbox_dequeue (drop_unsent k xs) = None)"
proof (induction xs m rule: outbox_cleanup.induct)
  case (1 xs m)
  show ?case
  proof (cases "outbox_get_size xs > m \<and> outbox_dequeue xs \<noteq> None")
    case False
    then show ?thesis by (intro exI [of _ 0]) (auto simp: outbox_cleanup.simps [of xs m])
  next
    case True
    then obtain item where item: "outbox_dequeue xs = Some item" by auto
    let ?ys = "remove_first (\<lambda>item. \<not> ob_pending item) xs"
    have step: "outbox_cleanup xs m = outbox_cleanup ?ys m"
      using True item by (simp add: outbox_cleanup.simps [of xs m])
    from 1 [OF _ item] True obtain k where k: "snd (outbox_cleanup ?ys m) = drop_unsent k ?ys"
      "\<forall>j < k. outbox_get_size (drop_unsent j ?ys) > m \<and> outbox_dequeue (drop_unsent j ?ys) \<noteq> None"
      "if outbox_get_size (drop_unsent k ?ys) \<le> m then fst (outbox_cleanup ?ys m) = ESP_OK
       else fst (outbox_cleanup ?ys m) = ESP_FAIL \<and> outbox_dequeue (drop_unsent k ?ys) = None"
      by blast
    have "outbox_get_size (drop_unsent j xs) > m \<and> outbox_dequeue (drop_unsent j xs) \<noteq> None" if "j < Suc k" for j
      using that True k(2) by (cases j) auto
    then show ?thesis using k(1,3) by (intro exI [of _ "Suc k"]) (simp add: step)
  qed
qed


text \<open>
  Making room in the outbox throws away the oldest unsent messages and only as many as it
  must: what \<open>outbox_cleanup\<close> leaves has every pending message in its order, and of the others all
  but the first \<open>k\<close>, where with fewer than \<open>k\<close> removed the outbox is still too big; it returns
  success exactly when the rest fits, and fails only when every message left is pending.
\<close>

theorem outbox_cleanup_minimal:
  "\<exists>k. (let (err, ys) = outbox_cleanup xs m in
      filter ob_pending ys = filter ob_pending xs \<and>
      filter (\<lambda>item. \<not> ob_pending item) ys = drop k (filter (\<lambda>item. \<not> ob_pending item) xs) \<and>
      list_all (\<lambda>j. outbox_get_size (drop_unsent j xs) > m) [0..<k] \<and>
      (if outbox_get_size ys \<le> m then err = ESP_OK else err = ESP_FAIL \<and> list_all ob_pending ys))"
proof -
  obtain k where k: "snd (outbox_cleanup xs m) = drop_unsent k xs"
      "\<forall>j < k. outbox_get_size (drop_unsent j xs) > m \<and> outbox_dequeue (drop_unsent j xs) \<noteq> None"
      "if outbox_get_size (drop_unsent k xs) \<le> m then fst (outbox_cleanup xs m) = ESP_OK
       else fst (outbox_cleanup xs m) = ESP_FAIL \<and> outbox_dequeue (drop_unsent k xs) = None"
    using cleanup_runs [of xs m] by blast
  show ?thesis
    using k dequeue_None_pending [of "drop_unsent k xs"]
    by (intro exI [of _ k])
      (simp add: case_prod_unfold Let_def drop_unsent_pending drop_unsent_unsent list_all_iff
        split: if_splits)
qed

text \<open>
  Destroying the outbox leaks the messages that wait for their acknowledgement: when every
  message has a size, exactly the pending ones are still allocated after \<open>outbox_destroy\<close>.
\<close>

theorem outbox_destroy_leaks_pending:
  assumes "list_all (\<lambda>item. ob_len item > 0) xs"
  shows "outbox_destroy xs = filter ob_pending xs"
  using assms
proof (induction "length xs" arbitrary: xs)
  case 0
  then show ?case by (simp add: outbox_destroy_def outbox_cleanup.simps)
next
  case (Suc n)
  have size: "outbox_get_size ys > 0" if "list_all (\<lambda>item. ob_len item > 0) ys" "ys \<noteq> []" for ys
    using that by (induction ys) (auto, fastforce)
  show ?case
  proof (cases "outbox_dequeue xs")
    case None
    then have "filter ob_pending xs = xs" by (simp add: dequeue_None_iff filter_empty_conv filter_id_conv)
    then show ?thesis using None by (simp add: outbox_destroy_def outbox_cleanup.simps [of xs])
  next
    case (Some item)
    let ?ys = "remove_first (\<lambda>item. \<not> ob_pending item) xs"
    have "xs \<noteq> []" using Suc.hyps(2) by auto
    then have "outbox_destroy xs = outbox_destroy ?ys"
      using size [OF Suc.prems] Some by (simp add: outbox_destroy_def outbox_cleanup.simps [of xs])
    moreover have "n = length ?ys" using Suc.hyps(2) Some by (simp add: remove_first_length outbox_dequeue_def)
    moreover have "list_all (\<lambda>item. ob_len item > 0) ?ys"
      using Suc.prems remove_first_subset [of _ xs] by (auto simp: list_all_iff)
    ultimately show ?thesis using Suc.hyps(1) [of ?ys] by (simp add: filter_pending_remove_first)
  qed
qed

definition sample_item :: "int \<Rightarrow> bool \<Rightarrow> outbox_item" where
  "sample_item i pend = \<lparr>ob_buffer = [1, 2], ob_len = 2, ob_msg_id = i, ob_msg_type = 3, ob_tick = 0,
     ob_retry_count = 0, ob_pending = pend\<rparr>"

theorem outbox_destroy_leaks_pending_witness:
  "outbox_destroy [sample_item 1 False, sample_item 2 True, sample_item 3 False] = [sample_item 2 True]"
  using outbox_destroy_leaks_pending [of "[sample_item 1 False, sample_item 2 True, sample_item 3 False]"]
  by (simp add: sample_item_def)

text \<open>
  The life of an acknowledged message. A message queued under a fresh id keeps a copy of its
  bytes and is found under that id; once it is pending it is not sent again; an acknowledgement of
  another type or id leaves the outbox as it is, and the right one takes it out and restores the
  outbox as it was before.
\<close>

theorem outbox_message_lifecycle:
  assumes "outbox_get xs i = None" and "0 \<le> len" and "nat len \<le> length data"
  shows "\<exists>item ys zs. outbox_enqueue xs data len i ty tick True True = Some (Some item, ys) \<and>
    ob_buffer item = take (nat len) data \<and> outbox_get ys i = Some item \<and>
    outbox_get_size ys = outbox_get_size xs + len \<and>
    outbox_set_pending ys i = (ESP_OK, zs) \<and> outbox_dequeue zs = outbox_dequeue xs \<and>
    outbox_delete zs i ty = (ESP_OK, xs) \<and>
    (if ty' = ty then True else outbox_delete zs i ty' = (ESP_FAIL, zs)) \<and>
    (if outbox_get xs i' = None \<and> i' \<noteq> i then outbox_delete zs i' ty = (ESP_FAIL, zs) else True)"
proof -
  define item where "item = \<lparr>ob_buffer = take (nat len) data, ob_len = len, ob_msg_id = i,
     ob_msg_type = ty, ob_tick = tick, ob_retry_count = 0, ob_pending = False\<rparr>"
  let ?p = "item\<lparr>ob_pending := True\<rparr>"
  have new: "ob_msg_id x \<noteq> i" if "x \<in> set xs" for x
    using assms(1) that by (auto simp: outbox_get_def first_with_None_iff)
  have get: "outbox_get (xs @ [item]) i = Some item"
    using assms(1) by (simp add: outbox_get_def first_with_append item_def)
  have upd: "update_first (\<lambda>x. ob_msg_id x = i) (\<lambda>x. x\<lparr>ob_pending := True\<rparr>) (xs @ [item]) = xs @ [?p]"
    using new by (induction xs) (auto simp: item_def)
  have none: "outbox_delete (xs @ [?p]) k t = (ESP_FAIL, xs @ [?p])"
    if "(k = i \<and> t \<noteq> ty) \<or> (k \<noteq> i \<and> outbox_get xs k = None)" for k t
  proof -
    have "first_with (\<lambda>x. ob_msg_id x = k \<and> ob_msg_type x = t) (xs @ [?p]) = None"
      using that new by (auto simp: first_with_None_iff item_def outbox_get_def)
    then show ?thesis by (auto simp: outbox_delete_eq first_with_None_iff remove_first_none)
  qed
  have del: "outbox_delete (xs @ [?p]) i ty = (ESP_OK, xs)"
    using new remove_first_split [of "\<lambda>x. ob_msg_id x = i \<and> ob_msg_type x = ty" ?p xs "[]"]
    by (auto simp: outbox_delete_eq item_def list_all_iff)
  have deq: "outbox_dequeue (xs @ [?p]) = outbox_dequeue xs"
    by (simp add: outbox_dequeue_def first_with_append split: option.splits)
  have enq: "outbox_enqueue xs data len i ty tick True True = Some (Some item, xs @ [item])"
    using assms(2,3) by (simp add: outbox_enqueue_def item_def Let_def)
  have pend: "outbox_set_pending (xs @ [item]) i = (ESP_OK, xs @ [?p])"
    by (simp only: outbox_set_pending_def get upd option.case)
  have "ob_buffer item = take (nat len) data" "outbox_get_size (xs @ [item]) = outbox_get_size xs + len"
    by (simp_all add: item_def outbox_size_append)
  moreover have "if ty' = ty then True else outbox_delete (xs @ [?p]) i ty' = (ESP_FAIL, xs @ [?p])"
    "if outbox_get xs i' = None \<and> i' \<noteq> i then outbox_delete (xs @ [?p]) i' ty = (ESP_FAIL, xs @ [?p]) else True"
    using none [of i ty'] none [of i' ty] by simp_all
  ultimately show ?thesis using enq get pend deq del by blast
qed

theorem outbox_message_lifecycle_witness:
  "\<exists>item ys zs. outbox_enqueue [sample_item 1 False] [7, 8, 9] 2 5 3 0 True True = Some (Some item, ys) \<and>
     ob_buffer item = [7, 8] \<and> outbox_set_pending ys 5 = (ESP_OK, zs) \<and>
     outbox_delete zs 5 3 = (ESP_OK, [sample_item 1 False])"
  using outbox_message_lifecycle [of "[sample_item 1 False]" 5 2 "[7, 8, 9]" 3 0 4 6]
  by (auto simp: outbox_get_def sample_item_def)

end
