(* ===== verification/Transport.thy ===== *)
theory Transport
  imports Prelude
begin

text \<open>
  Transports of the MQTT client: the table of functions and the list of
  \<open>components/espmqtt/lib/transport.c\<close>, and the TCP transport
  \<open>components/espmqtt/lib/transport_tcp.c\<close>.

  The socket layer (lwIP) is the environment. It is modelled by the outcomes its calls will have,
  in order, in the fields of \<open>net\<close>; every call takes the next outcome, and a script that ran out
  gives the outcome of a dead peer. \<open>net_out\<close> collects the bytes the stack accepted. A function
  pointer together with the context it fetches from \<open>t->data\<close> is a function of the remaining
  arguments; \<open>t->data\<close> itself is an opaque address.
\<close>

section \<open>The environment\<close>

record net =
  net_resolves :: "byte list \<Rightarrow> bool"
  net_sockets :: "int list"
  net_connects :: "int list"
  net_polls :: "int list"
  net_reads :: "byte list option list"
  net_writes :: "int list"
  net_closes :: "int list"
  net_out :: "byte list"
  net_rand :: "byte list"
  tcp_sock :: int

definition next_of :: "'a \<Rightarrow> 'a list \<Rightarrow> 'a" where
  "next_of d xs = (case xs of [] \<Rightarrow> d | x # _ \<Rightarrow> x)"

text \<open>\<open>n\<close> bytes of \<open>rand() & 0xFF\<close>.\<close>

definition take_rand :: "nat \<Rightarrow> net \<Rightarrow> byte list \<times> net" where
  "take_rand n w = (take n (net_rand w @ replicate n 0), w\<lparr>net_rand := drop n (net_rand w)\<rparr>)"

text \<open>\<open>select\<close> on the socket: the time it waits is the environment's.\<close>

definition net_select :: "net \<Rightarrow> int \<times> net" where
  "net_select w = (next_of 0 (net_polls w), w\<lparr>net_polls := tl (net_polls w)\<rparr>)"

text \<open>\<open>read(sock, buffer, len)\<close>: at most \<open>len\<close> of the bytes at hand, \<open>-1\<close> on an error.\<close>

definition net_read :: "nat \<Rightarrow> net \<Rightarrow> byte list option \<times> net" where
  "net_read len w = (map_option (take len) (next_of None (net_reads w)), w\<lparr>net_reads := tl (net_reads w)\<rparr>)"

text \<open>\<open>write(sock, buffer, len)\<close>: the stack takes some of the bytes, or fails.\<close>

definition net_write :: "byte list \<Rightarrow> net \<Rightarrow> int \<times> net" where
  "net_write bs w =
     (let n = next_of (-1) (net_writes w); w' = w\<lparr>net_writes := tl (net_writes w)\<rparr>
      in if n < 0 then (-1, w')
         else let k = min (nat n) (length bs) in (int k, w'\<lparr>net_out := net_out w @ take k bs\<rparr>))"

section \<open>The table of functions\<close>

text \<open>A read gets the object behind \<open>buffer\<close> and the length and gives the return value and the
  object; \<open>None\<close> is undefined behaviour. A write may change its buffer as well, since
  \<open>ws_write\<close> casts the \<open>const\<close> away.\<close>

type_synonym connect_func = "byte list \<Rightarrow> int \<Rightarrow> int \<Rightarrow> net \<Rightarrow> (int \<times> net) option"
type_synonym read_func = "byte list \<Rightarrow> nat \<Rightarrow> int \<Rightarrow> net \<Rightarrow> (int \<times> byte list \<times> net) option"
type_synonym write_func = "byte list \<Rightarrow> nat \<Rightarrow> int \<Rightarrow> net \<Rightarrow> (int \<times> byte list \<times> net) option"
type_synonym trans_func = "net \<Rightarrow> int \<times> net"
type_synonym poll_func = "int \<Rightarrow> net \<Rightarrow> int \<times> net"

record transport_item =
  tr_port :: int
  tr_scheme :: "byte list option"
  tr_data :: nat
  tr_connect :: "connect_func option"
  tr_read :: "read_func option"
  tr_write :: "write_func option"
  tr_close :: "trans_func option"
  tr_poll_read :: "poll_func option"
  tr_poll_write :: "poll_func option"
  tr_destroy :: "trans_func option"


definition transport_init :: "bool \<Rightarrow> transport_item option" where
  "transport_init alloc =
     (if alloc then Some \<lparr>tr_port = 0, tr_scheme = None, tr_data = 0, tr_connect = None, tr_read = None,
        tr_write = None, tr_close = None, tr_poll_read = None, tr_poll_write = None, tr_destroy = None\<rparr>
      else None)"

definition transport_connect :: "transport_item option \<Rightarrow> connect_func" where
  "transport_connect t host port timeout_ms w =
     (case t of None \<Rightarrow> Some (-1, w)
      | Some i \<Rightarrow> (case tr_connect i of None \<Rightarrow> Some (-1, w) | Some f \<Rightarrow> f host port timeout_ms w))"

definition transport_read :: "transport_item option \<Rightarrow> read_func" where
  "transport_read t buf len timeout_ms w =
     (case t of None \<Rightarrow> Some (-1, buf, w)
      | Some i \<Rightarrow> (case tr_read i of None \<Rightarrow> Some (-1, buf, w) | Some f \<Rightarrow> f buf len timeout_ms w))"

definition transport_write :: "transport_item option \<Rightarrow> write_func" where
  "transport_write t buf len timeout_ms w =
     (case t of None \<Rightarrow> Some (-1, buf, w)
      | Some i \<Rightarrow> (case tr_write i of None \<Rightarrow> Some (-1, buf, w) | Some f \<Rightarrow> f buf len timeout_ms w))"

definition transport_poll_read :: "transport_item option \<Rightarrow> poll_func" where
  "transport_poll_read t timeout_ms w =
     (case t of None \<Rightarrow> (-1, w)
      | Some i \<Rightarrow> (case tr_poll_read i of None \<Rightarrow> (-1, w) | Some f \<Rightarrow> f timeout_ms w))"

definition transport_poll_write :: "transport_item option \<Rightarrow> poll_func" where
  "transport_poll_write t timeout_ms w =
     (case t of None \<Rightarrow> (-1, w)
      | Some i \<Rightarrow> (case tr_poll_write i of None \<Rightarrow> (-1, w) | Some f \<Rightarrow> f timeout_ms w))"

definition transport_close :: "transport_item option \<Rightarrow> trans_func" where
  "transport_close t w =
     (case t of None \<Rightarrow> (0, w) | Some i \<Rightarrow> (case tr_close i of None \<Rightarrow> (0, w) | Some f \<Rightarrow> f w))"

definition transport_get_context_data :: "transport_item option \<Rightarrow> nat" where
  "transport_get_context_data t = (case t of None \<Rightarrow> 0 | Some i \<Rightarrow> tr_data i)"

definition transport_set_context_data :: "transport_item option \<Rightarrow> nat \<Rightarrow> int \<times> transport_item option" where
  "transport_set_context_data t d =
     (case t of None \<Rightarrow> (ESP_FAIL, None) | Some i \<Rightarrow> (ESP_OK, Some (i\<lparr>tr_data := d\<rparr>)))"

definition transport_set_func ::
  "transport_item option \<Rightarrow> connect_func option \<Rightarrow> read_func option \<Rightarrow> write_func option \<Rightarrow>
     trans_func option \<Rightarrow> poll_func option \<Rightarrow> poll_func option \<Rightarrow> trans_func option \<Rightarrow>
     int \<times> transport_item option" where
  "transport_set_func t c r wrt cl pr pw d =
     (case t of None \<Rightarrow> (ESP_FAIL, None)
      | Some i \<Rightarrow> (ESP_OK, Some (i\<lparr>tr_connect := c, tr_read := r, tr_write := wrt, tr_close := cl,
          tr_poll_read := pr, tr_poll_write := pw, tr_destroy := d\<rparr>)))"

definition transport_get_default_port :: "transport_item option \<Rightarrow> int" where
  "transport_get_default_port t = (case t of None \<Rightarrow> -1 | Some i \<Rightarrow> tr_port i)"

definition transport_set_default_port :: "transport_item option \<Rightarrow> int \<Rightarrow> int \<times> transport_item option" where
  "transport_set_default_port t port =
     (case t of None \<Rightarrow> (ESP_FAIL, None) | Some i \<Rightarrow> (ESP_OK, Some (i\<lparr>tr_port := port\<rparr>)))"

section \<open>The list of transports\<close>

text \<open>\<open>strcasecmp(a, b) == 0\<close>.\<close>

definition same_scheme :: "byte list \<Rightarrow> byte list \<Rightarrow> bool" where
  "same_scheme a b \<longleftrightarrow> lower a = lower b"

type_synonym transport_list = "transport_item list"

definition transport_list_add ::
  "transport_list option \<Rightarrow> transport_item option \<Rightarrow> byte list \<Rightarrow> bool \<Rightarrow> int \<times> transport_list option" where
  "transport_list_add list t scheme alloc =
     (case (list, t) of
        (Some l, Some i) \<Rightarrow>
          if \<not> alloc then (ESP_ERR_NO_MEM, Some l)
          else (ESP_OK, Some (l @ [i\<lparr>tr_scheme := Some scheme\<rparr>]))
      | _ \<Rightarrow> (ESP_ERR_INVALID_ARG, list))"

text \<open>Every transport of a list has a scheme, which \<open>transport_list_add\<close> set.\<close>

definition has_scheme :: "byte list \<Rightarrow> transport_item \<Rightarrow> bool" where
  "has_scheme scheme i = (case tr_scheme i of None \<Rightarrow> False | Some s \<Rightarrow> same_scheme s scheme)"

definition transport_list_get_transport ::
  "transport_list option \<Rightarrow> byte list option \<Rightarrow> transport_item option" where
  "transport_list_get_transport list scheme =
     (case list of None \<Rightarrow> None
      | Some l \<Rightarrow> (case scheme of
           None \<Rightarrow> (case l of [] \<Rightarrow> None | i # _ \<Rightarrow> Some i)
         | Some s \<Rightarrow> first_with (has_scheme s) l))"

fun transport_list_clean :: "transport_list \<Rightarrow> net \<Rightarrow> transport_list \<times> net" where
  "transport_list_clean [] w = ([], w)"
| "transport_list_clean (i # l) w =
     transport_list_clean l (case tr_destroy i of None \<Rightarrow> w | Some f \<Rightarrow> snd (f w))"

section \<open>TCP\<close>

definition tcp_connect :: connect_func where
  "tcp_connect host port timeout_ms w =
     (if \<not> net_resolves w host then Some (-1, w)
      else let sock = next_of (-1) (net_sockets w);
               w1 = w\<lparr>net_sockets := tl (net_sockets w), tcp_sock := sock\<rparr>
           in if sock < 0 then Some (-1, w1)
              else let r = next_of (-1) (net_connects w1); w2 = w1\<lparr>net_connects := tl (net_connects w1)\<rparr>
                   in if r \<noteq> 0 then Some (-1, w2\<lparr>net_closes := tl (net_closes w2), tcp_sock := -1\<rparr>)
                      else Some (sock, w2))"

definition tcp_poll_read :: poll_func where
  "tcp_poll_read timeout_ms w = net_select w"

definition tcp_poll_write :: poll_func where
  "tcp_poll_write timeout_ms w = net_select w"

definition tcp_write :: write_func where
  "tcp_write buf len timeout_ms w =
     (case tcp_poll_write timeout_ms w of (poll, w1) \<Rightarrow>
        if poll \<le> 0 then Some (poll, buf, w1)
        else if length buf < len then None
        else case net_write (take len buf) w1 of (r, w2) \<Rightarrow> Some (r, buf, w2))"

definition tcp_read :: read_func where
  "tcp_read buf len timeout_ms w =
     (case tcp_poll_read timeout_ms w of (poll, w1) \<Rightarrow>
        if poll \<le> 0 then Some (poll, buf, w1)
        else case net_read len w1 of
               (None, w2) \<Rightarrow> Some (-1, buf, w2)
             | (Some bs, w2) \<Rightarrow>
                 do { buf' \<leftarrow> blit buf 0 bs;
                      Some (if bs = [] then -1 else int (length bs), buf', w2) })"

definition tcp_close :: trans_func where
  "tcp_close w =
     (if tcp_sock w \<ge> 0
      then (next_of (-1) (net_closes w), w\<lparr>net_closes := tl (net_closes w), tcp_sock := -1\<rparr>)
      else (-1, w))"

definition tcp_destroy :: trans_func where
  "tcp_destroy w = (0, snd (tcp_close w))"

definition transport_tcp_init :: "bool \<Rightarrow> bool \<Rightarrow> nat \<Rightarrow> transport_item option" where
  "transport_tcp_init alloc_t alloc_tcp addr =
     (if \<not> alloc_tcp then None
      else snd (transport_set_context_data
             (snd (transport_set_func (transport_init alloc_t) (Some tcp_connect) (Some tcp_read)
               (Some tcp_write) (Some tcp_close) (Some tcp_poll_read) (Some tcp_poll_write) (Some tcp_destroy)))
             addr))"


section \<open>The contracts of a transport\<close>

text \<open>
  What a client of the table relies on. A reader keeps the object behind its buffer and never
  reports more bytes than that object has. A writer either reports an error or a number of the
  bytes it was given.
\<close>

locale stream_reader =
  fixes read :: read_func
  assumes read_len: "read buf len tmo w = Some (r, buf', w') \<Longrightarrow> length buf' = length buf"
    and read_bound: "read buf len tmo w = Some (r, buf', w') \<Longrightarrow> r \<le> int (max 1 (length buf))"
begin

lemma read_fits:
  "read buf len tmo w = Some (r, buf', w') \<Longrightarrow> 1 \<le> length buf \<Longrightarrow> 0 \<le> r \<Longrightarrow> nat r \<le> length buf'"
  using read_len [of buf len tmo w r buf' w'] read_bound [of buf len tmo w r buf' w'] by linarith

end

locale stream_writer =
  fixes put :: write_func
    and carries :: "byte list \<Rightarrow> byte list \<Rightarrow> bool"
  assumes write_len: "put buf len tmo w = Some (r, buf', w') \<Longrightarrow> length buf' = length buf"
    and write_sent: "put buf len tmo w = Some (r, buf', w') \<Longrightarrow> len \<le> length buf \<Longrightarrow> 0 < len \<Longrightarrow>
      len < 65536 \<Longrightarrow> r = int len \<Longrightarrow> \<exists>bs. net_out w' = net_out w @ bs \<and> carries bs (take len buf)"
    and write_safe: "len \<le> length buf \<Longrightarrow> put buf len tmo w \<noteq> None"
begin

text \<open>Sending an object as a whole, as the client does.\<close>

definition sends :: "byte list \<Rightarrow> int \<Rightarrow> net \<Rightarrow> net \<Rightarrow> bool" where
  "sends p tmo w w' \<longleftrightarrow> (\<exists>buf'. put p (length p) tmo w = Some (int (length p), buf', w'))"

lemma sends_carries:
  "sends p tmo w w' \<Longrightarrow> p \<noteq> [] \<Longrightarrow> length p < 65536 \<Longrightarrow> \<exists>bs. net_out w' = net_out w @ bs \<and> carries bs p"
  unfolding sends_def using write_sent by fastforce

end

lemma take_rand_length: "take_rand n w = (bs, w') \<Longrightarrow> length bs = n"
  by (auto simp: take_rand_def)

lemma take_rand_out [simp]: "take_rand n w = (bs, w') \<Longrightarrow> net_out w' = net_out w"
  by (auto simp: take_rand_def)

lemma net_select_out [simp]: "net_select w = (r, w') \<Longrightarrow> net_out w' = net_out w"
  by (auto simp: net_select_def)

lemma net_write_out:
  "net_write bs w = (r, w') \<Longrightarrow> r \<noteq> -1 \<Longrightarrow> net_out w' = net_out w @ take (nat r) bs \<and> 0 \<le> r \<and> nat r \<le> length bs"
  by (auto simp: net_write_def Let_def split: if_splits)

lemma net_write_bound: "net_write bs w = (r, w') \<Longrightarrow> -1 \<le> r"
  by (auto simp: net_write_def Let_def split: if_splits)

lemma tcp_read_len:
  "tcp_read buf len tmo w = Some (r, buf', w') \<Longrightarrow> length buf' = length buf \<and> r \<le> int (max 1 (length buf))"
  by (auto simp: tcp_read_def blit_eq_Some_iff split: prod.splits option.splits if_splits bind_splits)

interpretation tcp_in: stream_reader tcp_read
  by unfold_locales (use tcp_read_len in blast)+

lemma tcp_write_sent:
  assumes "tcp_write buf len tmo w = Some (r, buf', w')" and "0 < r"
  shows "len \<le> length buf \<and> net_out w' = net_out w @ take (nat r) buf \<and> nat r \<le> len"
proof -
  obtain poll w1 where p: "tcp_poll_write tmo w = (poll, w1)" by (cases "tcp_poll_write tmo w")
  then have out: "net_out w1 = net_out w" by (simp add: tcp_poll_write_def)
  have pos: "\<not> poll \<le> 0" "len \<le> length buf" using assms p by (auto simp: tcp_write_def split: if_splits)
  obtain n w2 where n: "net_write (take len buf) w1 = (n, w2)" by (cases "net_write (take len buf) w1")
  then have "r = n" "w' = w2" using assms(1) p pos by (auto simp: tcp_write_def)
  moreover have "net_out w2 = net_out w1 @ take (nat n) (take len buf)" "nat n \<le> length (take len buf)"
    using net_write_out [OF n] assms(2) \<open>r = n\<close> by simp_all
  ultimately show ?thesis using pos(2) out by (simp add: min_absorb1 min_absorb2)
qed

interpretation tcp_out: stream_writer tcp_write "\<lambda>bs d. bs = d"
proof
  show "length buf' = length buf" if "tcp_write buf len tmo w = Some (r, buf', w')" for buf len tmo w r buf' w'
    using that by (auto simp: tcp_write_def split: prod.splits if_splits)
  show "\<exists>bs. net_out w' = net_out w @ bs \<and> bs = take len buf"
    if "tcp_write buf len tmo w = Some (r, buf', w')" "len \<le> length buf" "0 < len" "len < 65536" "r = int len"
    for buf len tmo w r buf' w'
    using tcp_write_sent [OF that(1)] that by simp
  show "tcp_write buf len tmo w \<noteq> None" if "len \<le> length buf" for buf len tmo w
    using that by (auto simp: tcp_write_def split: prod.splits)
qed

end
