(* ===== verification/Transport_Ws.thy ===== *)
theory Transport_Ws
  imports Transport
begin

text \<open>
  The WebSocket transport \<open>components/espmqtt/lib/transport_ws.c\<close>: the upgrade handshake, the
  frames it sends and how it reads one. Plain \<open>char\<close> is unsigned on the Xtensa target. The
  context is the record \<open>transport_ws\<close>; base64 and SHA-1 (mbedtls) are arguments.
\<close>

section \<open>Header lines\<close>

text \<open>The loop from the end stops at the first character, which is not a space.\<close>

fun trim_trailing :: "byte list \<Rightarrow> nat \<Rightarrow> byte list" where
  "trim_trailing str 0 = take 1 str"
| "trim_trailing str (Suc k) = (if isspace (str ! Suc k) then trim_trailing str k else take (Suc k + 1) str)"

definition trimwhitespace :: "byte list \<Rightarrow> byte list" where
  "trimwhitespace s =
     (let str = dropWhile isspace s in if str = [] then [] else trim_trailing str (length str - 1))"

definition crlf :: "byte list" where "crlf = [13, 10]"

text \<open>The inner \<open>None\<close> is NULL.\<close>

definition get_http_header :: "byte list \<Rightarrow> byte list \<Rightarrow> byte list option option" where
  "get_http_header buf key =
     do { s \<leftarrow> c_str buf;
          case strstr s key of
            None \<Rightarrow> Some None
          | Some found \<Rightarrow>
              let value = drop (length key) found
              in case strstr value crlf of
                   None \<Rightarrow> Some None
                 | Some found_end \<Rightarrow>
                     Some (Some (trimwhitespace (take (length value - length found_end) value))) }"

section \<open>The handshake\<close>

record transport_ws =
  ws_path :: "byte list"
  ws_buffer :: "byte list"
  ws_parent :: "transport_item option"

abbreviation (input) DEFAULT_WS_BUFFER :: nat where "DEFAULT_WS_BUFFER \<equiv> 1024"

text \<open>\<open>%d\<close>.\<close>

fun nat_digits :: "nat \<Rightarrow> byte list" where
  "nat_digits n = (if n < 10 then [0x30 + of_nat n] else nat_digits (n div 10) @ [0x30 + of_nat (n mod 10)])"

declare nat_digits.simps [simp del]

definition dec_digits :: "int \<Rightarrow> byte list" where
  "dec_digits n = (if n < 0 then 0x2d # nat_digits (nat (- n)) else nat_digits (nat n))"

definition upgrade_request :: "byte list \<Rightarrow> byte list \<Rightarrow> int \<Rightarrow> byte list \<Rightarrow> byte list" where
  "upgrade_request path host port client_key =
     ascii ''GET '' @ path @ ascii '' HTTP/1.1'' @ crlf @
     ascii ''Connection: Upgrade'' @ crlf @
     ascii ''Host: '' @ host @ ascii '':'' @ dec_digits port @ crlf @
     ascii ''Upgrade: websocket'' @ crlf @
     ascii ''Sec-WebSocket-Version: 13'' @ crlf @
     ascii ''Sec-WebSocket-Protocol: mqtt'' @ crlf @
     ascii ''Sec-WebSocket-Key: '' @ client_key @ crlf @
     ascii ''User-Agent: ESP32 MQTT Client'' @ crlf @ crlf"

text \<open>\<open>snprintf(buf, n, \<dots>)\<close> of a string: what fits, and a terminator. Result: the length of the
  whole string and the object.\<close>

definition snprintf :: "byte list \<Rightarrow> nat \<Rightarrow> byte list \<Rightarrow> (nat \<times> byte list) option" where
  "snprintf buf n s =
     do { buf' \<leftarrow> blit buf 0 (take (n - 1) s @ [0]); Some (length s, buf') }"

text \<open>\<open>mbedtls_base64_encode\<close> into an object of \<open>n\<close> zero bytes: nothing is written when the
  encoding and its terminator do not fit. Result: the string then in the object, and \<open>*olen\<close>.\<close>

definition base64_into :: "(byte list \<Rightarrow> byte list) \<Rightarrow> nat \<Rightarrow> byte list \<Rightarrow> byte list \<times> nat" where
  "base64_into b64 n src =
     (let e = b64 src in if length e + 1 \<le> n then (e, length e) else ([], length e + 1))"

definition ws_guid :: "byte list" where
  "ws_guid = ascii ''258EAFA5-E914-47DA-95CA-C5AB0DC85B11''"

definition ws_connect ::
  "(byte list \<Rightarrow> byte list) \<Rightarrow> (byte list \<Rightarrow> byte list) \<Rightarrow> transport_ws \<Rightarrow> connect_func" where
  "ws_connect b64 sha1 ws host port timeout_ms w =
     do { (_, w0) \<leftarrow> transport_connect (ws_parent ws) host port timeout_ms w;
          let (random_key, w1) = take_rand 16 w0;
          let (client_key, _) = base64_into b64 32 random_key;
          (len, buf1) \<leftarrow> snprintf (ws_buffer ws) DEFAULT_WS_BUFFER (upgrade_request (ws_path ws) host port client_key);
          (r, buf2, w2) \<leftarrow> transport_write (ws_parent ws) buf1 len timeout_ms w1;
          if r \<le> 0 then Some (-1, w2)
          else do {
            (r', buf3, w3) \<leftarrow> transport_read (ws_parent ws) buf2 DEFAULT_WS_BUFFER timeout_ms w2;
            if r' \<le> 0 then Some (-1, w3)
            else do {
              h \<leftarrow> get_http_header buf3 (ascii ''Sec-WebSocket-Accept:'');
              case h of
                None \<Rightarrow> Some (-1, w3)
              | Some server_key \<Rightarrow>
                  let (accept_key, outlen) = base64_into b64 32 (sha1 (client_key @ ws_guid))
                  in if outlen \<ge> 32 then None
                     else Some (if takeWhile (\<lambda>b. b \<noteq> 0) (take outlen accept_key) = server_key then 0 else -1, w3) } } }"

section \<open>Frames\<close>

text \<open>The loop that masks the caller's buffer in place.\<close>

fun mask_loop :: "byte list \<Rightarrow> byte list \<Rightarrow> nat \<Rightarrow> nat \<Rightarrow> byte list option" where
  "mask_loop buf mkey i 0 = Some buf"
| "mask_loop buf mkey i (Suc k) =
     do { b \<leftarrow> rd buf i; m \<leftarrow> rd mkey (i mod 4);
          buf' \<leftarrow> wr buf i (b XOR m); mask_loop buf' mkey (i + 1) k }"

definition ws_header :: "nat \<Rightarrow> byte list \<Rightarrow> byte list" where
  "ws_header len mkey =
     [0x02 OR 0x80] @
     (if len > 125 then [126 OR 0x80, of_nat (len div 256), of_nat (len mod 256)]
      else [of_nat len OR 0x80]) @ mkey"

definition ws_write :: "transport_ws \<Rightarrow> write_func" where
  "ws_write ws buff len timeout_ms w =
     (case transport_poll_write (ws_parent ws) timeout_ms w of (poll, w0) \<Rightarrow>
        if poll \<le> 0 then Some (poll, buff, w0)
        else do {
          let (mkey, w1) = take_rand 4 w0;
          buf1 \<leftarrow> mask_loop buff mkey 0 len;
          let header = ws_header len mkey;
          (r, _, w2) \<leftarrow> transport_write (ws_parent ws) header (length header) timeout_ms w1;
          if r \<noteq> int (length header) then Some (-1, buf1, w2)
          else transport_write (ws_parent ws) buf1 len timeout_ms w2 })"

text \<open>The unmasking loop: data and mask key lie in the buffer that is written.\<close>

fun unmask_loop :: "byte list \<Rightarrow> nat \<Rightarrow> nat \<Rightarrow> nat \<Rightarrow> nat \<Rightarrow> byte list option" where
  "unmask_loop buf data key i 0 = Some buf"
| "unmask_loop buf data key i (Suc k) =
     do { d \<leftarrow> rd buf (data + i); m \<leftarrow> rd buf (key + i mod 4);
          buf' \<leftarrow> wr buf i (d XOR m); unmask_loop buf' data key (i + 1) k }"

text \<open>The payload length and the index after it; \<open>-1\<close> for a length of more than 32 bits.\<close>

definition ws_payload_len :: "byte list \<Rightarrow> (int \<times> nat) option" where
  "ws_payload_len buf =
     do { b \<leftarrow> rd buf 1;
          let len7 = unat (b AND 0x7f);
          if len7 = 126
          then do { hi \<leftarrow> rd buf 2; lo \<leftarrow> rd buf 3; Some (int (unat hi * 256 + unat lo), 4) }
          else if len7 = 127
          then do { a \<leftarrow> rd buf 2; b1 \<leftarrow> rd buf 3; c \<leftarrow> rd buf 4; d \<leftarrow> rd buf 5;
                    if a \<noteq> 0 \<or> b1 \<noteq> 0 \<or> c \<noteq> 0 \<or> d \<noteq> 0 then Some (-1, 10)
                    else do { e \<leftarrow> rd buf 6; f \<leftarrow> rd buf 7; g \<leftarrow> rd buf 8; h \<leftarrow> rd buf 9;
                              top \<leftarrow> shl_int (unat e) 24;
                              Some (int (top + unat f * 65536 + unat g * 256 + unat h), 10) } }
          else Some (int len7, 2) }"

definition ws_unframe :: "byte list \<Rightarrow> (int \<times> byte list) option" where
  "ws_unframe buf =
     do { (payload_len, data) \<leftarrow> ws_payload_len buf;
          b \<leftarrow> rd buf 1;
          if drop_bit 7 b AND 1 \<noteq> 0
          then do { buf' \<leftarrow> unmask_loop buf (data + 4) data 0 (nat payload_len); Some (payload_len, buf') }
          else if payload_len < 0 \<or> data + nat payload_len > length buf then None
          else do { buf' \<leftarrow> blit buf 0 (take (nat payload_len) (drop data buf)); Some (payload_len, buf') } }"

definition ws_read :: "transport_ws \<Rightarrow> read_func" where
  "ws_read ws buf len timeout_ms w =
     (case transport_poll_read (ws_parent ws) timeout_ms w of (poll, w1) \<Rightarrow>
        if poll \<le> 0 then Some (poll, buf, w1)
        else do {
          (rlen, buf1, w2) \<leftarrow> transport_read (ws_parent ws) buf len timeout_ms w1;
          if rlen \<le> 0 then Some (rlen, buf1, w2)
          else do { (payload_len, buf2) \<leftarrow> ws_unframe buf1; Some (payload_len, buf2, w2) } })"

definition ws_poll_read :: "transport_ws \<Rightarrow> poll_func" where
  "ws_poll_read ws = transport_poll_read (ws_parent ws)"

definition ws_poll_write :: "transport_ws \<Rightarrow> poll_func" where
  "ws_poll_write ws = transport_poll_write (ws_parent ws)"

definition ws_close :: "transport_ws \<Rightarrow> trans_func" where
  "ws_close ws = transport_close (ws_parent ws)"

definition ws_destroy :: "transport_ws \<Rightarrow> trans_func" where
  "ws_destroy ws w = (0, w)"

definition transport_ws_set_path :: "transport_ws \<Rightarrow> byte list \<Rightarrow> transport_ws" where
  "transport_ws_set_path ws path = ws\<lparr>ws_path := path\<rparr>"

text \<open>\<open>uninit\<close> are the bytes of the fresh buffer; the context is found under \<open>addr\<close>.\<close>

definition transport_ws_context :: "transport_item option \<Rightarrow> byte list \<Rightarrow> transport_ws" where
  "transport_ws_context parent uninit =
     \<lparr>ws_path = ascii ''/'', ws_buffer = take DEFAULT_WS_BUFFER uninit, ws_parent = parent\<rparr>"

definition transport_ws_init ::
  "(byte list \<Rightarrow> byte list) \<Rightarrow> (byte list \<Rightarrow> byte list) \<Rightarrow> transport_ws \<Rightarrow> bool \<Rightarrow> bool \<Rightarrow>
     nat \<Rightarrow> transport_item option" where
  "transport_ws_init b64 sha1 ws alloc_t alloc_ws addr =
     (if \<not> alloc_ws then None
      else snd (transport_set_context_data
             (snd (transport_set_func (transport_init alloc_t) (Some (ws_connect b64 sha1 ws))
               (Some (ws_read ws)) (Some (ws_write ws)) (Some (ws_close ws)) (Some (ws_poll_read ws))
               (Some (ws_poll_write ws)) (Some (ws_destroy ws))))
             addr))"

section \<open>Masking\<close>

lemma mask_loop_eq:
  assumes "length mkey = 4"
  shows "i + k \<le> length buf \<Longrightarrow> mask_loop buf mkey i k =
    Some (take i buf @ map (\<lambda>j. buf ! j XOR mkey ! (j mod 4)) [i..<i + k] @ drop (i + k) buf)"
proof (induction k arbitrary: buf i)
  case 0
  then show ?case by simp
next
  case (Suc k)
  have i: "i < length buf" using Suc.prems by simp
  have m: "rd mkey (i mod 4) = Some (mkey ! (i mod 4))" using assms by (simp add: mem_simps)
  let ?b = "buf[i := buf ! i XOR mkey ! (i mod 4)]"
  have "mask_loop buf mkey i (Suc k) = mask_loop ?b mkey (i + 1) k"
    using i m by (simp add: mem_simps)
  also have "\<dots> = Some (take (i + 1) ?b @ map (\<lambda>j. ?b ! j XOR mkey ! (j mod 4)) [i + 1..<i + 1 + k] @ drop (i + 1 + k) ?b)"
    using Suc.IH [of "i + 1" ?b] Suc.prems by simp
  also have "take (i + 1) ?b = take i buf @ [buf ! i XOR mkey ! (i mod 4)]"
    using i by (simp add: take_Suc_update)
  also have "map (\<lambda>j. ?b ! j XOR mkey ! (j mod 4)) [i + 1..<i + 1 + k] =
      map (\<lambda>j. buf ! j XOR mkey ! (j mod 4)) [i + 1..<i + 1 + k]"
    by (intro map_cong) auto
  also have "drop (i + 1 + k) ?b = drop (i + 1 + k) buf" by simp
  finally have "mask_loop buf mkey i (Suc k) = Some (take i buf @
      (buf ! i XOR mkey ! (i mod 4)) # map (\<lambda>j. buf ! j XOR mkey ! (j mod 4)) [i + 1..<i + 1 + k] @ drop (i + 1 + k) buf)"
    by simp
  moreover have "[i..<i + Suc k] = i # [i + 1..<i + 1 + k]"
    by (simp add: upt_conv_Cons del: upt_Suc)
  ultimately show ?case by simp
qed

definition xor_mask :: "byte list \<Rightarrow> byte list \<Rightarrow> byte list" where
  "xor_mask mkey d = map (\<lambda>j. d ! j XOR mkey ! (j mod 4)) [0..<length d]"

lemma xor_mask_involutive: "xor_mask mkey (xor_mask mkey d) = d"
  by (auto simp: xor_mask_def xor.assoc intro!: nth_equalityI)

lemma length_xor_mask [simp]: "length (xor_mask mkey d) = length d"
  by (simp add: xor_mask_def)

lemma mask_buffer:
  "length mkey = 4 \<Longrightarrow> len \<le> length buf \<Longrightarrow>
     mask_loop buf mkey 0 len = Some (xor_mask mkey (take len buf) @ drop len buf)"
  by (simp add: mask_loop_eq xor_mask_def min_absorb2)

text \<open>How a server decodes a frame it got (RFC 6455, 5.2): a final, masked binary frame with a
  payload of at most 65535 bytes and nothing after it.\<close>

definition ws_decode :: "byte list \<Rightarrow> byte list option" where
  "ws_decode f =
     (if length f < 6 \<or> f ! 0 \<noteq> 0x82 \<or> f ! 1 AND 0x80 = 0 then None
      else let len7 = unat (f ! 1 AND 0x7f);
               (len, p) = (if len7 = 126 then (unat (f ! 2) * 256 + unat (f ! 3), 4) else (len7, 2));
               mkey = take 4 (drop p f); payload = drop (p + 4) f
           in if len7 = 127 \<or> length payload \<noteq> len then None else Some (xor_mask mkey payload))"

lemma small_len_bits:
  "\<forall>k \<in> set [0..<126]. (of_nat k OR 0x80 :: byte) AND 0x80 \<noteq> 0 \<and> unat ((of_nat k OR 0x80 :: byte) AND 0x7f) = k"
  by code_simp

lemma ws_decode_frame:
  assumes "length mkey = 4" and "length d < 65536"
  shows "ws_decode (ws_header (length d) mkey @ xor_mask mkey d) = Some d"
proof (cases "length d > 125")
  case True
  have len: "unat (of_nat (length d div 256) :: byte) * 256 + unat (of_nat (length d mod 256) :: byte) = length d"
    using assms(2) by (simp add: unat_of_nat take_bit_eq_mod)
  obtain a b c e where m: "mkey = [a, b, c, e]" using assms(1) by (auto simp: numeral_eq_Suc length_Suc_conv)
  show ?thesis using True len
    by (simp add: ws_decode_def ws_header_def m Let_def xor_mask_involutive)
next
  case False
  then have bits: "(of_nat (length d) OR 0x80 :: byte) AND 0x80 \<noteq> 0"
    "unat ((of_nat (length d) OR 0x80 :: byte) AND 0x7f) = length d"
    using small_len_bits by auto
  obtain a b c e where m: "mkey = [a, b, c, e]" using assms(1) by (auto simp: numeral_eq_Suc length_Suc_conv)
  show ?thesis using False bits
    by (simp add: ws_decode_def ws_header_def m Let_def xor_mask_involutive)
qed

lemma blit_keeps_len: "blit buf 0 xs = Some buf' \<Longrightarrow> length xs \<le> length buf"
  by (auto simp: blit_def split: if_splits)

lemma unmask_loop_length: "unmask_loop buf data key i k = Some buf' \<Longrightarrow> length buf' = length buf \<and> (k = 0 \<or> i + k \<le> length buf)"
proof (induction k arbitrary: buf i)
  case (Suc k)
  obtain d m b where "wr buf i (d XOR m) = Some b" "unmask_loop b data key (i + 1) k = Some buf'"
    using Suc.prems by (auto split: bind_splits)
  with Suc.IH [of b "i + 1"] show ?case by (auto simp: wr_eq_Some_iff)
qed simp

lemma ws_unframe_bounds:
  "ws_unframe buf = Some (r, buf') \<Longrightarrow> length buf' = length buf \<and> r \<le> int (max 1 (length buf))"
  by (auto simp: ws_unframe_def blit_eq_Some_iff dest!: unmask_loop_length split: bind_splits if_splits)

section \<open>The contract of the tunnel\<close>

text \<open>
  The transport relies on the contracts of the one below it, and gives the same contracts to the
  client: it reads within the buffer, and what it sends is a frame that carries the bytes.
\<close>

locale ws_tunnel =
  lower_in: stream_reader "transport_read (ws_parent ws)" +
  lower_out: stream_writer "transport_write (ws_parent ws)" "\<lambda>bs d. bs = d"
  for ws :: transport_ws +
  assumes poll_out: "transport_poll_write (ws_parent ws) tmo w = (r, w') \<Longrightarrow> net_out w' = net_out w"

sublocale ws_tunnel \<subseteq> framed_in: stream_reader "ws_read ws"
proof
  fix buf len tmo w r buf' w'
  assume rd: "ws_read ws buf len tmo w = Some (r, buf', w')"
  obtain poll w1 where p: "transport_poll_read (ws_parent ws) tmo w = (poll, w1)"
    by (cases "transport_poll_read (ws_parent ws) tmo w")
  have "length buf' = length buf \<and> r \<le> int (max 1 (length buf))"
  proof (cases "poll \<le> 0")
    case True
    then show ?thesis using rd p by (auto simp: ws_read_def)
  next
    case False
    then obtain rlen buf1 w2 where low: "transport_read (ws_parent ws) buf len tmo w1 = Some (rlen, buf1, w2)"
      using rd p by (auto simp: ws_read_def split: bind_splits)
    note l = lower_in.read_len [OF low] lower_in.read_bound [OF low]
    show ?thesis
    proof (cases "rlen \<le> 0")
      case True
      then show ?thesis using rd p low False l by (auto simp: ws_read_def)
    next
      case f: False
      then have "ws_unframe buf1 = Some (r, buf')"
        using rd p low False by (auto simp: ws_read_def split: bind_splits)
      from ws_unframe_bounds [OF this] l show ?thesis by simp
    qed
  qed
  then show "length buf' = length buf" "r \<le> int (max 1 (length buf))" by simp_all
qed

lemma mask_loop_length: "mask_loop buf mkey i k = Some buf' \<Longrightarrow> length buf' = length buf"
  by (induction k arbitrary: buf i) (auto split: bind_splits dest: wr_length)

lemma length_ws_header: "length (ws_header len mkey) = (if len > 125 then 4 else 2) + length mkey"
  by (simp add: ws_header_def)

sublocale ws_tunnel \<subseteq> framed_out: stream_writer "ws_write ws" "\<lambda>bs d. ws_decode bs = Some d"
proof
  fix buf len tmo w
  obtain poll w0 where p: "transport_poll_write (ws_parent ws) tmo w = (poll, w0)"
    by (cases "transport_poll_write (ws_parent ws) tmo w")
  obtain mkey w1 where m: "take_rand 4 w0 = (mkey, w1)" by (cases "take_rand 4 w0")
  have mkey_len: "length mkey = 4" by (rule take_rand_length [OF m])
  let ?h = "ws_header len mkey"
  show "length buf' = length buf" if wrt: "ws_write ws buf len tmo w = Some (r, buf', w')" for r buf' w'
  proof (cases "poll \<le> 0")
    case True
    then show ?thesis using that p by (simp add: ws_write_def)
  next
    case False
    then obtain buf1 rh b w2 where ml: "mask_loop buf mkey 0 len = Some buf1"
      and fin: "(if rh \<noteq> int (length ?h) then Some (-1, buf1, w2)
        else transport_write (ws_parent ws) buf1 len tmo w2) = Some (r, buf', w')"
      using wrt p m by (auto simp: ws_write_def Let_def split: bind_splits)
    have "length buf' = length buf1"
      using fin lower_out.write_len [of buf1 len tmo w2 r buf' w'] by (auto split: if_splits)
    then show ?thesis using mask_loop_length [OF ml] by simp
  qed
  have run: "ws_write ws buf len tmo w =
      (if poll \<le> 0 then Some (poll, buf, w0)
       else do { (r, _, w2) \<leftarrow> transport_write (ws_parent ws) ?h (length ?h) tmo w1;
                 if r \<noteq> int (length ?h) then Some (-1, xor_mask mkey (take len buf) @ drop len buf, w2)
                 else transport_write (ws_parent ws) (xor_mask mkey (take len buf) @ drop len buf) len tmo w2 })"
    if "len \<le> length buf"
    using that p m mkey_len by (simp add: ws_write_def mask_buffer Let_def)
  show "ws_write ws buf len tmo w \<noteq> None" if "len \<le> length buf"
  proof (cases "poll \<le> 0")
    case True
    then show ?thesis using run [OF that] by simp
  next
    case False
    obtain r b w2 where "transport_write (ws_parent ws) ?h (length ?h) tmo w1 = Some (r, b, w2)"
      using lower_out.write_safe [of "length ?h" ?h tmo w1] by auto
    then show ?thesis
      using run [OF that] False lower_out.write_safe [of len "xor_mask mkey (take len buf) @ drop len buf" tmo w2] that
      by simp
  qed
  show "\<exists>bs. net_out w' = net_out w @ bs \<and> ws_decode bs = Some (take len buf)"
    if "ws_write ws buf len tmo w = Some (r, buf', w')" "len \<le> length buf" "0 < len" "len < 65536" "r = int len"
    for r buf' w'
  proof -
    let ?x = "xor_mask mkey (take len buf)"
    have pos: "\<not> poll \<le> 0" using that run by (auto split: if_splits)
    obtain rh b w2 where hd: "transport_write (ws_parent ws) ?h (length ?h) tmo w1 = Some (rh, b, w2)"
      using lower_out.write_safe [of "length ?h" ?h tmo w1] by auto
    have rh: "rh = int (length ?h)" and pay: "transport_write (ws_parent ws) (?x @ drop len buf) len tmo w2 = Some (r, buf', w')"
      using that run pos hd by (auto split: if_splits)
    have "net_out w2 = net_out w1 @ ?h"
      using lower_out.write_sent [OF hd] rh mkey_len by (auto simp: length_ws_header)
    moreover have "net_out w' = net_out w2 @ ?x"
      using lower_out.write_sent [OF pay] that by (simp add: min_absorb2)
    ultimately have "net_out w' = net_out w @ ?h @ ?x" using poll_out [OF p] m by simp
    moreover have "ws_decode (?h @ ?x) = Some (take len buf)"
      using ws_decode_frame [OF mkey_len, of "take len buf"] that by (simp add: min_absorb2)
    ultimately show ?thesis by blast
  qed
qed

text \<open>Over TCP.\<close>

definition ws_over_tcp :: "byte list \<Rightarrow> byte list \<Rightarrow> transport_ws" where
  "ws_over_tcp path buf = \<lparr>ws_path = path, ws_buffer = buf, ws_parent = transport_tcp_init True True 1\<rparr>"

lemma over_tcp:
  "transport_read (ws_parent (ws_over_tcp path buf)) = tcp_read"
  "transport_write (ws_parent (ws_over_tcp path buf)) = tcp_write"
  "transport_poll_write (ws_parent (ws_over_tcp path buf)) = tcp_poll_write"
  "transport_poll_read (ws_parent (ws_over_tcp path buf)) = tcp_poll_read"
  "transport_connect (ws_parent (ws_over_tcp path buf)) = tcp_connect"
  by (auto simp: ws_over_tcp_def transport_tcp_init_def transport_init_def transport_set_func_def
      transport_set_context_data_def transport_read_def transport_write_def transport_poll_write_def
      transport_poll_read_def transport_connect_def fun_eq_iff)

interpretation ws_tcp: ws_tunnel "ws_over_tcp path buf" for path buf
proof (intro ws_tunnel.intro ws_tunnel_axioms.intro)
  show "stream_reader (transport_read (ws_parent (ws_over_tcp path buf)))"
    unfolding over_tcp by (rule tcp_in.stream_reader_axioms)
  show "stream_writer (transport_write (ws_parent (ws_over_tcp path buf))) (\<lambda>bs d. bs = d)"
    unfolding over_tcp by (rule tcp_out.stream_writer_axioms)
qed (auto simp: over_tcp tcp_poll_write_def)

text \<open>
  C28. What the client sends through a WebSocket is what the server decodes. When \<open>ws_write\<close> over
  TCP reports all of a message of 1 to 65535 bytes as written, the bytes that went out since form
  one masked frame, and a server that decodes it by the rules of RFC 6455 gets the message.
\<close>

theorem ws_message_delivered:
  assumes "ws_write (ws_over_tcp path buf) p (length p) tmo w = Some (int (length p), p', w')"
    and "p \<noteq> []" and "length p < 65536"
  shows "\<exists>frame. net_out w' = net_out w @ frame \<and> ws_decode frame = Some p"
  using ws_tcp.framed_out.sends_carries [of path buf p tmo w w'] assms
  unfolding ws_tcp.framed_out.sends_def by blast

definition net0 :: net where
  "net0 = \<lparr>net_resolves = \<lambda>_. True, net_sockets = [3], net_connects = [0], net_polls = [1, 1, 1, 1],
     net_reads = [], net_writes = [100, 100], net_closes = [], net_out = [], net_rand = [1, 2, 3, 4], tcp_sock = 3\<rparr>"

theorem ws_message_delivered_witness:
  "\<exists>frame. net_out (net0\<lparr>net_polls := [1], net_writes := [], net_rand := [], net_out := [0x82, 0x82, 1, 2, 3, 4, 0xc1, 2]\<rparr>) =
     net_out net0 @ frame \<and> ws_decode frame = Some [0xc0, 0]"
proof -
  have "ws_write (ws_over_tcp [] []) [0xc0, 0] (length [0xc0, 0 :: byte]) 0 net0 =
      Some (int (length [0xc0, 0 :: byte]), [0xc1, 2],
        net0\<lparr>net_polls := [1], net_writes := [], net_rand := [], net_out := [0x82, 0x82, 1, 2, 3, 4, 0xc1, 2]\<rparr>)"
    by (simp add: ws_write_def over_tcp tcp_poll_write_def net_select_def net0_def next_of_def rd_def wr_def
        tcp_write_def net_write_def ws_header_def take_rand_def Let_def numeral_2_eq_2)
  from ws_message_delivered [OF this] show ?thesis by simp
qed

section \<open>Reading frames\<close>

definition server_frame :: "byte list \<Rightarrow> byte list" where
  "server_frame d =
     [0x82] @ (if length d > 125 then [126, of_nat (length d div 256), of_nat (length d mod 256)]
               else [of_nat (length d)]) @ d"

lemma payload_len_bits:
  "\<forall>k \<in> set [0..<126]. unat ((of_nat k :: byte) AND 0x7f) = k \<and> drop_bit 7 (of_nat k :: byte) AND 1 = 0 \<and>
     unat ((0x80 OR of_nat k :: byte) AND 0x7f) = k \<and> drop_bit 7 (0x80 OR of_nat k :: byte) AND 1 \<noteq> 0"
  by code_simp

definition header_len :: "nat \<Rightarrow> nat" where
  "header_len n = (if n > 125 then 4 else 2)"

lemma server_frame_header:
  assumes "length d < 65536" and "take (header_len (length d)) buf = take (header_len (length d)) (server_frame d)"
    and "header_len (length d) \<le> length buf"
  shows "ws_payload_len buf = Some (int (length d), header_len (length d)) \<and>
    (\<exists>b. rd buf 1 = Some b \<and> drop_bit 7 b AND 1 = 0)"
proof (cases "length d > 125")
  case True
  have len: "unat (of_nat (length d div 256) :: byte) * 256 + unat (of_nat (length d mod 256) :: byte) = length d"
    using assms(1) by (simp add: unat_of_nat take_bit_eq_mod)
  have "buf = take 4 buf @ drop 4 buf" by simp
  also have "take 4 buf = [0x82, 126, of_nat (length d div 256), of_nat (length d mod 256)]"
    using assms(2) True by (simp add: header_len_def server_frame_def)
  finally obtain rest where "buf = 0x82 # 126 # of_nat (length d div 256) # of_nat (length d mod 256) # rest"
    by (metis append_Cons append_Nil)
  with True arg_cong [OF len, of int] show ?thesis by (simp add: ws_payload_len_def rd_def header_len_def del: One_nat_def)
next
  case False
  then have bits: "unat ((of_nat (length d) :: byte) AND 0x7f) = length d" "drop_bit 7 (of_nat (length d) :: byte) AND 1 = 0"
    using payload_len_bits by auto
  have "buf = take 2 buf @ drop 2 buf" by simp
  also have "take 2 buf = [0x82, of_nat (length d)]"
    using assms(2) False by (simp add: header_len_def server_frame_def)
  finally obtain rest where "buf = 0x82 # of_nat (length d) # rest"
    by (metis append_Cons append_Nil)
  with False bits show ?thesis by (simp add: ws_payload_len_def rd_def header_len_def Let_def)
qed

lemma server_frame_split: "drop (header_len (length d)) (server_frame d) = d"
  "length (server_frame d) = header_len (length d) + length d"
  by (simp_all add: server_frame_def header_len_def)

text \<open>
  Reading a server's frame. When the object behind the caller's buffer holds the whole unmasked
  frame, \<open>ws_read\<close> moves the payload to its front and returns its length; when the announced
  payload is longer than the object, the \<open>memmove\<close> leaves the object, because nothing compares the
  announced length with the buffer.
\<close>

theorem ws_unframe_server_frame:
  assumes "length d < 65536"
  shows "(\<exists>buf'. ws_unframe (server_frame d @ junk) = Some (int (length d), buf') \<and> take (length d) buf' = d) \<and>
    (if header_len (length d) \<le> k \<and> k < length (server_frame d) then ws_unframe (take k (server_frame d)) = None
     else True)"
proof
  let ?h = "header_len (length d)"
  have h: "take ?h (server_frame d @ junk) = take ?h (server_frame d)" "?h \<le> length (server_frame d @ junk)"
    by (simp_all add: server_frame_split)
  have dr: "drop ?h (server_frame d @ junk) = d @ junk" by (simp add: server_frame_split)
  show "\<exists>buf'. ws_unframe (server_frame d @ junk) = Some (int (length d), buf') \<and> take (length d) buf' = d"
    using server_frame_header [OF assms h] dr
    by (auto simp: ws_unframe_def blit_def server_frame_split)
  show "if ?h \<le> k \<and> k < length (server_frame d) then ws_unframe (take k (server_frame d)) = None else True"
    using server_frame_header [OF assms, of "take k (server_frame d)"]
    by (auto simp: ws_unframe_def server_frame_split min_def)
qed

theorem ws_unframe_server_frame_witness:
  "ws_unframe (take 3 (server_frame [7, 8])) = None \<and>
   (\<exists>buf'. ws_unframe (server_frame [7, 8] @ [1]) = Some (2, buf') \<and> take 2 buf' = [7, 8])"
  using ws_unframe_server_frame [of "[7, 8]" "[1]" 3]
  by (simp add: header_len_def server_frame_split numeral_2_eq_2)

lemma unmask_loop_runs:
  "data + i + k \<le> length buf \<Longrightarrow> key + 4 \<le> length buf \<Longrightarrow>
     \<exists>buf'. unmask_loop buf data key i k = Some buf' \<and> take i buf' = take i buf"
proof (induction k arbitrary: buf i)
  case (Suc k)
  let ?b = "buf[i := buf ! (data + i) XOR buf ! (key + i mod 4)]"
  have m: "key + i mod 4 < length buf" using Suc.prems(2) mod_less_divisor [of 4 i] by linarith
  have step: "unmask_loop buf data key i (Suc k) = unmask_loop ?b data key (i + 1) k"
    using Suc.prems m by (simp add: mem_simps)
  obtain buf' where b: "unmask_loop ?b data key (i + 1) k = Some buf'" "take (i + 1) buf' = take (i + 1) ?b"
    using Suc.IH [of "i + 1" ?b] Suc.prems by auto
  have "take i buf' = take i (take (i + 1) ?b)" using b(2) by (metis le_add1 min_absorb1 take_take)
  then show ?case using b(1) step by simp
qed simp

lemma update_Cons_numeral:
  "(x # xs)[numeral k := y] = x # xs[pred_numeral k := y]"
  "(x # xs)[1 := y] = x # xs[0 := y]" "(x # xs)[0 := y] = y # xs"
  by (simp_all add: numeral_eq_Suc)

lemma unmask_five:
  "unmask_loop (b0 # b1 # k0 # k1 # k2 # k3 # x0 # x1 # x2 # x3 # x4 # xs) 6 2 0 (Suc (Suc (Suc (Suc (Suc k))))) =
   unmask_loop ((x0 XOR k0) # (x1 XOR k1) # (x2 XOR k2) # (x3 XOR k3) # (x4 XOR (x2 XOR k2)) # k3 #
     x0 # x1 # x2 # x3 # x4 # xs) 6 2 5 k"
  by (simp add: rd_def wr_def update_Cons_numeral del: One_nat_def list_update.simps)

text \<open>
  A masked frame is not decoded. \<open>ws_read\<close> unmasks into the front of the buffer that also holds
  the mask, so the mask is overwritten while it is in use: the first four bytes come out right, and
  byte 4 is combined with the decoded byte 2 instead of the mask byte 0.
\<close>

theorem ws_unmask_overwrites_mask:
  assumes "length mkey = 4" and "5 \<le> length d" and "length d \<le> 125"
  shows "\<exists>buf'. ws_unframe ([0x82, 0x80 OR of_nat (length d)] @ mkey @ xor_mask mkey d @ junk) =
      Some (int (length d), buf') \<and> take 4 buf' = take 4 d \<and> buf' ! 4 = d ! 4 XOR mkey ! 0 XOR d ! 2"
proof -
  obtain k0 k1 k2 k3 where m: "mkey = [k0, k1, k2, k3]" using assms(1) by (auto simp: numeral_eq_Suc length_Suc_conv)
  obtain d0 d1 d2 d3 d4 r where d: "d = d0 # d1 # d2 # d3 # d4 # r"
    using assms(2) by (auto simp: numeral_eq_Suc Suc_le_length_iff)
  define xs where "xs = map (\<lambda>j. d ! j XOR mkey ! (j mod 4)) [5..<length d] @ junk"
  have up: "[0..<length d] = [0, 1, 2, 3, 4] @ [5..<length d]"
    using assms(2) upt_add_eq_append [of 0 5 "length d - 5"] by (simp add: upt_rec)
  have x: "xor_mask mkey d @ junk =
      (d0 XOR k0) # (d1 XOR k1) # (d2 XOR k2) # (d3 XOR k3) # (d4 XOR k0) # xs"
    unfolding xor_mask_def up by (simp add: xs_def) (simp add: m d)
  let ?buf = "[0x82, 0x80 OR of_nat (length d)] @ mkey @ xor_mask mkey d @ junk"
  have bits: "unat ((0x80 OR of_nat (length d) :: byte) AND 0x7f) = length d"
    "drop_bit 7 (0x80 OR of_nat (length d) :: byte) AND 1 \<noteq> 0"
    using payload_len_bits assms(3) by auto
  have pl: "ws_payload_len ?buf = Some (int (length d), 2)" "rd ?buf 1 = Some (0x80 OR of_nat (length d))"
    using bits assms(3) by (simp_all add: ws_payload_len_def rd_def Let_def)
  define k where "k = length d - 5"
  have ld: "length d = Suc (Suc (Suc (Suc (Suc k))))" using assms(2) by (simp add: k_def)
  have lx: "length xs = k + length junk" by (simp add: xs_def k_def)
  let ?buf5 = "d0 # d1 # d2 # d3 # (d4 XOR k0 XOR d2) # k3 # (d0 XOR k0) # (d1 XOR k1) #
    (d2 XOR k2) # (d3 XOR k3) # (d4 XOR k0) # xs"
  have "?buf = 0x82 # (0x80 OR of_nat (length d)) # k0 # k1 # k2 # k3 #
      (d0 XOR k0) # (d1 XOR k1) # (d2 XOR k2) # (d3 XOR k3) # (d4 XOR k0) # xs"
    by (subst x) (simp add: m)
  then have "unmask_loop ?buf 6 2 0 (length d) = unmask_loop ?buf5 6 2 5 k"
    unfolding ld by (simp only: unmask_five) (simp add: xor.assoc)
  moreover obtain buf' where "unmask_loop ?buf5 6 2 5 k = Some buf'" "take 5 buf' = take 5 ?buf5"
    using unmask_loop_runs [of 6 5 k ?buf5 2] lx by auto
  moreover have "take 4 buf' = take 4 (take 5 buf')" "buf' ! 4 = take 5 buf' ! 4"
    by simp_all
  ultimately have "\<exists>buf'. unmask_loop ?buf 6 2 0 (length d) = Some buf' \<and> take 4 buf' = take 4 d \<and>
      buf' ! 4 = d ! 4 XOR mkey ! 0 XOR d ! 2"
    by (simp add: m d)
  then show ?thesis
    using pl bits by (auto simp: ws_unframe_def)
qed

theorem ws_unmask_overwrites_mask_witness:
  "\<exists>buf'. ws_unframe ([0x82, 0x85] @ [1, 2, 3, 4] @ xor_mask [1, 2, 3, 4] [0x61, 0x62, 0x63, 0x64, 0x65] @ []) = Some (5, buf') \<and>
     buf' ! 4 \<noteq> 0x65"
  using ws_unmask_overwrites_mask [of "[1, 2, 3, 4]" "[0x61, 0x62, 0x63, 0x64, 0x65]" "[]"] by fastforce

section \<open>The handshake is checked\<close>

lemma get_http_header_SomeD:
  assumes "get_http_header buf key = Some (Some v)"
  shows "\<exists>s pre value post. c_str buf = Some s \<and> s = pre @ key @ value @ crlf @ post \<and> v = trimwhitespace value"
proof -
  obtain s found e where s: "c_str buf = Some s" and f: "strstr s key = Some found"
    and e: "strstr (drop (length key) found) crlf = Some e"
    and v: "v = trimwhitespace (take (length (drop (length key) found) - length e) (drop (length key) found))"
    using assms by (auto simp: get_http_header_def Let_def split: option.splits bind_splits)
  obtain pre rest where 1: "s = pre @ found" "found = key @ rest" using strstr_SomeD [OF f] by blast
  obtain val post where 2: "rest = val @ e" "e = crlf @ post" using strstr_SomeD [OF e] 1 by auto
  have "v = trimwhitespace val" using v 1 2 by simp
  with s 1 2 show ?thesis by auto
qed

text \<open>
  A WebSocket connection is opened only to a server that knows the key. When \<open>ws_connect\<close>
  returns 0, the last read from the parent gave a response with a \<open>Sec-WebSocket-Accept\<close> line whose
  value without surrounding spaces is the base64 of the SHA-1 of the client's key and the GUID.
\<close>

theorem ws_connect_checks_key:
  assumes "ws_connect b64 sha1 ws host port tmo w = Some (0, w')"
    and "\<And>random_key. length random_key = 16 \<Longrightarrow> length (b64 random_key) \<le> 31"
  shows "\<exists>random_key buf2 buf3 w2 r pre value post.
    transport_read (ws_parent ws) buf2 DEFAULT_WS_BUFFER tmo w2 = Some (r, buf3, w') \<and> 0 < r \<and> length random_key = 16 \<and>
    c_str buf3 = Some (pre @ ascii ''Sec-WebSocket-Accept:'' @ value @ crlf @ post) \<and>
    trimwhitespace value = takeWhile (\<lambda>b. b \<noteq> 0) (b64 (sha1 (b64 random_key @ ws_guid)))"
proof -
  obtain c w0 where conn: "transport_connect (ws_parent ws) host port tmo w = Some (c, w0)"
    using assms(1) by (auto simp: ws_connect_def split: bind_splits)
  obtain random_key w1 where rk: "take_rand 16 w0 = (random_key, w1)" by (cases "take_rand 16 w0")
  have ck: "base64_into b64 32 random_key = (b64 random_key, length (b64 random_key))"
    using assms(2) [OF take_rand_length [OF rk]] by (simp add: base64_into_def Let_def)
  obtain len buf1 where "transport_connect (ws_parent ws) host port tmo w = Some (c, w0)"
      and "snprintf (ws_buffer ws) DEFAULT_WS_BUFFER (upgrade_request (ws_path ws) host port (b64 random_key)) = Some (len, buf1)"
    using assms(1) conn rk by (auto simp: ws_connect_def ck split: bind_splits)
  note start = this
  obtain r buf2 w2 where w2: "transport_write (ws_parent ws) buf1 len tmo w1 = Some (r, buf2, w2)" "0 < r"
    using assms(1) rk start by (auto simp: ws_connect_def ck split: bind_splits if_splits)
  obtain r' buf3 w3 where w3: "transport_read (ws_parent ws) buf2 DEFAULT_WS_BUFFER tmo w2 = Some (r', buf3, w3)" "0 < r'"
    using assms(1) rk start w2 by (auto simp: ws_connect_def ck split: bind_splits if_splits)
  obtain key where h: "get_http_header buf3 (ascii ''Sec-WebSocket-Accept:'') = Some (Some key)"
    using assms(1) rk start w2 w3 by (auto simp: ws_connect_def ck split: bind_splits option.splits if_splits)
  let ?e = "b64 (sha1 (b64 random_key @ ws_guid))"
  obtain a outlen where b: "base64_into b64 32 (sha1 (b64 random_key @ ws_guid)) = (a, outlen)"
    by (cases "base64_into b64 32 (sha1 (b64 random_key @ ws_guid))")
  have fin: "\<not> 32 \<le> outlen" "takeWhile (\<lambda>b. b \<noteq> 0) (take outlen a) = key" "w' = w3"
    using assms(1) rk start w2 w3 h b by (auto simp: ws_connect_def ck split: if_splits)
  then have "a = ?e" "outlen = length ?e" using b by (auto simp: base64_into_def Let_def split: if_splits)
  with fin have "takeWhile (\<lambda>b. b \<noteq> 0) ?e = key" by simp
  with get_http_header_SomeD [OF h] w3 fin(3) take_rand_length [OF rk] show ?thesis by metis
qed

definition net1 :: net where
  "net1 = net0\<lparr>net_polls := [1, 1], net_writes := [1000],
     net_reads := [Some (ascii ''HTTP/1.1 101'' @ crlf @ ascii ''Sec-WebSocket-Accept: qq'' @ crlf)]\<rparr>"

definition toy_b64 :: "byte list \<Rightarrow> byte list" where
  "toy_b64 xs = ascii ''qq''"

lemma toy_handshake:
  "map_option fst (ws_connect toy_b64 (\<lambda>xs. xs) (ws_over_tcp (ascii ''/'') (replicate 1024 0)) (ascii ''h'') 80 0 net1) = Some 0"
  by code_simp

theorem ws_connect_checks_key_witness:
  "\<exists>buf2 buf3 w2 r w' pre value post.
    transport_read (ws_parent (ws_over_tcp (ascii ''/'') (replicate 1024 0))) buf2 DEFAULT_WS_BUFFER 0 w2 = Some (r, buf3, w') \<and>
    c_str buf3 = Some (pre @ ascii ''Sec-WebSocket-Accept:'' @ value @ crlf @ post) \<and> trimwhitespace value = ascii ''qq''"
proof -
  obtain w' where run: "ws_connect toy_b64 (\<lambda>xs. xs) (ws_over_tcp (ascii ''/'') (replicate 1024 0)) (ascii ''h'') 80 0 net1 = Some (0, w')"
    using toy_handshake by auto
  have "takeWhile (\<lambda>b. b \<noteq> 0) (ascii ''qq'') = ascii ''qq''" by code_simp
  then show ?thesis
    using ws_connect_checks_key [OF run] by (fastforce simp: toy_b64_def ascii_def)
qed

end
