(* ===== verification/Mqtt_Client.thy ===== *)
theory Mqtt_Client
  imports Mqtt_Msg Mqtt_Outbox Transport_Ws
begin

text \<open>
  The MQTT client \<open>components/espmqtt/mqtt_client.c\<close>, with TCP and WebSocket transports and without
  SSL (the configuration of \<open>sdkconfig\<close>): configuration, connection, the receive path, the requests
  of the application and the task.

  One call of an application request and one pass of the task's loop are single steps. The
  environment is in the state: \<open>cl_net\<close> for the sockets, \<open>cl_ticks\<close> for the values
  \<open>platform_tick_get_ms()\<close> will return, \<open>cl_rand\<close> for \<open>platform_random\<close>. The events the handler gets
  are collected in \<open>cl_events\<close>, each with the contents of the input buffer its pointers point into;
  what the handler itself calls is a later step. \<open>outbound_message\<close> always points to the message of
  the connection once it is set, \<open>cl_outbound\<close> says that it is; a message whose \<open>data\<close> is NULL is the
  one of length 0. The output buffer is the buffer of the connection. Whether the allocation in
  line \<open>n\<close> succeeds is \<open>alloc n\<close>.
\<close>

section \<open>State\<close>

datatype mqtt_client_state =
    MQTT_STATE_ERROR | MQTT_STATE_UNKNOWN | MQTT_STATE_INIT | MQTT_STATE_CONNECTED | MQTT_STATE_WAIT_TIMEOUT

fun state_code :: "mqtt_client_state \<Rightarrow> int" where
  "state_code MQTT_STATE_ERROR = -1"
| "state_code MQTT_STATE_UNKNOWN = 0"
| "state_code MQTT_STATE_INIT = 1"
| "state_code MQTT_STATE_CONNECTED = 2"
| "state_code MQTT_STATE_WAIT_TIMEOUT = 3"

lemma state_code_inj: "state_code a = state_code b \<Longrightarrow> a = b"
  by (cases a; cases b) auto

text \<open>The enumeration is compared by its values.\<close>

instantiation mqtt_client_state :: linorder
begin

definition less_eq_mqtt_client_state :: "mqtt_client_state \<Rightarrow> mqtt_client_state \<Rightarrow> bool" where
  "less_eq_mqtt_client_state a b \<longleftrightarrow> state_code a \<le> state_code b"

definition less_mqtt_client_state :: "mqtt_client_state \<Rightarrow> mqtt_client_state \<Rightarrow> bool" where
  "less_mqtt_client_state a b \<longleftrightarrow> state_code a < state_code b"

instance
  by standard (auto simp: less_eq_mqtt_client_state_def less_mqtt_client_state_def intro: state_code_inj)

end

datatype esp_mqtt_event_id =
    MQTT_EVENT_ERROR | MQTT_EVENT_CONNECTED | MQTT_EVENT_DISCONNECTED | MQTT_EVENT_SUBSCRIBED
  | MQTT_EVENT_UNSUBSCRIBED | MQTT_EVENT_PUBLISHED | MQTT_EVENT_DATA

text \<open>Pointers of an event are offsets into the input buffer.\<close>

record esp_mqtt_event =
  event_id :: esp_mqtt_event_id
  ev_data :: "nat option"
  ev_data_len :: nat
  ev_total_data_len :: nat
  ev_current_data_offset :: nat
  ev_topic :: "nat option"
  ev_topic_len :: nat
  ev_msg_id :: u16

record mqtt_config_storage =
  cfg_event_handle :: bool
  cfg_task_stack :: int
  cfg_task_prio :: int
  cfg_uri :: "byte list option"
  cfg_host :: "byte list option"
  cfg_path :: "byte list option"
  cfg_scheme :: "byte list option"
  cfg_port :: int
  cfg_auto_reconnect :: bool
  cfg_network_timeout_ms :: int

record esp_mqtt_client =
  cl_transport_list :: transport_list
  cl_ws :: transport_ws
  cl_transport :: "transport_item option"
  cl_config :: "mqtt_config_storage option"
  cl_in_buffer :: "byte list"
  cl_in_buffer_length :: nat
  cl_out_buffer_length :: nat
  cl_message_length :: nat
  cl_message_length_read :: nat
  cl_outbound :: bool
  cl_conn :: mqtt_connection
  cl_pending_msg_id :: u16
  cl_pending_msg_type :: nat
  cl_pending_msg_count :: int
  cl_connect_info :: mqtt_connect_info
  cl_state :: mqtt_client_state
  cl_keepalive_tick :: int
  cl_reconnect_tick :: int
  cl_wait_timeout_ms :: int
  cl_event :: esp_mqtt_event
  cl_run :: bool
  cl_wait_for_ping_resp :: bool
  cl_outbox :: outbox
  cl_stopped_bit :: bool
  cl_net :: net
  cl_ticks :: "int list"
  cl_rand :: "u16 list"
  cl_events :: "(esp_mqtt_event \<times> byte list) list"

abbreviation (input) MQTT_TASK_PRIORITY :: int where "MQTT_TASK_PRIORITY \<equiv> 5"
abbreviation (input) MQTT_TASK_STACK :: int where "MQTT_TASK_STACK \<equiv> 6144"
abbreviation (input) MQTT_KEEPALIVE_TICK :: nat where "MQTT_KEEPALIVE_TICK \<equiv> 120"
abbreviation (input) MQTT_NETWORK_TIMEOUT_MS :: int where "MQTT_NETWORK_TIMEOUT_MS \<equiv> 10000"
abbreviation (input) MQTT_RECONNECT_TIMEOUT_MS :: int where "MQTT_RECONNECT_TIMEOUT_MS \<equiv> 10000"
abbreviation (input) MQTT_BUFFER_SIZE_BYTE :: int where "MQTT_BUFFER_SIZE_BYTE \<equiv> 1024"
abbreviation (input) OUTBOX_EXPIRED_TIMEOUT_MS :: int where "OUTBOX_EXPIRED_TIMEOUT_MS \<equiv> 30000"
abbreviation (input) OUTBOX_MAX_SIZE :: int where "OUTBOX_MAX_SIZE \<equiv> 4096"

text \<open>\<open>platform_tick_get_ms()\<close>.\<close>

definition platform_tick_get_ms :: "esp_mqtt_client \<Rightarrow> int \<times> esp_mqtt_client" where
  "platform_tick_get_ms c = (next_of 0 (cl_ticks c), c\<lparr>cl_ticks := tl (cl_ticks c)\<rparr>)"

text \<open>A \<open>long long\<close> passed as an \<open>int\<close>.\<close>

definition to_int32 :: "int \<Rightarrow> int" where
  "to_int32 v = (v + 2 ^ 31) mod 2 ^ 32 - 2 ^ 31"

section \<open>Configuration\<close>

record esp_mqtt_client_config =
  conf_event_handle :: bool
  conf_host :: "byte list option"
  conf_uri :: "byte list option"
  conf_port :: int
  conf_client_id :: "byte list option"
  conf_username :: "byte list option"
  conf_password :: "byte list option"
  conf_lwt_topic :: "byte list option"
  conf_lwt_msg :: "byte list option"
  conf_lwt_qos :: nat
  conf_lwt_retain :: bool
  conf_lwt_msg_len :: nat
  conf_disable_clean_session :: bool
  conf_keepalive :: nat
  conf_disable_auto_reconnect :: bool
  conf_task_prio :: int
  conf_task_stack :: int
  conf_buffer_size :: int
  conf_transport :: nat

abbreviation (input) MQTT_TRANSPORT_OVER_TCP :: nat where "MQTT_TRANSPORT_OVER_TCP \<equiv> 1"
abbreviation (input) MQTT_TRANSPORT_OVER_WS :: nat where "MQTT_TRANSPORT_OVER_WS \<equiv> 3"

text \<open>\<open>esp_mqtt_destroy_config\<close> frees the configuration and the strings; \<open>client->config\<close> is dangling
  then, which is \<open>None\<close>.\<close>

definition esp_mqtt_destroy_config :: "esp_mqtt_client \<Rightarrow> int \<times> esp_mqtt_client" where
  "esp_mqtt_destroy_config c = (ESP_OK, c\<lparr>cl_config := None\<rparr>)"

text \<open>\<open>p = strdup(s); ESP_MEM_CHECK(p, goto failed)\<close> for a string that is given: the outer \<open>None\<close>
  is the jump.\<close>

definition dup_given :: "bool \<Rightarrow> byte list option \<Rightarrow> byte list option \<Rightarrow> byte list option option" where
  "dup_given ok s old = (case s of None \<Rightarrow> Some old | Some x \<Rightarrow> if ok then Some (Some x) else None)"

definition will_setting :: "(nat \<Rightarrow> bool) \<Rightarrow> esp_mqtt_client_config \<Rightarrow> (byte list \<times> nat) option" where
  "will_setting alloc config =
     (if conf_lwt_msg_len config \<noteq> 0
      then if alloc 139
           then Some (take (conf_lwt_msg_len config) (case conf_lwt_msg config of None \<Rightarrow> [] | Some m \<Rightarrow> m),
                  conf_lwt_msg_len config)
           else None
      else (case conf_lwt_msg config of
              None \<Rightarrow> Some ([], 0)
            | Some m \<Rightarrow> if alloc 144 then Some (m, length m) else None))"

text \<open>The \<open>memcpy\<close> of the will must find its bytes: otherwise undefined. Result: the code and the
  client, whose configuration is gone when the jump to the end was taken.\<close>

definition esp_mqtt_set_config ::
  "(nat \<Rightarrow> bool) \<Rightarrow> byte list \<Rightarrow> esp_mqtt_client \<Rightarrow> esp_mqtt_client_config \<Rightarrow> (int \<times> esp_mqtt_client) option" where
  "esp_mqtt_set_config alloc id_string c config =
     (if \<not> alloc 89 then Some (ESP_ERR_NO_MEM, c)
      else
        let err = ESP_ERR_NO_MEM;
            cfg = \<lparr>cfg_event_handle = conf_event_handle config,
              cfg_task_stack = (if conf_task_stack config = 0 then MQTT_TASK_STACK else conf_task_stack config),
              cfg_task_prio = (if conf_task_prio config \<le> 0 then MQTT_TASK_PRIORITY else conf_task_prio config),
              cfg_uri = conf_uri config, cfg_host = conf_host config, cfg_path = None, cfg_scheme = None,
              cfg_port = conf_port config, cfg_auto_reconnect = \<not> conf_disable_auto_reconnect config,
              cfg_network_timeout_ms = MQTT_NETWORK_TIMEOUT_MS\<rparr>;
            info = cl_connect_info c;
            failed = snd (esp_mqtt_destroy_config c)
        in case (dup_given (alloc 105) (conf_host config) None,
                      dup_given (alloc 111) (conf_username config) (username info),
                      dup_given (alloc 116) (conf_password config) (password info),
                      dup_given (alloc 121) (Some (case conf_client_id config of None \<Rightarrow> id_string | Some i \<Rightarrow> i)) None,
                      dup_given (alloc 129) (conf_uri config) None,
                      dup_given (alloc 134) (conf_lwt_topic config) (will_topic info),
                      will_setting alloc config) of
             (Some host, Some user, Some pass, Some cid, Some uri, Some topic, Some (msg, len)) \<Rightarrow>
               if conf_lwt_msg_len config > length (case conf_lwt_msg config of None \<Rightarrow> [] | Some m \<Rightarrow> m) then None
               else Some (err, c\<lparr>cl_config := Some cfg, cl_connect_info := info\<lparr>
                 username := user, password := pass, client_id := cid, will_topic := topic,
                 will_message := msg, will_length := len, will_qos := conf_lwt_qos config,
                 will_retain := conf_lwt_retain config,
                 clean_session := \<not> conf_disable_clean_session config,
                 keepalive := (if conf_keepalive config = 0 then MQTT_KEEPALIVE_TICK else conf_keepalive config)\<rparr>\<rparr>)
           | _ \<Rightarrow> Some (err, failed))"

definition create_string :: "bool \<Rightarrow> byte list \<Rightarrow> nat \<Rightarrow> nat \<Rightarrow> byte list option" where
  "create_string ok uri off len = (if len = 0 then None else if \<not> ok then None else Some (take len (drop off uri)))"

text \<open>The fields \<open>http_parser_parse_url\<close> (not part of the repository) finds: offsets and lengths.\<close>

record parsed_url =
  uf_schema :: "nat \<times> nat"
  uf_host :: "nat \<times> nat"
  uf_port :: "nat \<times> nat"
  uf_path :: "nat \<times> nat"
  uf_userinfo :: "nat \<times> nat"

text \<open>\<open>transport_ws_set_path\<close> on the transport of the list: its functions see the new path.\<close>

definition set_ws_path ::
  "(byte list \<Rightarrow> byte list) \<Rightarrow> (byte list \<Rightarrow> byte list) \<Rightarrow> byte list \<Rightarrow> esp_mqtt_client \<Rightarrow> esp_mqtt_client" where
  "set_ws_path b64 sha1 path c =
     (case transport_list_get_transport (Some (cl_transport_list c)) (Some (ascii ''ws'')) of
        None \<Rightarrow> c
      | Some _ \<Rightarrow>
          let ws = transport_ws_set_path (cl_ws c) path
          in c\<lparr>cl_ws := ws, cl_transport_list := update_first (has_scheme (ascii ''ws''))
               (\<lambda>i. i\<lparr>tr_connect := Some (ws_connect b64 sha1 ws), tr_read := Some (ws_read ws),
                  tr_write := Some (ws_write ws), tr_close := Some (ws_close ws),
                  tr_poll_read := Some (ws_poll_read ws), tr_poll_write := Some (ws_poll_write ws),
                  tr_destroy := Some (ws_destroy ws)\<rparr>) (cl_transport_list c)\<rparr>)"

definition keep_or :: "byte list option \<Rightarrow> byte list option \<Rightarrow> byte list option" where
  "keep_or old new = (case old of None \<Rightarrow> new | Some s \<Rightarrow> Some s)"

definition esp_mqtt_client_set_uri ::
  "(nat \<Rightarrow> bool) \<Rightarrow> (byte list \<Rightarrow> parsed_url option) \<Rightarrow> (byte list \<Rightarrow> byte list) \<Rightarrow> (byte list \<Rightarrow> byte list) \<Rightarrow>
     esp_mqtt_client \<Rightarrow> byte list \<Rightarrow> (int \<times> esp_mqtt_client) option" where
  "esp_mqtt_client_set_uri alloc parse_url b64 sha1 c uri =
     (case parse_url uri of
        None \<Rightarrow> Some (ESP_FAIL, c)
      | Some puri \<Rightarrow> do {
          cfg \<leftarrow> cl_config c;
          let cfg1 = cfg\<lparr>
                cfg_scheme := keep_or (cfg_scheme cfg) (create_string (alloc 392) uri (fst (uf_schema puri)) (snd (uf_schema puri))),
                cfg_host := keep_or (cfg_host cfg) (create_string (alloc 396) uri (fst (uf_host puri)) (snd (uf_host puri))),
                cfg_path := keep_or (cfg_path cfg) (create_string (alloc 400) uri (fst (uf_path puri)) (snd (uf_path puri)))\<rparr>;
          let c1 = (case cfg_path cfg1 of None \<Rightarrow> c | Some p \<Rightarrow> set_ws_path b64 sha1 p c);
          let cfg2 = (if snd (uf_port puri) \<noteq> 0 then cfg1\<lparr>cfg_port := strtol10 (drop (fst (uf_port puri)) uri)\<rparr> else cfg1);
          let c2 = c1\<lparr>cl_config := Some cfg2\<rparr>;
          let info = cl_connect_info c2;
          let c3 = (case create_string (alloc 417) uri (fst (uf_userinfo puri)) (snd (uf_userinfo puri)) of
                      None \<Rightarrow> c2
                    | Some user_info \<Rightarrow>
                        let user = takeWhile (\<lambda>b. b \<noteq> 0x3a) user_info;
                            info1 = (if 0x3a \<in> set user_info
                                     then info\<lparr>password := (if alloc 423 then Some (drop (length user + 1) user_info) else None)\<rparr>
                                     else info)
                        in c2\<lparr>cl_connect_info := info1\<lparr>username := (if alloc 425 then Some user else None)\<rparr>\<rparr>);
          Some (ESP_OK, c3) })"

text \<open>\<open>esp_mqtt_client_stop\<close> waits for the task to set \<open>STOPPED_BIT\<close>: the request, and the rest,
  which runs once the bit is set.\<close>

definition esp_mqtt_client_stop_request :: "esp_mqtt_client \<Rightarrow> esp_mqtt_client" where
  "esp_mqtt_client_stop_request c = c\<lparr>cl_run := False\<rparr>"

definition esp_mqtt_client_stop_finish :: "esp_mqtt_client \<Rightarrow> int \<times> esp_mqtt_client" where
  "esp_mqtt_client_stop_finish c = (ESP_OK, c\<lparr>cl_state := MQTT_STATE_UNKNOWN\<rparr>)"

definition event0 :: esp_mqtt_event where
  "event0 = \<lparr>event_id = MQTT_EVENT_ERROR, ev_data = None, ev_data_len = 0, ev_total_data_len = 0,
     ev_current_data_offset = 0, ev_topic = None, ev_topic_len = 0, ev_msg_id = 0\<rparr>"

definition client0 :: "net \<Rightarrow> int list \<Rightarrow> u16 list \<Rightarrow> esp_mqtt_client" where
  "client0 w ticks rands =
     \<lparr>cl_transport_list = [], cl_ws = \<lparr>ws_path = [], ws_buffer = [], ws_parent = None\<rparr>, cl_transport = None,
      cl_config = None, cl_in_buffer = [], cl_in_buffer_length = 0, cl_out_buffer_length = 0,
      cl_message_length = 0, cl_message_length_read = 0, cl_outbound = False, cl_conn = mqtt_msg_init [] 0,
      cl_pending_msg_id = 0, cl_pending_msg_type = 0, cl_pending_msg_count = 0,
      cl_connect_info = \<lparr>client_id = None, username = None, password = None, will_topic = None, will_message = [],
        keepalive = 0, will_length = 0, will_qos = 0, will_retain = False, clean_session = False\<rparr>,
      cl_state = MQTT_STATE_UNKNOWN, cl_keepalive_tick = 0, cl_reconnect_tick = 0, cl_wait_timeout_ms = 0,
      cl_event = event0, cl_run = False, cl_wait_for_ping_resp = False, cl_outbox = [], cl_stopped_bit = False,
      cl_net = w, cl_ticks = ticks, cl_rand = rands, cl_events = []\<rparr>"


text \<open>
  \<open>esp_mqtt_client_init\<close>. The inner \<open>None\<close> is NULL, returned when the first allocation fails; every
  later failure goes to \<open>esp_mqtt_client_destroy\<close>, whose \<open>esp_mqtt_client_stop\<close> waits on the event
  group that is not created yet, which is undefined: \<open>None\<close>. \<open>uninit\<close> are the bytes of the fresh
  buffers. The result of \<open>esp_mqtt_set_config\<close> is not looked at.
\<close>

definition init_transports ::
  "(nat \<Rightarrow> bool) \<Rightarrow> (byte list \<Rightarrow> byte list) \<Rightarrow> (byte list \<Rightarrow> byte list) \<Rightarrow> (nat \<Rightarrow> byte list) \<Rightarrow>
     (transport_list \<times> transport_ws) option" where
  "init_transports alloc b64 sha1 uninit =
     do { list0 \<leftarrow> (if alloc 272 then Some [] else None);
          let tcp = snd (transport_set_default_port (transport_tcp_init (alloc 99) (alloc 145) 1) 1883);
          _ \<leftarrow> tcp;
          list1 \<leftarrow> snd (transport_list_add (Some list0) tcp (ascii ''mqtt'') (alloc 278));
          let ws = transport_ws_context tcp (uninit DEFAULT_WS_BUFFER);
          let wst = snd (transport_set_default_port (transport_ws_init b64 sha1 ws (alloc 233) (alloc 234) 2) 80);
          _ \<leftarrow> wst;
          list2 \<leftarrow> snd (transport_list_add (Some list1) wst (ascii ''ws'') (alloc 288));
          Some (list2, ws) }"

definition chosen_scheme :: "(nat \<Rightarrow> bool) \<Rightarrow> esp_mqtt_client_config \<Rightarrow> byte list option option" where
  "chosen_scheme alloc config =
     (if conf_transport config = MQTT_TRANSPORT_OVER_TCP then if alloc 280 then Some (Some (ascii ''mqtt'')) else None
      else if conf_transport config = MQTT_TRANSPORT_OVER_WS then if alloc 290 then Some (Some (ascii ''ws'')) else None
      else Some None)"

definition init_uri ::
  "(nat \<Rightarrow> bool) \<Rightarrow> (byte list \<Rightarrow> parsed_url option) \<Rightarrow> (byte list \<Rightarrow> byte list) \<Rightarrow> (byte list \<Rightarrow> byte list) \<Rightarrow>
     esp_mqtt_client \<Rightarrow> esp_mqtt_client option" where
  "init_uri alloc parse_url b64 sha1 c =
     do { cfg \<leftarrow> cl_config c;
          case cfg_uri cfg of
            None \<Rightarrow> Some c
          | Some uri \<Rightarrow> do { (err, c') \<leftarrow> esp_mqtt_client_set_uri alloc parse_url b64 sha1 c uri;
                             if err = ESP_OK then Some c' else None } }"

definition init_scheme :: "(nat \<Rightarrow> bool) \<Rightarrow> esp_mqtt_client \<Rightarrow> esp_mqtt_client option" where
  "init_scheme alloc c =
     do { cfg \<leftarrow> cl_config c;
          case cfg_scheme cfg of
            Some _ \<Rightarrow> Some c
          | None \<Rightarrow> if alloc 326 then Some (c\<lparr>cl_config := Some (cfg\<lparr>cfg_scheme := Some (ascii ''mqtt'')\<rparr>)\<rparr>) else None }"

definition init_buffers ::
  "(nat \<Rightarrow> bool) \<Rightarrow> (nat \<Rightarrow> byte list) \<Rightarrow> esp_mqtt_client_config \<Rightarrow> esp_mqtt_client \<Rightarrow> esp_mqtt_client option" where
  "init_buffers alloc uninit config c =
     (let (t1, c1) = platform_tick_get_ms c;
          (t2, c2) = platform_tick_get_ms c1;
          buffer_size = nat (if conf_buffer_size config \<le> 0 then MQTT_BUFFER_SIZE_BYTE else conf_buffer_size config)
      in if alloc 338 \<and> alloc 341 \<and> alloc 346 \<and> alloc 348
         then Some (c2\<lparr>cl_keepalive_tick := t1, cl_reconnect_tick := t2, cl_wait_for_ping_resp := False,
                cl_in_buffer := take buffer_size (uninit buffer_size), cl_in_buffer_length := buffer_size,
                cl_conn := mqtt_msg_init (take buffer_size (uninit buffer_size)) 0,
                cl_out_buffer_length := buffer_size, cl_outbox := []\<rparr>)
         else None)"

definition esp_mqtt_client_init ::
  "(nat \<Rightarrow> bool) \<Rightarrow> byte list \<Rightarrow> (byte list \<Rightarrow> parsed_url option) \<Rightarrow> (byte list \<Rightarrow> byte list) \<Rightarrow>
     (byte list \<Rightarrow> byte list) \<Rightarrow> (nat \<Rightarrow> byte list) \<Rightarrow> net \<Rightarrow> int list \<Rightarrow> u16 list \<Rightarrow>
     esp_mqtt_client_config \<Rightarrow> esp_mqtt_client option option" where
  "esp_mqtt_client_init alloc id_string parse_url b64 sha1 uninit w ticks rands config =
     (if \<not> alloc 267 then Some None
      else do {
        (_, c0) \<leftarrow> esp_mqtt_set_config alloc id_string (client0 w ticks rands) config;
        (list, ws) \<leftarrow> init_transports alloc b64 sha1 uninit;
        cfg \<leftarrow> cl_config c0;
        scheme \<leftarrow> chosen_scheme alloc config;
        c1 \<leftarrow> init_uri alloc parse_url b64 sha1
          (c0\<lparr>cl_transport_list := list, cl_ws := ws, cl_config := Some (cfg\<lparr>cfg_scheme := scheme\<rparr>)\<rparr>);
        c2 \<leftarrow> init_scheme alloc c1;
        c3 \<leftarrow> init_buffers alloc uninit config c2;
        Some (Some c3) })"

text \<open>\<open>esp_mqtt_client_destroy\<close> once the task has stopped; what is left allocated are the messages
  \<open>outbox_destroy\<close> leaves.\<close>

definition esp_mqtt_client_destroy :: "esp_mqtt_client \<Rightarrow> int \<times> outbox \<times> net" where
  "esp_mqtt_client_destroy c =
     (let c1 = snd (esp_mqtt_client_stop_finish (esp_mqtt_client_stop_request c));
          (_, c2) = esp_mqtt_destroy_config c1;
          (_, w) = transport_list_clean (cl_transport_list c2) (cl_net c2)
      in (ESP_OK, outbox_destroy (cl_outbox c2), w))"

section \<open>Sending and events\<close>

text \<open>Handing the message to \<open>transport_write\<close>, which may mask it in place.\<close>

definition put_wire :: "mqtt_connection \<Rightarrow> byte list \<Rightarrow> mqtt_connection" where
  "put_wire conn p =
     conn\<lparr>buffer := take (msg_data conn) (buffer conn) @ p @ drop (msg_data conn + length p) (buffer conn)\<rparr>"

definition send_outbound :: "esp_mqtt_client \<Rightarrow> (int \<times> esp_mqtt_client) option" where
  "send_outbound c =
     (if \<not> cl_outbound c then None
      else do {
        cfg \<leftarrow> cl_config c;
        let p = wire (cl_conn c);
        (write_len, p', w) \<leftarrow> transport_write (cl_transport c) p (length p) (cfg_network_timeout_ms cfg) (cl_net c);
        Some (write_len, c\<lparr>cl_conn := put_wire (cl_conn c) p', cl_net := w\<rparr>) })"

definition mqtt_write_data :: "esp_mqtt_client \<Rightarrow> (int \<times> esp_mqtt_client) option" where
  "mqtt_write_data c =
     do { (write_len, c1) \<leftarrow> send_outbound c;
          if write_len \<le> 0 then Some (ESP_FAIL, c1)
          else let (t, c2) = platform_tick_get_ms c1 in Some (ESP_OK, c2\<lparr>cl_keepalive_tick := t\<rparr>) }"

text \<open>The handler gets \<open>&client->event\<close>; its result is not used by any caller.\<close>

definition esp_mqtt_dispatch_event :: "esp_mqtt_client \<Rightarrow> esp_mqtt_client option" where
  "esp_mqtt_dispatch_event c =
     do { mid \<leftarrow> mqtt_get_id (cl_in_buffer c) (cl_in_buffer_length c);
          cfg \<leftarrow> cl_config c;
          let ev = (cl_event c)\<lparr>ev_msg_id := mid\<rparr>;
          Some (if cfg_event_handle cfg
                then c\<lparr>cl_event := ev, cl_events := cl_events c @ [(ev, cl_in_buffer c)]\<rparr>
                else c\<lparr>cl_event := ev\<rparr>) }"

definition dispatch_id :: "esp_mqtt_event_id \<Rightarrow> esp_mqtt_client \<Rightarrow> esp_mqtt_client option" where
  "dispatch_id e c = esp_mqtt_dispatch_event (c\<lparr>cl_event := (cl_event c)\<lparr>event_id := e\<rparr>\<rparr>)"

text \<open>\<open>mqtt_get_type(message->data)\<close>: undefined for a failed message, whose data is NULL.\<close>

definition outbound_type :: "mqtt_connection \<Rightarrow> nat option" where
  "outbound_type conn = (if msg_length conn = 0 then None else mqtt_get_type (wire conn))"

section \<open>Connection\<close>

text \<open>The response is asked for with the length of the request. A read that times out returns 0 and is
  treated as a read that succeeded.\<close>

definition read_connack :: "esp_mqtt_client \<Rightarrow> int \<Rightarrow> (int \<times> esp_mqtt_client) option" where
  "read_connack c timeout_ms =
     do { (read_len, buf, w) \<leftarrow> transport_read (cl_transport c) (cl_in_buffer c) (msg_length (cl_conn c))
                              timeout_ms (cl_net c);
          let c1 = c\<lparr>cl_in_buffer := buf, cl_net := w\<rparr>;
          if read_len < 0 then Some (ESP_FAIL, c1)
          else do {
            rtype \<leftarrow> mqtt_get_type buf;
            if rtype \<noteq> MQTT_MSG_TYPE_CONNACK then Some (ESP_FAIL, c1)
            else do { code \<leftarrow> mqtt_get_connect_return_code buf;
                      Some (if code = 0 then ESP_OK else ESP_FAIL, c1) } } }"

text \<open>The request: a client whose credentials do not fit into the output buffer gets a failed message,
  and its NULL data is read.\<close>

definition connect_request :: "esp_mqtt_client \<Rightarrow> esp_mqtt_client option" where
  "connect_request c =
     do { conn \<leftarrow> mqtt_msg_connect (mqtt_msg_init (buffer (cl_conn c)) (cl_out_buffer_length c)) (cl_connect_info c);
          type \<leftarrow> outbound_type conn;
          mid \<leftarrow> mqtt_get_id (wire conn) (msg_length conn);
          Some (c\<lparr>cl_wait_for_ping_resp := False, cl_conn := conn, cl_outbound := True,
                  cl_pending_msg_type := type, cl_pending_msg_id := mid\<rparr>) }"

definition esp_mqtt_connect :: "esp_mqtt_client \<Rightarrow> (int \<times> esp_mqtt_client) option" where
  "esp_mqtt_connect c =
     do { cfg \<leftarrow> cl_config c;
          c1 \<leftarrow> connect_request c;
          (write_len, c2) \<leftarrow> send_outbound c1;
          if write_len < 0 then Some (ESP_FAIL, c2) else read_connack c2 (cfg_network_timeout_ms cfg) }"

definition esp_mqtt_abort_connection :: "esp_mqtt_client \<Rightarrow> (int \<times> esp_mqtt_client) option" where
  "esp_mqtt_abort_connection c =
     (let (_, w) = transport_close (cl_transport c) (cl_net c);
          (t, c1) = platform_tick_get_ms (c\<lparr>cl_net := w\<rparr>)
      in do { c2 \<leftarrow> dispatch_id MQTT_EVENT_DISCONNECTED
                (c1\<lparr>cl_wait_timeout_ms := MQTT_RECONNECT_TIMEOUT_MS, cl_reconnect_tick := t,
                    cl_state := MQTT_STATE_WAIT_TIMEOUT, cl_wait_for_ping_resp := False\<rparr>);
              Some (ESP_OK, c2) })"

section \<open>Receiving\<close>

text \<open>The loop of \<open>deliver_publish\<close>. \<open>tot\<close>, \<open>topic\<close> and \<open>topic_len\<close> are the locals it keeps, \<open>len_read\<close>
  the result of the last read, \<open>offset\<close> is \<open>mqtt_offset\<close>. The lengths are \<open>uint32_t\<close>.\<close>

definition publish_chunk ::
  "esp_mqtt_client \<Rightarrow> nat \<Rightarrow> nat \<Rightarrow> nat option \<Rightarrow> nat \<Rightarrow> nat \<Rightarrow>
     (nat \<times> nat option \<times> nat \<times> nat option \<times> nat) option" where
  "publish_chunk c len tot topic topic_len len_read =
     (if tot = 0
      then do { (t, tn) \<leftarrow> mqtt_get_publish_topic (cl_in_buffer c) len;
                (d, dl) \<leftarrow> mqtt_get_publish_data (cl_in_buffer c) len;
                Some (nat ((int (cl_message_length c) - int (cl_message_length_read c) + int dl) mod 2 ^ 32), t, tn, d, dl) }
      else Some (tot, topic, topic_len, Some 0, len_read))"

definition dispatch_data ::
  "esp_mqtt_client \<Rightarrow> nat option \<Rightarrow> nat \<Rightarrow> nat \<Rightarrow> nat \<Rightarrow> nat option \<Rightarrow> nat \<Rightarrow> esp_mqtt_client option" where
  "dispatch_data c d dl tot offset t tn =
     esp_mqtt_dispatch_event (c\<lparr>cl_event := (cl_event c)\<lparr>event_id := MQTT_EVENT_DATA, ev_data := d, ev_data_len := dl,
       ev_total_data_len := tot, ev_current_data_offset := offset, ev_topic := t, ev_topic_len := tn\<rparr>\<rparr>)"

text \<open>Dispatching changes the event and the log only.\<close>

lemma events_same: "c\<lparr>cl_events := cl_events c\<rparr> = c"
  by (rule esp_mqtt_client.equality) simp_all

lemma dispatch_frame:
  assumes "esp_mqtt_dispatch_event c = Some c'"
  shows "\<exists>e es. c' = c\<lparr>cl_event := e, cl_events := es\<rparr>"
proof -
  obtain mid cfg where d: "mqtt_get_id (cl_in_buffer c) (cl_in_buffer_length c) = Some mid" "cl_config c = Some cfg"
    using assms unfolding esp_mqtt_dispatch_event_def bind_eq_Some_conv by blast
  let ?e = "(cl_event c)\<lparr>ev_msg_id := mid\<rparr>"
  have "c' = c\<lparr>cl_event := ?e, cl_events := (if cfg_event_handle cfg then cl_events c @ [(?e, cl_in_buffer c)] else cl_events c)\<rparr>"
    using assms d events_same [of "c\<lparr>cl_event := ?e\<rparr>"]
    by (simp add: esp_mqtt_dispatch_event_def Let_def split: if_splits)
  then show ?thesis by blast
qed

lemma dispatch_id_frame:
  "dispatch_id i c = Some c' \<Longrightarrow> \<exists>e es. c' = c\<lparr>cl_event := e, cl_events := es\<rparr>"
  unfolding dispatch_id_def by (drule dispatch_frame) auto

lemma dispatch_data_frame:
  "dispatch_data c d dl tot offset t tn = Some c' \<Longrightarrow> \<exists>e es. c' = c\<lparr>cl_event := e, cl_events := es\<rparr>"
  unfolding dispatch_data_def by (drule dispatch_frame) auto

function deliver_loop ::
  "esp_mqtt_client \<Rightarrow> nat \<Rightarrow> nat \<Rightarrow> nat option \<Rightarrow> nat \<Rightarrow> nat \<Rightarrow> nat \<Rightarrow> esp_mqtt_client option" where
  "deliver_loop c len tot topic topic_len len_read offset =
     (case publish_chunk c len tot topic topic_len len_read of
        None \<Rightarrow> None
      | Some (tot', t, tn, d, dl) \<Rightarrow>
          (case dispatch_data c d dl tot' offset t tn of
             None \<Rightarrow> None
           | Some c1 \<Rightarrow>
               if cl_message_length_read c1 \<ge> cl_message_length c1 then Some c1
               else (case cl_config c1 of
                       None \<Rightarrow> None
                     | Some cfg \<Rightarrow>
                         (case transport_read (cl_transport c1) (cl_in_buffer c1)
                             (min (cl_message_length c1 - cl_message_length_read c1) (cl_in_buffer_length c1))
                             (cfg_network_timeout_ms cfg) (cl_net c1) of
                            None \<Rightarrow> None
                          | Some (n, buf, w) \<Rightarrow>
                              let c2 = c1\<lparr>cl_in_buffer := buf, cl_net := w\<rparr>
                              in if n \<le> 0 then Some c2
                                 else deliver_loop (c2\<lparr>cl_message_length_read := cl_message_length_read c1 + nat n\<rparr>)
                                        len tot' t tn (nat n) ((offset + dl) mod 2 ^ 32)))))"
  by pat_completeness auto
termination
  by (relation "measure (\<lambda>(c, _). cl_message_length c - cl_message_length_read c)")
    (auto dest!: dispatch_data_frame)

declare deliver_loop.simps [simp del]

definition deliver_publish :: "esp_mqtt_client \<Rightarrow> nat \<Rightarrow> esp_mqtt_client option" where
  "deliver_publish c len = deliver_loop c len 0 None 0 0 0"


definition is_valid_mqtt_msg :: "esp_mqtt_client \<Rightarrow> nat \<Rightarrow> u16 \<Rightarrow> bool \<times> esp_mqtt_client" where
  "is_valid_mqtt_msg c type mid =
     (if cl_pending_msg_count c = 0 then (False, c)
      else let (err, box) = outbox_delete (cl_outbox c) (int (unat mid)) (int type);
               c1 = c\<lparr>cl_outbox := box\<rparr>
           in if err = ESP_OK then (True, c1\<lparr>cl_pending_msg_count := cl_pending_msg_count c - 1\<rparr>)
              else if cl_pending_msg_type c = type \<and> cl_pending_msg_id c = mid
              then (True, c1\<lparr>cl_pending_msg_count := cl_pending_msg_count c - 1\<rparr>)
              else (False, c1))"

text \<open>The bytes of the outbound message are copied into the outbox; the allocations succeed.\<close>

definition mqtt_enqueue :: "esp_mqtt_client \<Rightarrow> esp_mqtt_client option" where
  "mqtt_enqueue c =
     (if cl_pending_msg_count c > 0
      then if \<not> cl_outbound c then None
           else let (t, c1) = platform_tick_get_ms c
                in do { (_, box) \<leftarrow> outbox_enqueue (cl_outbox c1) (wire (cl_conn c1)) (int (msg_length (cl_conn c1)))
                          (int (unat (cl_pending_msg_id c1))) (int (cl_pending_msg_type c1)) (to_int32 t) True True;
                        Some (c1\<lparr>cl_outbox := box\<rparr>) }
      else Some c)"

text \<open>An acknowledged request: the event is dispatched when the acknowledgement is expected.\<close>

definition acknowledged :: "esp_mqtt_client \<Rightarrow> nat \<Rightarrow> u16 \<Rightarrow> esp_mqtt_event_id \<Rightarrow> esp_mqtt_client option" where
  "acknowledged c type mid e =
     (let (ok, c1) = is_valid_mqtt_msg c type mid in if ok then dispatch_id e c1 else Some c1)"

text \<open>Answering with a message built by \<open>build\<close>; the random draws it made are gone.\<close>

definition respond ::
  "(mqtt_connection \<Rightarrow> u16 \<Rightarrow> u16 list \<Rightarrow> mqtt_connection option) \<Rightarrow> u16 \<Rightarrow> esp_mqtt_client \<Rightarrow> esp_mqtt_client option" where
  "respond build mid c =
     do { conn \<leftarrow> build (cl_conn c) mid (cl_rand c);
          let rest = (if mid = 0 then tl (dropWhile (\<lambda>r. r = 0) (cl_rand c)) else cl_rand c);
          (_, c1) \<leftarrow> mqtt_write_data (c\<lparr>cl_conn := conn, cl_outbound := True, cl_rand := rest\<rparr>);
          Some c1 }"

definition process_message :: "esp_mqtt_client \<Rightarrow> nat \<Rightarrow> nat \<Rightarrow> nat \<Rightarrow> u16 \<Rightarrow> esp_mqtt_client option" where
  "process_message c n type qos mid =
     (if type = MQTT_MSG_TYPE_SUBACK then acknowledged c MQTT_MSG_TYPE_SUBSCRIBE mid MQTT_EVENT_SUBSCRIBED
      else if type = MQTT_MSG_TYPE_UNSUBACK then acknowledged c MQTT_MSG_TYPE_UNSUBSCRIBE mid MQTT_EVENT_UNSUBSCRIBED
      else if type = MQTT_MSG_TYPE_PUBLISH
      then do { c1 \<leftarrow> (if qos = 1 then respond mqtt_msg_puback mid c
                        else if qos = 2 then respond mqtt_msg_pubrec mid c else Some c);
                len \<leftarrow> mqtt_get_total_length (cl_in_buffer c1) n;
                deliver_publish (c1\<lparr>cl_message_length_read := n, cl_message_length := len\<rparr>) n }
      else if type = MQTT_MSG_TYPE_PUBACK then acknowledged c MQTT_MSG_TYPE_PUBLISH mid MQTT_EVENT_PUBLISHED
      else if type = MQTT_MSG_TYPE_PUBREC then respond mqtt_msg_pubrel mid c
      else if type = MQTT_MSG_TYPE_PUBREL then respond mqtt_msg_pubcomp mid c
      else if type = MQTT_MSG_TYPE_PUBCOMP then acknowledged c MQTT_MSG_TYPE_PUBLISH mid MQTT_EVENT_PUBLISHED
      else if type = MQTT_MSG_TYPE_PINGRESP then Some (c\<lparr>cl_wait_for_ping_resp := False\<rparr>)
      else Some c)"

definition mqtt_process_receive :: "esp_mqtt_client \<Rightarrow> (int \<times> esp_mqtt_client) option" where
  "mqtt_process_receive c =
     do { (read_len, buf, w) \<leftarrow> transport_read (cl_transport c) (cl_in_buffer c) (cl_in_buffer_length c) 1000 (cl_net c);
          let c1 = c\<lparr>cl_in_buffer := buf, cl_net := w\<rparr>;
          if read_len < 0 then Some (ESP_FAIL, c1)
          else if read_len = 0 then Some (ESP_OK, c1)
          else do { type \<leftarrow> mqtt_get_type buf; qos \<leftarrow> mqtt_get_qos buf;
                    mid \<leftarrow> mqtt_get_id buf (cl_in_buffer_length c);
                    c2 \<leftarrow> process_message c1 (nat read_len) type qos mid;
                    Some (ESP_OK, c2) } }"

section \<open>The requests of the application\<close>

definition esp_mqtt_client_ping :: "esp_mqtt_client \<Rightarrow> (int \<times> esp_mqtt_client) option" where
  "esp_mqtt_client_ping c =
     do { conn \<leftarrow> mqtt_msg_pingreq (cl_conn c);
          (err, c1) \<leftarrow> mqtt_write_data (c\<lparr>cl_conn := conn, cl_outbound := True\<rparr>);
          Some (if err \<noteq> ESP_OK then ESP_FAIL else ESP_OK, c1) }"

text \<open>The random values left after an id was drawn from \<open>rand\<close>.\<close>

definition after_draw :: "u16 option \<Rightarrow> u16 list \<Rightarrow> u16 list" where
  "after_draw mid rand = (case mid of None \<Rightarrow> rand | Some _ \<Rightarrow> tl (dropWhile (\<lambda>r. r = 0) rand))"

definition esp_mqtt_client_subscribe :: "esp_mqtt_client \<Rightarrow> byte list option \<Rightarrow> nat \<Rightarrow> (int \<times> esp_mqtt_client) option" where
  "esp_mqtt_client_subscribe c topic qos =
     (if cl_state c \<noteq> MQTT_STATE_CONNECTED then Some (-1, c)
      else do {
        c1 \<leftarrow> mqtt_enqueue c;
        (conn, mid) \<leftarrow> mqtt_msg_subscribe (cl_conn c1) topic qos (cl_rand c1);
        type \<leftarrow> outbound_type conn;
        (err, c2) \<leftarrow> mqtt_write_data (c1\<lparr>cl_conn := conn, cl_outbound := True, cl_rand := after_draw mid (cl_rand c1),
            cl_pending_msg_id := (case mid of None \<Rightarrow> cl_pending_msg_id c1 | Some m \<Rightarrow> m),
            cl_pending_msg_type := type, cl_pending_msg_count := cl_pending_msg_count c1 + 1\<rparr>);
        Some (if err \<noteq> ESP_OK then -1 else int (unat (cl_pending_msg_id c2)), c2) })"

definition esp_mqtt_client_unsubscribe :: "esp_mqtt_client \<Rightarrow> byte list option \<Rightarrow> (int \<times> esp_mqtt_client) option" where
  "esp_mqtt_client_unsubscribe c topic =
     (if cl_state c \<noteq> MQTT_STATE_CONNECTED then Some (-1, c)
      else do {
        c1 \<leftarrow> mqtt_enqueue c;
        (conn, mid) \<leftarrow> mqtt_msg_unsubscribe (cl_conn c1) topic (cl_rand c1);
        type \<leftarrow> outbound_type conn;
        (err, c2) \<leftarrow> mqtt_write_data (c1\<lparr>cl_conn := conn, cl_outbound := True, cl_rand := after_draw mid (cl_rand c1),
            cl_pending_msg_id := (case mid of None \<Rightarrow> cl_pending_msg_id c1 | Some m \<Rightarrow> m),
            cl_pending_msg_type := type, cl_pending_msg_count := cl_pending_msg_count c1 + 1\<rparr>);
        Some (if err \<noteq> ESP_OK then -1 else int (unat (cl_pending_msg_id c2)), c2) })"

text \<open>Building the message of a publish request, and queueing it when it is to be acknowledged.\<close>

definition publish_message ::
  "esp_mqtt_client \<Rightarrow> byte list option \<Rightarrow> byte list \<Rightarrow> nat \<Rightarrow> nat \<Rightarrow> (u16 \<times> esp_mqtt_client) option" where
  "publish_message c topic payload qos retain =
     do { (conn, mid) \<leftarrow> mqtt_msg_publish (cl_conn c) topic payload qos retain (cl_rand c);
          let pending_msg_id = (case mid of None \<Rightarrow> 0 | Some m \<Rightarrow> m);
          let c1 = c\<lparr>cl_conn := conn, cl_outbound := True,
                      cl_rand := (if qos > 0 then after_draw mid (cl_rand c) else cl_rand c)\<rparr>;
          c2 \<leftarrow> (if qos > 0
                 then do { type \<leftarrow> outbound_type conn;
                           mqtt_enqueue (c1\<lparr>cl_pending_msg_type := type, cl_pending_msg_id := pending_msg_id,
                             cl_pending_msg_count := cl_pending_msg_count c + 1\<rparr>) }
                 else Some c1);
          Some (pending_msg_id, c2) }"

text \<open>\<open>pdata\<close> is the object behind the pointer; a length that is not positive is that of the string.\<close>

definition esp_mqtt_client_publish ::
  "esp_mqtt_client \<Rightarrow> byte list option \<Rightarrow> byte list \<Rightarrow> int \<Rightarrow> nat \<Rightarrow> nat \<Rightarrow> (int \<times> esp_mqtt_client) option" where
  "esp_mqtt_client_publish c topic pdata len qos retain =
     (if cl_state c \<noteq> MQTT_STATE_CONNECTED then Some (-1, c)
      else do {
        payload \<leftarrow> (if len \<le> 0 then c_str pdata
                    else if nat len \<le> length pdata then Some (take (nat len) pdata) else None);
        (pending_msg_id, c1) \<leftarrow> publish_message c topic payload qos retain;
        (err, c2) \<leftarrow> mqtt_write_data c1;
        Some (if err \<noteq> ESP_OK then -1 else int (unat pending_msg_id), c2) })"

section \<open>The task\<close>

text \<open>\<open>esp_mqtt_client_start\<close> creates the task unless it runs; the task before its loop.\<close>

definition esp_mqtt_client_start :: "bool \<Rightarrow> esp_mqtt_client \<Rightarrow> int \<times> bool" where
  "esp_mqtt_client_start created c =
     (if cl_state c \<ge> MQTT_STATE_INIT then (ESP_FAIL, False) else if created then (ESP_OK, True) else (ESP_FAIL, False))"

definition mqtt_task_begin :: "esp_mqtt_client \<Rightarrow> esp_mqtt_client option" where
  "mqtt_task_begin c =
     do { cfg \<leftarrow> cl_config c;
          let t = transport_list_get_transport (Some (cl_transport_list c)) (cfg_scheme cfg);
          Some (c\<lparr>cl_run := (case t of None \<Rightarrow> False | Some _ \<Rightarrow> True), cl_transport := t,
                  cl_config := Some (if cfg_port cfg = 0 then cfg\<lparr>cfg_port := transport_get_default_port t\<rparr> else cfg),
                  cl_state := MQTT_STATE_INIT, cl_stopped_bit := False\<rparr>) }"

definition task_init :: "esp_mqtt_client \<Rightarrow> esp_mqtt_client option" where
  "task_init c =
     do { cfg \<leftarrow> cl_config c;
          host \<leftarrow> cfg_host cfg;
          (r, w) \<leftarrow> transport_connect (cl_transport c) host (cfg_port cfg)
                      (cfg_network_timeout_ms cfg) (cl_net c);
          let c1 = c\<lparr>cl_run := (case cl_transport c of None \<Rightarrow> False | Some _ \<Rightarrow> cl_run c), cl_net := w\<rparr>;
          if r < 0 then do { (_, c2) \<leftarrow> esp_mqtt_abort_connection c1; Some c2 }
          else do {
            (err, c2) \<leftarrow> esp_mqtt_connect c1;
            if err \<noteq> ESP_OK then do { (_, c3) \<leftarrow> esp_mqtt_abort_connection c2; Some c3 }
            else dispatch_id MQTT_EVENT_CONNECTED (c2\<lparr>cl_state := MQTT_STATE_CONNECTED\<rparr>) } }"

text \<open>The rest of a pass in the connected state, after the keepalive test.\<close>

definition task_outbox :: "esp_mqtt_client \<Rightarrow> esp_mqtt_client option" where
  "task_outbox c =
     (let (t, c1) = platform_tick_get_ms c
      in do { (_, box) \<leftarrow> outbox_delete_expired (cl_outbox c1) (to_int32 t) OUTBOX_EXPIRED_TIMEOUT_MS;
              Some (c1\<lparr>cl_outbox := snd (outbox_cleanup box OUTBOX_MAX_SIZE)\<rparr>) })"

definition task_connected :: "esp_mqtt_client \<Rightarrow> esp_mqtt_client option" where
  "task_connected c =
     do { (err, c1) \<leftarrow> mqtt_process_receive c;
          if err = ESP_FAIL then do { (_, c2) \<leftarrow> esp_mqtt_abort_connection c1; Some c2 }
          else
            (let (t, c2) = platform_tick_get_ms c1
             in if t - cl_keepalive_tick c2 > int (keepalive (cl_connect_info c2) * 1000 div 2)
                then if cl_wait_for_ping_resp c2
                     then do { (_, c3) \<leftarrow> esp_mqtt_abort_connection c2; Some (c3\<lparr>cl_wait_for_ping_resp := False\<rparr>) }
                     else do { (perr, c3) \<leftarrow> esp_mqtt_client_ping c2;
                               if perr = ESP_FAIL
                               then do { (_, c4) \<leftarrow> esp_mqtt_abort_connection c3; Some c4 }
                               else task_outbox (c3\<lparr>cl_wait_for_ping_resp := True\<rparr>) }
                else task_outbox c2) }"

definition task_wait :: "esp_mqtt_client \<Rightarrow> esp_mqtt_client option" where
  "task_wait c =
     do { cfg \<leftarrow> cl_config c;
          if \<not> cfg_auto_reconnect cfg then Some (c\<lparr>cl_run := False\<rparr>)
          else
            (let (t, c1) = platform_tick_get_ms c
             in if t - cl_reconnect_tick c1 > cl_wait_timeout_ms c1
                then let (t', c2) = platform_tick_get_ms c1
                     in Some (c2\<lparr>cl_state := MQTT_STATE_INIT, cl_reconnect_tick := t'\<rparr>)
                else Some c1) }"

text \<open>One pass of \<open>while (client->run)\<close>.\<close>

definition mqtt_task_pass :: "esp_mqtt_client \<Rightarrow> esp_mqtt_client option" where
  "mqtt_task_pass c =
     (case cl_state c of
        MQTT_STATE_INIT \<Rightarrow> task_init c
      | MQTT_STATE_CONNECTED \<Rightarrow> task_connected c
      | MQTT_STATE_WAIT_TIMEOUT \<Rightarrow> task_wait c
      | _ \<Rightarrow> Some c)"

definition mqtt_task_end :: "esp_mqtt_client \<Rightarrow> esp_mqtt_client" where
  "mqtt_task_end c = c\<lparr>cl_net := snd (transport_close (cl_transport c) (cl_net c)), cl_stopped_bit := True\<rparr>"

text \<open>The steps of a running client: passes of the task, and the requests other tasks make between them.\<close>

inductive mqtt_step :: "esp_mqtt_client \<Rightarrow> esp_mqtt_client \<Rightarrow> bool" where
  pass: "cl_run c \<Longrightarrow> mqtt_task_pass c = Some c' \<Longrightarrow> mqtt_step c c'"
| subscribe: "esp_mqtt_client_subscribe c topic qos = Some (r, c') \<Longrightarrow> mqtt_step c c'"
| unsubscribe: "esp_mqtt_client_unsubscribe c topic = Some (r, c') \<Longrightarrow> mqtt_step c c'"
| publish: "esp_mqtt_client_publish c topic pdata len qos retain = Some (r, c') \<Longrightarrow> mqtt_step c c'"
| stop: "mqtt_step c (esp_mqtt_client_stop_request c)"

end
