(* ===== verification/Mqtt_Delivery.thy ===== *)
theory Mqtt_Delivery
  imports Mqtt_Client
begin

text \<open>
  The delivery of publish messages: what \<open>deliver_publish\<close> of \<open>Mqtt_Client\<close> shows the event handler
  when a message is larger than the input buffer or arrives in parts. The packet layout comes from
  \<open>Mqtt_Msg\<close>, the reads from the TCP transport.
\<close>

section \<open>The pieces of a publish message\<close>

lemma get_id_safe:
  assumes "n \<le> length buf" and "0 < length buf"
  shows "\<exists>mid. mqtt_get_id buf n = Some mid"
proof (cases "n < 1")
  case True
  then show ?thesis by (simp add: mqtt_get_id_def)
next
  case False
  obtain i' where sk: "skip_length buf n 1 = Some i'"
    using skip_length_safe [OF assms(1), of 1] by auto
  have rds: "rd buf k = Some (buf ! k)" if "k < n" for k
    using that assms(1) by (simp add: mem_simps)
  have "\<exists>q. mqtt_get_qos buf = Some q" "\<exists>ty. mqtt_get_type buf = Some ty"
    using rds [of 0] False by (simp_all add: mqtt_get_qos_def mqtt_get_type_def)
  then show ?thesis
    using sk False by (cases "i' + 2 \<ge> n") (auto simp: mqtt_get_id_def Let_def rds)
qed

text \<open>The fields of a publish message of which the first \<open>n\<close> bytes, past its header, are there.\<close>

lemma publish_prefix_fields:
  fixes t ids dat :: "byte list" and qos retain m n :: nat
  defines "rl \<equiv> remaining_length_bytes m"
  defines "k \<equiv> 3 + length rl + length t + length ids"
  defines "buf \<equiv> header_byte MQTT_MSG_TYPE_PUBLISH 0 qos retain # rl @ mqtt_str t @ ids @ dat"
  assumes "qos < 4" "retain < 2" "length t < 65536" "m < 16384"
    and "length ids = (if qos > 0 then 2 else 0)" and "k < n" "n \<le> length buf" "k \<le> 1 + length rl + m"
  shows "mqtt_get_total_length buf n = Some (1 + length rl + m)"
    and "mqtt_get_publish_topic buf n = Some (Some (3 + length rl), length t)"
    and "mqtt_get_publish_data buf n = Some (Some k, min n (1 + length rl + m) - k)"
proof -
  let ?h = "header_byte MQTT_MSG_TYPE_PUBLISH 0 qos retain"
  let ?hi = "of_nat (length t div 256) :: byte" and ?lo = "of_nat (length t mod 256) :: byte"
  have buf: "buf = ?h # rl @ ?hi # ?lo # t @ ids @ dat"
    by (simp add: buf_def mqtt_str_def)
  have n1: "length rl < n" "3 + length rl + length t + length ids < n" using assms(9) by (simp_all add: k_def)
  have lenfield: "length_field buf n 1 0 = Some (m, 1 + length rl)"
    using length_field_packet [OF assms(7), of n ?h] n1 by (simp add: buf rl_def)
  have rlen: "length rl \<le> 2" by (simp add: rl_def remaining_length_bytes_def)
  have rds: "rd buf (1 + length rl) = Some ?hi" "rd buf (1 + length rl + 1) = Some ?lo"
    by (simp_all add: buf rd_def nth_append)
  have tl: "unat ?hi * 256 + unat ?lo = length t" by (rule be16_len [OF assms(6)])
  have ty: "mqtt_get_qos buf = Some qos"
    using header_fields [of MQTT_MSG_TYPE_PUBLISH 0 qos retain] assms(4,5) by (simp add: buf)
  show "mqtt_get_total_length buf n = Some (1 + length rl + m)"
    using lenfield rlen assms(7) by (simp add: mqtt_get_total_length_def)
  show "mqtt_get_publish_topic buf n = Some (Some (3 + length rl), length t)"
    using lenfield rds tl n1 by (simp add: mqtt_get_publish_topic_def Let_def)
  show "mqtt_get_publish_data buf n = Some (Some k, min n (1 + length rl + m) - k)"
    using lenfield rds tl n1 ty assms(8,11)
    by (cases "qos > 0"; cases "1 + length rl + m \<le> n")
      (simp_all add: mqtt_get_publish_data_def Let_def k_def min_def)
qed

text \<open>The bytes an event shows its handler.\<close>

definition event_bytes :: "esp_mqtt_event \<times> byte list \<Rightarrow> byte list" where
  "event_bytes = (\<lambda>(e, buf). case ev_data e of None \<Rightarrow> [] | Some d \<Rightarrow> take (ev_data_len e) (drop d buf))"

definition event_topic :: "esp_mqtt_event \<times> byte list \<Rightarrow> byte list" where
  "event_topic = (\<lambda>(e, buf). case ev_topic e of None \<Rightarrow> [] | Some d \<Rightarrow> take (ev_topic_len e) (drop d buf))"

text \<open>A receiving client: configured with a handler, over a transport that reads like TCP.\<close>

definition receiving :: "esp_mqtt_client \<Rightarrow> bool" where
  "receiving c \<longleftrightarrow> (case cl_config c of None \<Rightarrow> False | Some cfg \<Rightarrow> cfg_event_handle cfg) \<and>
     transport_read (cl_transport c) = tcp_read \<and> length (cl_in_buffer c) = cl_in_buffer_length c \<and>
     cl_in_buffer c \<noteq> []"

definition data_event ::
  "esp_mqtt_client \<Rightarrow> nat option \<Rightarrow> nat \<Rightarrow> nat \<Rightarrow> nat \<Rightarrow> nat option \<Rightarrow> nat \<Rightarrow> u16 \<Rightarrow> esp_mqtt_event" where
  "data_event c d dl tot offset t tn mid = (cl_event c)\<lparr>event_id := MQTT_EVENT_DATA, ev_data := d, ev_data_len := dl,
     ev_total_data_len := tot, ev_current_data_offset := offset, ev_topic := t, ev_topic_len := tn, ev_msg_id := mid\<rparr>"

lemma dispatch_data_receiving:
  assumes "receiving c"
  shows "\<exists>mid. dispatch_data c d dl tot offset t tn =
    Some (c\<lparr>cl_event := data_event c d dl tot offset t tn mid,
            cl_events := cl_events c @ [(data_event c d dl tot offset t tn mid, cl_in_buffer c)]\<rparr>)"
proof -
  obtain cfg where cfg: "cl_config c = Some cfg" "cfg_event_handle cfg"
    using assms by (auto simp: receiving_def split: option.splits)
  obtain mid where mid: "mqtt_get_id (cl_in_buffer c) (cl_in_buffer_length c) = Some mid"
    using get_id_safe [of "cl_in_buffer_length c" "cl_in_buffer c"] assms by (auto simp: receiving_def)
  show ?thesis
    using cfg mid by (intro exI [of _ mid]) (simp add: dispatch_data_def esp_mqtt_dispatch_event_def data_event_def Let_def)
qed

lemma tcp_read_script:
  assumes "net_polls w = 1 # ps" "net_reads w = Some bs # rs" "bs \<noteq> []" "length bs \<le> len" "length bs \<le> length buf"
  shows "tcp_read buf len tmo w = Some (int (length bs), bs @ drop (length bs) buf, w\<lparr>net_polls := ps, net_reads := rs\<rparr>)"
  using assms by (simp add: tcp_read_def tcp_poll_read_def net_select_def net_read_def next_of_def mem_simps)

text \<open>One pass of the loop: the last, and one after which a chunk is read.\<close>

definition after_event :: "esp_mqtt_client \<Rightarrow> esp_mqtt_event \<Rightarrow> esp_mqtt_client" where
  "after_event c e = c\<lparr>cl_event := e, cl_events := cl_events c @ [(e, cl_in_buffer c)]\<rparr>"

definition after_chunk :: "esp_mqtt_client \<Rightarrow> esp_mqtt_event \<Rightarrow> byte list \<Rightarrow> net \<Rightarrow> esp_mqtt_client" where
  "after_chunk c e b w = (after_event c e)\<lparr>cl_in_buffer := b @ drop (length b) (cl_in_buffer c), cl_net := w,
     cl_message_length_read := cl_message_length_read c + length b\<rparr>"

lemma deliver_last:
  assumes "receiving c" and "publish_chunk c len tot0 t0 tn0 n0 = Some (tot, t, tn, d, dl)"
    and "cl_message_length c \<le> cl_message_length_read c"
  shows "\<exists>mid. deliver_loop c len tot0 t0 tn0 n0 off = Some (after_event c (data_event c d dl tot off t tn mid))"
proof -
  obtain mid where "dispatch_data c d dl tot off t tn = Some (after_event c (data_event c d dl tot off t tn mid))"
    using dispatch_data_receiving [OF assms(1)] unfolding after_event_def by blast
  with assms(2,3) show ?thesis
    by (intro exI [of _ mid]) (simp add: deliver_loop.simps [of c] after_event_def)
qed

lemma deliver_step:
  assumes "receiving c" and "publish_chunk c len tot0 t0 tn0 n0 = Some (tot, t, tn, d, dl)"
    and "b \<noteq> []" "length b \<le> cl_message_length c - cl_message_length_read c" "length b \<le> cl_in_buffer_length c"
    and "net_polls (cl_net c) = 1 # ps" "net_reads (cl_net c) = Some b # rs"
  shows "\<exists>mid. deliver_loop c len tot0 t0 tn0 n0 off =
    deliver_loop (after_chunk c (data_event c d dl tot off t tn mid) b ((cl_net c)\<lparr>net_polls := ps, net_reads := rs\<rparr>))
      len tot t tn (length b) ((off + dl) mod 2 ^ 32)"
proof -
  obtain cfg where cfg: "cl_config c = Some cfg"
    using assms(1) by (auto simp: receiving_def split: option.splits)
  obtain mid where d: "dispatch_data c d dl tot off t tn = Some (after_event c (data_event c d dl tot off t tn mid))"
    using dispatch_data_receiving [OF assms(1)] unfolding after_event_def by blast
  have inlen: "length (cl_in_buffer c) = cl_in_buffer_length c" and tr: "transport_read (cl_transport c) = tcp_read"
    using assms(1) by (simp_all add: receiving_def)
  have lt: "\<not> cl_message_length c \<le> cl_message_length_read c" using assms(3,4) by (cases b) auto
  have len: "length b \<le> min (cl_message_length c - cl_message_length_read c) (cl_in_buffer_length c)"
    using assms(4,5) by simp
  have "tcp_read (cl_in_buffer c) (min (cl_message_length c - cl_message_length_read c) (cl_in_buffer_length c))
      (cfg_network_timeout_ms cfg) (cl_net c) =
    Some (int (length b), b @ drop (length b) (cl_in_buffer c), (cl_net c)\<lparr>net_polls := ps, net_reads := rs\<rparr>)"
    using tcp_read_script [OF assms(6,7,3) len] assms(5) inlen by simp
  then show ?thesis
    using d lt cfg tr assms(2,3)
    by (intro exI [of _ mid], subst deliver_loop.simps) (simp add: after_event_def after_chunk_def)
qed

lemma receiving_after_chunk:
  "receiving c \<Longrightarrow> b \<noteq> [] \<Longrightarrow> length b \<le> cl_in_buffer_length c \<Longrightarrow> receiving (after_chunk c e b w)"
  by (simp add: receiving_def after_chunk_def after_event_def)

text \<open>What the loop delivers: events with these chunks of data, at the offsets where they belong.\<close>

definition delivers ::
  "esp_mqtt_client \<Rightarrow> esp_mqtt_client \<Rightarrow> (esp_mqtt_event \<times> byte list) list \<Rightarrow> nat \<Rightarrow> nat \<Rightarrow> byte list list \<Rightarrow> bool" where
  "delivers c c' evs tot off cs \<longleftrightarrow> cl_events c' = cl_events c @ evs \<and> map event_bytes evs = cs \<and>
     list_all (\<lambda>e. event_id (fst e) = MQTT_EVENT_DATA \<and> ev_total_data_len (fst e) = tot) evs \<and>
     map (\<lambda>e. ev_current_data_offset (fst e)) evs = map (\<lambda>i. off + length (concat (take i cs))) [0..<length cs]"

lemma delivers_one:
  "event_bytes (data_event c d dl tot off t tn mid, cl_in_buffer c) = b \<Longrightarrow>
     delivers c (after_event c (data_event c d dl tot off t tn mid)) [(data_event c d dl tot off t tn mid, cl_in_buffer c)] tot off [b]"
  by (simp add: delivers_def after_event_def) (simp add: data_event_def)

lemma delivers_Cons:
  assumes "event_bytes (data_event c d (length x) tot off t tn mid, cl_in_buffer c) = x"
    and "delivers (after_chunk c (data_event c d (length x) tot off t tn mid) b w) c' evs tot (off + length x) cs"
  shows "delivers c c' ((data_event c d (length x) tot off t tn mid, cl_in_buffer c) # evs) tot off (x # cs)"
proof -
  let ?e = "data_event c d (length x) tot off t tn mid"
  have e: "event_id ?e = MQTT_EVENT_DATA" "ev_total_data_len ?e = tot" "ev_current_data_offset ?e = off"
    by (simp_all add: data_event_def)
  have "map (\<lambda>i. off + length (concat (take i (x # cs)))) [0..<length (x # cs)] =
      off # map (\<lambda>i. off + length x + length (concat (take i cs))) [0..<length cs]"
    by (simp add: upt_conv_Cons map_Suc_upt [symmetric] comp_def add.assoc del: upt_Suc)
  then show ?thesis
    using assms e by (simp add: delivers_def after_chunk_def after_event_def)
qed

text \<open>The chunks after the first.\<close>

lemma deliver_rest:
  assumes "receiving c" and "0 < tot" and "cl_message_length c = cl_message_length_read c + length (concat cs)"
    and "net_polls (cl_net c) = replicate (length cs) 1 @ ps" "net_reads (cl_net c) = map Some cs @ rs"
    and "list_all (\<lambda>b. b \<noteq> [] \<and> length b \<le> cl_in_buffer_length c) cs"
    and "off + length x + length (concat cs) < 2 ^ 32" and "take (length x) (cl_in_buffer c) = x"
  shows "\<exists>c' evs. deliver_loop c len tot t tn (length x) off = Some c' \<and> delivers c c' evs tot off (x # cs) \<and>
    net_reads (cl_net c') = rs"
  using assms
proof (induction cs arbitrary: c x off)
  case Nil
  have pc: "publish_chunk c len tot t tn (length x) = Some (tot, t, tn, Some 0, length x)"
    using Nil.prems(2) by (simp add: publish_chunk_def)
  obtain mid where d: "deliver_loop c len tot t tn (length x) off =
      Some (after_event c (data_event c (Some 0) (length x) tot off t tn mid))"
    using deliver_last [OF Nil.prems(1) pc] Nil.prems(3) by auto
  have eb: "event_bytes (data_event c (Some 0) (length x) tot off t tn mid, cl_in_buffer c) = x"
    using Nil.prems(8) by (simp add: event_bytes_def data_event_def)
  have "net_reads (cl_net (after_event c (data_event c (Some 0) (length x) tot off t tn mid))) = rs"
    using Nil.prems(5) by (simp add: after_event_def)
  with d delivers_one [OF eb] show ?case by blast
next
  case (Cons b cs)
  have pc: "publish_chunk c len tot t tn (length x) = Some (tot, t, tn, Some 0, length x)"
    using Cons.prems(2) by (simp add: publish_chunk_def)
  have b: "b \<noteq> []" "length b \<le> cl_in_buffer_length c" "length b \<le> cl_message_length c - cl_message_length_read c"
    using Cons.prems(3,6) by simp_all
  let ?w = "(cl_net c)\<lparr>net_polls := replicate (length cs) 1 @ ps, net_reads := map Some cs @ rs\<rparr>"
  have polls: "net_polls (cl_net c) = 1 # (replicate (length cs) 1 @ ps)"
    and reads: "net_reads (cl_net c) = Some b # (map Some cs @ rs)"
    using Cons.prems(4,5) by simp_all
  obtain mid where step: "deliver_loop c len tot t tn (length x) off =
      deliver_loop (after_chunk c (data_event c (Some 0) (length x) tot off t tn mid) b ?w) len tot t tn (length b)
        ((off + length x) mod 2 ^ 32)"
    using deliver_step [OF Cons.prems(1) pc b(1,3,2) polls reads] by blast
  let ?c2 = "after_chunk c (data_event c (Some 0) (length x) tot off t tn mid) b ?w"
  have eb: "event_bytes (data_event c (Some 0) (length x) tot off t tn mid, cl_in_buffer c) = x"
    using Cons.prems(8) by (simp add: event_bytes_def data_event_def)
  have c2: "cl_message_length ?c2 = cl_message_length_read ?c2 + length (concat cs)"
    "net_polls (cl_net ?c2) = replicate (length cs) 1 @ ps" "net_reads (cl_net ?c2) = map Some cs @ rs"
    "list_all (\<lambda>b. b \<noteq> [] \<and> length b \<le> cl_in_buffer_length ?c2) cs" "take (length b) (cl_in_buffer ?c2) = b"
    using Cons.prems(3,6) by (simp_all add: after_chunk_def after_event_def)
  have off: "(off + length x) mod 2 ^ 32 = off + length x" "(off + length x) + length b + length (concat cs) < 2 ^ 32"
    using Cons.prems(7) by simp_all
  obtain c' evs where IH: "deliver_loop ?c2 len tot t tn (length b) (off + length x) = Some c'"
      "delivers ?c2 c' evs tot (off + length x) (b # cs)" "net_reads (cl_net c') = rs"
    using Cons.IH [OF receiving_after_chunk [OF Cons.prems(1) b(1,2)] Cons.prems(2) c2(1-4) off(2) c2(5)] by blast
  show ?case
    using step IH(1,3) delivers_Cons [OF eb IH(2)] off(1) by (metis (no_types))
qed

text \<open>The packet of a publish message.\<close>

definition publish_packet :: "byte list \<Rightarrow> byte list \<Rightarrow> nat \<Rightarrow> nat \<Rightarrow> u16 \<Rightarrow> byte list" where
  "publish_packet t pdata qos retain mid = packet MQTT_MSG_TYPE_PUBLISH 0 qos retain (publish_body t pdata qos mid)"

text \<open>The parts of a publish packet, and the buffer that begins with a part of it.\<close>

lemma packet_parts:
  defines "rl qos t mid pdata \<equiv> remaining_length_bytes (length (publish_body t pdata qos mid))"
    and "ids qos mid \<equiv> if qos > 0 then id_bytes mid else []"
  shows "publish_packet t pdata qos retain mid =
      (header_byte MQTT_MSG_TYPE_PUBLISH 0 qos retain # rl qos t mid pdata @ mqtt_str t @ ids qos mid) @ pdata"
    "length (publish_packet t pdata qos retain mid) = 1 + length (rl qos t mid pdata) + length (publish_body t pdata qos mid)"
    "length (header_byte MQTT_MSG_TYPE_PUBLISH 0 qos retain # rl qos t mid pdata @ mqtt_str t @ ids qos mid) =
      3 + length (rl qos t mid pdata) + length t + length (ids qos mid)"
  by (simp_all add: publish_packet_def packet_def rl_def publish_body_def ids_def length_mqtt_str)

lemma begun_buffer:
  assumes "take n buf = take n (h @ pdata)" "length h < n"
  shows "buf = h @ take (n - length h) pdata @ drop n buf" "take (n - length h) (drop (length h) buf) = take (n - length h) pdata"
proof -
  have t: "take n buf = h @ take (n - length h) pdata" using assms by simp
  then show "buf = h @ take (n - length h) pdata @ drop n buf" by (metis append_assoc append_take_drop_id)
  show "take (n - length h) (drop (length h) buf) = take (n - length h) pdata"
    using t by (metis append_eq_conv_conj drop_take)
qed

text \<open>The first chunk: what the receive path reads from the head of the packet, and the event it makes of it.\<close>

lemma first_chunk:
  fixes c :: esp_mqtt_client and t pdata :: "byte list" and qos retain n :: nat and mid :: u16
  defines "p \<equiv> publish_packet t pdata qos retain mid"
  defines "c0 \<equiv> c\<lparr>cl_message_length_read := n, cl_message_length := length p\<rparr>"
  assumes "receiving c" "qos < 4" "retain < 2" "length (publish_body t pdata qos mid) < 16384"
    and "take n (cl_in_buffer c) = take n p" "length p < n + length pdata" "n \<le> length p" "n \<le> cl_in_buffer_length c"
  obtains k topic where "k < n" "length p = k + length pdata" "length p < 2 ^ 32" "drop n p = drop (n - k) pdata"
    "mqtt_get_total_length (cl_in_buffer c) n = Some (length p)"
    "publish_chunk c0 n 0 None 0 0 = Some (length pdata, topic, length t, Some k, n - k)"
    "\<And>mid'. event_bytes (data_event c0 (Some k) (n - k) (length pdata) 0 topic (length t) mid', cl_in_buffer c0) = take (n - k) pdata"
    "\<And>mid'. event_topic (data_event c0 (Some k) (n - k) (length pdata) 0 topic (length t) mid', cl_in_buffer c0) = t"
proof -
  define m rl ids where "m = length (publish_body t pdata qos mid)" and "rl = remaining_length_bytes m"
    and "ids = (if qos > 0 then id_bytes mid else [])"
  define h where "h = header_byte MQTT_MSG_TYPE_PUBLISH 0 qos retain # rl @ mqtt_str t @ ids"
  define k where "k = 3 + length rl + length t + length ids"
  have p: "p = h @ pdata" "length p = 1 + length rl + m" "length h = k"
    using packet_parts [where t = t and pdata = pdata and qos = qos and retain = retain and mid = mid] by (simp_all add: p_def h_def k_def rl_def m_def ids_def)
  then have kd: "length p = k + length pdata" and kn: "k < n" using assms(8) by simp_all
  have m: "m < 16384" "length t < 65536" using assms(6) by (simp_all add: m_def publish_body_def length_mqtt_str)
  have lp: "length p < 2 ^ 32" using p(2) m(1) by (simp add: rl_def remaining_length_bytes_def)
  define dat where "dat = take (n - k) pdata @ drop n (cl_in_buffer c)"
  have kn': "length h < n" using kn p(3) by simp
  note begun = begun_buffer [OF assms(7) [unfolded p(1)] kn', unfolded p(3)]
  have "cl_in_buffer c = h @ dat" unfolding dat_def by (rule begun(1))
  then have buf: "cl_in_buffer c = header_byte MQTT_MSG_TYPE_PUBLISH 0 qos retain # rl @ mqtt_str t @ ids @ dat" by (simp add: h_def)
  note dk = begun(2)
  have inlen: "length (cl_in_buffer c) = cl_in_buffer_length c" using assms(3) by (simp add: receiving_def)
  have prem: "3 + length (remaining_length_bytes m) + length t + length ids < n"
    "n \<le> length (header_byte MQTT_MSG_TYPE_PUBLISH 0 qos retain # remaining_length_bytes m @ mqtt_str t @ ids @ dat)"
    "3 + length (remaining_length_bytes m) + length t + length ids \<le> 1 + length (remaining_length_bytes m) + m"
    using kn assms(10) inlen buf kd p(2) by (simp_all add: k_def rl_def)
  have idl: "length ids = (if qos > 0 then 2 else 0)" by (simp add: ids_def id_bytes_def)
  note fields = publish_prefix_fields [OF assms(4,5) m(2,1) idl prem, folded rl_def, folded buf k_def]
  have "nat ((int (length p) - int n + int (n - k)) mod 2 ^ 32) = length pdata" using kn kd lp by (simp add: mod_pos_pos_trivial)
  moreover have "min n (1 + length rl + m) - k = n - k" using assms(9) p(2) by simp
  ultimately have pc: "publish_chunk c0 n 0 None 0 0 = Some (length pdata, Some (3 + length rl), length t, Some k, n - k)"
    using fields(2,3) by (simp add: publish_chunk_def c0_def)
  have "drop n p = drop (n - k) pdata" using kn by (simp add: p(1,3))
  moreover have "mqtt_get_total_length (cl_in_buffer c) n = Some (length p)" using fields(1) p(2) by simp
  moreover have "event_bytes (data_event c0 (Some k) (n - k) (length pdata) 0 (Some (3 + length rl)) (length t) mid', cl_in_buffer c0) =
      take (n - k) pdata" for mid' using dk by (simp add: event_bytes_def data_event_def c0_def)
  moreover have "event_topic (data_event c0 (Some k) (n - k) (length pdata) 0 (Some (3 + length rl)) (length t) mid', cl_in_buffer c0) = t"
    for mid' by (simp add: event_topic_def data_event_def buf mqtt_str_def numeral_3_eq_3 c0_def)
  ultimately show ?thesis using that kn kd lp pc by blast
qed

text \<open>The chunks behind the first, after the first one was read.\<close>

lemma chunks_after:
  assumes "receiving c0" "publish_chunk c0 n 0 None 0 0 = Some (dlen, topic, tn, Some k, n - k)" "k < n"
    and "\<And>mid'. event_bytes (data_event c0 (Some k) (n - k) dlen 0 topic tn mid', cl_in_buffer c0) = x" "length x = n - k"
    and "list_all (\<lambda>b. b \<noteq> [] \<and> length b \<le> cl_in_buffer_length c0) cs"
    and "cl_message_length_read c0 = n" "cl_message_length c0 = n + length (concat cs)" "n + length (concat cs) < 2 ^ 32"
    and "net_polls (cl_net c0) = replicate (length cs) 1 @ ps" "net_reads (cl_net c0) = map Some cs @ rs"
    and "0 < dlen"
  shows "\<exists>mid' c' evs. deliver_loop c0 n 0 None 0 0 0 = Some c' \<and>
    delivers c0 c' ((data_event c0 (Some k) (n - k) dlen 0 topic tn mid', cl_in_buffer c0) # evs) dlen 0 (x # cs) \<and>
    net_reads (cl_net c') = rs"
proof (cases cs)
  case Nil
  then obtain mid' where d: "deliver_loop c0 n 0 None 0 0 0 =
      Some (after_event c0 (data_event c0 (Some k) (n - k) dlen 0 topic tn mid'))"
    using deliver_last [OF assms(1,2)] assms(7,8) by auto
  moreover have "net_reads (cl_net (after_event c0 (data_event c0 (Some k) (n - k) dlen 0 topic tn mid'))) = rs"
    using assms(11) Nil by (simp add: after_event_def)
  ultimately show ?thesis using delivers_one [OF assms(4) [folded assms(5)]] unfolding Nil assms(5) [symmetric] by blast
next
  case (Cons b bs)
  let ?e = "\<lambda>mid'. data_event c0 (Some k) (n - k) dlen 0 topic tn mid'"
  let ?w = "(cl_net c0)\<lparr>net_polls := replicate (length bs) 1 @ ps, net_reads := map Some bs @ rs\<rparr>"
  have b: "b \<noteq> []" "length b \<le> cl_in_buffer_length c0" "length b \<le> cl_message_length c0 - cl_message_length_read c0"
    using assms(6-8) Cons by simp_all
  have polls: "net_polls (cl_net c0) = 1 # (replicate (length bs) 1 @ ps)" "net_reads (cl_net c0) = Some b # (map Some bs @ rs)"
    using assms(10,11) Cons by simp_all
  obtain mid' where step: "deliver_loop c0 n 0 None 0 0 0 =
      deliver_loop (after_chunk c0 (?e mid') b ?w) n dlen topic tn (length b) ((0 + (n - k)) mod 2 ^ 32)"
    using deliver_step [OF assms(1,2) b(1,3,2) polls] by blast
  let ?c2 = "after_chunk c0 (?e mid') b ?w"
  have c2: "cl_message_length ?c2 = cl_message_length_read ?c2 + length (concat bs)"
    "net_polls (cl_net ?c2) = replicate (length bs) 1 @ ps" "net_reads (cl_net ?c2) = map Some bs @ rs"
    "list_all (\<lambda>b. b \<noteq> [] \<and> length b \<le> cl_in_buffer_length ?c2) bs" "take (length b) (cl_in_buffer ?c2) = b"
    using assms(6-8) Cons by (simp_all add: after_chunk_def after_event_def)
  have off: "(0 + (n - k)) mod 2 ^ 32 = 0 + length x" "(0 + length x) + length b + length (concat bs) < 2 ^ 32"
    using assms(5,9) Cons by simp_all
  obtain c' evs where r: "deliver_loop ?c2 n dlen topic tn (length b) (0 + length x) = Some c'"
      "delivers ?c2 c' evs dlen (0 + length x) (b # bs)" "net_reads (cl_net c') = rs"
    using deliver_rest [OF receiving_after_chunk [OF assms(1) b(1,2)] assms(12) c2(1-4) off(2) c2(5)] by blast
  have "deliver_loop c0 n 0 None 0 0 0 = Some c'" using step r(1) off(1) by (simp only:)
  moreover have "delivers c0 c' ((?e mid', cl_in_buffer c0) # evs) dlen 0 (x # cs)"
    unfolding Cons assms(5) [symmetric] by (rule delivers_Cons [OF assms(4) [folded assms(5)] r(2) [folded assms(5)]])
  ultimately show ?thesis using r(3) by blast
qed

text \<open>
  C2. A publish message is delivered whole, in chunks. When the first read brought the header and
  the topic of a message and at least one byte of its data into the input buffer, and the network
  then brings the rest in whatever chunks fit the buffer, the handler gets data events whose bytes
  are together the data of the message, in order, each with its offset and with the total length;
  the first of them shows the topic. The loop ends, and reads nothing beyond the message.
\<close>

theorem publish_delivered_in_chunks:
  assumes "receiving c" and "qos < 4" "retain < 2" "length (publish_body t pdata qos mid) < 16384"
    and "take n (cl_in_buffer c) = take n (publish_packet t pdata qos retain mid)"
    and "length (publish_packet t pdata qos retain mid) < n + length pdata"
    and "n \<le> length (publish_packet t pdata qos retain mid)" "n \<le> cl_in_buffer_length c"
    and "concat cs = drop n (publish_packet t pdata qos retain mid)"
    and "list_all (\<lambda>b. b \<noteq> [] \<and> length b \<le> cl_in_buffer_length c) cs"
    and "net_polls (cl_net c) = replicate (length cs) 1 @ ps" "net_reads (cl_net c) = map Some cs @ rs"
  shows "\<exists>len c' evs. mqtt_get_total_length (cl_in_buffer c) n = Some len \<and>
    deliver_publish (c\<lparr>cl_message_length_read := n, cl_message_length := len\<rparr>) n = Some c' \<and>
    cl_events c' = cl_events c @ evs \<and> concat (map event_bytes evs) = pdata \<and> event_topic (hd evs) = t \<and>
    list_all (\<lambda>e. event_id (fst e) = MQTT_EVENT_DATA \<and> ev_total_data_len (fst e) = length pdata) evs \<and>
    map (\<lambda>e. ev_current_data_offset (fst e)) evs =
      map (\<lambda>i. length (concat (take i (map event_bytes evs)))) [0..<length evs] \<and>
    net_reads (cl_net c') = rs"
proof -
  let ?p = "publish_packet t pdata qos retain mid"
  let ?c0 = "c\<lparr>cl_message_length_read := n, cl_message_length := length ?p\<rparr>"
  obtain k topic where k: "k < n" "length ?p = k + length pdata" "length ?p < 2 ^ 32" "drop n ?p = drop (n - k) pdata"
    "mqtt_get_total_length (cl_in_buffer c) n = Some (length ?p)"
    "publish_chunk ?c0 n 0 None 0 0 = Some (length pdata, topic, length t, Some k, n - k)"
    "\<And>mid'. event_bytes (data_event ?c0 (Some k) (n - k) (length pdata) 0 topic (length t) mid', cl_in_buffer ?c0) = take (n - k) pdata"
    "\<And>mid'. event_topic (data_event ?c0 (Some k) (n - k) (length pdata) 0 topic (length t) mid', cl_in_buffer ?c0) = t"
    using first_chunk [OF assms(1-8)] by blast
  have cs: "length (concat cs) = length ?p - n" using assms(9) by simp
  have pos: "0 < length pdata" using k(1,2) assms(7) by linarith
  have cc: "take (n - k) pdata @ concat cs = pdata" using assms(9) k(4) by simp
  have "\<exists>mid' c' evs. deliver_loop ?c0 n 0 None 0 0 0 = Some c' \<and>
    delivers ?c0 c' ((data_event ?c0 (Some k) (n - k) (length pdata) 0 topic (length t) mid', cl_in_buffer ?c0) # evs) (length pdata) 0
      (take (n - k) pdata # cs) \<and> net_reads (cl_net c') = rs"
    by (rule chunks_after [OF _ k(6,1,7)])
      (use assms(1,7,10-12) k(1-3) cs pos in \<open>simp_all add: receiving_def\<close>)
  then obtain mid' c' evs where d: "deliver_loop ?c0 n 0 None 0 0 0 = Some c'" "net_reads (cl_net c') = rs"
    "delivers ?c0 c' ((data_event ?c0 (Some k) (n - k) (length pdata) 0 topic (length t) mid', cl_in_buffer ?c0) # evs) (length pdata) 0
      (take (n - k) pdata # cs)" by blast
  let ?evs = "(data_event ?c0 (Some k) (n - k) (length pdata) 0 topic (length t) mid', cl_in_buffer ?c0) # evs"
  note del = d(3) [unfolded delivers_def]
  then have len: "length ?evs = length (take (n - k) pdata # cs)" by (elim conjE) (drule arg_cong [where f = length], simp only: length_map)
  show ?thesis
  proof (intro exI [of _ "length ?p"] exI [of _ c'] exI [of _ ?evs] conjI)
    show "deliver_publish ?c0 n = Some c'" using d(1) by (simp only: deliver_publish_def)
    show "concat (map event_bytes ?evs) = pdata" using del cc by (elim conjE) (simp only: concat.simps)
    show "map (\<lambda>e. ev_current_data_offset (fst e)) ?evs =
        map (\<lambda>i. length (concat (take i (map event_bytes ?evs)))) [0..<length ?evs]"
      using del by (elim conjE) (simp only: len add_0)
    show "event_topic (hd ?evs) = t" using k(8) [of mid'] by (simp only: list.sel)
    show "cl_events c' = cl_events c @ ?evs" using del by (elim conjE) simp
  qed (use del k(5) d(2) in \<open>simp_all only: simp_thms\<close>)
qed

text \<open>A client over TCP between two sessions, with buffers of 40 bytes.\<close>

definition cfg0 :: mqtt_config_storage where
  "cfg0 = \<lparr>cfg_event_handle = True, cfg_task_stack = 0, cfg_task_prio = 0, cfg_uri = None, cfg_host = Some [0x68],
     cfg_path = None, cfg_scheme = None, cfg_port = 1883, cfg_auto_reconnect = True, cfg_network_timeout_ms = 10000\<rparr>"

definition tcp0 :: transport_item where
  "tcp0 = \<lparr>tr_port = 1883, tr_scheme = None, tr_data = 1, tr_connect = Some tcp_connect, tr_read = Some tcp_read,
     tr_write = Some tcp_write, tr_close = Some tcp_close, tr_poll_read = Some tcp_poll_read,
     tr_poll_write = Some tcp_poll_write, tr_destroy = Some tcp_destroy\<rparr>"

definition info0 :: mqtt_connect_info where
  "info0 = \<lparr>client_id = Some [0x64], username = None, password = None, will_topic = None, will_message = [],
     keepalive = 120, will_length = 0, will_qos = 0, will_retain = False, clean_session = True\<rparr>"

definition idle_client :: esp_mqtt_client where
  "idle_client = (client0 (net0\<lparr>net_polls := [1, 0], net_writes := [100]\<rparr>) [1, 2] [5])\<lparr>cl_config := Some cfg0,
     cl_transport := Some tcp0, cl_in_buffer := [0x20, 2, 0, 0] @ replicate 36 0, cl_in_buffer_length := 40,
     cl_out_buffer_length := 40, cl_conn := mqtt_msg_init (replicate 40 0) 40, cl_connect_info := info0,
     cl_state := MQTT_STATE_INIT, cl_run := True\<rparr>"

lemma tcp0_ops [simp]:
  "transport_read (Some tcp0) = tcp_read" "transport_write (Some tcp0) = tcp_write"
  by (simp_all add: transport_read_def transport_write_def tcp0_def fun_eq_iff)

text \<open>The same client with an input buffer of 8 bytes that holds the beginning of a message.\<close>

definition receiving_client :: esp_mqtt_client where
  "receiving_client = idle_client\<lparr>cl_in_buffer := [0x30, 9, 0, 1, 0x61, 1, 2, 3], cl_in_buffer_length := 8,
     cl_net := (cl_net idle_client)\<lparr>net_polls := [1], net_reads := [Some [4, 5, 6]]\<rparr>\<rparr>"

theorem publish_delivered_in_chunks_witness:
  "\<exists>len c' evs. deliver_publish (receiving_client\<lparr>cl_message_length_read := 8, cl_message_length := len\<rparr>) 8 = Some c' \<and>
     cl_events c' = evs \<and> concat (map event_bytes evs) = [1, 2, 3, 4, 5, 6] \<and> event_topic (hd evs) = [0x61]"
proof -
  have p: "publish_packet [0x61] [1, 2, 3, 4, 5, 6] 0 0 0 = [0x30, 9, 0, 1, 0x61, 1, 2, 3, 4, 5, 6]"
    by (simp add: publish_packet_def packet_def publish_body_def mqtt_str_def header_byte_def remaining_length_bytes_def)
  show ?thesis
    using publish_delivered_in_chunks [of receiving_client 0 0 "[0x61]" "[1, 2, 3, 4, 5, 6]" 0 8 "[[4, 5, 6]]" "[]" "[]"]
    by (auto simp: p receiving_client_def receiving_def idle_client_def cfg0_def client0_def net0_def
        publish_body_def mqtt_str_def)
qed

end
