(* ===== verification/Mqtt_Session.thy ===== *)
theory Mqtt_Session
  imports Mqtt_Delivery
begin

text \<open>
  The session logic of the MQTT client: which operations leave the control state alone (\<open>same_control\<close>,
  \<open>calm\<close>), the invariant of the state machine over all passes of the task and requests of the
  application, and what the client does in the situations where sessions go wrong.
\<close>

subsection \<open>What the operations leave alone\<close>

text \<open>The control part of the state: everything the session logic depends on.\<close>

definition same_control :: "esp_mqtt_client \<Rightarrow> esp_mqtt_client \<Rightarrow> bool" where
  "same_control c c' \<longleftrightarrow> cl_state c' = cl_state c \<and> cl_pending_msg_count c' = cl_pending_msg_count c \<and>
     cl_wait_for_ping_resp c' = cl_wait_for_ping_resp c \<and> cl_outbound c' = cl_outbound c"

lemma same_control_refl [simp]: "same_control c c"
  by (simp add: same_control_def)

lemma same_control_trans: "same_control a b \<Longrightarrow> same_control b c \<Longrightarrow> same_control a c"
  by (simp add: same_control_def)

lemma tick_control: "platform_tick_get_ms c = (t, c') \<Longrightarrow> same_control c c'"
  by (auto simp: platform_tick_get_ms_def same_control_def)

lemma dispatch_control: "esp_mqtt_dispatch_event c = Some c' \<Longrightarrow> same_control c c'"
  by (drule dispatch_frame) (auto simp: same_control_def)

lemma dispatch_id_control: "dispatch_id e c = Some c' \<Longrightarrow> same_control c c'"
  by (drule dispatch_id_frame) (auto simp: same_control_def)

lemma send_control: "send_outbound c = Some (n, c') \<Longrightarrow> same_control c c'"
  unfolding send_outbound_def
  by (auto simp: bind_eq_Some_conv Let_def same_control_def split: if_splits)

lemma write_control:
  assumes "mqtt_write_data c = Some (e, c')"
  shows "same_control c c'"
proof -
  obtain n c1 where s: "send_outbound c = Some (n, c1)"
    and r: "(if n \<le> 0 then Some (ESP_FAIL, c1)
      else let (t, c2) = platform_tick_get_ms c1 in Some (ESP_OK, c2\<lparr>cl_keepalive_tick := t\<rparr>)) = Some (e, c')"
    using assms unfolding mqtt_write_data_def bind_eq_Some_conv by auto
  from r have "same_control c1 c'" by (auto simp: platform_tick_get_ms_def same_control_def split: if_splits)
  with send_control [OF s] show ?thesis by (rule same_control_trans)
qed

lemma deliver_loop_control:
  "deliver_loop c len tot t tn n off = Some c' \<Longrightarrow> same_control c c'"
proof (induction c len tot t tn n off rule: deliver_loop.induct)
  case (1 c len tot t tn n off)
  obtain tot' t' tn' d dl where pc: "publish_chunk c len tot t tn n = Some (tot', t', tn', d, dl)"
    using "1.prems" by (subst (asm) deliver_loop.simps) (auto split: option.splits)
  obtain c1 where c1: "dispatch_data c d dl tot' off t' tn' = Some c1"
    using "1.prems" pc by (subst (asm) deliver_loop.simps) (auto split: option.splits)
  have s1: "same_control c c1"
    using dispatch_data_frame [OF c1] by (auto simp: same_control_def)
  show ?case
  proof (cases "cl_message_length c1 \<le> cl_message_length_read c1")
    case True
    then show ?thesis using "1.prems" pc c1 s1 by (subst (asm) deliver_loop.simps) simp
  next
    case False
    obtain cfg where cfg: "cl_config c1 = Some cfg"
      using "1.prems" pc c1 False by (subst (asm) deliver_loop.simps) (auto split: option.splits)
    obtain k buf w where rd: "transport_read (cl_transport c1) (cl_in_buffer c1)
        (min (cl_message_length c1 - cl_message_length_read c1) (cl_in_buffer_length c1))
        (cfg_network_timeout_ms cfg) (cl_net c1) = Some (k, buf, w)"
      using "1.prems" pc c1 False cfg by (subst (asm) deliver_loop.simps) (auto split: option.splits)
    let ?c2 = "c1\<lparr>cl_in_buffer := buf, cl_net := w\<rparr>"
    show ?thesis
    proof (cases "k \<le> 0")
      case True
      then have "c' = ?c2" using "1.prems" pc c1 False cfg rd by (subst (asm) deliver_loop.simps) simp
      then show ?thesis using s1 by (simp add: same_control_def)
    next
      case k: False
      then have "deliver_loop (?c2\<lparr>cl_message_length_read := cl_message_length_read c1 + nat k\<rparr>) len tot' t' tn'
          (nat k) ((off + dl) mod 2 ^ 32) = Some c'"
        using "1.prems" pc c1 False cfg rd by (subst (asm) deliver_loop.simps) simp
      from "1.IH" [OF pc refl refl refl refl c1 False cfg rd refl refl refl k this]
      show ?thesis using s1 by (simp add: same_control_def)
    qed
  qed
qed

subsection \<open>What reception and requests may change\<close>

definition calm :: "esp_mqtt_client \<Rightarrow> esp_mqtt_client \<Rightarrow> bool" where
  "calm c c' \<longleftrightarrow> cl_state c' = cl_state c \<and> (cl_outbound c \<longrightarrow> cl_outbound c') \<and>
     (cl_wait_for_ping_resp c' \<longrightarrow> cl_wait_for_ping_resp c) \<and>
     (0 \<le> cl_pending_msg_count c \<longrightarrow> 0 \<le> cl_pending_msg_count c')"

named_theorems calm_intros \<open>operations that leave the session state alone\<close>

lemma calm_trans: "calm a b \<Longrightarrow> calm b c \<Longrightarrow> calm a c"
  by (simp add: calm_def)

lemma calm_same [calm_intros]: "same_control c c' \<Longrightarrow> calm c c'"
  by (simp add: calm_def same_control_def)

lemma calm_acknowledged [calm_intros]:
  assumes "acknowledged c type mid e = Some c'"
  shows "calm c c'"
proof -
  obtain ok c1 where v: "is_valid_mqtt_msg c type mid = (ok, c1)" by (cases "is_valid_mqtt_msg c type mid")
  then have "calm c c1"
    by (auto simp: is_valid_mqtt_msg_def calm_def Let_def split: if_splits prod.splits)
  moreover have "same_control c1 c'"
    using assms v by (cases ok) (auto simp: acknowledged_def dest: dispatch_id_control)
  ultimately show ?thesis using calm_trans calm_same by blast
qed

lemma write_calm:
  assumes "mqtt_write_data (c\<lparr>cl_conn := conn, cl_outbound := True, cl_rand := r\<rparr>) = Some (e, c')"
  shows "calm c c'" "cl_outbound c'"
  using write_control [OF assms] by (simp_all add: calm_def same_control_def)

lemma calm_respond [calm_intros]:
  assumes "respond build mid c = Some c'"
  shows "calm c c'"
proof -
  obtain conn r e where "mqtt_write_data (c\<lparr>cl_conn := conn, cl_outbound := True, cl_rand := r\<rparr>) = Some (e, c')"
    using assms unfolding respond_def Let_def bind_eq_Some_conv by auto
  then show ?thesis by (rule write_calm)
qed

lemma calm_deliver:
  assumes "deliver_publish (c\<lparr>cl_message_length_read := n, cl_message_length := len\<rparr>) n = Some c'"
  shows "calm c c'"
  using deliver_loop_control [OF assms [unfolded deliver_publish_def]]
  by (simp add: calm_def same_control_def)

lemma calm_process_message:
  assumes "process_message c n type qos mid = Some c'"
  shows "calm c c'"
proof (cases "type = MQTT_MSG_TYPE_PUBLISH")
  case True
  then obtain c1 len where c1: "(if qos = 1 then respond mqtt_msg_puback mid c
        else if qos = 2 then respond mqtt_msg_pubrec mid c else Some c) = Some c1"
      "deliver_publish (c1\<lparr>cl_message_length_read := n, cl_message_length := len\<rparr>) n = Some c'"
    using assms unfolding process_message_def by (auto simp: bind_eq_Some_conv)
  have "calm c c1" using c1(1) by (auto intro: calm_respond calm_same split: if_splits)
  with calm_deliver [OF c1(2)] show ?thesis by (blast intro: calm_trans)
next
  case False
  then show ?thesis
    using assms unfolding process_message_def
    by (auto intro: calm_intros simp: calm_def split: if_splits dest: calm_acknowledged calm_respond)
qed

lemma calm_process_receive:
  assumes "mqtt_process_receive c = Some (e, c')"
  shows "calm c c'"
proof -
  obtain n buf w where rd: "transport_read (cl_transport c) (cl_in_buffer c) (cl_in_buffer_length c) 1000 (cl_net c) = Some (n, buf, w)"
    using assms unfolding mqtt_process_receive_def bind_eq_Some_conv by auto
  let ?c1 = "c\<lparr>cl_in_buffer := buf, cl_net := w\<rparr>"
  have c1: "calm c ?c1" by (simp add: calm_def)
  show ?thesis
  proof (cases "n \<le> 0")
    case True
    then show ?thesis using assms rd c1 by (auto simp: mqtt_process_receive_def Let_def split: if_splits)
  next
    case False
    then obtain type qos mid where "process_message ?c1 (nat n) type qos mid = Some c'"
      using assms rd unfolding mqtt_process_receive_def by (auto simp: bind_eq_Some_conv Let_def split: if_splits)
    then show ?thesis using c1 calm_process_message calm_trans by blast
  qed
qed

lemma calm_enqueue:
  assumes "mqtt_enqueue c = Some c'"
  shows "same_control c c'"
  using assms unfolding mqtt_enqueue_def
  by (auto simp: platform_tick_get_ms_def bind_eq_Some_conv same_control_def Let_def split: if_splits)

lemma calm_subscribe:
  assumes "esp_mqtt_client_subscribe c topic qos = Some (r, c')"
  shows "calm c c'"
proof (cases "cl_state c = MQTT_STATE_CONNECTED")
  case True
  then obtain c1 conn rands i ty e where c1: "mqtt_enqueue c = Some c1"
    and w: "mqtt_write_data (c1\<lparr>cl_conn := conn, cl_outbound := True, cl_rand := rands, cl_pending_msg_id := i,
      cl_pending_msg_type := ty, cl_pending_msg_count := cl_pending_msg_count c1 + 1\<rparr>) = Some (e, c')"
    using assms unfolding esp_mqtt_client_subscribe_def by (auto simp: bind_eq_Some_conv)
  show ?thesis
    using write_control [OF w] calm_enqueue [OF c1] by (simp add: calm_def same_control_def)
next
  case False
  then show ?thesis using assms by (simp add: esp_mqtt_client_subscribe_def calm_def)
qed

lemma calm_unsubscribe:
  assumes "esp_mqtt_client_unsubscribe c topic = Some (r, c')"
  shows "calm c c'"
proof (cases "cl_state c = MQTT_STATE_CONNECTED")
  case True
  then obtain c1 conn rands i ty e where c1: "mqtt_enqueue c = Some c1"
    and w: "mqtt_write_data (c1\<lparr>cl_conn := conn, cl_outbound := True, cl_rand := rands, cl_pending_msg_id := i,
      cl_pending_msg_type := ty, cl_pending_msg_count := cl_pending_msg_count c1 + 1\<rparr>) = Some (e, c')"
    using assms unfolding esp_mqtt_client_unsubscribe_def by (auto simp: bind_eq_Some_conv)
  show ?thesis
    using write_control [OF w] calm_enqueue [OF c1] by (simp add: calm_def same_control_def)
next
  case False
  then show ?thesis using assms by (simp add: esp_mqtt_client_unsubscribe_def calm_def)
qed

lemma calm_publish_message:
  assumes "publish_message c topic payload qos retain = Some (i, c')"
  shows "calm c c'"
proof (cases "qos > 0")
  case True
  obtain c1 where c1: "mqtt_enqueue c1 = Some c'" and "calm c c1"
    using assms True unfolding publish_message_def by (auto simp: bind_eq_Some_conv Let_def calm_def)
  with calm_same [OF calm_enqueue [OF c1]] show ?thesis using calm_trans by blast
next
  case False
  then show ?thesis using assms unfolding publish_message_def
    by (auto simp: bind_eq_Some_conv Let_def calm_def)
qed

lemma calm_publish:
  assumes "esp_mqtt_client_publish c topic pdata len qos retain = Some (r, c')"
  shows "calm c c'"
proof (cases "cl_state c = MQTT_STATE_CONNECTED")
  case True
  then obtain payload i c1 e where c1: "publish_message c topic payload qos retain = Some (i, c1)"
      and w: "mqtt_write_data c1 = Some (e, c')"
    using assms unfolding esp_mqtt_client_publish_def by (auto simp: bind_eq_Some_conv)
  show ?thesis by (rule calm_trans [OF calm_publish_message [OF c1] calm_same [OF write_control [OF w]]])
next
  case False
  then show ?thesis using assms by (simp add: esp_mqtt_client_publish_def calm_def)
qed

text \<open>The effect of losing the connection.\<close>

lemma abort_effect:
  assumes "esp_mqtt_abort_connection c = Some (e, c')"
  shows "cl_state c' = MQTT_STATE_WAIT_TIMEOUT \<and> \<not> cl_wait_for_ping_resp c' \<and>
    cl_pending_msg_count c' = cl_pending_msg_count c \<and> cl_wait_timeout_ms c' = MQTT_RECONNECT_TIMEOUT_MS"
proof -
  obtain w x t c1 where c1: "platform_tick_get_ms (c\<lparr>cl_net := w\<rparr>) = (t, c1)"
    and d: "dispatch_id MQTT_EVENT_DISCONNECTED (c1\<lparr>cl_wait_timeout_ms := MQTT_RECONNECT_TIMEOUT_MS,
      cl_reconnect_tick := t, cl_state := MQTT_STATE_WAIT_TIMEOUT, cl_wait_for_ping_resp := False\<rparr>) = Some c'"
    using assms unfolding esp_mqtt_abort_connection_def
    by (auto simp: bind_eq_Some_conv Let_def split: prod.splits)
  show ?thesis
    using dispatch_id_frame [OF d] c1 by (auto simp: platform_tick_get_ms_def)
qed

lemma read_connack_effect:
  assumes "read_connack c tmo = Some (e, c')"
  shows "same_control c c' \<and>
    (e = ESP_OK \<longrightarrow> mqtt_get_type (cl_in_buffer c') = Some MQTT_MSG_TYPE_CONNACK \<and>
       mqtt_get_connect_return_code (cl_in_buffer c') = Some 0)"
proof -
  obtain n buf w where rd: "transport_read (cl_transport c) (cl_in_buffer c) (msg_length (cl_conn c)) tmo (cl_net c) = Some (n, buf, w)"
    using assms unfolding read_connack_def by (auto simp: bind_eq_Some_conv)
  show ?thesis
  proof (cases "n < 0")
    case True
    then show ?thesis using assms rd by (auto simp: read_connack_def same_control_def)
  next
    case False
    obtain ty where ty: "mqtt_get_type buf = Some ty"
      using assms rd False unfolding read_connack_def by (auto simp: bind_eq_Some_conv Let_def)
    show ?thesis
    proof (cases "ty = MQTT_MSG_TYPE_CONNACK")
      case True
      obtain code where code: "mqtt_get_connect_return_code buf = Some code"
        using assms rd False ty True unfolding read_connack_def by (auto simp: bind_eq_Some_conv Let_def)
      show ?thesis
        using assms rd False ty True code by (cases "code = 0") (auto simp: read_connack_def same_control_def)
    next
      case f: False
      then show ?thesis using assms rd False ty by (auto simp: read_connack_def same_control_def)
    qed
  qed
qed

lemma connect_effect:
  assumes "esp_mqtt_connect c = Some (e, c')"
  shows "cl_outbound c' \<and> \<not> cl_wait_for_ping_resp c' \<and> cl_pending_msg_count c' = cl_pending_msg_count c \<and>
    cl_state c' = cl_state c \<and>
    (e = ESP_OK \<longrightarrow> mqtt_get_type (cl_in_buffer c') = Some MQTT_MSG_TYPE_CONNACK \<and>
       mqtt_get_connect_return_code (cl_in_buffer c') = Some 0)"
proof -
  obtain cfg where cfg: "cl_config c = Some cfg"
    using assms unfolding esp_mqtt_connect_def bind_eq_Some_conv by blast
  obtain c1 wl c2 where q: "connect_request c = Some c1" and s: "send_outbound c1 = Some (wl, c2)"
    using assms unfolding esp_mqtt_connect_def by (auto simp: bind_eq_Some_conv)
  have r: "(if wl < 0 then Some (ESP_FAIL, c2) else read_connack c2 (cfg_network_timeout_ms cfg)) = Some (e, c')"
    using assms cfg q s by (simp add: esp_mqtt_connect_def)
  have c1: "cl_outbound c1" "\<not> cl_wait_for_ping_resp c1"
      "cl_pending_msg_count c1 = cl_pending_msg_count c" "cl_state c1 = cl_state c"
    using q unfolding connect_request_def by (auto simp: bind_eq_Some_conv)
  have c2: "cl_outbound c2" "\<not> cl_wait_for_ping_resp c2" "cl_pending_msg_count c2 = cl_pending_msg_count c"
    "cl_state c2 = cl_state c"
    using send_control [OF s] c1 by (simp_all add: same_control_def)
  show ?thesis
  proof (cases "wl < 0")
    case True
    then show ?thesis using r c2 by auto
  next
    case False
    then have "read_connack c2 (cfg_network_timeout_ms cfg) = Some (e, c')" using r by simp
    from read_connack_effect [OF this] c2 show ?thesis by (simp add: same_control_def)
  qed
qed

section \<open>The session invariant\<close>

definition client_inv :: "esp_mqtt_client \<Rightarrow> bool" where
  "client_inv c \<longleftrightarrow> MQTT_STATE_INIT \<le> cl_state c \<and> 0 \<le> cl_pending_msg_count c \<and>
     (cl_wait_for_ping_resp c \<longrightarrow> cl_state c = MQTT_STATE_CONNECTED) \<and>
     (cl_state c = MQTT_STATE_CONNECTED \<longrightarrow> cl_outbound c)"

lemma init_le [simp]: "MQTT_STATE_INIT \<le> s \<longleftrightarrow> s = MQTT_STATE_INIT \<or> s = MQTT_STATE_CONNECTED \<or> s = MQTT_STATE_WAIT_TIMEOUT"
  by (cases s) (auto simp: less_eq_mqtt_client_state_def)

lemma client_inv_calm: "calm c c' \<Longrightarrow> client_inv c \<Longrightarrow> client_inv c'"
  by (auto simp: client_inv_def calm_def)

lemma client_inv_abort:
  "esp_mqtt_abort_connection c = Some (e, c') \<Longrightarrow> 0 \<le> cl_pending_msg_count c \<Longrightarrow>
     client_inv c' \<and> cl_state c' = MQTT_STATE_WAIT_TIMEOUT"
  by (drule abort_effect) (simp add: client_inv_def)

text \<open>The steps the session can make.\<close>

definition session_step :: "esp_mqtt_client \<Rightarrow> esp_mqtt_client \<Rightarrow> bool" where
  "session_step c c' \<longleftrightarrow>
     cl_state c' = cl_state c
   \<or> cl_state c = MQTT_STATE_INIT \<and> cl_state c' = MQTT_STATE_CONNECTED \<and>
       mqtt_get_type (cl_in_buffer c') = Some MQTT_MSG_TYPE_CONNACK \<and>
       mqtt_get_connect_return_code (cl_in_buffer c') = Some 0
   \<or> cl_state c \<in> {MQTT_STATE_INIT, MQTT_STATE_CONNECTED} \<and> cl_state c' = MQTT_STATE_WAIT_TIMEOUT \<and>
       \<not> cl_wait_for_ping_resp c'
   \<or> cl_state c = MQTT_STATE_WAIT_TIMEOUT \<and> cl_state c' = MQTT_STATE_INIT \<and>
       next_of 0 (cl_ticks c) - cl_reconnect_tick c > cl_wait_timeout_ms c"

lemma task_init_step:
  assumes "task_init c = Some c'" and "client_inv c" and "cl_state c = MQTT_STATE_INIT"
  shows "client_inv c' \<and> session_step c c'"
proof -
  obtain cfg host where cfg: "cl_config c = Some cfg" "cfg_host cfg = Some host"
    using assms(1) unfolding task_init_def bind_eq_Some_conv by blast
  obtain r w where rw: "transport_connect (cl_transport c) host (cfg_port cfg) (cfg_network_timeout_ms cfg) (cl_net c) = Some (r, w)"
    using assms(1) cfg unfolding task_init_def by (auto simp: bind_eq_Some_conv)
  let ?c1 = "c\<lparr>cl_run := (case cl_transport c of None \<Rightarrow> False | Some _ \<Rightarrow> cl_run c), cl_net := w\<rparr>"
  have t: "(if r < 0 then do { (_, c2) \<leftarrow> esp_mqtt_abort_connection ?c1; Some c2 }
      else do { (err, c2) \<leftarrow> esp_mqtt_connect ?c1;
        if err \<noteq> ESP_OK then do { (_, c3) \<leftarrow> esp_mqtt_abort_connection c2; Some c3 }
        else dispatch_id MQTT_EVENT_CONNECTED (c2\<lparr>cl_state := MQTT_STATE_CONNECTED\<rparr>) }) = Some c'"
    using assms(1) cfg rw by (simp add: task_init_def Let_def)
  have cnt: "0 \<le> cl_pending_msg_count ?c1" using assms(2) by (simp add: client_inv_def)
  have abort: "client_inv c' \<and> session_step c c'"
    if "esp_mqtt_abort_connection cx = Some (e, c')" "0 \<le> cl_pending_msg_count cx" for cx e
    using client_inv_abort [OF that] abort_effect [OF that(1)] assms(3) by (simp add: session_step_def)
  show ?thesis
  proof (cases "r < 0")
    case True
    then obtain e where "esp_mqtt_abort_connection ?c1 = Some (e, c')"
      using t by (auto simp: bind_eq_Some_conv)
    then show ?thesis using cnt by (rule abort)
  next
    case False
    obtain err c2 where c2: "esp_mqtt_connect ?c1 = Some (err, c2)"
      using t False by (auto simp: bind_eq_Some_conv)
    note eff = connect_effect [OF c2]
    have cnt2: "0 \<le> cl_pending_msg_count c2" using eff cnt by simp
    show ?thesis
    proof (cases "err = ESP_OK")
      case f: False
      then obtain e where "esp_mqtt_abort_connection c2 = Some (e, c')"
        using t False c2 by (auto simp: bind_eq_Some_conv)
      then show ?thesis using cnt2 by (rule abort)
    next
      case True
      have d: "dispatch_id MQTT_EVENT_CONNECTED (c2\<lparr>cl_state := MQTT_STATE_CONNECTED\<rparr>) = Some c'"
        using t False c2 True by simp
      obtain ev es where c': "c' = c2\<lparr>cl_state := MQTT_STATE_CONNECTED, cl_event := ev, cl_events := es\<rparr>"
        using dispatch_id_frame [OF d] by auto
      show ?thesis using eff True cnt2 assms(3) by (simp add: c' client_inv_def session_step_def)
    qed
  qed
qed

lemma task_outbox_control:
  assumes "task_outbox c = Some c'"
  shows "same_control c c'"
proof -
  obtain t c1 where t: "platform_tick_get_ms c = (t, c1)" by (cases "platform_tick_get_ms c")
  obtain e box where "outbox_delete_expired (cl_outbox c1) (to_int32 t) OUTBOX_EXPIRED_TIMEOUT_MS = Some (e, box)"
    using assms t unfolding task_outbox_def by (auto simp: bind_eq_Some_conv)
  then have "c' = c1\<lparr>cl_outbox := snd (outbox_cleanup box OUTBOX_MAX_SIZE)\<rparr>"
    using assms t by (simp add: task_outbox_def)
  then show ?thesis using tick_control [OF t] by (simp add: same_control_def)
qed

lemma ping_calm:
  assumes "esp_mqtt_client_ping c = Some (e, c')"
  shows "calm c c'" "cl_outbound c'"
proof -
  obtain conn e' where "mqtt_write_data (c\<lparr>cl_conn := conn, cl_outbound := True\<rparr>) = Some (e', c')"
    using assms unfolding esp_mqtt_client_ping_def by (auto simp: bind_eq_Some_conv)
  from write_control [OF this] show "calm c c'" "cl_outbound c'"
    by (simp_all add: calm_def same_control_def)
qed

lemma task_connected_step:
  assumes "task_connected c = Some c'" and "client_inv c" and "cl_state c = MQTT_STATE_CONNECTED"
  shows "client_inv c' \<and> session_step c c'"
proof -
  obtain err c1 where c1: "mqtt_process_receive c = Some (err, c1)"
    using assms(1) unfolding task_connected_def by (auto simp: bind_eq_Some_conv)
  have inv1: "client_inv c1" and st1: "cl_state c1 = MQTT_STATE_CONNECTED"
    using client_inv_calm [OF calm_process_receive [OF c1] assms(2)] calm_process_receive [OF c1] assms(3)
    by (simp_all add: calm_def)
  have abort: "client_inv cy \<and> session_step c cy"
    if "esp_mqtt_abort_connection cx = Some (e, cy)" "0 \<le> cl_pending_msg_count cx" for cx cy e
    using client_inv_abort [OF that] abort_effect [OF that(1)] assms(3) by (simp add: session_step_def)
  have stay: "client_inv cx \<and> session_step c cx" if "client_inv cx" "cl_state cx = MQTT_STATE_CONNECTED" for cx
    using that assms(3) by (simp add: session_step_def)
  show ?thesis
  proof (cases "err = ESP_FAIL")
    case True
    then obtain e where "esp_mqtt_abort_connection c1 = Some (e, c')"
      using assms(1) c1 unfolding task_connected_def by (auto simp: bind_eq_Some_conv)
    then show ?thesis using abort inv1 by (simp add: client_inv_def)
  next
    case False
    obtain t c2 where t: "platform_tick_get_ms c1 = (t, c2)" by (cases "platform_tick_get_ms c1")
    have inv2: "client_inv c2" "cl_state c2 = MQTT_STATE_CONNECTED"
      using tick_control [OF t] inv1 st1 by (simp_all add: client_inv_def same_control_def)
    let ?due = "t - cl_keepalive_tick c2 > int (keepalive (cl_connect_info c2) * 1000 div 2)"
    have run: "(if ?due
        then if cl_wait_for_ping_resp c2
             then do { (_, c3) \<leftarrow> esp_mqtt_abort_connection c2; Some (c3\<lparr>cl_wait_for_ping_resp := False\<rparr>) }
             else do { (perr, c3) \<leftarrow> esp_mqtt_client_ping c2;
                       if perr = ESP_FAIL then do { (_, c4) \<leftarrow> esp_mqtt_abort_connection c3; Some c4 }
                       else task_outbox (c3\<lparr>cl_wait_for_ping_resp := True\<rparr>) }
        else task_outbox c2) = Some c'"
      using assms(1) c1 False t by (simp add: task_connected_def)
    consider (idle) "\<not> ?due" | (lost) "?due" "cl_wait_for_ping_resp c2" | (ping) "?due" "\<not> cl_wait_for_ping_resp c2"
      by blast
    then show ?thesis
    proof cases
      case idle
      then have "task_outbox c2 = Some c'" using run by simp
      from task_outbox_control [OF this] inv2 have "client_inv c'" "cl_state c' = MQTT_STATE_CONNECTED"
        by (simp_all add: client_inv_def same_control_def)
      then show ?thesis by (rule stay)
    next
      case lost
      then obtain e c3 where c3: "esp_mqtt_abort_connection c2 = Some (e, c3)" "c' = c3\<lparr>cl_wait_for_ping_resp := False\<rparr>"
        using run by (auto simp: bind_eq_Some_conv)
      have "client_inv c3 \<and> session_step c c3" using abort [OF c3(1)] inv2 by (simp add: client_inv_def)
      then show ?thesis using c3(2) abort_effect [OF c3(1)] by (simp add: client_inv_def session_step_def)
    next
      case ping
      obtain perr c3 where c3: "esp_mqtt_client_ping c2 = Some (perr, c3)"
        using run ping by (auto simp: bind_eq_Some_conv)
      have inv3: "client_inv c3" "cl_state c3 = MQTT_STATE_CONNECTED"
        using client_inv_calm [OF ping_calm(1) [OF c3] inv2(1)] ping_calm(1) [OF c3] inv2(2) by (simp_all add: calm_def)
      show ?thesis
      proof (cases "perr = ESP_FAIL")
        case True
        then obtain e where "esp_mqtt_abort_connection c3 = Some (e, c')"
          using run ping c3 by (auto simp: bind_eq_Some_conv)
        then show ?thesis using abort inv3 by (simp add: client_inv_def)
      next
        case f: False
        then have "task_outbox (c3\<lparr>cl_wait_for_ping_resp := True\<rparr>) = Some c'" using run ping c3 by simp
        from task_outbox_control [OF this] inv3 have "client_inv c'" "cl_state c' = MQTT_STATE_CONNECTED"
          by (simp_all add: client_inv_def same_control_def)
        then show ?thesis by (rule stay)
      qed
    qed
  qed
qed

lemma task_wait_step:
  assumes "task_wait c = Some c'" and "client_inv c" and "cl_state c = MQTT_STATE_WAIT_TIMEOUT"
  shows "client_inv c' \<and> session_step c c'"
proof -
  obtain cfg where cfg: "cl_config c = Some cfg"
    using assms(1) unfolding task_wait_def bind_eq_Some_conv by blast
  show ?thesis
    using assms cfg
    by (auto simp: task_wait_def platform_tick_get_ms_def client_inv_def session_step_def Let_def split: if_splits)
qed

lemma mqtt_step_inv:
  assumes "mqtt_step c c'" and "client_inv c"
  shows "client_inv c' \<and> session_step c c'"
  using assms(1)
proof (cases rule: mqtt_step.cases)
  case pass
  then have p: "mqtt_task_pass c = Some c'" by simp
  have "MQTT_STATE_INIT \<le> cl_state c" using assms(2) unfolding client_inv_def by blast
  then consider "cl_state c = MQTT_STATE_INIT" "task_init c = Some c'"
    | "cl_state c = MQTT_STATE_CONNECTED" "task_connected c = Some c'"
    | "cl_state c = MQTT_STATE_WAIT_TIMEOUT" "task_wait c = Some c'"
    using p by (auto simp: mqtt_task_pass_def)
  then show ?thesis
    by cases (use assms(2) task_init_step task_connected_step task_wait_step in blast)+
next
  case (subscribe topic qos r)
  with client_inv_calm [OF calm_subscribe assms(2)] calm_subscribe show ?thesis by (auto simp: session_step_def calm_def)
next
  case (unsubscribe topic r)
  with client_inv_calm [OF calm_unsubscribe assms(2)] calm_unsubscribe show ?thesis by (auto simp: session_step_def calm_def)
next
  case (publish topic pdata len qos retain r)
  with client_inv_calm [OF calm_publish assms(2)] calm_publish show ?thesis by (auto simp: session_step_def calm_def)
next
  case stop
  then show ?thesis using assms(2) by (simp add: esp_mqtt_client_stop_request_def client_inv_def session_step_def)
qed

section \<open>Configuration and start\<close>

lemma set_config_err:
  assumes "esp_mqtt_set_config alloc id_string c config = Some (e, c')"
  shows "e = ESP_ERR_NO_MEM \<and> cl_pending_msg_count c' = cl_pending_msg_count c"
  using assms
  by (auto simp: esp_mqtt_set_config_def esp_mqtt_destroy_config_def Let_def split: if_splits option.splits)

lemma set_ws_path_count: "cl_pending_msg_count (set_ws_path b64 sha1 p c) = cl_pending_msg_count c"
  by (simp add: set_ws_path_def Let_def split: option.split)

lemma set_uri_count:
  assumes "esp_mqtt_client_set_uri alloc parse_url b64 sha1 c uri = Some (e, c')"
  shows "cl_pending_msg_count c' = cl_pending_msg_count c"
proof (cases "parse_url uri")
  case None
  then show ?thesis using assms by (simp add: esp_mqtt_client_set_uri_def)
next
  case (Some puri)
  obtain cfg where cfg: "cl_config c = Some cfg"
    using assms Some by (auto simp: esp_mqtt_client_set_uri_def bind_eq_Some_conv)
  show ?thesis
    using assms Some cfg
    by (auto simp: esp_mqtt_client_set_uri_def Let_def set_ws_path_count split: option.splits if_splits)
qed

lemma init_uri_count:
  assumes "init_uri alloc parse_url b64 sha1 c = Some c'"
  shows "cl_pending_msg_count c' = cl_pending_msg_count c"
  using assms unfolding init_uri_def
  by (auto simp: bind_eq_Some_conv dest: set_uri_count split: option.splits if_splits)

lemma init_scheme_count:
  assumes "init_scheme alloc c = Some c'"
  shows "cl_pending_msg_count c' = cl_pending_msg_count c"
  using assms unfolding init_scheme_def
  by (auto simp: bind_eq_Some_conv split: option.splits if_splits)

lemma init_buffers_count:
  assumes "init_buffers alloc uninit config c = Some c'"
  shows "cl_pending_msg_count c' = cl_pending_msg_count c \<and> \<not> cl_wait_for_ping_resp c'"
  using assms unfolding init_buffers_def
  by (auto simp: platform_tick_get_ms_def Let_def split: if_splits)

lemma init_count:
  assumes "esp_mqtt_client_init alloc id_string parse_url b64 sha1 uninit w ticks rands config = Some (Some c)"
  shows "cl_pending_msg_count c = 0 \<and> \<not> cl_wait_for_ping_resp c"
proof (cases "alloc 267")
  case False
  then show ?thesis using assms by (simp add: esp_mqtt_client_init_def)
next
  case True
  then show ?thesis
    using assms unfolding esp_mqtt_client_init_def
    by (auto simp: bind_eq_Some_conv client0_def dest!: set_config_err init_uri_count init_scheme_count init_buffers_count)
qed

lemma begin_inv:
  assumes "mqtt_task_begin c = Some c'" and "0 \<le> cl_pending_msg_count c" and "\<not> cl_wait_for_ping_resp c"
  shows "client_inv c'"
  using assms by (auto simp: mqtt_task_begin_def bind_eq_Some_conv Let_def client_inv_def)

section \<open>Properties of sessions\<close>


text \<open>A configuration and an environment for the witnesses.\<close>

definition config0 :: esp_mqtt_client_config where
  "config0 = \<lparr>conf_event_handle = True, conf_host = Some (ascii ''h''), conf_uri = None, conf_port = 0,
     conf_client_id = Some (ascii ''id''), conf_username = None, conf_password = None, conf_lwt_topic = None,
     conf_lwt_msg = None, conf_lwt_qos = 0, conf_lwt_retain = False, conf_lwt_msg_len = 0,
     conf_disable_clean_session = False, conf_keepalive = 0, conf_disable_auto_reconnect = False,
     conf_task_prio = 0, conf_task_stack = 0, conf_buffer_size = 64, conf_transport = 1\<rparr>"

lemma started:
  "\<exists>c0 c1. esp_mqtt_client_init (\<lambda>_. True) [] (\<lambda>_. None) toy_b64 (\<lambda>x. x) (\<lambda>n. replicate n 0) net0 [1, 2] [5] config0 = Some (Some c0) \<and>
     mqtt_task_begin c0 = Some c1"
  by (simp add: esp_mqtt_client_init_def esp_mqtt_set_config_def config0_def dup_given_def will_setting_def
      init_transports_def transport_tcp_init_def transport_init_def transport_set_func_def
      transport_set_context_data_def transport_set_default_port_def transport_list_add_def
      transport_ws_init_def chosen_scheme_def init_uri_def init_scheme_def init_buffers_def
      platform_tick_get_ms_def mqtt_task_begin_def Let_def)


lemma connect_request_frame:
  assumes "connect_request c = Some q"
  shows "\<exists>conn ty i. q = c\<lparr>cl_wait_for_ping_resp := False, cl_conn := conn, cl_outbound := True,
    cl_pending_msg_type := ty, cl_pending_msg_id := i\<rparr> \<and>
    (\<forall>r w. connect_request (c\<lparr>cl_run := r, cl_net := w\<rparr>) = Some (q\<lparr>cl_run := r, cl_net := w\<rparr>))"
proof -
  obtain conn where conn: "mqtt_msg_connect (mqtt_msg_init (buffer (cl_conn c)) (cl_out_buffer_length c)) (cl_connect_info c) = Some conn"
    using assms unfolding connect_request_def bind_eq_Some_conv by blast
  obtain ty where ty: "outbound_type conn = Some ty"
    using assms conn unfolding connect_request_def by (cases "outbound_type conn") simp_all
  obtain i where i: "mqtt_get_id (wire conn) (msg_length conn) = Some i"
    using assms conn ty unfolding connect_request_def by (cases "mqtt_get_id (wire conn) (msg_length conn)") simp_all
  have q: "q = c\<lparr>cl_wait_for_ping_resp := False, cl_conn := conn, cl_outbound := True,
      cl_pending_msg_type := ty, cl_pending_msg_id := i\<rparr>"
    using assms conn ty i by (simp add: connect_request_def)
  have "connect_request (c\<lparr>cl_run := r, cl_net := w\<rparr>) = Some (q\<lparr>cl_run := r, cl_net := w\<rparr>)" for r w
    using conn ty i by (simp add: connect_request_def q)
  with q show ?thesis by blast
qed

lemma dispatch_id_safe:
  assumes "cl_config c = Some cfg" "length (cl_in_buffer c) = cl_in_buffer_length c" "cl_in_buffer c \<noteq> []"
  shows "\<exists>c'. dispatch_id e c = Some c'"
proof -
  have le: "cl_in_buffer_length c \<le> length (cl_in_buffer c)" using assms(2) by simp
  have "0 < length (cl_in_buffer c)" using assms(3) by simp
  from get_id_safe [OF le this] obtain mid where "mqtt_get_id (cl_in_buffer c) (cl_in_buffer_length c) = Some mid"
    by blast
  then show ?thesis using assms(1) by (simp add: dispatch_id_def esp_mqtt_dispatch_event_def Let_def)
qed

lemma tcp_write_script:
  assumes "net_polls w = 1 # ps" "net_writes w = n # ws" "0 \<le> n"
  shows "\<exists>r out. tcp_write p (length p) tmo w = Some (r, p, w\<lparr>net_polls := ps, net_writes := ws, net_out := out\<rparr>) \<and> 0 \<le> r"
proof -
  let ?k = "min (nat n) (length p)" and ?w = "w\<lparr>net_polls := ps\<rparr>"
  have "tcp_poll_write tmo w = (1, ?w)" using assms(1) by (simp add: tcp_poll_write_def net_select_def next_of_def)
  moreover have "net_write p ?w = (int ?k, ?w\<lparr>net_writes := ws, net_out := net_out w @ take ?k p\<rparr>)"
    using assms(2,3) by (simp add: net_write_def next_of_def Let_def)
  ultimately have "tcp_write p (length p) tmo w =
      Some (int ?k, p, ?w\<lparr>net_writes := ws, net_out := net_out w @ take ?k p\<rparr>)"
    by (simp add: tcp_write_def)
  then show ?thesis
    by (intro exI [of _ "int ?k"] exI [of _ "net_out w @ take ?k p"] conjI) simp_all
qed

lemma send_outbound_script:
  assumes "cl_outbound c" "cl_config c = Some cfg" "transport_write (cl_transport c) = tcp_write"
    and "net_polls (cl_net c) = 1 # ps" "net_writes (cl_net c) = n # ws" "0 \<le> n"
  shows "\<exists>r conn out. send_outbound c = Some (r, c\<lparr>cl_conn := conn,
      cl_net := (cl_net c)\<lparr>net_polls := ps, net_writes := ws, net_out := out\<rparr>\<rparr>) \<and> 0 \<le> r"
proof -
  let ?p = "wire (cl_conn c)"
  obtain r out where "tcp_write ?p (length ?p) (cfg_network_timeout_ms cfg) (cl_net c) =
      Some (r, ?p, (cl_net c)\<lparr>net_polls := ps, net_writes := ws, net_out := out\<rparr>)" "0 \<le> r"
    using tcp_write_script [OF assms(4-6)] by blast
  with assms(1-3) show ?thesis by (auto simp: send_outbound_def)
qed

lemma stale_connack:
  assumes "transport_read (cl_transport c) = tcp_read" "net_polls (cl_net c) = 0 # ps"
    and "cl_in_buffer c = [0x20, 2, 0, 0] @ rest"
  shows "read_connack c tmo = Some (ESP_OK, c\<lparr>cl_net := (cl_net c)\<lparr>net_polls := ps\<rparr>\<rparr>)"
proof -
  have "mqtt_get_type ([0x20, 2, 0, 0] @ rest) = Some 2" "mqtt_get_connect_return_code ([0x20, 2, 0, 0] @ rest) = Some 0"
    by (simp_all add: mqtt_get_type_def mqtt_get_connect_return_code_def rd_def)
  moreover have "c\<lparr>cl_in_buffer := cl_in_buffer c, cl_net := w\<rparr> = c\<lparr>cl_net := w\<rparr>" for w
    by (rule esp_mqtt_client.equality) simp_all
  ultimately show ?thesis
    using assms by (simp add: read_connack_def tcp_read_def tcp_poll_read_def net_select_def next_of_def)
qed

text \<open>
  C34. A stale acknowledgement opens a session. When the server accepts the TCP connection and the
  bytes of the CONNECT packet but the answer does not arrive in time, the read returns 0, which
  \<open>esp_mqtt_connect\<close> takes for a success: if the input buffer still holds the CONNACK of an earlier
  session, the client enters the connected state without having received anything.
\<close>

theorem stale_connack_opens_session:
  assumes "cl_config c = Some cfg" "cfg_host cfg = Some host"
    and "cl_transport c = Some tr" "tr_connect tr = Some tcp_connect" "tr_read tr = Some tcp_read" "tr_write tr = Some tcp_write"
    and "net_resolves (cl_net c) host" "net_sockets (cl_net c) = sock # ss" "0 \<le> sock" "net_connects (cl_net c) = 0 # cs"
    and "net_polls (cl_net c) = 1 # 0 # ps" "net_writes (cl_net c) = n # ws" "0 \<le> n"
    and "connect_request c = Some q" and "cl_in_buffer c = [0x20, 2, 0, 0] @ rest"
    and "length (cl_in_buffer c) = cl_in_buffer_length c"
  shows "\<exists>c'. task_init c = Some c' \<and> cl_state c' = MQTT_STATE_CONNECTED \<and> cl_in_buffer c' = cl_in_buffer c \<and>
    net_reads (cl_net c') = net_reads (cl_net c)"
proof -
  let ?w = "(cl_net c)\<lparr>net_sockets := ss, tcp_sock := sock, net_connects := cs\<rparr>"
  have conn: "transport_connect (cl_transport c) host (cfg_port cfg) (cfg_network_timeout_ms cfg) (cl_net c) = Some (sock, ?w)"
    using assms(3,4,7-10) by (simp add: transport_connect_def tcp_connect_def next_of_def Let_def)
  let ?c1 = "c\<lparr>cl_run := cl_run c, cl_net := ?w\<rparr>"
  obtain cn ty i where q: "q = c\<lparr>cl_wait_for_ping_resp := False, cl_conn := cn, cl_outbound := True,
      cl_pending_msg_type := ty, cl_pending_msg_id := i\<rparr>"
    and q1: "connect_request ?c1 = Some (q\<lparr>cl_run := cl_run c, cl_net := ?w\<rparr>)"
    using connect_request_frame [OF assms(14)] by blast
  let ?q1 = "q\<lparr>cl_run := cl_run c, cl_net := ?w\<rparr>"
  have pre: "cl_outbound ?q1" "cl_config ?q1 = Some cfg" "transport_write (cl_transport ?q1) = tcp_write"
    "net_polls (cl_net ?q1) = 1 # 0 # ps" "net_writes (cl_net ?q1) = n # ws"
    using assms(1,3,6,11,12) by (simp_all add: q transport_write_def fun_eq_iff)
  obtain r conn2 out where s: "send_outbound ?q1 = Some (r, ?q1\<lparr>cl_conn := conn2,
      cl_net := (cl_net ?q1)\<lparr>net_polls := 0 # ps, net_writes := ws, net_out := out\<rparr>\<rparr>)" "0 \<le> r"
    using send_outbound_script [OF pre assms(13)] by blast
  let ?c2 = "?q1\<lparr>cl_conn := conn2, cl_net := (cl_net ?q1)\<lparr>net_polls := 0 # ps, net_writes := ws, net_out := out\<rparr>\<rparr>"
  have "transport_read (cl_transport ?c2) = tcp_read" "net_polls (cl_net ?c2) = 0 # ps" "cl_in_buffer ?c2 = [0x20, 2, 0, 0] @ rest"
    using assms(3,5,15) by (simp_all add: q transport_read_def fun_eq_iff)
  note rc = stale_connack [OF this, of "cfg_network_timeout_ms cfg"]
  let ?c3 = "?c2\<lparr>cl_net := (cl_net ?c2)\<lparr>net_polls := ps\<rparr>\<rparr>"
  have "cl_config ?c1 = Some cfg" using assms(1) by simp
  then have mc: "esp_mqtt_connect ?c1 = Some (ESP_OK, ?c3)"
    using q1 s rc unfolding esp_mqtt_connect_def by simp
  have "cl_config (?c3\<lparr>cl_state := MQTT_STATE_CONNECTED\<rparr>) = Some cfg"
    "length (cl_in_buffer (?c3\<lparr>cl_state := MQTT_STATE_CONNECTED\<rparr>)) = cl_in_buffer_length (?c3\<lparr>cl_state := MQTT_STATE_CONNECTED\<rparr>)"
    "cl_in_buffer (?c3\<lparr>cl_state := MQTT_STATE_CONNECTED\<rparr>) \<noteq> []"
    using assms(1,15,16) by (simp_all add: q)
  then obtain c' where c': "dispatch_id MQTT_EVENT_CONNECTED (?c3\<lparr>cl_state := MQTT_STATE_CONNECTED\<rparr>) = Some c'"
    using dispatch_id_safe by blast
  have "task_init c = Some c'"
    using assms(1-3,9) conn mc c' by (simp add: task_init_def Let_def)
  moreover have "cl_state c' = MQTT_STATE_CONNECTED" "cl_in_buffer c' = cl_in_buffer c"
    "net_reads (cl_net c') = net_reads (cl_net c)"
    using dispatch_id_frame [OF c'] by (auto simp: q)
  ultimately show ?thesis by blast
qed

lemma idle_request: "\<exists>q. connect_request idle_client = Some q"
proof -
  let ?c = "mqtt_msg_init (replicate 40 0) 40"
  have i: "given (client_id info0) = Some [0x64]" "will_length info0 \<le> length (will_message info0)"
    by (simp_all add: info0_def given_def)
  have hb: "has_buffer ?c" by (simp add: has_buffer_def mqtt_msg_init_def)
  have fit: "3 + length (connect_body info0 [0x64]) \<le> buffer_length ?c"
    by (simp add: connect_body_def info0_def mqtt_str_def will_bytes_def optional_string_def given_def mqtt_msg_init_def)
  obtain conn where conn: "mqtt_msg_connect ?c info0 = Some conn"
      "wire conn = packet 1 0 0 0 (connect_body info0 [0x64])"
      "msg_length conn = length (packet 1 0 0 0 (connect_body info0 [0x64]))"
    using connect_shape [OF hb i] fit by auto
  obtain ty where "mqtt_get_type (wire conn) = Some ty"
    using header_fields(1) [of 1 0 0 0] by (simp add: conn(2) packet_def)
  moreover have "msg_length conn \<noteq> 0" by (simp add: conn(3) packet_def)
  moreover obtain mid where "mqtt_get_id (wire conn) (msg_length conn) = Some mid"
    using get_id_safe [of "msg_length conn" "wire conn"] by (auto simp: conn(2,3) packet_def)
  ultimately show ?thesis
    using conn(1) by (simp add: connect_request_def idle_client_def outbound_type_def mqtt_msg_init_def)
qed

theorem stale_connack_opens_session_witness:
  "\<exists>c'. task_init idle_client = Some c' \<and> cl_state c' = MQTT_STATE_CONNECTED"
proof -
  obtain q where "connect_request idle_client = Some q" using idle_request by blast
  then show ?thesis
    using stale_connack_opens_session [of idle_client cfg0 "[0x68]" tcp0 3 "[]" "[]" "[]" 100 "[]" q "replicate 36 0"]
    by (auto simp: idle_client_def cfg0_def tcp0_def client0_def net0_def)
qed

text \<open>
  C40. A server that stops answering is found out. When half the keep-alive time has passed since
  the last packet was sent and the answer to the last ping is still missing, the pass of the task
  gives the connection up: it waits to reconnect, has told the application, and no ping is
  outstanding any more.
\<close>

theorem missing_pingresp_disconnects:
  assumes "mqtt_process_receive c = Some (ESP_OK, c1)" and "cl_wait_for_ping_resp c1"
    and "next_of 0 (cl_ticks c1) - cl_keepalive_tick c1 > int (keepalive (cl_connect_info c1) * 1000 div 2)"
    and "receiving c1"
  shows "\<exists>c'. task_connected c = Some c' \<and> cl_state c' = MQTT_STATE_WAIT_TIMEOUT \<and> \<not> cl_wait_for_ping_resp c' \<and>
    cl_wait_timeout_ms c' = MQTT_RECONNECT_TIMEOUT_MS \<and>
    (\<exists>e. cl_events c' = cl_events c1 @ [e] \<and> event_id (fst e) = MQTT_EVENT_DISCONNECTED)"
proof -
  obtain w r where close: "transport_close (cl_transport c1) (cl_net c1) = (r, w)"
    by (cases "transport_close (cl_transport c1) (cl_net c1)")
  obtain cfg where cfg: "cl_config c1 = Some cfg" "cfg_event_handle cfg"
    using assms(4) by (auto simp: receiving_def split: option.splits)
  have le: "cl_in_buffer_length c1 \<le> length (cl_in_buffer c1)" and "0 < length (cl_in_buffer c1)"
    using assms(4) unfolding receiving_def by (metis order_refl, metis length_greater_0_conv)
  from get_id_safe [OF this] obtain mid where mid: "mqtt_get_id (cl_in_buffer c1) (cl_in_buffer_length c1) = Some mid"
    by blast
  show ?thesis
    using assms(1-3) close cfg mid
    by (simp add: task_connected_def platform_tick_get_ms_def esp_mqtt_abort_connection_def dispatch_id_def
        esp_mqtt_dispatch_event_def Let_def)
qed

definition waiting_client :: esp_mqtt_client where
  "waiting_client = idle_client\<lparr>cl_state := MQTT_STATE_CONNECTED, cl_outbound := True, cl_wait_for_ping_resp := True,
     cl_ticks := [60001], cl_net := (cl_net idle_client)\<lparr>net_polls := [0]\<rparr>\<rparr>"

theorem missing_pingresp_disconnects_witness:
  "\<exists>c'. task_connected waiting_client = Some c' \<and> cl_state c' = MQTT_STATE_WAIT_TIMEOUT"
proof -
  let ?c1 = "waiting_client\<lparr>cl_in_buffer := cl_in_buffer waiting_client, cl_net := (cl_net waiting_client)\<lparr>net_polls := []\<rparr>\<rparr>"
  have tr: "cl_transport waiting_client = Some tcp0" by (simp add: waiting_client_def idle_client_def)
  have "mqtt_process_receive waiting_client = Some (ESP_OK, ?c1)"
    using tr by (simp add: mqtt_process_receive_def tcp_read_def tcp_poll_read_def net_select_def next_of_def)
      (simp add: waiting_client_def)
  moreover have "receiving ?c1" "cl_wait_for_ping_resp ?c1"
    "next_of 0 (cl_ticks ?c1) - cl_keepalive_tick ?c1 > int (keepalive (cl_connect_info ?c1) * 1000 div 2)"
    by (simp_all add: receiving_def waiting_client_def idle_client_def cfg0_def client0_def info0_def next_of_def)
  ultimately show ?thesis using missing_pingresp_disconnects [of waiting_client ?c1] by blast
qed



text \<open>
  \<open>esp_mqtt_set_config\<close> never reports success: it sets its error code before the first jump and
  returns it at the end, also when every setting has been stored.
\<close>

theorem set_config_never_ok:
  "(case esp_mqtt_set_config alloc id_string c config of None \<Rightarrow> True | Some (e, _) \<Rightarrow> e = ESP_ERR_NO_MEM) \<and>
   (if list_all alloc [89, 105, 111, 116, 121, 129, 134, 139, 144] \<and>
       conf_lwt_msg_len config \<le> length (case conf_lwt_msg config of None \<Rightarrow> [] | Some m \<Rightarrow> m)
    then \<exists>c' cfg. esp_mqtt_set_config alloc id_string c config = Some (ESP_ERR_NO_MEM, c') \<and>
      cl_config c' = Some cfg \<and> cfg_host cfg = conf_host config \<and> cfg_uri cfg = conf_uri config \<and>
      cfg_port cfg = conf_port config else True)"
proof
  show "case esp_mqtt_set_config alloc id_string c config of None \<Rightarrow> True | Some (e, _) \<Rightarrow> e = ESP_ERR_NO_MEM"
    using set_config_err by (auto split: option.splits)
  show "if list_all alloc [89, 105, 111, 116, 121, 129, 134, 139, 144] \<and>
       conf_lwt_msg_len config \<le> length (case conf_lwt_msg config of None \<Rightarrow> [] | Some m \<Rightarrow> m)
    then \<exists>c' cfg. esp_mqtt_set_config alloc id_string c config = Some (ESP_ERR_NO_MEM, c') \<and>
      cl_config c' = Some cfg \<and> cfg_host cfg = conf_host config \<and> cfg_uri cfg = conf_uri config \<and>
      cfg_port cfg = conf_port config else True"
    by (auto simp: esp_mqtt_set_config_def dup_given_def will_setting_def Let_def split: option.splits)
qed

end
