(* ===== verification/Dd_Mqtt.thy ===== *)
theory Dd_Mqtt
  imports Mqtt_Session
begin

text \<open>
  The remote control \<open>main/dd_mqtt.c\<close>: the handler of the MQTT events, which subscribes when a session
  opens and plays what is published.

  The handler works on the client of \<open>Mqtt_Client\<close> and on its own state; the requests to the player are
  collected in \<open>ma_player\<close>, and \<open>ma_urls\<close> counts the URL buffers that were allocated (none is freed). An event comes
  with the input buffer its pointers point into. \<open>None\<close> is undefined behaviour.
\<close>

datatype player_request = EspAudioStop | EspAudioPlay "byte list"

record mqtt_app =
  dev_volume :: int
  ma_player :: "player_request list"
  ma_urls :: nat

text \<open>\<open>strncmp(p, lit, strlen(lit)) == 0\<close> for the bytes from \<open>p\<close> to the end of the object.\<close>

fun starts_with :: "byte list \<Rightarrow> byte list \<Rightarrow> bool option" where
  "starts_with mem [] = Some True"
| "starts_with [] (c # cs) = None"
| "starts_with (b # mem) (c # cs) = (if b = c then starts_with mem cs else Some False)"

text \<open>\<open>snprintf(newurl, 128, "%.*s", len, p)\<close>: up to a null byte, up to \<open>len\<close> bytes, up to 127 of them.\<close>

definition print_url :: "byte list \<Rightarrow> nat \<Rightarrow> byte list option" where
  "print_url mem len =
     (let t = takeWhile (\<lambda>b. b \<noteq> 0) (take len mem) in
      if length mem < len \<and> length t = length mem then None else Some (take 127 t))"

text \<open>A data event.\<close>

definition play_command :: "byte list \<Rightarrow> mqtt_app \<Rightarrow> mqtt_app option" where
  "play_command mem a =
     do { pause \<leftarrow> starts_with mem (ascii ''pause'');
          if pause then Some a
          else do { play \<leftarrow> starts_with mem (ascii ''play'');
                    if play then Some a
                    else do { vol \<leftarrow> starts_with mem (ascii ''vol'');
                              Some (if vol then a\<lparr>dev_volume := (dev_volume a + 10) mod 100\<rparr> else a) } } }"

definition play_data :: "esp_mqtt_event \<Rightarrow> byte list \<Rightarrow> mqtt_app \<Rightarrow> mqtt_app option" where
  "play_data e buf a =
     do { d \<leftarrow> ev_data e;
          let mem = drop d buf;
          a1 \<leftarrow> play_command mem a;
          newurl \<leftarrow> print_url mem (ev_data_len e);
          Some (a1\<lparr>ma_urls := ma_urls a1 + 1, ma_player := ma_player a1 @ [EspAudioStop, EspAudioPlay newurl]\<rparr>) }"

definition mqtt_event_handler ::
  "esp_mqtt_event \<times> byte list \<Rightarrow> esp_mqtt_client \<times> mqtt_app \<Rightarrow> (esp_mqtt_client \<times> mqtt_app) option" where
  "mqtt_event_handler = (\<lambda>(e, buf) (c, a).
     case event_id e of
       MQTT_EVENT_CONNECTED \<Rightarrow>
         do { (_, c1) \<leftarrow> esp_mqtt_client_subscribe c (Some (ascii ''/topic/+/event'')) 0;
              (_, c2) \<leftarrow> esp_mqtt_client_subscribe c1 (Some (ascii ''/topic/+/msg'')) 0;
              Some (c2, a) }
     | MQTT_EVENT_SUBSCRIBED \<Rightarrow>
         do { (_, c1) \<leftarrow> esp_mqtt_client_publish c (Some (ascii ''/topic/'')) (ascii ''data'' @ [0]) 0 0 0;
              Some (c1, a) }
     | MQTT_EVENT_DATA \<Rightarrow> do { a1 \<leftarrow> play_data e buf a; Some (c, a1) }
     | _ \<Rightarrow> Some (c, a))"

text \<open>The configuration \<open>mqtt_app_start\<close> gives the client when the network is up.\<close>

definition mqtt_cfg :: esp_mqtt_client_config where
  "mqtt_cfg = \<lparr>conf_event_handle = True, conf_host = None, conf_uri = Some (ascii ''mqtt://112.74.166.154:1883''),
     conf_port = 0, conf_client_id = None, conf_username = None, conf_password = None, conf_lwt_topic = None,
     conf_lwt_msg = None, conf_lwt_qos = 0, conf_lwt_retain = False, conf_lwt_msg_len = 0,
     conf_disable_clean_session = False, conf_keepalive = 0, conf_disable_auto_reconnect = False,
     conf_task_prio = 0, conf_task_stack = 0, conf_buffer_size = 0, conf_transport = 0\<rparr>"

definition mqtt_app_start ::
  "(nat \<Rightarrow> bool) \<Rightarrow> byte list \<Rightarrow> (byte list \<Rightarrow> parsed_url option) \<Rightarrow> (byte list \<Rightarrow> byte list) \<Rightarrow>
     (byte list \<Rightarrow> byte list) \<Rightarrow> (nat \<Rightarrow> byte list) \<Rightarrow> net \<Rightarrow> int list \<Rightarrow> u16 list \<Rightarrow> bool \<Rightarrow>
     (esp_mqtt_client \<times> (int \<times> bool)) option" where
  "mqtt_app_start alloc id_string parse_url b64 sha1 uninit w ticks rands created =
     do { oc \<leftarrow> esp_mqtt_client_init alloc id_string parse_url b64 sha1 uninit w ticks rands mqtt_cfg;
          c \<leftarrow> oc;
          Some (c, esp_mqtt_client_start created c) }"

section \<open>Everything published is played\<close>

lemma starts_with_room: "length lit \<le> length mem \<Longrightarrow> \<exists>r. starts_with mem lit = Some r"
  by (induction mem lit rule: starts_with.induct) auto

lemma play_command_room:
  assumes "5 \<le> length mem"
  shows "\<exists>v. play_command mem a = Some (a\<lparr>dev_volume := v\<rparr>)"
proof -
  have "length (ascii ''pause'') = 5" "length (ascii ''play'') = 4" "length (ascii ''vol'') = 3"
    by (simp_all add: ascii_def)
  then obtain p q r where "starts_with mem (ascii ''pause'') = Some p" "starts_with mem (ascii ''play'') = Some q"
      "starts_with mem (ascii ''vol'') = Some r"
    using starts_with_room [of "ascii ''pause''" mem] starts_with_room [of "ascii ''play''" mem]
      starts_with_room [of "ascii ''vol''" mem] assms by auto
  then show ?thesis
    by (intro exI [of _ "if \<not> p \<and> \<not> q \<and> r then (dev_volume a + 10) mod 100 else dev_volume a"])
      (simp add: play_command_def)
qed

lemma play_data_plays:
  assumes "ev_data e = Some d" "ev_data_len e \<le> length buf - d" "5 \<le> length buf - d"
  shows "\<exists>v. play_data e buf a = Some (a\<lparr>dev_volume := v, ma_urls := ma_urls a + 1,
    ma_player := ma_player a @ [EspAudioStop, EspAudioPlay (take 127 (takeWhile (\<lambda>b. b \<noteq> 0) (event_bytes (e, buf))))]\<rparr>)"
proof -
  obtain v where "play_command (drop d buf) a = Some (a\<lparr>dev_volume := v\<rparr>)"
    using play_command_room [of "drop d buf" a] assms(3) by auto
  then show ?thesis
    using assms by (intro exI [of _ v]) (simp add: play_data_def print_url_def event_bytes_def)
qed



end
