(* ===== verification/Http_Header.thy ===== *)
theory Http_Header
  imports Prelude
begin

text \<open>
  The request headers of the HTTP client, \<open>esp_http_client/lib/http_header.c\<close>, with the string functions
  of \<open>lib/http_utils.c\<close> they use.

  An argument that is a C string is the list of its characters; where the code works inside an object
  the object is the list of its cells, with the terminator. Whether the allocation in line \<open>n\<close>
  succeeds is \<open>alloc n\<close>; a failed \<open>assert\<close> stops the program and is \<open>None\<close> too.
\<close>

section \<open>String utilities\<close>

text \<open>\<open>http_utils_join_string\<close>: the arguments are objects; a length that is not positive is that of the
  string. The result is the object, or NULL.\<close>

definition str_arg :: "byte list \<Rightarrow> int \<Rightarrow> byte list option" where
  "str_arg mem len =
     (if len > 0 then (if nat len \<le> length mem then Some (take (nat len) mem) else None) else c_str mem)"

definition http_utils_join_string :: "bool \<Rightarrow> byte list \<Rightarrow> int \<Rightarrow> byte list \<Rightarrow> int \<Rightarrow> byte list option option" where
  "http_utils_join_string ok first_str len_first second_str len_second =
     do { a \<leftarrow> str_arg first_str len_first;
          b \<leftarrow> str_arg second_str len_second;
          if length a + length b > 0 then (if ok then Some (Some (a @ b @ [0])) else None) else Some None }"

text \<open>\<open>http_utils_assign_string\<close>: the object \<open>*str\<close> afterwards; NULL as \<open>new_str\<close> changes nothing.\<close>

definition http_utils_assign_string ::
  "bool \<Rightarrow> byte list option \<Rightarrow> byte list option \<Rightarrow> int \<Rightarrow> byte list option option" where
  "http_utils_assign_string ok str new_str len =
     (case new_str of
        None \<Rightarrow> Some str
      | Some new \<Rightarrow> do { s \<leftarrow> str_arg new len; if ok then Some (Some (s @ [0])) else None })"

text \<open>The loop that looks for the end, from the cell \<open>end\<close> down to \<open>start\<close>.\<close>

fun trim_end :: "byte list \<Rightarrow> nat \<Rightarrow> nat \<Rightarrow> nat" where
  "trim_end mem start 0 = 0"
| "trim_end mem start (Suc e) =
     (if Suc e > start \<and> isspace (mem ! Suc e) then trim_end mem start e else Suc e)"

definition http_utils_trim_whitespace :: "byte list \<Rightarrow> byte list option" where
  "http_utils_trim_whitespace mem =
     do { s \<leftarrow> c_str mem;
          let start = length (takeWhile isspace s);
          if start = length s then wr mem 0 0
          else do { let e = trim_end mem start (length s - 1);
                    mem' \<leftarrow> wr mem (e + 1) 0;
                    blit mem' 0 (take (e + 2 - start) (drop start mem')) } }"

definition http_utils_get_string_between :: "bool \<Rightarrow> byte list \<Rightarrow> byte list \<Rightarrow> byte list \<Rightarrow> byte list option option" where
  "http_utils_get_string_between ok str beg en =
     (case strstr str beg of
        None \<Rightarrow> Some None
      | Some f \<Rightarrow>
          (let found = drop (length beg) f in
           case strstr found en of
             None \<Rightarrow> Some None
           | Some found_end \<Rightarrow> if ok then Some (Some (take (length found - length found_end) found @ [0])) else None))"

definition http_utils_str_starts_with :: "byte list \<Rightarrow> byte list \<Rightarrow> int" where
  "http_utils_str_starts_with str start =
     (if length start > length str then -1 else if take (length start) str = start then 0 else 1)"

definition http_utils_ms_to_timeval :: "int \<Rightarrow> int \<times> int" where
  "http_utils_ms_to_timeval timeout_ms =
     (let sec = sgn timeout_ms * (\<bar>timeout_ms\<bar> div 1000) in (sec, (timeout_ms - sec * 1000) * 1000))"

section \<open>The header list\<close>

record header_item =
  h_key :: "byte list"
  h_value :: "byte list"

definition http_header_init :: "bool \<Rightarrow> header_item list option" where
  "http_header_init ok = (if ok then Some [] else None)"

definition http_header_get_item :: "header_item list option \<Rightarrow> byte list option \<Rightarrow> header_item option" where
  "http_header_get_item header key =
     (case (header, key) of
        (Some h, Some k) \<Rightarrow> first_with (\<lambda>it. lower (h_key it) = lower k) h
      | _ \<Rightarrow> None)"

definition http_header_get :: "header_item list \<Rightarrow> byte list option \<Rightarrow> int \<times> byte list option" where
  "http_header_get h key = (ESP_OK, map_option h_value (http_header_get_item (Some h) key))"

text \<open>The string that is left when its copy is trimmed.\<close>

definition trimmed :: "byte list \<Rightarrow> byte list option" where
  "trimmed s = do { m \<leftarrow> http_utils_trim_whitespace (s @ [0]); c_str m }"

definition http_header_new_item ::
  "(nat \<Rightarrow> bool) \<Rightarrow> header_item list \<Rightarrow> byte list option \<Rightarrow> byte list \<Rightarrow> (int \<times> header_item list) option" where
  "http_header_new_item alloc h key value =
     (if \<not> alloc 87 then Some (ESP_ERR_NO_MEM, h)
      else case key of
             None \<Rightarrow> Some (ESP_ERR_NO_MEM, h)
           | Some k \<Rightarrow>
               if alloc 89 \<and> alloc 92
               then do { k' \<leftarrow> trimmed k; v' \<leftarrow> trimmed value; Some (ESP_OK, h @ [\<lparr>h_key = k', h_value = v'\<rparr>]) }
               else None)"

definition http_header_delete :: "header_item list \<Rightarrow> byte list option \<Rightarrow> int \<times> header_item list" where
  "http_header_delete h key =
     (case http_header_get_item (Some h) key of
        None \<Rightarrow> (ESP_ERR_NOT_FOUND, h)
      | Some _ \<Rightarrow> (ESP_OK, remove_first (\<lambda>it. Some (lower (h_key it)) = map_option lower key) h))"

text \<open>\<open>strdup\<close> in line 115 is not tested.\<close>

definition http_header_set ::
  "(nat \<Rightarrow> bool) \<Rightarrow> header_item list \<Rightarrow> byte list option \<Rightarrow> byte list option \<Rightarrow> (int \<times> header_item list) option" where
  "http_header_set alloc h key value =
     (case value of
        None \<Rightarrow> Some (http_header_delete h key)
      | Some v \<Rightarrow>
          (case http_header_get_item (Some h) key of
             Some _ \<Rightarrow>
               if alloc 115
               then do { v' \<leftarrow> trimmed v;
                         Some (ESP_OK, update_first (\<lambda>it. Some (lower (h_key it)) = map_option lower key) (\<lambda>it. it\<lparr>h_value := v'\<rparr>) h) }
               else None
           | None \<Rightarrow> http_header_new_item alloc h key v))"

definition http_header_set_from_string ::
  "(nat \<Rightarrow> bool) \<Rightarrow> header_item list \<Rightarrow> byte list \<Rightarrow> (int \<times> header_item list) option" where
  "http_header_set_from_string alloc h key_value_data =
     (if \<not> alloc 127 then Some (ESP_ERR_NO_MEM, h)
      else let k = takeWhile (\<lambda>c. c \<noteq> 0x3A) key_value_data in
           if k = key_value_data then Some (ESP_ERR_INVALID_ARG, h)
           else do { (_, h') \<leftarrow> http_header_set alloc h (Some k) (Some (drop (length k + 1) key_value_data));
                     Some (ESP_OK, h') })"

text \<open>\<open>text\<close> is what \<open>vasprintf\<close> makes of the format.\<close>

definition http_header_set_format ::
  "(nat \<Rightarrow> bool) \<Rightarrow> header_item list \<Rightarrow> byte list option \<Rightarrow> byte list \<Rightarrow> (int \<times> header_item list) option" where
  "http_header_set_format alloc h key text =
     (if \<not> alloc 163 then Some (0, h)
      else do { (_, h') \<leftarrow> http_header_set alloc h key (Some text); Some (int (length text), h') })"

definition http_header_clean :: "header_item list \<Rightarrow> int \<times> header_item list" where
  "http_header_clean h = (ESP_OK, [])"

definition http_header_destroy :: "header_item list \<Rightarrow> int" where
  "http_header_destroy h = fst (http_header_clean h)"

definition http_header_count :: "header_item list \<Rightarrow> nat" where
  "http_header_count h = length h"

section \<open>Generating the header text\<close>

definition header_line :: "header_item \<Rightarrow> byte list" where
  "header_line it = h_key it @ [0x3A, 0x20] @ h_value it @ [0x0D, 0x0A]"

text \<open>The first loop: the size of the lines from \<open>index\<close>, and the last index after which they do not fit.\<close>

fun measure_loop :: "header_item list \<Rightarrow> nat \<Rightarrow> nat \<Rightarrow> int \<Rightarrow> nat \<Rightarrow> int \<Rightarrow> nat \<times> int" where
  "measure_loop [] idx index buffer_len siz ret_idx = (siz, ret_idx)"
| "measure_loop (it # its) idx index buffer_len siz ret_idx =
     (let siz' = (if idx \<ge> index then siz + length (header_line it) else siz)
      in measure_loop its (idx + 1) index buffer_len siz'
           (if int siz' + 1 > buffer_len - 2 then int idx else ret_idx))"

text \<open>\<open>snprintf(buffer + off, n, ...)\<close> of a text; a negative \<open>n\<close> is a huge \<open>size_t\<close>.\<close>

definition snprintf_at :: "byte list \<Rightarrow> nat \<Rightarrow> int \<Rightarrow> byte list \<Rightarrow> byte list option" where
  "snprintf_at buf off n text =
     (if n = 0 then Some buf
      else blit buf off ((if n > 0 then take (nat n - 1) text else text) @ [0]))"

fun print_loop ::
  "header_item list \<Rightarrow> nat \<Rightarrow> nat \<Rightarrow> int \<Rightarrow> byte list \<Rightarrow> int \<Rightarrow> nat \<Rightarrow> (byte list \<times> nat) option" where
  "print_loop [] idx index ret_idx buf buffer_len str_len = Some (buf, str_len)"
| "print_loop (it # its) idx index ret_idx buf buffer_len str_len =
     (if idx \<ge> index \<and> int idx < ret_idx
      then do { buf' \<leftarrow> snprintf_at buf str_len (buffer_len - int str_len) (header_line it);
                print_loop its (idx + 1) index ret_idx buf' buffer_len (str_len + length (header_line it)) }
      else print_loop its (idx + 1) index ret_idx buf buffer_len str_len)"

text \<open>The value returned, the buffer and \<open>*buffer_len\<close>.\<close>

definition http_header_generate_string ::
  "header_item list \<Rightarrow> nat \<Rightarrow> byte list \<Rightarrow> int \<Rightarrow> (int \<times> byte list \<times> int) option" where
  "http_header_generate_string h index buf buffer_len =
     (let (siz, ret) = measure_loop h 0 index buffer_len 0 (-1) in
      if siz = 0 then Some (0, buf, buffer_len)
      else do {
        let is_end = ret < 0;
        let ret_idx = (if is_end then int (length h) else ret);
        (buf1, n) \<leftarrow> print_loop h 0 index ret_idx buf buffer_len 0;
        (buf2, n2) \<leftarrow> (if is_end then do { b \<leftarrow> snprintf_at buf1 n (buffer_len - int n) [0x0D, 0x0A]; Some (b, n + 2) }
                       else Some (buf1, n));
        Some (ret_idx, buf2, int n2) })"

section \<open>Trimming\<close>

definition trim :: "byte list \<Rightarrow> byte list" where
  "trim s = rev (dropWhile isspace (rev (dropWhile isspace s)))"

lemma trim_end_eq:
  assumes "core \<noteq> []" "length core = 1 \<or> \<not> isspace (last core)" "list_all isspace sp"
  shows "trim_end (pre @ core @ sp @ post) (length pre) (length pre + length core + length sp - 1) = length pre + length core - 1"
  using assms(3)
proof (induction sp arbitrary: post rule: rev_induct)
  case Nil
  obtain c cs where core: "core = cs @ [c]" using assms(1) by (metis rev_exhaust)
  show ?case
  proof (cases "length pre + length cs")
    case 0
    then show ?thesis by (simp add: core)
  next
    case (Suc n)
    have "(pre @ core @ post) ! (length pre + length cs) = c" by (simp add: core nth_append)
    with Suc have "(pre @ core @ post) ! Suc n = c" by simp
    then show ?thesis using assms(2) Suc by (auto simp: core)
  qed
next
  case (snoc x sp)
  have e: "length pre + length core + length (sp @ [x]) - 1 = Suc (length pre + length core + length sp - 1)"
    using assms(1) by (cases core) simp_all
  have "(pre @ core @ (sp @ [x]) @ post) ! Suc (length pre + length core + length sp - 1) = x"
    using assms(1) by (cases core) (simp_all add: nth_append)
  moreover have "length pre < Suc (length pre + length core + length sp - 1)" using assms(1) by (cases core) simp_all
  ultimately show ?case
    using snoc.IH [of "[x] @ post"] snoc.prems unfolding e by simp
qed

lemma trim_split:
  assumes "dropWhile isspace s \<noteq> []"
  shows "\<exists>pre sp. s = pre @ trim s @ sp \<and> list_all isspace pre \<and> list_all isspace sp \<and> trim s \<noteq> [] \<and>
    \<not> isspace (hd (trim s)) \<and> \<not> isspace (last (trim s)) \<and> pre = takeWhile isspace s"
proof -
  let ?b = "dropWhile isspace s"
  have b: "?b = trim s @ rev (takeWhile isspace (rev ?b))"
    unfolding trim_def by (metis rev_append rev_rev_ident takeWhile_dropWhile_id)
  have hd: "\<not> isspace (hd ?b)" using assms by (rule hd_dropWhile)
  have ne: "trim s \<noteq> []"
  proof
    assume "trim s = []"
    then have "dropWhile isspace (rev ?b) = []" by (simp add: trim_def)
    then have "\<forall>x \<in> set ?b. isspace x" by (simp add: dropWhile_eq_Nil_conv)
    with hd assms show False by simp
  qed
  have "dropWhile isspace (rev ?b) \<noteq> []" using ne unfolding trim_def by (metis rev.simps(1))
  then have "\<not> isspace (hd (dropWhile isspace (rev ?b)))" by (rule hd_dropWhile)
  then have "\<not> isspace (last (trim s))" using ne by (simp add: trim_def last_rev)
  moreover have "hd ?b = hd (trim s)" using b ne by (metis hd_append)
  moreover have "s = takeWhile isspace s @ trim s @ rev (takeWhile isspace (rev ?b))" using b by (metis takeWhile_dropWhile_id)
  moreover have "list_all isspace (takeWhile isspace s)" "list_all isspace (rev (takeWhile isspace (rev ?b)))"
    by (auto simp: list_all_iff dest: set_takeWhileD)
  ultimately show ?thesis using hd ne
    by (intro exI [of _ "takeWhile isspace s"] exI [of _ "rev (takeWhile isspace (rev ?b))"]) simp
qed

lemma trim_whitespace_eq:
  assumes "0 \<notin> set s"
  shows "\<exists>m. http_utils_trim_whitespace (s @ 0 # post) = Some m \<and> c_str m = Some (trim s) \<and> length m = length s + 1 + length post"
proof -
  have c: "c_str (s @ 0 # post) = Some s" by (rule c_str_append [OF assms])
  show ?thesis
  proof (cases "dropWhile isspace s = []")
    case True
    then have "takeWhile isspace s = s" by (metis append_Nil2 takeWhile_dropWhile_id)
    then have "length (takeWhile isspace s) = length s" by (metis append_Nil2 takeWhile_dropWhile_id)
    then have w: "http_utils_trim_whitespace (s @ 0 # post) = wr (s @ 0 # post) 0 0"
      using c by (simp add: http_utils_trim_whitespace_def Let_def)
    have "trim s = []" by (simp only: trim_def True rev.simps dropWhile.simps)
    moreover have "\<exists>m. wr (s @ 0 # post) 0 0 = Some m \<and> c_str m = Some [] \<and> length m = length s + 1 + length post"
      by (cases s) (simp_all add: wr_def c_str_def)
    ultimately show ?thesis using w by simp
  next
    case False
    obtain pre sp where s: "s = pre @ trim s @ sp" "list_all isspace sp" "trim s \<noteq> []" "\<not> isspace (last (trim s))"
      "pre = takeWhile isspace s" "\<not> isspace (hd (trim s))"
      using trim_split [OF False] by blast
    let ?c = "trim s"
    have lc: "0 < length ?c" using s(3) by simp
    have start: "length (takeWhile isspace s) = length pre" using s(5) by simp
    have len: "length s = length pre + length ?c + length sp" using s(1) by (metis length_append add.assoc)
    have mem: "s @ 0 # post = pre @ ?c @ sp @ 0 # post" using s(1) by (metis append.assoc)
    have e: "trim_end (s @ 0 # post) (length pre) (length s - 1) = length pre + length ?c - 1"
      unfolding mem len by (rule trim_end_eq) (use s in simp_all)
    obtain y ys where ys: "sp @ 0 # post = y # ys" by (cases "sp @ 0 # post") auto
    have w: "wr (s @ 0 # post) (length pre + length ?c - 1 + 1) 0 = Some (pre @ ?c @ 0 # ys)"
      using lc unfolding mem ys by (simp add: wr_def list_update_append)
    define rest where "rest = drop (length ?c + 1) (pre @ ?c @ 0 # ys)"
    have "take (length pre + length ?c - 1 + 2 - length pre) (drop (length pre) (pre @ ?c @ 0 # ys)) = ?c @ [0]"
      using lc by (simp add: Suc_diff_le)
    moreover have "blit (pre @ ?c @ 0 # ys) 0 (?c @ [0]) = Some (?c @ 0 # rest)"
      by (simp add: blit_def rest_def)
    moreover have "0 \<notin> set ?c" using assms s(1) by (metis UnCI set_append)
    then have "c_str (?c @ 0 # rest) = Some ?c" by (rule c_str_append)
    moreover have "length pre \<noteq> length s" using len lc by simp
    moreover have "length (?c @ 0 # rest) = length s + 1 + length post"
      using len arg_cong [OF ys, of length] by (simp add: rest_def)
    ultimately show ?thesis
      using c start e w unfolding http_utils_trim_whitespace_def by (auto simp: Let_def)
  qed
qed

lemma trimmed_eq: "0 \<notin> set s \<Longrightarrow> trimmed s = Some (trim s)"
  using trim_whitespace_eq [of s "[]"] by (auto simp: trimmed_def)

section \<open>The header list as a keyed store\<close>

definition find_header :: "byte list \<Rightarrow> header_item list \<Rightarrow> header_item option" where
  "find_header k h = (if lower k = k then http_header_get_item (Some h) (Some k) else None)"

definition push_header :: "header_item \<Rightarrow> header_item list \<Rightarrow> header_item list" where
  "push_header it h = h @ [it]"

definition drop_header :: "byte list \<Rightarrow> header_item list \<Rightarrow> header_item list" where
  "drop_header k h = (if lower k = k then snd (http_header_delete h (Some k)) else h)"

lemma get_item_eq: "http_header_get_item (Some h) (Some k) = first_with (\<lambda>it. lower (h_key it) = lower k) h"
  by (simp add: http_header_get_item_def)

lemma find_header_eq: "find_header k h = first_with (\<lambda>it. lower (h_key it) = k) h"
proof (cases "lower k = k")
  case False
  then have "first_with (\<lambda>it. lower (h_key it) = k) h = None"
    by (auto simp: first_with_None_iff)
  with False show ?thesis by (simp add: find_header_def)
qed (simp add: find_header_def get_item_eq)

lemma drop_header_eq: "drop_header k h = remove_first (\<lambda>it. lower (h_key it) = k) h"
proof (cases "lower k = k")
  case True
  then show ?thesis
    by (auto simp: drop_header_def http_header_delete_def get_item_eq remove_first_none split: option.splits)
next
  case False
  then have "first_with (\<lambda>it. lower (h_key it) = k) h = None"
    by (auto simp: first_with_None_iff)
  with False show ?thesis by (simp add: drop_header_def remove_first_none)
qed

interpretation header_list: keyed_store "\<lambda>h. h" "\<lambda>it. lower (h_key it)" find_header push_header drop_header
  by unfold_locales (auto simp: find_header_eq drop_header_eq push_header_def)

text \<open>The map from names, whatever their case, to values.\<close>

definition header_map :: "header_item list \<Rightarrow> byte list \<rightharpoonup> byte list" where
  "header_map h = (\<lambda>k. map_option h_value (find_header (lower k) h))"

lemma get_item_find: "http_header_get_item (Some h) (Some k) = find_header (lower k) h"
  by (simp add: get_item_eq find_header_eq)

lemma delete_eq: "snd (http_header_delete h (Some k)) = drop_header (lower k) h"
  by (auto simp: http_header_delete_def get_item_eq drop_header_eq remove_first_none split: option.splits)

lemma header_map_push:
  assumes "header_list.wf h" "find_header (lower (h_key it)) h = None"
  shows "header_map (push_header it h) = (\<lambda>j. if lower j = lower (h_key it) then Some (h_value it) else header_map h j)"
  using header_list.find_ins_same [OF assms] header_list.find_ins_other [OF assms]
  by (auto simp: header_map_def fun_eq_iff)

lemma header_map_drop:
  assumes "header_list.wf h"
  shows "header_map (drop_header (lower k) h) = (\<lambda>j. if lower j = lower k then None else header_map h j)"
  using header_list.find_del_same [OF assms, of "lower k"] header_list.find_del_other [OF assms, of _ "lower k"]
  by (auto simp: header_map_def fun_eq_iff)

lemma header_map_update:
  "header_map (update_first (\<lambda>it. lower (h_key it) = lower k) (\<lambda>it. it\<lparr>h_value := v\<rparr>) h) =
     (\<lambda>j. if lower j = lower k \<and> header_map h k \<noteq> None then Some v else header_map h j)"
  by (auto simp: header_map_def find_header_eq fun_eq_iff first_with_update_first [where key = "\<lambda>it. lower (h_key it)"]
      option.map_comp comp_def)

lemma wf_update: "header_list.wf (update_first p (\<lambda>it. it\<lparr>h_value := v\<rparr>) h) = header_list.wf h"
  by (simp add: header_list.wf_def map_update_first)

lemma header_list_map:
  assumes "header_list.wf h" and "trim k = k" "0 \<notin> set k" "0 \<notin> set v" and "\<forall>n. alloc n"
  shows "http_header_get h (Some k) = (ESP_OK, header_map h k) \<and>
    (\<exists>h'. http_header_set alloc h (Some k) (Some v) = Some (ESP_OK, h') \<and> header_list.wf h' \<and>
      header_map h' = (\<lambda>j. if lower j = lower k then Some (trim v) else header_map h j)) \<and>
    (\<exists>e h'. http_header_set alloc h (Some k) None = Some (e, h') \<and> (e, h') = http_header_delete h (Some k) \<and>
      header_list.wf h' \<and> header_map h' = (\<lambda>j. if lower j = lower k then None else header_map h j) \<and>
      (e = ESP_OK \<longleftrightarrow> header_map h k \<noteq> None))"
proof (intro conjI)
  show "http_header_get h (Some k) = (ESP_OK, header_map h k)"
    by (simp add: http_header_get_def get_item_find header_map_def)
  have tk: "trimmed k = Some k" and tv: "trimmed v = Some (trim v)"
    using trimmed_eq [OF assms(3)] trimmed_eq [OF assms(4)] assms(2) by simp_all
  show "\<exists>h'. http_header_set alloc h (Some k) (Some v) = Some (ESP_OK, h') \<and> header_list.wf h' \<and>
      header_map h' = (\<lambda>j. if lower j = lower k then Some (trim v) else header_map h j)"
  proof (cases "find_header (lower k) h")
    case None
    let ?it = "\<lparr>h_key = k, h_value = trim v\<rparr>"
    have n: "find_header (lower (h_key ?it)) h = None" using None by simp
    have "http_header_set alloc h (Some k) (Some v) = Some (ESP_OK, push_header ?it h)"
      using None tk tv assms(5) by (simp add: http_header_set_def get_item_find http_header_new_item_def push_header_def)
    then show ?thesis
      using header_map_push [OF assms(1) n] header_list.wf_ins [OF assms(1) n] by auto
  next
    case (Some it)
    then have "header_map h k \<noteq> None" by (simp add: header_map_def)
    then show ?thesis
      using Some tv assms(1,5) header_map_update [of k "trim v" h] wf_update
      by (auto simp: http_header_set_def get_item_find fun_eq_iff)
  qed
  show "\<exists>e h'. http_header_set alloc h (Some k) None = Some (e, h') \<and> (e, h') = http_header_delete h (Some k) \<and>
      header_list.wf h' \<and> header_map h' = (\<lambda>j. if lower j = lower k then None else header_map h j) \<and>
      (e = ESP_OK \<longleftrightarrow> header_map h k \<noteq> None)"
  proof -
    obtain e h' where d: "http_header_delete h (Some k) = (e, h')" by (cases "http_header_delete h (Some k)")
    then have h': "h' = drop_header (lower k) h" using delete_eq [of h k] by simp
    have "e = ESP_OK \<longleftrightarrow> header_map h k \<noteq> None"
      using d by (auto simp: http_header_delete_def get_item_find header_map_def split: option.splits)
    then show ?thesis
      using d h' header_map_drop [OF assms(1), of k] header_list.wf_del [OF assms(1)]
      by (auto simp: http_header_set_def)
  qed
qed

text \<open>
  C21. The header list is a map with case-insensitive names. For a name without surrounding spaces,
  \<open>http_header_get\<close> is a lookup, \<open>http_header_set\<close> an update with the trimmed value, and
  \<open>http_header_delete\<close> (also reached by setting NULL) a removal, which reports whether the name was there; no name is ever
  in the list twice.
\<close>

theorem header_list_refines_map:
  assumes "header_list.wf h" and "trim k = k" "0 \<notin> set k" "0 \<notin> set v" and "\<forall>n. alloc n"
  shows "http_header_get h (Some k) = (ESP_OK, header_map h k) \<and>
    (\<exists>h'. http_header_set alloc h (Some k) (Some v) = Some (ESP_OK, h') \<and> header_list.wf h' \<and>
      header_map h' = (\<lambda>j. if lower j = lower k then Some (trim v) else header_map h j)) \<and>
    (\<exists>e h'. http_header_set alloc h (Some k) None = Some (e, h') \<and> (e, h') = http_header_delete h (Some k) \<and>
      header_list.wf h' \<and> header_map h' = (\<lambda>j. if lower j = lower k then None else header_map h j) \<and>
      (e = ESP_OK \<longleftrightarrow> header_map h k \<noteq> None))"
  by (rule header_list_map [OF assms])

theorem header_list_refines_map_witness:
  "\<exists>h'. http_header_set (\<lambda>_. True) [\<lparr>h_key = ascii ''Host'', h_value = ascii ''a''\<rparr>] (Some (ascii ''host'')) (Some (ascii '' b'')) =
     Some (ESP_OK, h') \<and> header_map h' (ascii ''HOST'') = Some (ascii ''b'')"
proof -
  let ?h = "[\<lparr>h_key = ascii ''Host'', h_value = ascii ''a''\<rparr>]"
  have t: "trim (ascii ''host'') = ascii ''host''" "trim (ascii '' b'') = ascii ''b''"
    by (simp_all add: trim_def ascii_def isspace_def)
  have n: "0 \<notin> set (ascii ''host'')" "0 \<notin> set (ascii '' b'')" by (simp_all add: ascii_def)
  have l: "lower (ascii ''HOST'') = lower (ascii ''host'')" by (simp add: lower_def ascii_def tolower_def)
  have "header_list.wf ?h" by (simp add: header_list.wf_def)
  from header_list_refines_map [OF this t(1) n, of "\<lambda>_. True"] show ?thesis
    using l t(2) by auto
qed

text \<open>A name with a space around it is stored trimmed but looked up as it is, so it is added each time.\<close>

lemma untrimmed_name_duplicates:
  "\<exists>h1 h2. http_header_set (\<lambda>_. True) [] (Some (ascii ''A '')) (Some (ascii ''1'')) = Some (ESP_OK, h1) \<and>
     http_header_set (\<lambda>_. True) h1 (Some (ascii ''A '')) (Some (ascii ''2'')) = Some (ESP_OK, h2) \<and>
     map h_key h2 = [ascii ''A'', ascii ''A'']"
proof -
  have "trimmed (ascii ''A '') = Some (ascii ''A'')" "trimmed (ascii ''1'') = Some (ascii ''1'')" "trimmed (ascii ''2'') = Some (ascii ''2'')"
    by (simp_all add: trimmed_eq trim_def ascii_def isspace_def)
  then show ?thesis
    by (simp add: http_header_set_def get_item_eq http_header_new_item_def) (simp add: lower_def ascii_def)
qed

section \<open>The header text\<close>

definition lines_of :: "header_item list \<Rightarrow> byte list" where
  "lines_of its = concat (map header_line its)"

lemma lines_of_simps [simp]: "lines_of [] = []" "lines_of (it # its) = header_line it @ lines_of its"
  by (simp_all add: lines_of_def)

text \<open>The items whose index is from \<open>index\<close> and below \<open>r\<close>, counting from \<open>idx\<close>.\<close>

fun chosen :: "nat \<Rightarrow> nat \<Rightarrow> nat \<Rightarrow> header_item list \<Rightarrow> header_item list" where
  "chosen idx index r [] = []"
| "chosen idx index r (it # its) = (if index \<le> idx \<and> idx < r then [it] else []) @ chosen (idx + 1) index r its"

lemma chosen_eq: "chosen idx index r its = drop (index - idx) (take (r - idx) its)"
proof (induction its arbitrary: idx)
  case (Cons it its)
  show ?case
  proof (cases "idx < r")
    case True
    then have r: "r - idx = Suc (r - Suc idx)" by simp
    show ?thesis
    proof (cases "index \<le> idx")
      case True
      then show ?thesis using Cons.IH [of "Suc idx"] r \<open>idx < r\<close> by simp
    next
      case False
      then have "index - idx = Suc (index - Suc idx)" by simp
      with False Cons.IH [of "Suc idx"] r show ?thesis by simp
    qed
  qed (simp add: Cons.IH)
qed simp

lemma measure_loop_eq:
  "measure_loop its idx index blen siz r =
     (siz + length (lines_of (drop (index - idx) its)),
      if its \<noteq> [] \<and> int (siz + length (lines_of (drop (index - idx) its))) + 3 > blen then int (idx + length its - 1) else r)"
proof (induction its arbitrary: idx siz r)
  case (Cons it its)
  let ?siz = "if index \<le> idx then siz + length (header_line it) else siz"
  have tot: "siz + length (lines_of (drop (index - idx) (it # its))) = ?siz + length (lines_of (drop (index - Suc idx) its))"
  proof (cases "index \<le> idx")
    case False
    then have "index - idx = Suc (index - Suc idx)" by simp
    then show ?thesis using False by simp
  qed simp
  show ?case
    using Cons.IH [of "Suc idx" ?siz] tot by (cases its) (auto simp: Let_def)
qed simp

lemma snprintf_fits:
  assumes "int n + int (length t) < blen" "blen \<le> int (length buf)"
  shows "\<exists>b. snprintf_at buf n (blen - int n) t = Some b \<and> length b = length buf \<and> take (n + length t) b = take n buf @ t"
proof -
  have "take (nat (blen - int n) - 1) t = t" using assms by simp
  then have s: "snprintf_at buf n (blen - int n) t = blit buf n (t @ [0])"
    using assms by (simp add: snprintf_at_def)
  have "n + length (t @ [0]) \<le> length buf" using assms by simp
  then have "blit buf n (t @ [0]) = Some (take n buf @ (t @ [0]) @ drop (n + length (t @ [0])) buf)" by (simp add: blit_def)
  with s assms show ?thesis by (simp add: min_def)
qed

lemma print_loop_fits:
  assumes "int n + int (length (lines_of (chosen idx index r its))) < blen" "blen \<le> int (length buf)"
  shows "\<exists>b. print_loop its idx index (int r) buf blen n = Some (b, n + length (lines_of (chosen idx index r its))) \<and>
    length b = length buf \<and>
    take (n + length (lines_of (chosen idx index r its))) b = take n buf @ lines_of (chosen idx index r its)"
  using assms
proof (induction its arbitrary: idx buf n)
  case (Cons it its)
  show ?case
  proof (cases "index \<le> idx \<and> idx < r")
    case True
    let ?l = "header_line it" and ?ls = "lines_of (chosen (Suc idx) index r its)"
    have len: "int n + int (length ?l) + int (length ?ls) < blen" using Cons.prems(1) True by simp
    obtain b where b: "snprintf_at buf n (blen - int n) ?l = Some b" "length b = length buf"
        "take (n + length ?l) b = take n buf @ ?l"
      using snprintf_fits [of n ?l blen buf] len Cons.prems(2) by auto
    obtain b' where "print_loop its (Suc idx) index (int r) b blen (n + length ?l) = Some (b', n + length ?l + length ?ls)"
        "length b' = length b" "take (n + length ?l + length ?ls) b' = take (n + length ?l) b @ ?ls"
      using Cons.IH [of "n + length ?l" "Suc idx" b] len b(2) Cons.prems(2) by auto
    then show ?thesis using True b by (simp add: add.assoc)
  next
    case False
    then show ?thesis using Cons.IH [of n "Suc idx" buf] Cons.prems by auto
  qed
qed simp

lemma lines_pos: "its \<noteq> [] \<Longrightarrow> 0 < length (lines_of its)"
  by (cases its) (simp_all add: header_line_def)

lemma generate_all:
  assumes "index < length h" "blen \<le> int (length buf)" "int (length (lines_of (drop index h))) + 3 \<le> blen"
  shows "\<exists>b n. http_header_generate_string h index buf blen = Some (int (length h), b, int n) \<and> length b = length buf \<and>
    take n b = lines_of (drop index h) @ [0x0D, 0x0A] \<and> n = length (lines_of (drop index h)) + 2"
proof -
  let ?ls = "lines_of (drop index h)"
  have pos: "0 < length ?ls" using assms(1) by (intro lines_pos) simp
  have m: "measure_loop h 0 index blen 0 (-1) = (length ?ls, -1)"
    using assms(3) by (simp add: measure_loop_eq)
  have c: "chosen 0 index (length h) h = drop index h" by (simp add: chosen_eq)
  obtain b where b: "print_loop h 0 index (int (length h)) buf blen 0 = Some (b, length ?ls)" "length b = length buf"
      "take (length ?ls) b = ?ls"
    using print_loop_fits [of 0 0 index "length h" h blen buf] assms by (auto simp: c)
  obtain b2 where b2: "snprintf_at b (length ?ls) (blen - int (length ?ls)) [0x0D, 0x0A] = Some b2" "length b2 = length b"
      "take (length ?ls + 2) b2 = take (length ?ls) b @ [0x0D, 0x0A]"
    using snprintf_fits [of "length ?ls" "[0x0D, 0x0A]" blen b] assms b(2) by auto
  show ?thesis
    using m b b2 pos by (intro exI [of _ b2] exI [of _ "length ?ls + 2"]) (simp add: http_header_generate_string_def Let_def)
qed

lemma generate_but_last:
  assumes "index < length h" "blen \<le> int (length buf)" "blen < int (length (lines_of (drop index h))) + 3"
    "int (length (lines_of (drop index (butlast h)))) < blen"
  shows "\<exists>b n. http_header_generate_string h index buf blen = Some (int (length h - 1), b, int n) \<and> length b = length buf \<and>
    take n b = lines_of (drop index (butlast h)) \<and> n = length (lines_of (drop index (butlast h)))"
proof -
  let ?ls = "lines_of (drop index (butlast h))"
  have pos: "0 < length (lines_of (drop index h))" using assms(1) by (intro lines_pos) simp
  have ne: "h \<noteq> []" using assms(1) by auto
  have m: "measure_loop h 0 index blen 0 (-1) = (length (lines_of (drop index h)), int (length h - 1))"
    using assms(3) ne by (simp add: measure_loop_eq of_nat_diff Suc_leI)
  have c: "chosen 0 index (length h - 1) h = drop index (butlast h)" by (simp add: chosen_eq butlast_conv_take)
  have "\<exists>b. print_loop h 0 index (int (length h - 1)) buf blen 0 = Some (b, length ?ls) \<and> length b = length buf \<and>
      take (length ?ls) b = ?ls"
    using print_loop_fits [of 0 0 index "length h - 1" h blen buf, unfolded c] assms by simp
  then obtain b where b: "print_loop h 0 index (int (length h - 1)) buf blen 0 = Some (b, length ?ls)" "length b = length buf"
      "take (length ?ls) b = ?ls" by blast
  show ?thesis
    using m b pos by (intro exI [of _ b] exI [of _ "length ?ls"]) (simp add: http_header_generate_string_def Let_def)
qed

text \<open>
  C22. The header text is complete. From an item that exists, if the lines that are left, the empty
  line and a terminator fit the buffer, \<open>http_header_generate_string\<close> writes exactly these and returns the number
  of items; if they do not but all lines except the last fit, it writes these and returns the index of the last item,
  from which the next call goes on.
\<close>

theorem header_text_generated:
  assumes "index < length h" "blen \<le> int (length buf)"
  shows "(int (length (lines_of (drop index h))) + 3 \<le> blen \<longrightarrow>
      (\<exists>b n. http_header_generate_string h index buf blen = Some (int (length h), b, int n) \<and> length b = length buf \<and>
        take n b = lines_of (drop index h) @ [0x0D, 0x0A] \<and> n = length (lines_of (drop index h)) + 2)) \<and>
    (blen < int (length (lines_of (drop index h))) + 3 \<and> int (length (lines_of (drop index (butlast h)))) < blen \<longrightarrow>
      (\<exists>b n. http_header_generate_string h index buf blen = Some (int (length h - 1), b, int n) \<and> length b = length buf \<and>
        take n b = lines_of (drop index (butlast h)) \<and> n = length (lines_of (drop index (butlast h)))))"
  using generate_all [OF assms] generate_but_last [OF assms] by blast

theorem header_text_generated_witness:
  "\<exists>b. http_header_generate_string [\<lparr>h_key = ascii ''A'', h_value = ascii ''1''\<rparr>] 0 (replicate 16 7) 16 = Some (1, b, 8) \<and>
     take 8 b = ascii ''A: 1'' @ [0x0D, 0x0A, 0x0D, 0x0A]"
  using header_text_generated [of 0 "[\<lparr>h_key = ascii ''A'', h_value = ascii ''1''\<rparr>]" 16 "replicate 16 7"]
  by (auto simp: header_line_def ascii_def eval_nat_numeral)

text \<open>A call that prints something goes on to a later item.\<close>

lemma print_loop_nothing:
  "r \<le> int index \<Longrightarrow> print_loop its idx index r buf blen n = Some (buf, n)"
  by (induction its arbitrary: idx) auto

lemma generate_progress:
  assumes "http_header_generate_string h index buf blen = Some (r, b, n)" "r \<noteq> 0" "0 < n"
  shows "int index < r \<and> r \<le> int (length h)"
proof -
  have i: "index < length h"
    using assms(1,2) by (auto simp: http_header_generate_string_def measure_loop_eq split: if_splits intro: ccontr)
  let ?ret = "if h \<noteq> [] \<and> int (length (lines_of (drop index h))) + 3 > blen then int (length h - 1) else -1"
  have m: "measure_loop h 0 index blen 0 (-1) = (length (lines_of (drop index h)), ?ret)"
    by (simp add: measure_loop_eq)
  have l: "0 < length (lines_of (drop index h))" using i by (intro lines_pos) simp
  show ?thesis
  proof (cases "?ret < 0")
    case True
    then show ?thesis using assms(1) m l i
      by (auto simp: http_header_generate_string_def Let_def split: bind_splits prod.splits if_splits)
  next
    case False
    then have r: "r = int (length h - 1)" "\<exists>k. print_loop h 0 index r buf blen 0 = Some (b, k) \<and> n = int k"
      using assms(1) m l
      by (auto simp: http_header_generate_string_def Let_def split: bind_splits prod.splits if_splits)
    then have "\<not> r \<le> int index" using assms(3) print_loop_nothing [of r index h 0 buf blen 0] by auto
    then show ?thesis using r(1) i by auto
  qed
qed

text \<open>
  When two lines do not fit, the loop that measures goes on to the last item, and the lines before it
  are printed: the size left becomes negative, and the text is written behind the buffer.
\<close>

lemma header_text_overrun:
  "http_header_generate_string (replicate 3 \<lparr>h_key = ascii ''A'', h_value = ascii ''1234''\<rparr>) 0 (replicate 8 0) 8 = None"
  by (simp add: http_header_generate_string_def measure_loop_eq header_line_def ascii_def Let_def eval_nat_numeral
      snprintf_at_def blit_def)

end
