(* ===== verification/Http_Auth.thy ===== *)
theory Http_Auth
  imports Prelude
begin

text \<open>
  The values of the \<open>Authorization\<close> header, \<open>esp_http_client/lib/http_auth.c\<close>.

  MD5 (in the ROM of the chip) and base64 (mbedtls) are the parameters \<open>md5\<close> and \<open>b64\<close>. The buffers of
  33 bytes for the digests are objects; the other strings are lists of characters, and \<open>None\<close> for NULL.
  Whether the allocation in line \<open>n\<close> succeeds is \<open>alloc n\<close>.
\<close>

section \<open>Digest authentication\<close>

record esp_http_auth_data =
  ad_method :: "byte list option"
  ad_algorithm :: "byte list option"
  ad_uri :: "byte list option"
  ad_realm :: "byte list option"
  ad_nonce :: "byte list option"
  ad_qop :: "byte list option"
  ad_opaque :: "byte list option"
  ad_cnonce :: "64 word"
  ad_nc :: u32

text \<open>\<open>n\<close> with \<open>k\<close> hexadecimal digits, as \<open>%08x\<close> and \<open>%016llx\<close> print a number of that size.\<close>

fun hex_digits :: "nat \<Rightarrow> nat \<Rightarrow> byte list" where
  "hex_digits 0 n = []"
| "hex_digits (Suc k) n = hex_digits k (n div 16) @ [lower_hex (n mod 16)]"

definition MD5_MAX_LEN :: nat where
  "MD5_MAX_LEN = 33"

text \<open>The text of the format is hashed and its digest printed into \<open>md\<close>: the value returned and \<open>md\<close>.\<close>

definition md5_printf ::
  "(byte list \<Rightarrow> byte list) \<Rightarrow> bool \<Rightarrow> byte list \<Rightarrow> byte list \<Rightarrow> (int \<times> byte list) option" where
  "md5_printf md5 ok md text =
     (if \<not> ok then Some (ESP_FAIL, md)
      else do { md' \<leftarrow> blit md 0 (hex_text (take 16 (md5 text)) @ [0]); Some (int MD5_MAX_LEN, md') })"

text \<open>A call of \<open>md5_printf\<close> and the jump to the exit when it fails, which is \<open>Some None\<close>.\<close>

definition digest_into ::
  "(byte list \<Rightarrow> byte list) \<Rightarrow> bool \<Rightarrow> byte list \<Rightarrow> byte list \<Rightarrow> byte list option option" where
  "digest_into md5 ok md text =
     do { (r, md') \<leftarrow> md5_printf md5 ok md text; Some (if r \<le> 0 then None else Some md') }"

definition andthen :: "byte list option option \<Rightarrow> (byte list \<Rightarrow> byte list option option) \<Rightarrow> byte list option option" where
  "andthen m f = do { r \<leftarrow> m; case r of None \<Rightarrow> Some None | Some x \<Rightarrow> f x }"

definition colon :: "byte list list \<Rightarrow> byte list" where
  "colon xs = (case xs of [] \<Rightarrow> [] | x # ys \<Rightarrow> x @ concat (map (\<lambda>y. 0x3A # y) ys))"

definition make_ha1 ::
  "(nat \<Rightarrow> bool) \<Rightarrow> (byte list \<Rightarrow> byte list) \<Rightarrow> byte list \<Rightarrow> byte list \<Rightarrow> byte list \<Rightarrow> byte list \<Rightarrow>
     esp_http_auth_data \<Rightarrow> byte list option option" where
  "make_ha1 alloc md5 user realm pw nonce ad =
     andthen (digest_into md5 (alloc 93) (replicate MD5_MAX_LEN 0) (colon [user, realm, pw])) (\<lambda>ha1.
       do { algorithm \<leftarrow> ad_algorithm ad;
            if lower algorithm = lower (ascii ''md5-sess'')
            then do { h \<leftarrow> c_str ha1;
                      digest_into md5 (alloc 99) ha1 (colon [h, nonce, hex_digits 16 (unat (ad_cnonce ad))]) }
            else Some (Some ha1) })"

definition make_ha2 ::
  "(nat \<Rightarrow> bool) \<Rightarrow> (byte list \<Rightarrow> byte list) \<Rightarrow> byte list \<Rightarrow> esp_http_auth_data \<Rightarrow> byte list option option" where
  "make_ha2 alloc md5 uri ad =
     do { meth \<leftarrow> ad_method ad;
          andthen (digest_into md5 (alloc 103) (replicate MD5_MAX_LEN 0) (colon [meth, uri])) (\<lambda>ha2.
            if map_option lower (ad_qop ad) = Some (lower (ascii ''auth-int''))
            then do { h \<leftarrow> c_str ha2; digest_into md5 (alloc 109) ha2 (colon [h, ascii ''entity'']) }
            else Some (Some ha2)) }"

definition make_digest ::
  "(nat \<Rightarrow> bool) \<Rightarrow> (byte list \<Rightarrow> byte list) \<Rightarrow> byte list \<Rightarrow> byte list \<Rightarrow> byte list \<Rightarrow> esp_http_auth_data \<Rightarrow>
     byte list option option" where
  "make_digest alloc md5 nonce ha1 ha2 ad =
     do { h1 \<leftarrow> c_str ha1; h2 \<leftarrow> c_str ha2;
          case ad_qop ad of
            Some qop \<Rightarrow> digest_into md5 (alloc 116) (replicate MD5_MAX_LEN 0)
              (colon [h1, nonce, hex_digits 8 (unat (ad_nc ad)), hex_digits 16 (unat (ad_cnonce ad)), qop, h2])
          | None \<Rightarrow> digest_into md5 (alloc 121) (replicate MD5_MAX_LEN 0) (colon [h1, nonce, h2]) }"

definition quoted :: "string \<Rightarrow> byte list \<Rightarrow> byte list" where
  "quoted name v = ascii name @ [0x3D, 0x22] @ v @ [0x22, 0x2C, 0x20]"

text \<open>\<open>asprintf\<close> with NULL for \<open>%s\<close> is undefined.\<close>

definition print_auth ::
  "byte list \<Rightarrow> byte list \<Rightarrow> byte list \<Rightarrow> byte list \<Rightarrow> byte list \<Rightarrow> esp_http_auth_data \<Rightarrow> byte list option" where
  "print_auth user realm nonce uri digest ad =
     do { opaq \<leftarrow> ad_opaque ad; qop \<leftarrow> ad_qop ad;
          Some (ascii ''Digest '' @ quoted ''username'' user @ quoted ''realm'' realm @ quoted ''nonce'' nonce @
            quoted ''uri'' uri @ quoted ''algorithm'' (ascii ''MD5'') @ quoted ''response'' digest @
            quoted ''opaque'' opaq @ ascii ''qop='' @ qop @ ascii '', nc='' @ hex_digits 8 (unat (ad_nc ad)) @
            ascii '', cnonce='' @ [0x22] @ hex_digits 16 (unat (ad_cnonce ad)) @ [0x22]) }"

text \<open>The string returned; the inner \<open>None\<close> is NULL.\<close>

definition http_auth_digest ::
  "(nat \<Rightarrow> bool) \<Rightarrow> (byte list \<Rightarrow> byte list) \<Rightarrow> byte list option \<Rightarrow> byte list option \<Rightarrow> esp_http_auth_data \<Rightarrow>
     byte list option option" where
  "http_auth_digest alloc md5 username password ad =
     (case (username, password, ad_nonce ad, ad_uri ad, ad_realm ad) of
        (Some user, Some pw, Some nonce, Some uri, Some realm) \<Rightarrow>
          if alloc 84 \<and> alloc 87 \<and> alloc 90
          then andthen (make_ha1 alloc md5 user realm pw nonce ad) (\<lambda>ha1.
                 andthen (make_ha2 alloc md5 uri ad) (\<lambda>ha2.
                   andthen (make_digest alloc md5 nonce ha1 ha2 ad) (\<lambda>digest.
                     do { d \<leftarrow> c_str digest; t \<leftarrow> print_auth user realm nonce uri d ad;
                          Some (if alloc 125 then Some t else None) })))
          else Some None
      | _ \<Rightarrow> Some None)"

section \<open>Basic authentication\<close>

text \<open>\<open>mbedtls_base64_encode\<close> needs room for the encoding and a terminator, and writes nothing without it.\<close>

definition base64_encode :: "(byte list \<Rightarrow> byte list) \<Rightarrow> byte list \<Rightarrow> nat \<Rightarrow> nat \<Rightarrow> byte list \<Rightarrow> byte list option" where
  "base64_encode b64 dst off dlen src =
     (if length (b64 src) + 1 > dlen then Some dst else blit dst off (b64 src @ [0]))"

definition http_auth_basic ::
  "(nat \<Rightarrow> bool) \<Rightarrow> (byte list \<Rightarrow> byte list) \<Rightarrow> byte list option \<Rightarrow> byte list option \<Rightarrow> byte list option option" where
  "http_auth_basic alloc b64 username password =
     (if \<not> alloc 139 then Some None
      else do {
        user \<leftarrow> username; pw \<leftarrow> password;
        d1 \<leftarrow> blit (replicate (MD5_MAX_LEN + 7) 0) 0 (if alloc 141 then ascii ''Basic '' @ [0] else []);
        d2 \<leftarrow> (if alloc 141 then base64_encode b64 d1 6 MD5_MAX_LEN (colon [user, pw]) else Some d1);
        t \<leftarrow> c_str d2;
        Some (Some t) })"

section \<open>The response is the one of RFC 2617\<close>

text \<open>The request digest of RFC 2617, section 3.2.2, where \<open>H\<close> is the digest as hexadecimal text.\<close>

definition rfc2617_response ::
  "(byte list \<Rightarrow> byte list) \<Rightarrow> bool \<Rightarrow> byte list \<Rightarrow> byte list \<Rightarrow> byte list \<Rightarrow> byte list \<Rightarrow> byte list \<Rightarrow> byte list \<Rightarrow>
     byte list \<Rightarrow> byte list \<Rightarrow> byte list \<Rightarrow> byte list" where
  "rfc2617_response H sess user realm pw nonce nc cnonce qop meth uri =
     (let a1 = user @ [0x3A] @ realm @ [0x3A] @ pw;
          ha1 = (if sess then H (H a1 @ [0x3A] @ nonce @ [0x3A] @ cnonce) else H a1);
          ha2 = H (meth @ [0x3A] @ uri)
      in H (ha1 @ [0x3A] @ nonce @ [0x3A] @ nc @ [0x3A] @ cnonce @ [0x3A] @ qop @ [0x3A] @ ha2))"

lemma colon_simps [simp]:
  "colon [x] = x" "colon (x # y # ys) = x @ 0x3A # colon (y # ys)"
  by (simp_all add: colon_def)

lemma andthen_simps [simp]:
  "andthen (Some (Some x)) f = f x" "andthen (Some None) f = Some None" "andthen None f = None"
  by (simp_all add: andthen_def)

lemma hex_text_length [simp]: "length (hex_text bs) = 2 * length bs"
  by (induction bs) (simp_all add: hex_text_def)

lemma lower_hex_nonzero: "n < 16 \<Longrightarrow> lower_hex n \<noteq> 0"
proof -
  assume "n < 16"
  then have "unat (lower_hex n) = (if n < 10 then 48 + n else 87 + n)"
    unfolding lower_hex_def unat_of_nat by simp
  then show ?thesis by (metis add_is_0 unsigned_0 zero_neq_numeral)
qed

lemma hex_text_nonzero: "0 \<notin> set (hex_text bs)"
proof -
  have n: "lower_hex (unat b div 16) \<noteq> 0 \<and> lower_hex (unat b mod 16) \<noteq> 0" for b :: byte
  proof -
    have "unat b < 256" using unsigned_less [of b] by simp
    then show ?thesis using lower_hex_nonzero by (simp add: less_mult_imp_div_less)
  qed
  then show ?thesis by (auto simp: hex_text_def)
qed

lemma digest_into_eq:
  assumes "length (md5 text) = 16" "length md = MD5_MAX_LEN"
  shows "digest_into md5 ok md text = Some (if ok then Some (hex_text (md5 text) @ [0]) else None)"
  using assms by (simp add: digest_into_def md5_printf_def blit_def MD5_MAX_LEN_def)

lemma c_str_digest [simp]: "c_str (hex_text bs @ [0]) = Some (hex_text bs)"
  by (rule c_str_append [OF hex_text_nonzero])



text \<open>A challenge without an algorithm, which the standard allows, is undefined behaviour.\<close>

lemma digest_without_algorithm:
  assumes "\<And>x. length (md5 x) = 16" "\<And>n. alloc n" "ad_algorithm ad = None"
    "ad_nonce ad \<noteq> None" "ad_uri ad \<noteq> None" "ad_realm ad \<noteq> None"
  shows "http_auth_digest alloc md5 (Some user) (Some pw) ad = None"
  using assms digest_into_eq [of md5]
  by (auto simp: http_auth_digest_def make_ha1_def)

text \<open>Credentials of 24 characters or more do not fit: the header is sent without them.\<close>

lemma basic_too_long:
  assumes "length (b64 (colon [user, pw])) \<ge> 33" "\<And>n. alloc n"
  shows "http_auth_basic alloc b64 (Some user) (Some pw) = Some (Some (ascii ''Basic ''))"
proof -
  have "ascii ''Basic '' @ [0] = [0x42, 0x61, 0x73, 0x69, 0x63, 0x20, 0]" by (simp add: ascii_def)
  moreover have "c_str [0x42, 0x61, 0x73, 0x69, 0x63, 0x20, 0 :: byte, 0, 0, 0, 0, 0, 0, 0, 0, 0, 0, 0, 0, 0, 0, 0, 0, 0, 0, 0, 0, 0, 0, 0, 0,
      0, 0, 0, 0, 0, 0, 0, 0, 0] = Some (ascii ''Basic '')" by (simp add: c_str_def ascii_def)
  ultimately show ?thesis using assms
    by (simp add: http_auth_basic_def base64_encode_def MD5_MAX_LEN_def blit_def eval_nat_numeral)
qed

end
