(* ===== verification/Http_Client.thy ===== *)
theory Http_Client
  imports Http_Header Http_Auth Transport
begin

text \<open>
  The HTTP client, \<open>esp_http_client/esp_http_client.c\<close>, in the configuration with HTTPS.

  The client runs over the table of transports; the copies of \<open>transport.c\<close> and \<open>transport_tcp.c\<close> it has are
  those of the MQTT client but for the names of two macros, so theory \<open>Transport\<close> models both. The SSL
  transport is an argument. The HTTP parser of ESP-IDF is not in the repository: it is the argument \<open>lib\<close>, which
  gives for the bytes of a read the callbacks it makes, in order, with spans of these bytes. Its URL parser
  is the argument \<open>parse_url\<close>. The response buffer, the request buffer and the buffer of the caller of
  \<open>esp_http_client_read\<close> are objects; the other strings are lists of characters, \<open>None\<close> for NULL. \<open>None\<close> of
  the option monad is undefined behaviour or a failed \<open>assert\<close>. Whether the allocation in line \<open>n\<close> of a
  file succeeds is \<open>alloc file n\<close>. Events that the application's handler gets are collected.
\<close>

section \<open>State\<close>

datatype c_file = Client_c | Header_c | Auth_c | Utils_c | Transport_c

abbreviation (input) ESP_ERR_HTTP_MAX_REDIRECT :: int where "ESP_ERR_HTTP_MAX_REDIRECT \<equiv> 0x7001"
abbreviation (input) ESP_ERR_HTTP_CONNECT :: int where "ESP_ERR_HTTP_CONNECT \<equiv> 0x7002"
abbreviation (input) ESP_ERR_HTTP_WRITE_DATA :: int where "ESP_ERR_HTTP_WRITE_DATA \<equiv> 0x7003"
abbreviation (input) ESP_ERR_HTTP_FETCH_HEADER :: int where "ESP_ERR_HTTP_FETCH_HEADER \<equiv> 0x7004"
abbreviation (input) ESP_ERR_HTTP_INVALID_TRANSPORT :: int where "ESP_ERR_HTTP_INVALID_TRANSPORT \<equiv> 0x7005"

text \<open>The states are compared by their order.\<close>

datatype esp_http_state =
    HTTP_STATE_UNINIT
  | HTTP_STATE_INIT
  | HTTP_STATE_CONNECTED
  | HTTP_STATE_REQ_COMPLETE_HEADER
  | HTTP_STATE_REQ_COMPLETE_DATA
  | HTTP_STATE_RES_COMPLETE_HEADER
  | HTTP_STATE_RES_COMPLETE_DATA
  | HTTP_STATE_CLOSE

fun state_num :: "esp_http_state \<Rightarrow> nat" where
  "state_num HTTP_STATE_UNINIT = 0"
| "state_num HTTP_STATE_INIT = 1"
| "state_num HTTP_STATE_CONNECTED = 2"
| "state_num HTTP_STATE_REQ_COMPLETE_HEADER = 3"
| "state_num HTTP_STATE_REQ_COMPLETE_DATA = 4"
| "state_num HTTP_STATE_RES_COMPLETE_HEADER = 5"
| "state_num HTTP_STATE_RES_COMPLETE_DATA = 6"
| "state_num HTTP_STATE_CLOSE = 7"

lemma state_num_inject: "state_num s = state_num t \<Longrightarrow> s = t"
  by (cases s; cases t) simp_all

instantiation esp_http_state :: linorder
begin

definition less_eq_esp_http_state :: "esp_http_state \<Rightarrow> esp_http_state \<Rightarrow> bool" where
  "less_eq_esp_http_state s t \<longleftrightarrow> state_num s \<le> state_num t"

definition less_esp_http_state :: "esp_http_state \<Rightarrow> esp_http_state \<Rightarrow> bool" where
  "less_esp_http_state s t \<longleftrightarrow> state_num s < state_num t"

instance
  by standard (auto simp: less_eq_esp_http_state_def less_esp_http_state_def intro: state_num_inject)

end

lemmas state_order = less_eq_esp_http_state_def less_esp_http_state_def

datatype esp_http_client_method =
    HTTP_METHOD_GET | HTTP_METHOD_POST | HTTP_METHOD_PUT | HTTP_METHOD_PATCH | HTTP_METHOD_DELETE | HTTP_METHOD_MAX

fun HTTP_METHOD_MAPPING :: "esp_http_client_method \<Rightarrow> byte list option" where
  "HTTP_METHOD_MAPPING HTTP_METHOD_GET = Some (ascii ''GET'')"
| "HTTP_METHOD_MAPPING HTTP_METHOD_POST = Some (ascii ''POST'')"
| "HTTP_METHOD_MAPPING HTTP_METHOD_PUT = Some (ascii ''PUT'')"
| "HTTP_METHOD_MAPPING HTTP_METHOD_PATCH = Some (ascii ''PATCH'')"
| "HTTP_METHOD_MAPPING HTTP_METHOD_DELETE = Some (ascii ''DELETE'')"
| "HTTP_METHOD_MAPPING HTTP_METHOD_MAX = None"

datatype esp_http_client_auth_type = HTTP_AUTH_TYPE_NONE | HTTP_AUTH_TYPE_BASIC | HTTP_AUTH_TYPE_DIGEST

datatype esp_http_client_transport = HTTP_TRANSPORT_UNKNOWN | HTTP_TRANSPORT_OVER_TCP | HTTP_TRANSPORT_OVER_SSL

datatype esp_http_client_event_id =
    HTTP_EVENT_ERROR | HTTP_EVENT_ON_CONNECTED | HTTP_EVENT_HEADER_SENT | HTTP_EVENT_ON_HEADER
  | HTTP_EVENT_ON_DATA | HTTP_EVENT_ON_FINISH | HTTP_EVENT_DISCONNECTED

record esp_http_client_event =
  he_event_id :: esp_http_client_event_id
  he_data :: "byte list"
  he_header_key :: "byte list"
  he_header_value :: "byte list"

text \<open>A message with its buffer: \<open>raw_data\<close> is an offset into \<open>data\<close>, \<open>output_ptr\<close> an offset into the buffer of
  the caller, which is kept with it.\<close>

record esp_http_data =
  hd_headers :: "header_item list"
  hb_data :: "byte list"
  hb_len :: int
  hb_raw_data :: "nat option"
  hb_raw_len :: int
  hb_output :: "(byte list \<times> nat) option"
  hd_status_code :: int
  hd_content_length :: int
  hd_data_offset :: int
  hd_data_process :: int
  hd_is_chunked :: bool

record connection_info =
  ci_scheme :: "byte list option"
  ci_host :: "byte list option"
  ci_port :: int
  ci_username :: "byte list option"
  ci_password :: "byte list option"
  ci_path :: "byte list option"
  ci_query :: "byte list option"
  ci_method :: esp_http_client_method
  ci_auth_type :: esp_http_client_auth_type

record 'p esp_http_client =
  hc_redirect_counter :: int
  hc_max_redirection_count :: int
  hc_process_again :: bool
  hc_parser :: 'p
  hc_transport_list :: transport_list
  hc_transport :: "transport_item option"
  hc_request :: esp_http_data
  hc_response :: esp_http_data
  hc_auth_data :: esp_http_auth_data
  hc_post_data :: "byte list option"
  hc_location :: "byte list option"
  hc_auth_header :: "byte list option"
  hc_current_header_key :: "byte list option"
  hc_current_header_value :: "byte list option"
  hc_post_len :: int
  hc_info :: connection_info
  hc_is_chunk_complete :: bool
  hc_state :: esp_http_state
  hc_event_handler :: bool
  hc_timeout_ms :: int
  hc_buffer_size :: int
  hc_disable_auto_redirect :: bool
  hc_net :: net
  hc_rand :: "u32 list"
  hc_events :: "esp_http_client_event list"

record esp_http_client_config =
  cc_url :: "byte list option"
  cc_host :: "byte list option"
  cc_port :: int
  cc_username :: "byte list option"
  cc_password :: "byte list option"
  cc_auth_type :: esp_http_client_auth_type
  cc_path :: "byte list option"
  cc_query :: "byte list option"
  cc_method :: esp_http_client_method
  cc_timeout_ms :: int
  cc_disable_auto_redirect :: bool
  cc_max_redirection_count :: int
  cc_event_handler :: bool
  cc_transport_type :: esp_http_client_transport
  cc_buffer_size :: int

definition on_response :: "(esp_http_data \<Rightarrow> esp_http_data) \<Rightarrow> 'p esp_http_client \<Rightarrow> 'p esp_http_client" where
  "on_response f c = c\<lparr>hc_response := f (hc_response c)\<rparr>"

definition on_request :: "(esp_http_data \<Rightarrow> esp_http_data) \<Rightarrow> 'p esp_http_client \<Rightarrow> 'p esp_http_client" where
  "on_request f c = c\<lparr>hc_request := f (hc_request c)\<rparr>"

definition on_info :: "(connection_info \<Rightarrow> connection_info) \<Rightarrow> 'p esp_http_client \<Rightarrow> 'p esp_http_client" where
  "on_info f c = c\<lparr>hc_info := f (hc_info c)\<rparr>"

definition http_dispatch_event ::
  "esp_http_client_event_id \<Rightarrow> byte list \<Rightarrow> byte list \<Rightarrow> byte list \<Rightarrow> 'p esp_http_client \<Rightarrow> 'p esp_http_client" where
  "http_dispatch_event eid d key val c =
     (if hc_event_handler c
      then c\<lparr>hc_events := hc_events c @ [\<lparr>he_event_id = eid, he_data = d, he_header_key = key, he_header_value = val\<rparr>]\<rparr>
      else c)"

text \<open>\<open>http_utils_assign_string\<close> on a field; \<open>mem\<close> is the object at \<open>new_str\<close>.\<close>

definition assign ::
  "(c_file \<Rightarrow> nat \<Rightarrow> bool) \<Rightarrow> byte list option \<Rightarrow> byte list \<Rightarrow> int \<Rightarrow> byte list option" where
  "assign alloc old mem len =
     do { r \<leftarrow> http_utils_assign_string (alloc Utils_c (if old = None then 56 else 52)) (map_option (\<lambda>s. s @ [0]) old) (Some mem) len; m \<leftarrow> r; c_str m }"

section \<open>The parser and its callbacks\<close>

text \<open>A span is given by its offset in the bytes parsed and its length.\<close>

datatype parser_event =
    On_message_begin
  | On_url nat nat
  | On_status nat nat
  | On_header_field nat nat
  | On_header_value nat nat
  | On_headers_complete "16 word" u32 "64 word"
  | On_body nat nat
  | On_message_complete
  | On_chunk_complete

record 'p http_parser_lib =
  pl_init :: 'p
  pl_execute :: "'p \<Rightarrow> byte list \<Rightarrow> parser_event list \<times> 'p"
  pl_keep_alive :: "'p \<Rightarrow> bool"

definition http_on_message_begin :: "'p esp_http_client \<Rightarrow> 'p esp_http_client" where
  "http_on_message_begin c = (on_response (\<lambda>r. r\<lparr>hd_is_chunked := False\<rparr>) c)\<lparr>hc_is_chunk_complete := False\<rparr>"

definition http_on_header_field ::
  "(c_file \<Rightarrow> nat \<Rightarrow> bool) \<Rightarrow> nat \<Rightarrow> nat \<Rightarrow> 'p esp_http_client \<Rightarrow> 'p esp_http_client option" where
  "http_on_header_field alloc at len c =
     do { k \<leftarrow> assign alloc (hc_current_header_key c) (drop at (hb_data (hc_response c))) (int len);
          Some (c\<lparr>hc_current_header_key := Some k\<rparr>) }"

text \<open>\<open>memcmp(at, "chunked", length) == 0\<close>, which reads up to the first difference; the literal has eight bytes.\<close>

definition is_chunked_text :: "byte list \<Rightarrow> nat \<Rightarrow> bool option" where
  "is_chunked_text mem len =
     (let lit = ascii ''chunked'' @ [0]
      in if len > 8 \<and> take 8 mem = lit then None else Some (len \<le> 8 \<and> take len mem = take len lit))"

definition store_header ::
  "(c_file \<Rightarrow> nat \<Rightarrow> bool) \<Rightarrow> byte list \<Rightarrow> byte list \<Rightarrow> nat \<Rightarrow> 'p esp_http_client \<Rightarrow> 'p esp_http_client option" where
  "store_header alloc key mem len c =
     (if lower key = lower (ascii ''Location'')
      then do { l \<leftarrow> assign alloc (hc_location c) mem (int len); Some (c\<lparr>hc_location := Some l\<rparr>) }
      else if lower key = lower (ascii ''Transfer-Encoding'')
      then do { eq \<leftarrow> is_chunked_text mem len;
                Some (if eq then on_response (\<lambda>r. r\<lparr>hd_is_chunked := True\<rparr>) c else c) }
      else if lower key = lower (ascii ''WWW-Authenticate'')
      then do { a \<leftarrow> assign alloc (hc_auth_header c) mem (int len); Some (c\<lparr>hc_auth_header := Some a\<rparr>) }
      else Some c)"

definition http_on_header_value ::
  "(c_file \<Rightarrow> nat \<Rightarrow> bool) \<Rightarrow> nat \<Rightarrow> nat \<Rightarrow> 'p esp_http_client \<Rightarrow> 'p esp_http_client option" where
  "http_on_header_value alloc at len c =
     (case hc_current_header_key c of
        None \<Rightarrow> Some c
      | Some key \<Rightarrow>
          let mem = drop at (hb_data (hc_response c)) in
          do { c1 \<leftarrow> store_header alloc key mem len c;
               v \<leftarrow> assign alloc (hc_current_header_value c1) mem (int len);
               Some ((http_dispatch_event HTTP_EVENT_ON_HEADER [] key v c1)
                 \<lparr>hc_current_header_key := None, hc_current_header_value := None\<rparr>) })"

text \<open>The content length is converted from 64 bits to an \<open>int\<close>; the parser gives all ones when there is none.\<close>

definition http_on_headers_complete :: "16 word \<Rightarrow> u32 \<Rightarrow> 64 word \<Rightarrow> 'p esp_http_client \<Rightarrow> 'p esp_http_client" where
  "http_on_headers_complete status nread len c =
     (on_response (\<lambda>r. r\<lparr>hd_status_code := uint status, hd_content_length := sint (ucast len :: 32 word),
        hd_data_offset := sint nread, hd_data_process := 0\<rparr>) c)\<lparr>hc_state := HTTP_STATE_RES_COMPLETE_HEADER\<rparr>"

definition http_on_body :: "nat \<Rightarrow> nat \<Rightarrow> 'p esp_http_client \<Rightarrow> 'p esp_http_client option" where
  "http_on_body at len c =
     (let r = hc_response c; bytes = take len (drop at (hb_data r)) in
      if length (hb_data r) < at + len then None
      else do { out \<leftarrow> (case hb_output r of
                     None \<Rightarrow> Some None
                   | Some (obj, pos) \<Rightarrow> do { obj' \<leftarrow> blit obj pos bytes; Some (Some (obj', pos + len)) });
           Some (http_dispatch_event HTTP_EVENT_ON_DATA bytes [] []
             (c\<lparr>hc_response := r\<lparr>hb_raw_data := Some at, hb_raw_len := hb_raw_len r + int len, hb_output := out,
                hd_data_process := hd_data_process r + int len\<rparr>\<rparr>)) })"

definition http_on_message_complete :: "'p esp_http_client \<Rightarrow> 'p esp_http_client" where
  "http_on_message_complete c = c\<lparr>hc_is_chunk_complete := True\<rparr>"

text \<open>The settings of the parser: \<open>on_url\<close>, \<open>on_status\<close> and \<open>on_chunk_complete\<close> do nothing.\<close>

fun parser_callback ::
  "(c_file \<Rightarrow> nat \<Rightarrow> bool) \<Rightarrow> parser_event \<Rightarrow> 'p esp_http_client \<Rightarrow> 'p esp_http_client option" where
  "parser_callback alloc On_message_begin c = Some (http_on_message_begin c)"
| "parser_callback alloc (On_url at len) c = Some c"
| "parser_callback alloc (On_status at len) c = Some c"
| "parser_callback alloc (On_header_field at len) c = http_on_header_field alloc at len c"
| "parser_callback alloc (On_header_value at len) c = http_on_header_value alloc at len c"
| "parser_callback alloc (On_headers_complete st nread len) c = Some (http_on_headers_complete st nread len c)"
| "parser_callback alloc (On_body at len) c = http_on_body at len c"
| "parser_callback alloc On_message_complete c = Some (http_on_message_complete c)"
| "parser_callback alloc On_chunk_complete c = Some c"

fun run_callbacks ::
  "(c_file \<Rightarrow> nat \<Rightarrow> bool) \<Rightarrow> parser_event list \<Rightarrow> 'p esp_http_client \<Rightarrow> 'p esp_http_client option" where
  "run_callbacks alloc [] c = Some c"
| "run_callbacks alloc (e # es) c = do { c' \<leftarrow> parser_callback alloc e c; run_callbacks alloc es c' }"

definition http_parser_execute ::
  "(c_file \<Rightarrow> nat \<Rightarrow> bool) \<Rightarrow> 'p http_parser_lib \<Rightarrow> nat \<Rightarrow> 'p esp_http_client \<Rightarrow> 'p esp_http_client option" where
  "http_parser_execute alloc lib n c =
     (let (evs, p) = pl_execute lib (hc_parser c) (take n (hb_data (hc_response c)))
      in run_callbacks alloc evs (c\<lparr>hc_parser := p\<rparr>))"

section \<open>Headers and configuration\<close>

definition esp_http_client_set_header ::
  "(c_file \<Rightarrow> nat \<Rightarrow> bool) \<Rightarrow> 'p esp_http_client \<Rightarrow> byte list option \<Rightarrow> byte list option \<Rightarrow>
     (int \<times> 'p esp_http_client) option" where
  "esp_http_client_set_header alloc c key value =
     do { (e, h) \<leftarrow> http_header_set (alloc Header_c) (hd_headers (hc_request c)) key value;
          Some (e, on_request (\<lambda>r. r\<lparr>hd_headers := h\<rparr>) c) }"

definition esp_http_client_delete_header ::
  "'p esp_http_client \<Rightarrow> byte list option \<Rightarrow> int \<times> 'p esp_http_client" where
  "esp_http_client_delete_header c key =
     (let (e, h) = http_header_delete (hd_headers (hc_request c)) key
      in (e, on_request (\<lambda>r. r\<lparr>hd_headers := h\<rparr>) c))"

definition no_connection_info :: connection_info where
  "no_connection_info = \<lparr>ci_scheme = None, ci_host = None, ci_port = 0, ci_username = None, ci_password = None,
     ci_path = None, ci_query = None, ci_method = HTTP_METHOD_GET, ci_auth_type = HTTP_AUTH_TYPE_NONE\<rparr>"

definition clear_connection_info :: "'p esp_http_client \<Rightarrow> 'p esp_http_client" where
  "clear_connection_info c = c\<lparr>hc_info := no_connection_info\<rparr>"

definition no_auth_data :: esp_http_auth_data where
  "no_auth_data = \<lparr>ad_method = None, ad_algorithm = None, ad_uri = None, ad_realm = None, ad_nonce = None,
     ad_qop = None, ad_opaque = None, ad_cnonce = 0, ad_nc = 0\<rparr>"

definition clear_auth_data :: "'p esp_http_client \<Rightarrow> 'p esp_http_client" where
  "clear_auth_data c = c\<lparr>hc_auth_data := no_auth_data\<rparr>"

text \<open>\<open>strdup\<close> of a setting: the inner \<open>None\<close> is a failure, which ends \<open>_set_config\<close> with an empty record.\<close>

definition dup :: "bool \<Rightarrow> byte list option \<Rightarrow> byte list option option" where
  "dup ok s = (case s of None \<Rightarrow> Some None | Some t \<Rightarrow> if ok then Some (Some t) else None)"

definition config_fields :: "esp_http_client_config \<Rightarrow> 'p esp_http_client \<Rightarrow> 'p esp_http_client" where
  "config_fields config c =
     (on_info (\<lambda>i. i\<lparr>ci_port := cc_port config, ci_method := cc_method config, ci_auth_type := cc_auth_type config\<rparr>) c)
       \<lparr>hc_max_redirection_count := (if cc_max_redirection_count config = 0 then 10 else cc_max_redirection_count config),
        hc_event_handler := cc_event_handler config,
        hc_timeout_ms := cc_timeout_ms config,
        hc_buffer_size := (if cc_buffer_size config = 0 then 2048 else cc_buffer_size config),
        hc_disable_auto_redirect := cc_disable_auto_redirect config\<rparr>"

definition config_path :: "(nat \<Rightarrow> bool) \<Rightarrow> esp_http_client_config \<Rightarrow> byte list option" where
  "config_path alloc config =
     (case cc_path config of
        Some p \<Rightarrow> if alloc 293 then Some p else None
      | None \<Rightarrow> if alloc 295 then Some (ascii ''/'') else None)"

definition config_strings ::
  "(nat \<Rightarrow> bool) \<Rightarrow> esp_http_client_config \<Rightarrow> connection_info \<Rightarrow> connection_info option" where
  "config_strings alloc config i =
     do { host \<leftarrow> dup (alloc 302) (cc_host config);
          query \<leftarrow> dup (alloc 311) (cc_query config);
          user \<leftarrow> dup (alloc 319) (cc_username config);
          pass \<leftarrow> dup (alloc 327) (cc_password config);
          Some (i\<lparr>ci_host := (if host = None then ci_host i else host),
            ci_query := (if query = None then ci_query i else query),
            ci_username := (if user = None then ci_username i else user),
            ci_password := (if pass = None then ci_password i else pass)\<rparr>) }"

definition config_scheme ::
  "(c_file \<Rightarrow> nat \<Rightarrow> bool) \<Rightarrow> esp_http_client_config \<Rightarrow> connection_info \<Rightarrow> connection_info option" where
  "config_scheme alloc config i =
     (let ssl = (cc_transport_type config = HTTP_TRANSPORT_OVER_SSL) in
      do { s \<leftarrow> assign alloc (ci_scheme i) (ascii (if ssl then ''https'' else ''http'') @ [0]) 0;
           Some (i\<lparr>ci_scheme := Some s,
             ci_port := (if ci_port i = 0 then if ssl then 443 else 80 else ci_port i)\<rparr>) })"

definition set_config ::
  "(c_file \<Rightarrow> nat \<Rightarrow> bool) \<Rightarrow> 'p esp_http_client \<Rightarrow> esp_http_client_config \<Rightarrow> (int \<times> 'p esp_http_client) option" where
  "set_config alloc c config =
     (let c1 = config_fields config c in
      case config_path (alloc Client_c) config of
        None \<Rightarrow> Some (ESP_ERR_NO_MEM, on_info (\<lambda>i. i\<lparr>ci_path := None\<rparr>) c1)
      | Some p \<Rightarrow>
          (case config_strings (alloc Client_c) config ((hc_info c1)\<lparr>ci_path := Some p\<rparr>) of
             None \<Rightarrow> Some (ESP_ERR_NO_MEM, clear_connection_info c1)
           | Some i \<Rightarrow> do { i' \<leftarrow> config_scheme alloc config i;
                           Some (ESP_OK, c1\<lparr>hc_info := i',
                             hc_timeout_ms := (if hc_timeout_ms c1 = 0 then 5000 else hc_timeout_ms c1)\<rparr>) }))"

section \<open>Connection and URL\<close>

definition esp_http_client_close :: "'p esp_http_client \<Rightarrow> int \<times> 'p esp_http_client" where
  "esp_http_client_close c =
     (if hc_state c \<ge> HTTP_STATE_INIT
      then let c1 = http_dispatch_event HTTP_EVENT_DISCONNECTED [] [] [] c;
               (r, w) = transport_close (hc_transport c1) (hc_net c1)
           in (r, c1\<lparr>hc_state := HTTP_STATE_INIT, hc_net := w\<rparr>)
      else (ESP_OK, c))"

text \<open>The fields the URL parser finds: offsets and lengths.\<close>

record http_parser_url =
  pu_schema :: "nat \<times> nat"
  pu_host :: "nat \<times> nat"
  pu_port :: "nat \<times> nat"
  pu_path :: "nat \<times> nat"
  pu_query :: "nat \<times> nat"
  pu_userinfo :: "nat \<times> nat"

definition assign_field ::
  "(c_file \<Rightarrow> nat \<Rightarrow> bool) \<Rightarrow> byte list option \<Rightarrow> byte list \<Rightarrow> nat \<times> nat \<Rightarrow> byte list option" where
  "assign_field alloc old url f = assign alloc old (drop (fst f) (url @ [0])) (int (snd f))"

text \<open>
  The pointer \<open>old_host\<close> is read after the string was reallocated. \<open>stale old new\<close> is what is found
  there: \<open>new\<close> when \<open>realloc\<close> did not move the object, anything or a fault when it did.
\<close>

definition set_url_host ::
  "(c_file \<Rightarrow> nat \<Rightarrow> bool) \<Rightarrow> (byte list \<Rightarrow> byte list \<Rightarrow> byte list option) \<Rightarrow> byte list \<Rightarrow> http_parser_url \<Rightarrow>
     'p esp_http_client \<Rightarrow> (int \<times> 'p esp_http_client) option" where
  "set_url_host alloc stale url purl c =
     (if snd (pu_host purl) = 0 then Some (ESP_OK, c)
      else do {
        h \<leftarrow> assign_field alloc (ci_host (hc_info c)) url (pu_host purl);
        let c1 = on_info (\<lambda>i. i\<lparr>ci_host := Some h\<rparr>) c;
        case ci_host (hc_info c) of
          None \<Rightarrow> Some (ESP_OK, c1)
        | Some old \<Rightarrow> do {
            seen \<leftarrow> stale old h;
            if lower seen = lower h then Some (ESP_OK, c1)
            else do { (e, c2) \<leftarrow> esp_http_client_set_header alloc c1 (Some (ascii ''Host'')) (Some h);
                      Some (if e \<noteq> ESP_OK then (ESP_ERR_NO_MEM, c2) else (ESP_OK, snd (esp_http_client_close c2))) } } })"

definition url_port_info ::
  "(c_file \<Rightarrow> nat \<Rightarrow> bool) \<Rightarrow> byte list \<Rightarrow> http_parser_url \<Rightarrow> connection_info \<Rightarrow> connection_info option" where
  "url_port_info alloc url purl i =
     do { i' \<leftarrow> (if snd (pu_schema purl) = 0 then Some i
                else do { s \<leftarrow> assign_field alloc (ci_scheme i) url (pu_schema purl);
                          Some (i\<lparr>ci_scheme := Some s,
                            ci_port := (if lower s = lower (ascii ''http'') then 80
                              else if lower s = lower (ascii ''https'') then 443 else ci_port i)\<rparr>) });
          Some (if snd (pu_port purl) = 0 then i' else i'\<lparr>ci_port := strtol10 (drop (fst (pu_port purl)) url)\<rparr>) }"

definition set_url_port ::
  "(c_file \<Rightarrow> nat \<Rightarrow> bool) \<Rightarrow> byte list \<Rightarrow> http_parser_url \<Rightarrow> int \<Rightarrow> 'p esp_http_client \<Rightarrow> 'p esp_http_client option" where
  "set_url_port alloc url purl old_port c =
     do { i \<leftarrow> url_port_info alloc url purl (hc_info c);
          let c1 = c\<lparr>hc_info := i\<rparr>;
          Some (if old_port \<noteq> ci_port i then snd (esp_http_client_close c1) else c1) }"

definition set_url_user ::
  "(c_file \<Rightarrow> nat \<Rightarrow> bool) \<Rightarrow> byte list \<Rightarrow> http_parser_url \<Rightarrow> connection_info \<Rightarrow> connection_info option" where
  "set_url_user alloc url purl i =
     (if snd (pu_userinfo purl) = 0 then Some (i\<lparr>ci_username := None, ci_password := None\<rparr>)
      else do {
        info \<leftarrow> assign_field alloc None url (pu_userinfo purl);
        let user = takeWhile (\<lambda>b. b \<noteq> 0x3A) info;
        i1 \<leftarrow> (if 0x3A \<in> set info
              then do { p \<leftarrow> assign alloc (ci_password i) (drop (length user + 1) info @ [0]) 0;
                        Some (i\<lparr>ci_password := Some p\<rparr>) }
              else Some i);
        u \<leftarrow> assign alloc (ci_username i) (user @ [0]) 0;
        Some (i1\<lparr>ci_username := Some u\<rparr>) })"

definition set_url_path ::
  "(c_file \<Rightarrow> nat \<Rightarrow> bool) \<Rightarrow> byte list \<Rightarrow> http_parser_url \<Rightarrow> connection_info \<Rightarrow> connection_info option" where
  "set_url_path alloc url purl i =
     do { p \<leftarrow> (if snd (pu_path purl) = 0 then assign alloc (ci_path i) (ascii ''/'' @ [0]) 0
               else assign_field alloc (ci_path i) url (pu_path purl));
          q \<leftarrow> (if snd (pu_query purl) = 0 then Some None
               else do { q \<leftarrow> assign_field alloc (ci_query i) url (pu_query purl); Some (Some q) });
          Some (i\<lparr>ci_path := Some p, ci_query := q\<rparr>) }"

definition esp_http_client_set_url ::
  "(c_file \<Rightarrow> nat \<Rightarrow> bool) \<Rightarrow> (byte list \<Rightarrow> http_parser_url option) \<Rightarrow> (byte list \<Rightarrow> byte list \<Rightarrow> byte list option) \<Rightarrow>
     'p esp_http_client \<Rightarrow> byte list option \<Rightarrow> (int \<times> 'p esp_http_client) option" where
  "esp_http_client_set_url alloc parse_url stale c url =
     (case url of
        None \<Rightarrow> Some (ESP_ERR_INVALID_ARG, c)
      | Some u \<Rightarrow>
          (case parse_url u of
             None \<Rightarrow> Some (ESP_ERR_INVALID_ARG, c)
           | Some purl \<Rightarrow> do {
               (e, c1) \<leftarrow> set_url_host alloc stale u purl c;
               if e \<noteq> ESP_OK then Some (e, c1)
               else do {
                 c2 \<leftarrow> set_url_port alloc u purl (ci_port (hc_info c)) c1;
                 i \<leftarrow> set_url_user alloc u purl (hc_info c2);
                 i' \<leftarrow> set_url_path alloc u purl i;
                 Some (ESP_OK, c2\<lparr>hc_info := i'\<rparr>) } }))"

definition esp_http_client_set_method :: "'p esp_http_client \<Rightarrow> esp_http_client_method \<Rightarrow> int \<times> 'p esp_http_client" where
  "esp_http_client_set_method c m = (ESP_OK, on_info (\<lambda>i. i\<lparr>ci_method := m\<rparr>) c)"

definition esp_http_client_set_post_field ::
  "(c_file \<Rightarrow> nat \<Rightarrow> bool) \<Rightarrow> 'p esp_http_client \<Rightarrow> byte list option \<Rightarrow> int \<Rightarrow> (int \<times> 'p esp_http_client) option" where
  "esp_http_client_set_post_field alloc c d len =
     (case d of
        Some _ \<Rightarrow> esp_http_client_set_header alloc (c\<lparr>hc_post_data := d, hc_post_len := len\<rparr>)
                   (Some (ascii ''Content-Type'')) (Some (ascii ''application/x-www-form-urlencoded''))
      | None \<Rightarrow> esp_http_client_set_header alloc (c\<lparr>hc_post_data := d, hc_post_len := 0\<rparr>) (Some (ascii ''Content-Type'')) None)"

definition esp_http_client_get_post_field :: "'p esp_http_client \<Rightarrow> int \<times> byte list option" where
  "esp_http_client_get_post_field c =
     (case hc_post_data c of None \<Rightarrow> (0, None) | Some d \<Rightarrow> (hc_post_len c, Some d))"

definition esp_http_client_get_status_code :: "'p esp_http_client \<Rightarrow> int" where
  "esp_http_client_get_status_code c = hd_status_code (hc_response c)"

definition esp_http_client_get_content_length :: "'p esp_http_client \<Rightarrow> int" where
  "esp_http_client_get_content_length c = hd_content_length (hc_response c)"

definition esp_http_client_is_chunked_response :: "'p esp_http_client \<Rightarrow> bool" where
  "esp_http_client_is_chunked_response c = hd_is_chunked (hc_response c)"

section \<open>Authentication and redirection\<close>

text \<open>\<open>esp_random\<close> takes the next word of \<open>hc_rand\<close>.\<close>

definition esp_random :: "'p esp_http_client \<Rightarrow> u32 \<times> 'p esp_http_client" where
  "esp_random c = (next_of 0 (hc_rand c), c\<lparr>hc_rand := tl (hc_rand c)\<rparr>)"

definition new_nonce :: "'p esp_http_client \<Rightarrow> 'p esp_http_client" where
  "new_nonce c =
     (let (hi, c1) = esp_random c; (lo, c2) = esp_random c1
      in c2\<lparr>hc_auth_data := (hc_auth_data c2)\<lparr>ad_uri := ci_path (hc_info c2),
            ad_cnonce := push_bit 32 (ucast hi) + ucast lo\<rparr>\<rparr>)"

definition count_nonce :: "'p esp_http_client \<Rightarrow> 'p esp_http_client" where
  "count_nonce c = c\<lparr>hc_auth_data := (hc_auth_data c)\<lparr>ad_nc := ad_nc (hc_auth_data c) + 1\<rparr>\<rparr>"

definition auth_response ::
  "(c_file \<Rightarrow> nat \<Rightarrow> bool) \<Rightarrow> (byte list \<Rightarrow> byte list) \<Rightarrow> (byte list \<Rightarrow> byte list) \<Rightarrow> 'p esp_http_client \<Rightarrow>
     (byte list option \<times> 'p esp_http_client) option" where
  "auth_response alloc md5 b64 c =
     (let i = hc_info c in
      case ci_auth_type i of
        HTTP_AUTH_TYPE_BASIC \<Rightarrow>
          do { r \<leftarrow> http_auth_basic (alloc Auth_c) b64 (ci_username i) (ci_password i); Some (r, c) }
      | HTTP_AUTH_TYPE_DIGEST \<Rightarrow>
          (let c1 = new_nonce c in
           do { r \<leftarrow> http_auth_digest (alloc Auth_c) md5 (ci_username i) (ci_password i) (hc_auth_data c1);
                Some (r, count_nonce c1) })
      | HTTP_AUTH_TYPE_NONE \<Rightarrow> Some (None, c))"

definition esp_http_client_prepare ::
  "(c_file \<Rightarrow> nat \<Rightarrow> bool) \<Rightarrow> (byte list \<Rightarrow> byte list) \<Rightarrow> (byte list \<Rightarrow> byte list) \<Rightarrow> 'p http_parser_lib \<Rightarrow>
     'p esp_http_client \<Rightarrow> (int \<times> 'p esp_http_client) option" where
  "esp_http_client_prepare alloc md5 b64 lib c =
     (let c1 = (on_response (\<lambda>r. r\<lparr>hd_data_process := 0\<rparr>) c)\<lparr>hc_process_again := False, hc_parser := pl_init lib\<rparr> in
      if ci_username (hc_info c1) = None then Some (ESP_OK, c1)
      else do {
        (resp, c2) \<leftarrow> auth_response alloc md5 b64 c1;
        c3 \<leftarrow> (case resp of
                 None \<Rightarrow> Some c2
               | Some v \<Rightarrow> map_option snd (esp_http_client_set_header alloc c2 (Some (ascii ''Authorization'')) (Some v)));
        Some (ESP_OK, c3) })"

text \<open>The parts of a challenge; \<open>calloc\<close> in line 95 of the string utilities is asserted.\<close>

definition between :: "bool \<Rightarrow> byte list \<Rightarrow> byte list \<Rightarrow> byte list \<Rightarrow> byte list option option" where
  "between ok s beg en =
     do { r \<leftarrow> http_utils_get_string_between ok s beg en;
          case r of None \<Rightarrow> Some None | Some m \<Rightarrow> do { t \<leftarrow> c_str m; Some (Some t) } }"

definition quoted_part :: "bool \<Rightarrow> byte list \<Rightarrow> string \<Rightarrow> byte list option option" where
  "quoted_part ok s name = between ok s (ascii name @ [0x3D, 0x22]) [0x22]"

definition parse_challenge ::
  "(c_file \<Rightarrow> nat \<Rightarrow> bool) \<Rightarrow> byte list \<Rightarrow> byte list option \<Rightarrow> esp_http_auth_data option" where
  "parse_challenge alloc h meth =
     (let ok = alloc Utils_c 95 in
      do { realm \<leftarrow> quoted_part ok h ''realm'';
           alg \<leftarrow> between ok h (ascii ''algorithm='') (ascii '','');
           qop \<leftarrow> quoted_part ok h ''qop'';
           nonce \<leftarrow> quoted_part ok h ''nonce'';
           opaq \<leftarrow> quoted_part ok h ''opaque'';
           Some (no_auth_data\<lparr>ad_method := meth, ad_nc := 1, ad_realm := realm, ad_algorithm := alg,
             ad_qop := qop, ad_nonce := nonce, ad_opaque := opaq\<rparr>) })"

definition unauthorized ::
  "(c_file \<Rightarrow> nat \<Rightarrow> bool) \<Rightarrow> 'p esp_http_client \<Rightarrow> 'p esp_http_client option" where
  "unauthorized alloc c =
     do { a \<leftarrow> hc_auth_header c;
          h \<leftarrow> trimmed a;
          let c1 = c\<lparr>hc_auth_header := Some h, hc_redirect_counter := hc_redirect_counter c + 1\<rparr>;
          let t = (if http_utils_str_starts_with h (ascii ''Digest'') = 0 then HTTP_AUTH_TYPE_DIGEST
                   else if http_utils_str_starts_with h (ascii ''Basic'') = 0 then HTTP_AUTH_TYPE_BASIC
                   else HTTP_AUTH_TYPE_NONE);
          let c2 = on_info (\<lambda>i. i\<lparr>ci_auth_type := t\<rparr>) c1;
          if t = HTTP_AUTH_TYPE_NONE then Some c2
          else do { m \<leftarrow> HTTP_METHOD_MAPPING (ci_method (hc_info c2));
                    ad \<leftarrow> parse_challenge alloc h (if alloc Client_c 574 then Some m else None);
                    Some (c2\<lparr>hc_auth_data := ad, hc_process_again := True\<rparr>) } }"

definition esp_http_check_response ::
  "(c_file \<Rightarrow> nat \<Rightarrow> bool) \<Rightarrow> (byte list \<Rightarrow> http_parser_url option) \<Rightarrow> (byte list \<Rightarrow> byte list \<Rightarrow> byte list option) \<Rightarrow>
     'p esp_http_client \<Rightarrow> (int \<times> 'p esp_http_client) option" where
  "esp_http_check_response alloc parse_url stale c =
     (if hc_redirect_counter c \<ge> hc_max_redirection_count c \<or> hc_disable_auto_redirect c
      then Some (ESP_ERR_HTTP_MAX_REDIRECT, c)
      else if hd_status_code (hc_response c) = 301 \<or> hd_status_code (hc_response c) = 302
      then do { (_, c1) \<leftarrow> esp_http_client_set_url alloc parse_url stale c (hc_location c);
                Some (ESP_OK, c1\<lparr>hc_redirect_counter := hc_redirect_counter c1 + 1, hc_process_again := True\<rparr>) }
      else if hd_status_code (hc_response c) = 401
      then do { c1 \<leftarrow> unauthorized alloc c; Some (ESP_OK, c1) }
      else Some (ESP_OK, c))"

section \<open>Reading the response\<close>

definition read_into ::
  "nat \<Rightarrow> 'p esp_http_client \<Rightarrow> (int \<times> 'p esp_http_client) option" where
  "read_into n c =
     do { (r, d, w) \<leftarrow> transport_read (hc_transport c) (hb_data (hc_response c)) n (hc_timeout_ms c) (hc_net c);
          Some (r, (on_response (\<lambda>x. x\<lparr>hb_data := d\<rparr>) c)\<lparr>hc_net := w\<rparr>) }"

definition esp_http_client_get_data ::
  "(c_file \<Rightarrow> nat \<Rightarrow> bool) \<Rightarrow> 'p http_parser_lib \<Rightarrow> 'p esp_http_client \<Rightarrow> (int \<times> 'p esp_http_client) option" where
  "esp_http_client_get_data alloc lib c =
     (if hc_state c < HTTP_STATE_RES_COMPLETE_HEADER then Some (ESP_FAIL, c)
      else do { (rlen, c1) \<leftarrow> read_into (nat (hc_buffer_size c)) c;
                if rlen \<ge> 0 then do { c2 \<leftarrow> http_parser_execute alloc lib (nat rlen) c1; Some (rlen, c2) }
                else Some (rlen, c1) })"

partial_function (option) fetch_loop ::
  "(c_file \<Rightarrow> nat \<Rightarrow> bool) \<Rightarrow> 'p http_parser_lib \<Rightarrow> 'p esp_http_client \<Rightarrow> (bool \<times> 'p esp_http_client) option" where
  "fetch_loop alloc lib c =
     (if hc_state c < HTTP_STATE_RES_COMPLETE_HEADER
      then do { (rlen, c1) \<leftarrow> read_into (nat (hc_buffer_size c)) c;
                let c2 = on_response (\<lambda>r. r\<lparr>hb_len := rlen\<rparr>) c1;
                if rlen \<le> 0 then Some (False, c2)
                else do { c3 \<leftarrow> http_parser_execute alloc lib (nat rlen) c2; fetch_loop alloc lib c3 } }
      else Some (True, c))"

definition esp_http_client_fetch_headers ::
  "(c_file \<Rightarrow> nat \<Rightarrow> bool) \<Rightarrow> 'p http_parser_lib \<Rightarrow> 'p esp_http_client \<Rightarrow> (int \<times> 'p esp_http_client) option" where
  "esp_http_client_fetch_headers alloc lib c =
     (if hc_state c < HTTP_STATE_REQ_COMPLETE_HEADER then Some (ESP_FAIL, c)
      else do {
        (ok, c1) \<leftarrow> fetch_loop alloc lib
          ((on_response (\<lambda>r. r\<lparr>hd_status_code := -1\<rparr>) c)\<lparr>hc_state := HTTP_STATE_REQ_COMPLETE_DATA\<rparr>);
        Some (if \<not> ok then (ESP_FAIL, c1)
              else if hd_content_length (hc_response c1) \<le> 0 then (0, on_response (\<lambda>r. r\<lparr>hd_is_chunked := True\<rparr>) c1)
              else (hd_content_length (hc_response c1), c1)) })"

text \<open>The two loops of \<open>esp_http_client_perform\<close> that read the body.\<close>

partial_function (option) body_loop ::
  "('p esp_http_client \<Rightarrow> bool) \<Rightarrow> (c_file \<Rightarrow> nat \<Rightarrow> bool) \<Rightarrow> 'p http_parser_lib \<Rightarrow> 'p esp_http_client \<Rightarrow>
     'p esp_http_client option" where
  "body_loop left alloc lib c =
     (if left c
      then do { (r, c1) \<leftarrow> esp_http_client_get_data alloc lib c;
                if r \<le> 0 then Some c1 else body_loop left alloc lib c1 }
      else Some c)"

definition more_chunks :: "'p esp_http_client \<Rightarrow> bool" where
  "more_chunks c \<longleftrightarrow> hd_is_chunked (hc_response c) \<and> \<not> hc_is_chunk_complete c"

definition more_length :: "'p esp_http_client \<Rightarrow> bool" where
  "more_length c \<longleftrightarrow> hd_data_process (hc_response c) < hd_content_length (hc_response c)"

text \<open>\<open>esp_http_client_read\<close>: the value returned, the buffer of the caller and the client.\<close>

definition take_raw :: "byte list \<Rightarrow> int \<Rightarrow> 'p esp_http_client \<Rightarrow> (int \<times> byte list \<times> 'p esp_http_client) option" where
  "take_raw buf len c =
     (let r = hc_response c; n = min (hb_raw_len r) len in
      if hb_raw_len r = 0 then Some (0, buf, c)
      else do { off \<leftarrow> hb_raw_data r;
                if n < 0 \<or> length (hb_data r) < off + nat n then None
                else do { buf' \<leftarrow> blit buf 0 (take (nat n) (drop off (hb_data r)));
                          Some (n, buf', c\<lparr>hc_response := r\<lparr>hb_raw_data := Some (off + nat n),
                            hb_raw_len := hb_raw_len r - n\<rparr>\<rparr>) } })"

partial_function (option) read_loop ::
  "(c_file \<Rightarrow> nat \<Rightarrow> bool) \<Rightarrow> 'p http_parser_lib \<Rightarrow> byte list \<Rightarrow> int \<Rightarrow> int \<Rightarrow> 'p esp_http_client \<Rightarrow>
     (int \<times> byte list \<times> 'p esp_http_client) option" where
  "read_loop alloc lib buf need_read ridx c =
     (if need_read > 0 \<and> (if hd_is_chunked (hc_response c) then \<not> hc_is_chunk_complete c else more_length c)
      then do { (rlen, c1) \<leftarrow> read_into (nat (min need_read (hc_buffer_size c))) c;
                if rlen \<le> 0 then Some (ridx, buf, c1)
                else do {
                  c2 \<leftarrow> http_parser_execute alloc lib (nat rlen) (on_response (\<lambda>r. r\<lparr>hb_output := Some (buf, nat ridx)\<rparr>) c1);
                  (buf', _) \<leftarrow> hb_output (hc_response c2);
                  let n = hb_raw_len (hc_response c2);
                  read_loop alloc lib buf' (need_read - n) (ridx + n)
                    (on_response (\<lambda>r. r\<lparr>hb_raw_len := 0, hb_output := None\<rparr>) c2) } }
      else Some (ridx, buf, c))"

definition esp_http_client_read ::
  "(c_file \<Rightarrow> nat \<Rightarrow> bool) \<Rightarrow> 'p http_parser_lib \<Rightarrow> 'p esp_http_client \<Rightarrow> byte list \<Rightarrow> int \<Rightarrow>
     (int \<times> byte list \<times> 'p esp_http_client) option" where
  "esp_http_client_read alloc lib c buf len =
     do { (ridx, buf', c1) \<leftarrow> take_raw buf len c; read_loop alloc lib buf' (len - ridx) ridx c1 }"

section \<open>Sending the request\<close>

text \<open>The headers in pieces of the buffer; the first goes behind the request line, which ends at \<open>first_line\<close>.\<close>

function header_loop :: "nat \<Rightarrow> nat \<Rightarrow> int \<Rightarrow> 'p esp_http_client \<Rightarrow> (int \<times> 'p esp_http_client) option" where
  "header_loop index first_line wlen c =
     do { (ret, rest, n) \<leftarrow> http_header_generate_string (hd_headers (hc_request c)) index
            (drop first_line (hb_data (hc_request c))) wlen;
          let d = take first_line (hb_data (hc_request c)) @ rest;
          if ret = 0 \<or> n \<le> 0 then Some (ESP_OK, on_request (\<lambda>r. r\<lparr>hb_data := d\<rparr>) c)
          else do {
            d1 \<leftarrow> wr d (nat n + first_line) 0;
            (res, d2, w) \<leftarrow> transport_write (hc_transport c) d1 (nat n + first_line) (hc_timeout_ms c) (hc_net c);
            let c1 = (on_request (\<lambda>r. r\<lparr>hb_data := d2\<rparr>) c)\<lparr>hc_net := w\<rparr>;
            if res \<le> 0 then Some (ESP_ERR_HTTP_WRITE_DATA, snd (esp_http_client_close c1))
            else header_loop (nat ret) 0 (hc_buffer_size c1) c1 } }"
  by pat_completeness auto
termination
proof (relation "measure (\<lambda>(index, _, _, c). Suc (length (hd_headers (hc_request c))) - index)", goal_cases)
  case 1
  then show ?case by simp
next
  case (2 index first_line wlen c x ret y rest n)
  then have "int index < ret \<and> ret \<le> int (length (hd_headers (hc_request c)))"
    by (intro generate_progress) auto
  then show ?case using 2 by (auto simp: on_request_def)
qed

declare header_loop.simps [simp del]

text \<open>The request line, in the three pieces that are printed: the buffer and the length, or no room.\<close>

definition print_piece :: "int \<Rightarrow> byte list \<Rightarrow> (byte list \<times> int) option \<Rightarrow> (byte list \<times> int) option option" where
  "print_piece siz t st =
     (case st of
        None \<Rightarrow> Some None
      | Some (d, n) \<Rightarrow> do { d' \<leftarrow> snprintf_at d (nat n) (siz - n) t;
                           let n' = n + int (length t);
                           Some (if n' > siz then None else Some (d', n')) })"

definition request_line :: "'p esp_http_client \<Rightarrow> (byte list \<times> int) option option" where
  "request_line c =
     (let i = hc_info c; siz = hc_buffer_size c in
      do { meth \<leftarrow> HTTP_METHOD_MAPPING (ci_method i);
           path \<leftarrow> ci_path i;
           s1 \<leftarrow> print_piece siz (meth @ [0x20] @ path) (Some (hb_data (hc_request c), 0));
           s2 \<leftarrow> (case ci_query i of None \<Rightarrow> Some s1 | Some q \<Rightarrow> print_piece siz (0x3F # q) s1);
           print_piece siz ([0x20] @ ascii ''HTTP/1.1'' @ [0x0D, 0x0A]) s2 })"

definition open_connection :: "'p esp_http_client \<Rightarrow> (int \<times> 'p esp_http_client) option" where
  "open_connection c =
     (if hc_state c < HTTP_STATE_CONNECTED
      then let t = transport_list_get_transport (Some (hc_transport_list c)) (ci_scheme (hc_info c));
               c1 = c\<lparr>hc_transport := t\<rparr>
           in if t = None then Some (ESP_ERR_HTTP_INVALID_TRANSPORT, c1)
              else do { host \<leftarrow> ci_host (hc_info c1);
                        (r, w) \<leftarrow> transport_connect t host (ci_port (hc_info c1)) (hc_timeout_ms c1) (hc_net c1);
                        let c2 = c1\<lparr>hc_net := w\<rparr>;
                        Some (if r < 0 then (ESP_ERR_HTTP_CONNECT, c2)
                              else (ESP_OK, (http_dispatch_event HTTP_EVENT_ON_CONNECTED [] [] [] c2)\<lparr>hc_state := HTTP_STATE_CONNECTED\<rparr>)) }
      else Some (ESP_OK, c))"

text \<open>The length of the body in a header, or a chunked POST.\<close>

definition length_header ::
  "(c_file \<Rightarrow> nat \<Rightarrow> bool) \<Rightarrow> int \<Rightarrow> 'p esp_http_client \<Rightarrow> 'p esp_http_client option" where
  "length_header alloc write_len c =
     (if write_len \<ge> 0
      then do { (_, h) \<leftarrow> http_header_set_format (alloc Header_c) (hd_headers (hc_request c)) (Some (ascii ''Content-Length''))
                  (decimal (nat write_len));
                Some (on_request (\<lambda>r. r\<lparr>hd_headers := h\<rparr>) c) }
      else do { (_, c1) \<leftarrow> esp_http_client_set_header alloc c (Some (ascii ''Transfer-Encoding'')) (Some (ascii ''chunked''));
                Some (snd (esp_http_client_set_method c1 HTTP_METHOD_POST)) })"

definition send_head :: "'p esp_http_client \<Rightarrow> (int \<times> 'p esp_http_client) option" where
  "send_head c =
     do { line \<leftarrow> request_line c;
          case line of
            None \<Rightarrow> Some (ESP_ERR_HTTP_CONNECT, c)
          | Some (d, n) \<Rightarrow> do {
              (e, c1) \<leftarrow> header_loop 0 (nat n) (hc_buffer_size c - n) (on_request (\<lambda>r. r\<lparr>hb_data := d\<rparr>) c);
              Some (if e \<noteq> ESP_OK then (e, c1) else (ESP_OK, c1\<lparr>hc_state := HTTP_STATE_REQ_COMPLETE_HEADER\<rparr>)) } }"

definition esp_http_client_open ::
  "(c_file \<Rightarrow> nat \<Rightarrow> bool) \<Rightarrow> (byte list \<Rightarrow> byte list) \<Rightarrow> (byte list \<Rightarrow> byte list) \<Rightarrow> 'p http_parser_lib \<Rightarrow>
     'p esp_http_client \<Rightarrow> int \<Rightarrow> (int \<times> 'p esp_http_client) option" where
  "esp_http_client_open alloc md5 b64 lib c write_len =
     (if hc_state c = HTTP_STATE_UNINIT then Some (ESP_ERR_INVALID_STATE, c)
      else do {
        (e, c1) \<leftarrow> esp_http_client_prepare alloc md5 b64 lib c;
        if e \<noteq> ESP_OK then Some (e, snd (esp_http_client_close c1))
        else do {
          (e2, c2) \<leftarrow> open_connection c1;
          if e2 \<noteq> ESP_OK then Some (e2, c2)
          else do { c3 \<leftarrow> length_header alloc write_len c2; send_head c3 } } })"

function write_loop ::
  "byte list \<Rightarrow> nat \<Rightarrow> int \<Rightarrow> 'p esp_http_client \<Rightarrow> (int \<times> 'p esp_http_client) option" where
  "write_loop buf widx len c =
     (if len \<le> 0 then Some (int widx, c)
      else do {
        (wlen, _, w) \<leftarrow> transport_write (hc_transport c) (drop widx buf) (nat (min len (hc_buffer_size c)))
          (hc_timeout_ms c) (hc_net c);
        let c1 = c\<lparr>hc_net := w\<rparr>;
        if wlen \<le> 0 then Some (wlen, c1) else write_loop buf (widx + nat wlen) (len - wlen) c1 })"
  by pat_completeness auto
termination
  by (relation "measure (\<lambda>(_, _, len, _). nat len)") auto

declare write_loop.simps [simp del]

definition esp_http_client_write ::
  "'p esp_http_client \<Rightarrow> byte list \<Rightarrow> int \<Rightarrow> (int \<times> 'p esp_http_client) option" where
  "esp_http_client_write c buf len =
     (if hc_state c < HTTP_STATE_REQ_COMPLETE_HEADER then Some (ESP_FAIL, c) else write_loop buf 0 len c)"

section \<open>Performing a request\<close>

text \<open>One pass of the loop: \<open>Inl\<close> ends \<open>esp_http_client_perform\<close>, \<open>Inr\<close> goes on with the next request.\<close>

definition send_request ::
  "(c_file \<Rightarrow> nat \<Rightarrow> bool) \<Rightarrow> (byte list \<Rightarrow> byte list) \<Rightarrow> (byte list \<Rightarrow> byte list) \<Rightarrow> 'p http_parser_lib \<Rightarrow>
     'p esp_http_client \<Rightarrow> (int \<times> 'p esp_http_client) option" where
  "send_request alloc md5 b64 lib c =
     do { (e, c1) \<leftarrow> esp_http_client_open alloc md5 b64 lib c (hc_post_len c);
          if e \<noteq> ESP_OK then Some (e, c1)
          else (case hc_post_data c1 of
                  Some d \<Rightarrow>
                    if hc_post_len c1 \<noteq> 0
                    then do { (r, c2) \<leftarrow> esp_http_client_write c1 d (hc_post_len c1);
                              Some (if r \<le> 0 then ESP_ERR_HTTP_WRITE_DATA else ESP_OK, c2) }
                    else Some (ESP_OK, c1)
                | None \<Rightarrow> Some (ESP_OK, c1)) }"

definition finish_request :: "'p http_parser_lib \<Rightarrow> 'p esp_http_client \<Rightarrow> 'p esp_http_client" where
  "finish_request lib c =
     (let c1 = http_dispatch_event HTTP_EVENT_ON_FINISH [] [] [] c
      in if \<not> pl_keep_alive lib (hc_parser c1) then snd (esp_http_client_close c1)
         else if hc_state c1 > HTTP_STATE_CONNECTED then c1\<lparr>hc_state := HTTP_STATE_CONNECTED\<rparr> else c1)"

definition perform_round ::
  "(c_file \<Rightarrow> nat \<Rightarrow> bool) \<Rightarrow> (byte list \<Rightarrow> byte list) \<Rightarrow> (byte list \<Rightarrow> byte list) \<Rightarrow>
     (byte list \<Rightarrow> http_parser_url option) \<Rightarrow> (byte list \<Rightarrow> byte list \<Rightarrow> byte list option) \<Rightarrow> 'p http_parser_lib \<Rightarrow>
     'p esp_http_client \<Rightarrow> (int \<times> 'p esp_http_client + 'p esp_http_client) option" where
  "perform_round alloc md5 b64 parse_url stale lib c =
     do { (e, c1) \<leftarrow> send_request alloc md5 b64 lib c;
          if e \<noteq> ESP_OK then Some (Inl (e, c1))
          else do {
            (n, c2) \<leftarrow> esp_http_client_fetch_headers alloc lib c1;
            if n < 0 then Some (Inl (ESP_ERR_HTTP_FETCH_HEADER, c2))
            else do {
              (e3, c3) \<leftarrow> esp_http_check_response alloc parse_url stale c2;
              if e3 \<noteq> ESP_OK then Some (Inl (e3, c3))
              else do {
                c4 \<leftarrow> body_loop more_chunks alloc lib c3;
                c5 \<leftarrow> body_loop more_length alloc lib c4;
                let c6 = finish_request lib c5;
                Some (if hc_process_again c6 then Inr c6 else Inl (ESP_OK, c6)) } } } }"

partial_function (option) esp_http_client_perform ::
  "(c_file \<Rightarrow> nat \<Rightarrow> bool) \<Rightarrow> (byte list \<Rightarrow> byte list) \<Rightarrow> (byte list \<Rightarrow> byte list) \<Rightarrow>
     (byte list \<Rightarrow> http_parser_url option) \<Rightarrow> (byte list \<Rightarrow> byte list \<Rightarrow> byte list option) \<Rightarrow> 'p http_parser_lib \<Rightarrow>
     'p esp_http_client \<Rightarrow> (int \<times> 'p esp_http_client) option" where
  "esp_http_client_perform alloc md5 b64 parse_url stale lib c =
     do { r \<leftarrow> perform_round alloc md5 b64 parse_url stale lib c;
          case r of Inl res \<Rightarrow> Some res | Inr c' \<Rightarrow> esp_http_client_perform alloc md5 b64 parse_url stale lib c' }"

section \<open>Creating and deleting a client\<close>

definition new_data :: esp_http_data where
  "new_data = \<lparr>hd_headers = [], hb_data = [], hb_len = 0, hb_raw_data = None, hb_raw_len = 0, hb_output = None,
     hd_status_code = 0, hd_content_length = 0, hd_data_offset = 0, hd_data_process = 0, hd_is_chunked = False\<rparr>"

definition new_client :: "'p \<Rightarrow> net \<Rightarrow> u32 list \<Rightarrow> 'p esp_http_client" where
  "new_client p w rand = \<lparr>hc_redirect_counter = 0, hc_max_redirection_count = 0, hc_process_again = False,
     hc_parser = p, hc_transport_list = [], hc_transport = None, hc_request = new_data, hc_response = new_data,
     hc_auth_data = no_auth_data, hc_post_data = None, hc_location = None, hc_auth_header = None,
     hc_current_header_key = None, hc_current_header_value = None, hc_post_len = 0, hc_info = no_connection_info,
     hc_is_chunk_complete = False, hc_state = HTTP_STATE_UNINIT, hc_event_handler = False, hc_timeout_ms = 0,
     hc_buffer_size = 0, hc_disable_auto_redirect = False, hc_net = w, hc_rand = rand, hc_events = []\<rparr>"

definition http_transports ::
  "(nat \<Rightarrow> bool) \<Rightarrow> transport_item option \<Rightarrow> transport_list option" where
  "http_transports alloc ssl =
     do { let tcp = snd (transport_set_default_port (transport_tcp_init (alloc 115) (alloc 159) 1) 80);
          _ \<leftarrow> tcp;
          let (e1, l1) = transport_list_add (Some []) tcp (ascii ''http'') (alloc 66);
          let s = snd (transport_set_default_port ssl 443);
          _ \<leftarrow> s;
          let (e2, l2) = transport_list_add l1 s (ascii ''https'') (alloc 66);
          if e1 = ESP_OK \<and> e2 = ESP_OK then l2 else None }"

text \<open>
  \<open>esp_http_client_init\<close>: the inner \<open>None\<close> is NULL. When one of the first allocations after the client
  itself fails, \<open>esp_http_client_cleanup\<close> reads through the pointers that are missing. \<open>uninit n\<close> are the
  contents of a new object of \<open>n\<close> bytes; a negative size cannot be allocated.
\<close>

definition default_headers ::
  "(c_file \<Rightarrow> nat \<Rightarrow> bool) \<Rightarrow> (byte list \<Rightarrow> http_parser_url option) \<Rightarrow> (byte list \<Rightarrow> byte list \<Rightarrow> byte list option) \<Rightarrow>
     'p esp_http_client \<Rightarrow> byte list option \<Rightarrow> 'p esp_http_client option option" where
  "default_headers alloc parse_url stale c url =
     do { (e1, c1) \<leftarrow> esp_http_client_set_url alloc parse_url stale c url;
          if e1 \<noteq> ESP_OK then Some None
          else do {
            (e2, c2) \<leftarrow> esp_http_client_set_header alloc c1 (Some (ascii ''User-Agent'')) (Some (ascii ''ESP32 HTTP Client/1.0''));
            if e2 \<noteq> ESP_OK then Some None
            else do {
              (e3, c3) \<leftarrow> esp_http_client_set_header alloc c2 (Some (ascii ''Host'')) (ci_host (hc_info c2));
              Some (if e3 \<noteq> ESP_OK then None else Some c3) } } }"

definition esp_http_client_init ::
  "(c_file \<Rightarrow> nat \<Rightarrow> bool) \<Rightarrow> (nat \<Rightarrow> byte list) \<Rightarrow> (byte list \<Rightarrow> http_parser_url option) \<Rightarrow>
     (byte list \<Rightarrow> byte list \<Rightarrow> byte list option) \<Rightarrow> transport_item option \<Rightarrow> 'p \<Rightarrow> net \<Rightarrow> u32 list \<Rightarrow>
     esp_http_client_config \<Rightarrow> 'p esp_http_client option option" where
  "esp_http_client_init alloc uninit parse_url stale ssl p w rand config =
     (let m = alloc Client_c in
      if \<not> m 418 then Some None
      else if \<not> (m 419 \<and> m 420 \<and> m 421 \<and> m 422 \<and> alloc Header_c 42 \<and> m 424 \<and> m 425 \<and> m 427 \<and> alloc Transport_c 55) then None
      else case http_transports (alloc Transport_c) ssl of
        None \<Rightarrow> Some None
      | Some list \<Rightarrow> do {
          (e, c1) \<leftarrow> set_config alloc ((new_client p w rand)\<lparr>hc_transport_list := list\<rparr>) config;
          if e \<noteq> ESP_OK \<or> hc_buffer_size c1 < 0 \<or> \<not> m 472 \<or> \<not> m 473 then Some None
          else do {
            let n = nat (hc_buffer_size c1);
            let c2 = on_response (\<lambda>r. r\<lparr>hb_data := uninit n\<rparr>) (on_request (\<lambda>r. r\<lparr>hb_data := uninit n\<rparr>) c1);
            c3 \<leftarrow> default_headers alloc parse_url stale c2 (cc_url config);
            Some (map_option (\<lambda>c. c\<lparr>hc_state := HTTP_STATE_INIT\<rparr>) c3) } })"

text \<open>\<open>esp_http_client_cleanup\<close>: what is left is the network.\<close>

definition esp_http_client_cleanup :: "'p esp_http_client option \<Rightarrow> int \<times> net option" where
  "esp_http_client_cleanup client =
     (case client of
        None \<Rightarrow> (ESP_FAIL, None)
      | Some c \<Rightarrow> let c1 = snd (esp_http_client_close c)
                 in (ESP_OK, Some (snd (transport_list_clean (hc_transport_list c1) (hc_net c1)))))"

end
