(* ===== verification/Http_Exchange.thy ===== *)
theory Http_Exchange
  imports Http_Client
begin

text \<open>
  The HTTP client at work: how many requests \<open>esp_http_client_perform\<close> makes, how a response is received over TCP, and
  what a request puts on the wire. Fields that an operation does not touch are compared as tuples (\<open>fixed\<close>, \<open>limits\<close>);
  the loops that send have invariant rules, the loops that read are followed along the script of reads.
\<close>

section \<open>What the receive path leaves alone\<close>

lemmas update_defs = on_response_def on_request_def on_info_def http_dispatch_event_def

definition fixed where
  "fixed c = (hc_redirect_counter c, hc_process_again c, hc_max_redirection_count c, hc_disable_auto_redirect c,
     hc_transport_list c, hc_transport c, hc_request c, hc_info c, hc_buffer_size c, hc_post_data c, hc_post_len c)"

lemma fixed_updates [simp]:
  "fixed (on_response f c) = fixed c" "fixed (http_dispatch_event e d k v c) = fixed c"
  "fixed (c\<lparr>hc_parser := p\<rparr>) = fixed c" "fixed (c\<lparr>hc_net := w\<rparr>) = fixed c" "fixed (c\<lparr>hc_state := s\<rparr>) = fixed c"
  "fixed (c\<lparr>hc_is_chunk_complete := b\<rparr>) = fixed c" "fixed (c\<lparr>hc_response := r\<rparr>) = fixed c"
  "fixed (c\<lparr>hc_location := l\<rparr>) = fixed c" "fixed (c\<lparr>hc_auth_header := l\<rparr>) = fixed c"
  "fixed (c\<lparr>hc_current_header_key := l\<rparr>) = fixed c" "fixed (c\<lparr>hc_current_header_value := l\<rparr>) = fixed c"
  by (simp_all add: fixed_def update_defs)

lemma fixed_store_header: "store_header alloc key m len c = Some c' \<Longrightarrow> fixed c' = fixed c"
  by (auto simp: store_header_def split: bind_splits if_splits)

lemma fixed_callback: "parser_callback alloc e c = Some c' \<Longrightarrow> fixed c' = fixed c"
  by (cases e)
    (auto simp: http_on_message_begin_def http_on_header_field_def http_on_header_value_def http_on_headers_complete_def
      http_on_body_def http_on_message_complete_def Let_def split: bind_splits option.splits if_splits dest!: fixed_store_header)

lemma fixed_run: "run_callbacks alloc es c = Some c' \<Longrightarrow> fixed c' = fixed c"
  by (induction es arbitrary: c) (auto split: bind_splits dest!: fixed_callback)

lemma fixed_execute: "http_parser_execute alloc lib n c = Some c' \<Longrightarrow> fixed c' = fixed c"
  by (auto simp: http_parser_execute_def split: prod.splits dest!: fixed_run)

lemma fixed_read_into: "read_into n c = Some (r, c') \<Longrightarrow> fixed c' = fixed c"
  by (auto simp: read_into_def split: bind_splits)

lemma fixed_get_data: "esp_http_client_get_data alloc lib c = Some (r, c') \<Longrightarrow> fixed c' = fixed c"
  by (auto simp: esp_http_client_get_data_def split: bind_splits if_splits dest!: fixed_execute fixed_read_into)

lemma fixed_fetch_loop:
  assumes "fetch_loop alloc lib c = Some r"
  shows "fixed (snd r) = fixed c"
proof (rule fetch_loop.raw_induct [where P = "\<lambda>alloc lib c r. fixed (snd r) = fixed c", OF _ assms], goal_cases)
  case (1 f alloc lib c r)
  then show ?case
    by (auto simp: Let_def split: bind_splits if_splits dest!: fixed_execute fixed_read_into)
      (metis 1(1) fixed_updates(1))
qed

lemma fixed_body_loop:
  assumes "body_loop left alloc lib c = Some c'"
  shows "fixed c' = fixed c"
proof (rule body_loop.raw_induct [where P = "\<lambda>left alloc lib c c'. fixed c' = fixed c", OF _ assms], goal_cases)
  case (1 f left alloc lib c c')
  then show ?case
    by (fastforce split: bind_splits if_splits dest!: fixed_get_data)
qed

lemma fixed_fetch: "esp_http_client_fetch_headers alloc lib c = Some (n, c') \<Longrightarrow> fixed c' = fixed c"
  by (auto simp: esp_http_client_fetch_headers_def split: bind_splits if_splits dest!: fixed_fetch_loop)

lemma fixed_close: "fixed (snd (esp_http_client_close c)) = fixed c"
  by (auto simp: esp_http_client_close_def Let_def split: prod.splits)

lemma fixed_finish: "fixed (finish_request lib c) = fixed c"
  by (auto simp: finish_request_def Let_def fixed_close)

text \<open>Invariant rules for the loops that send.\<close>

lemma header_loop_inv:
  fixes c :: "'p esp_http_client"
  assumes "header_loop i f wl c = Some (e, c')" "P c"
    and stop: "\<And>i f wl c ret rest n. P c \<Longrightarrow>
      http_header_generate_string (hd_headers (hc_request c)) i (drop f (hb_data (hc_request c))) wl = Some (ret, rest, n) \<Longrightarrow>
      P (on_request (\<lambda>r. r\<lparr>hb_data := take f (hb_data (hc_request c)) @ rest\<rparr>) c)"
    and step: "\<And>i f wl c ret rest n d1 res d2 w. P c \<Longrightarrow>
      http_header_generate_string (hd_headers (hc_request c)) i (drop f (hb_data (hc_request c))) wl = Some (ret, rest, n) \<Longrightarrow>
      wr (take f (hb_data (hc_request c)) @ rest) (nat n + f) 0 = Some d1 \<Longrightarrow>
      transport_write (hc_transport c) d1 (nat n + f) (hc_timeout_ms c) (hc_net c) = Some (res, d2, w) \<Longrightarrow>
      P ((on_request (\<lambda>r. r\<lparr>hb_data := d2\<rparr>) c)\<lparr>hc_net := w\<rparr>)"
    and close: "\<And>c. P c \<Longrightarrow> P (snd (esp_http_client_close c))"
  shows "P c'"
  using assms(1,2)
proof (induction i f wl c rule: header_loop.induct)
  case (1 i f wl c)
  obtain ret rest n where g:
    "http_header_generate_string (hd_headers (hc_request c)) i (drop f (hb_data (hc_request c))) wl = Some (ret, rest, n)"
    using "1.prems"(1) by (subst (asm) header_loop.simps) (auto split: bind_splits)
  show ?case
  proof (cases "ret = 0 \<or> n \<le> 0")
    case True
    then have "c' = on_request (\<lambda>r. r\<lparr>hb_data := take f (hb_data (hc_request c)) @ rest\<rparr>) c"
      using "1.prems"(1) g by (subst (asm) header_loop.simps) auto
    then show ?thesis using stop [OF "1.prems"(2) g] by simp
  next
    case False
    then obtain d1 res d2 w where w: "wr (take f (hb_data (hc_request c)) @ rest) (nat n + f) 0 = Some d1"
        "transport_write (hc_transport c) d1 (nat n + f) (hc_timeout_ms c) (hc_net c) = Some (res, d2, w)"
      using "1.prems"(1) g by (subst (asm) header_loop.simps) (auto split: bind_splits)
    let ?c = "(on_request (\<lambda>r. r\<lparr>hb_data := d2\<rparr>) c)\<lparr>hc_net := w\<rparr>"
    have P: "P ?c" using step [OF "1.prems"(2) g w] .
    show ?thesis
    proof (cases "res \<le> 0")
      case True
      then have "c' = snd (esp_http_client_close ?c)"
        using "1.prems"(1) g w False by (subst (asm) header_loop.simps) auto
      then show ?thesis using close [OF P] by simp
    next
      case res: False
      then have l: "header_loop (nat ret) 0 (hc_buffer_size ?c) ?c = Some (e, c')"
        using "1.prems"(1) g w False by (subst (asm) header_loop.simps) auto
      show ?thesis
        by (rule "1.IH" [OF g refl refl refl False w(1) w(2) refl refl refl res l P])
    qed
  qed
qed

lemma write_loop_inv:
  fixes c :: "'p esp_http_client"
  assumes "write_loop buf i len c = Some (r, c')" "P c"
    and step: "\<And>buf i len c wlen b w. P c \<Longrightarrow>
      transport_write (hc_transport c) (drop i buf) (nat (min len (hc_buffer_size c))) (hc_timeout_ms c) (hc_net c) = Some (wlen, b, w) \<Longrightarrow>
      P (c\<lparr>hc_net := w\<rparr>)"
  shows "P c'"
  using assms(1,2)
proof (induction buf i len c rule: write_loop.induct)
  case (1 buf i len c)
  show ?case
  proof (cases "len \<le> 0")
    case True
    then show ?thesis using "1.prems" by (subst (asm) write_loop.simps) auto
  next
    case False
    then obtain wlen b w where w:
      "transport_write (hc_transport c) (drop i buf) (nat (min len (hc_buffer_size c))) (hc_timeout_ms c) (hc_net c) = Some (wlen, b, w)"
      using "1.prems"(1) by (subst (asm) write_loop.simps) (auto split: bind_splits)
    have P: "P (c\<lparr>hc_net := w\<rparr>)" using step [OF "1.prems"(2) w] .
    show ?thesis
    proof (cases "wlen \<le> 0")
      case True
      then have "c' = c\<lparr>hc_net := w\<rparr>" using "1.prems"(1) w False by (subst (asm) write_loop.simps) auto
      then show ?thesis using P by simp
    next
      case wlen: False
      then have "write_loop buf (i + nat wlen) (len - wlen) (c\<lparr>hc_net := w\<rparr>) = Some (r, c')"
        using "1.prems"(1) w False by (subst (asm) write_loop.simps) auto
      then show ?thesis using "1.IH" [OF False w refl refl refl wlen _ P] by blast
    qed
  qed
qed

section \<open>The number of requests\<close>

definition limits where
  "limits c = (hc_redirect_counter c, hc_max_redirection_count c, hc_disable_auto_redirect c)"

lemma limits_fixed: "fixed c' = fixed c \<Longrightarrow> limits c' = limits c \<and> hc_process_again c' = hc_process_again c"
  by (simp add: fixed_def limits_def)

lemma limits_updates [simp]:
  "limits (on_response f c) = limits c" "limits (on_request f c) = limits c" "limits (on_info g c) = limits c"
  "limits (http_dispatch_event e d k v c) = limits c"
  "limits (c\<lparr>hc_parser := p\<rparr>) = limits c" "limits (c\<lparr>hc_net := w\<rparr>) = limits c" "limits (c\<lparr>hc_state := s\<rparr>) = limits c"
  "limits (c\<lparr>hc_process_again := b\<rparr>) = limits c" "limits (c\<lparr>hc_transport := t\<rparr>) = limits c"
  "limits (c\<lparr>hc_auth_data := a\<rparr>) = limits c" "limits (c\<lparr>hc_rand := l\<rparr>) = limits c" "limits (c\<lparr>hc_info := i\<rparr>) = limits c"
  by (simp_all add: limits_def update_defs)

lemma again_updates [simp]:
  "hc_process_again (on_response f c) = hc_process_again c" "hc_process_again (on_request f c) = hc_process_again c"
  "hc_process_again (on_info g c) = hc_process_again c" "hc_process_again (http_dispatch_event e d k v c) = hc_process_again c"
  by (simp_all add: update_defs)

text \<open>What the operations that send keep.\<close>

definition same_round where
  "same_round c' c \<longleftrightarrow> limits c' = limits c \<and> hc_process_again c' = hc_process_again c"

lemma same_round_trans [trans]: "same_round c'' c' \<Longrightarrow> same_round c' c \<Longrightarrow> same_round c'' c"
  by (simp add: same_round_def)

lemma same_round_close [simp]: "same_round (snd (esp_http_client_close c)) c"
  using limits_fixed [OF fixed_close [of c]] by (simp add: same_round_def)

lemma close_limits [simp]:
  "limits (snd (esp_http_client_close c)) = limits c"
  "hc_process_again (snd (esp_http_client_close c)) = hc_process_again c"
  using same_round_close [of c] by (simp_all add: same_round_def)

lemma set_header_round: "esp_http_client_set_header alloc c k v = Some (e, c') \<Longrightarrow> same_round c' c"
  by (auto simp: esp_http_client_set_header_def same_round_def split: bind_splits)

lemma set_url_round: "esp_http_client_set_url alloc parse_url stale c u = Some (e, c') \<Longrightarrow> same_round c' c"
  by (auto simp: esp_http_client_set_url_def set_url_host_def set_url_port_def same_round_def Let_def
      split: option.splits bind_splits if_splits dest!: set_header_round)

lemma prepare_round:
  assumes "esp_http_client_prepare alloc md5 b64 lib c = Some (e, c')"
  shows "limits c' = limits c \<and> \<not> hc_process_again c' \<and> e = ESP_OK"
proof -
  have a: "limits c2 = limits c1 \<and> hc_process_again c2 = hc_process_again c1"
    if "auth_response alloc md5 b64 c1 = Some (v, c2)" for c1 :: "'a esp_http_client" and v c2
    using that by (auto simp: auth_response_def new_nonce_def count_nonce_def esp_random_def Let_def
        split: esp_http_client_auth_type.splits bind_splits)
  show ?thesis
    using assms by (auto simp: esp_http_client_prepare_def Let_def same_round_def
        split: bind_splits if_splits option.splits dest!: a set_header_round)
qed

lemma open_connection_round: "open_connection c = Some (e, c') \<Longrightarrow> same_round c' c"
  by (auto simp: open_connection_def same_round_def Let_def split: bind_splits if_splits)

lemma header_loop_round: "header_loop i f wl c = Some (e, c') \<Longrightarrow> same_round c' c"
  by (erule header_loop_inv) (simp_all add: same_round_def)

lemma write_loop_round: "write_loop buf i len c = Some (r, c') \<Longrightarrow> same_round c' c"
  by (erule write_loop_inv) (simp_all add: same_round_def)

lemma length_header_round: "length_header alloc n c = Some c' \<Longrightarrow> same_round c' c"
  by (auto simp: length_header_def esp_http_client_set_method_def same_round_def split: bind_splits if_splits dest!: set_header_round)

lemma send_head_round: "send_head c = Some (e, c') \<Longrightarrow> same_round c' c"
  by (auto simp: send_head_def same_round_def split: bind_splits option.splits if_splits dest!: header_loop_round)

lemma open_round:
  assumes "esp_http_client_open alloc md5 b64 lib c n = Some (ESP_OK, c')"
  shows "limits c' = limits c \<and> \<not> hc_process_again c'"
  using assms
  by (auto simp: esp_http_client_open_def same_round_def split: bind_splits if_splits
      dest!: prepare_round open_connection_round length_header_round send_head_round)

lemma send_request_round:
  assumes "send_request alloc md5 b64 lib c = Some (ESP_OK, c')"
  shows "limits c' = limits c \<and> \<not> hc_process_again c'"
  using assms
  by (auto simp: send_request_def esp_http_client_write_def same_round_def split: bind_splits if_splits option.splits
      dest!: open_round write_loop_round)

lemma check_response_round:
  assumes "esp_http_check_response alloc parse_url stale c = Some (ESP_OK, c')" "\<not> hc_process_again c"
  shows "hc_redirect_counter c < hc_max_redirection_count c \<and> \<not> hc_disable_auto_redirect c \<and>
    hc_max_redirection_count c' = hc_max_redirection_count c \<and> hc_disable_auto_redirect c' = hc_disable_auto_redirect c \<and>
    (hc_process_again c' \<longrightarrow> hc_redirect_counter c' = hc_redirect_counter c + 1)"
  using assms
  by (auto simp: esp_http_check_response_def unauthorized_def same_round_def limits_def Let_def on_info_def
      split: bind_splits if_splits dest!: set_url_round)

lemma perform_round_steps:
  assumes "perform_round alloc md5 b64 parse_url stale lib c = Some res" "res = Inr c' \<or> res = Inl (ESP_OK, c')"
  shows "hc_redirect_counter c < hc_max_redirection_count c \<and> \<not> hc_disable_auto_redirect c \<and>
    hc_max_redirection_count c' = hc_max_redirection_count c \<and> hc_disable_auto_redirect c' = hc_disable_auto_redirect c \<and>
    (res = Inr c' \<longrightarrow> hc_redirect_counter c' = hc_redirect_counter c + 1)"
proof -
  obtain c1 c2 n c3 c4 c5 where
    s: "send_request alloc md5 b64 lib c = Some (ESP_OK, c1)" and
    f: "esp_http_client_fetch_headers alloc lib c1 = Some (n, c2)" and
    r: "esp_http_check_response alloc parse_url stale c2 = Some (ESP_OK, c3)" and
    b: "body_loop more_chunks alloc lib c3 = Some c4" "body_loop more_length alloc lib c4 = Some c5" and
    res: "res = (if hc_process_again (finish_request lib c5) then Inr (finish_request lib c5)
      else Inl (ESP_OK, finish_request lib c5))"
    using assms by (auto simp: perform_round_def Let_def split: bind_splits if_splits)
  have fx: "fixed c2 = fixed c1" "fixed (finish_request lib c5) = fixed c3"
    using fixed_fetch [OF f] fixed_body_loop [OF b(1)] fixed_body_loop [OF b(2)] fixed_finish [of lib c5] by simp_all
  have "limits c2 = limits c" "\<not> hc_process_again c2"
    using send_request_round [OF s] limits_fixed [OF fx(1)] by simp_all
  moreover have "c' = finish_request lib c5" using assms(2) res by (auto split: if_splits)
  moreover have "limits (finish_request lib c5) = limits c3" "hc_process_again (finish_request lib c5) = hc_process_again c3"
    using limits_fixed [OF fx(2)] by simp_all
  ultimately show ?thesis
    using check_response_round [OF r] res by (auto simp: limits_def split: if_splits)
qed

text \<open>\<open>n\<close> requests in a row, each followed by another.\<close>

fun requests :: "('c \<Rightarrow> ('r + 'c) option) \<Rightarrow> nat \<Rightarrow> 'c \<Rightarrow> 'c option" where
  "requests round 0 c = Some c"
| "requests round (Suc n) c = do { r \<leftarrow> round c; case r of Inl _ \<Rightarrow> None | Inr c' \<Rightarrow> requests round n c' }"

lemma perform_unfolds:
  fixes c :: "'p esp_http_client"
  assumes "nat (hc_max_redirection_count c - hc_redirect_counter c) \<le> k"
  shows "\<exists>n ck. n \<le> k \<and> requests (perform_round alloc md5 b64 parse_url stale lib) n c = Some ck \<and>
    (case perform_round alloc md5 b64 parse_url stale lib ck of
       None \<Rightarrow> esp_http_client_perform alloc md5 b64 parse_url stale lib c = None
     | Some (Inr _) \<Rightarrow> False
     | Some (Inl res) \<Rightarrow> esp_http_client_perform alloc md5 b64 parse_url stale lib c = Some res)"
  using assms
proof (induction k arbitrary: c)
  case 0
  have "perform_round alloc md5 b64 parse_url stale lib c \<noteq> Some (Inr c')" for c'
    using perform_round_steps [of alloc md5 b64 parse_url stale lib c "Inr c'" c'] 0 by auto
  then show ?case
    by (intro exI [of _ 0] exI [of _ c]) (auto simp: esp_http_client_perform.simps [of _ _ _ _ _ _ c] split: option.splits sum.splits)
next
  case (Suc k)
  show ?case
  proof (cases "\<exists>c'. perform_round alloc md5 b64 parse_url stale lib c = Some (Inr c')")
    case False
    then show ?thesis
      by (intro exI [of _ 0] exI [of _ c]) (auto simp: esp_http_client_perform.simps [of _ _ _ _ _ _ c] split: option.splits sum.splits)
  next
    case True
    then obtain c' where c': "perform_round alloc md5 b64 parse_url stale lib c = Some (Inr c')" by blast
    then have "nat (hc_max_redirection_count c' - hc_redirect_counter c') \<le> k"
      using perform_round_steps [OF c', of c'] Suc.prems by auto
    from Suc.IH [OF this] obtain n ck where
      "n \<le> k" "requests (perform_round alloc md5 b64 parse_url stale lib) n c' = Some ck"
      "case perform_round alloc md5 b64 parse_url stale lib ck of
        None \<Rightarrow> esp_http_client_perform alloc md5 b64 parse_url stale lib c' = None
      | Some (Inr _) \<Rightarrow> False | Some (Inl res) \<Rightarrow> esp_http_client_perform alloc md5 b64 parse_url stale lib c' = Some res"
      by blast
    moreover have "esp_http_client_perform alloc md5 b64 parse_url stale lib c = esp_http_client_perform alloc md5 b64 parse_url stale lib c'"
      using c' by (simp add: esp_http_client_perform.simps [of _ _ _ _ _ _ c])
    ultimately show ?thesis using c'
      by (intro exI [of _ "Suc n"] exI [of _ ck]) (simp split: option.splits sum.splits)
  qed
qed

section \<open>Receiving a response over TCP\<close>

text \<open>What the client relies on: the spans of the parser lie in the bytes it was given, and the values of headers
  have no control characters. That names and values are not empty is a property of the response.\<close>

fun span_ok :: "byte list \<Rightarrow> parser_event \<Rightarrow> bool" where
  "span_ok bs (On_header_field at len) \<longleftrightarrow> 0 < len \<and> at + len \<le> length bs"
| "span_ok bs (On_header_value at len) \<longleftrightarrow> 0 < len \<and> at + len \<le> length bs \<and> 0 \<notin> set (take len (drop at bs))"
| "span_ok bs (On_body at len) \<longleftrightarrow> at + len \<le> length bs"
| "span_ok bs e \<longleftrightarrow> True"

definition parser_ok :: "'p http_parser_lib \<Rightarrow> bool" where
  "parser_ok lib \<longleftrightarrow> (\<forall>p bs. list_all (span_ok bs) (fst (pl_execute lib p bs)))"

fun body_of :: "byte list \<Rightarrow> parser_event \<Rightarrow> byte list" where
  "body_of bs (On_body at len) = take len (drop at bs)"
| "body_of bs e = []"

text \<open>The body bytes the parser finds in the pieces a response arrives in, and the parser afterwards.\<close>

fun bodies :: "'p http_parser_lib \<Rightarrow> 'p \<Rightarrow> byte list list \<Rightarrow> byte list \<times> 'p" where
  "bodies lib p [] = ([], p)"
| "bodies lib p (bs # bss) =
     (let (evs, p') = pl_execute lib p bs; (rest, q) = bodies lib p' bss
      in (concat (map (body_of bs) evs) @ rest, q))"

lemma bodies_append:
  "bodies lib p (xs @ ys) = (fst (bodies lib p xs) @ fst (bodies lib (snd (bodies lib p xs)) ys), snd (bodies lib (snd (bodies lib p xs)) ys))"
  by (induction xs arbitrary: p) (auto split: prod.splits)

text \<open>The bytes the handler got.\<close>

definition handed :: "'p esp_http_client \<Rightarrow> byte list" where
  "handed c = concat (map he_data (filter (\<lambda>e. he_event_id e = HTTP_EVENT_ON_DATA) (hc_events c)))"

definition receiving :: "'p esp_http_client \<Rightarrow> bool" where
  "receiving c \<longleftrightarrow> 0 < hc_buffer_size c \<and> length (hb_data (hc_response c)) = nat (hc_buffer_size c) \<and>
     hb_output (hc_response c) = None \<and> hc_event_handler c \<and> (\<exists>t. hc_transport c = Some t \<and> tr_read t = Some tcp_read)"

lemma assign_ok:
  assumes "\<forall>f n. alloc f n" "0 < len" "len \<le> length m"
  shows "\<exists>s. assign alloc old m (int len) = Some s"
proof -
  have "c_str (take len m @ [0]) \<noteq> None" by (simp add: c_str_def)
  then show ?thesis using assms by (auto simp: assign_def http_utils_assign_string_def str_arg_def)
qed

text \<open>One callback: it succeeds and hands the body on; nothing else the loops depend on changes.\<close>

definition hands :: "'p esp_http_client \<Rightarrow> byte list \<Rightarrow> 'p esp_http_client \<Rightarrow> bool" where
  "hands c bs c' \<longleftrightarrow> receiving c' \<and> handed c' = handed c @ bs \<and> hc_net c' = hc_net c \<and> hc_parser c' = hc_parser c \<and>
     hb_data (hc_response c') = hb_data (hc_response c) \<and> hc_buffer_size c' = hc_buffer_size c"

lemma hands_trans: "hands c bs c' \<Longrightarrow> hands c' bs' c'' \<Longrightarrow> hands c (bs @ bs') c''"
  by (simp add: hands_def)

lemma store_header_ok:
  assumes "\<forall>f n. alloc f n" "receiving c" "0 < len" "len \<le> length m" "0 \<notin> set (take len m)"
  shows "\<exists>c'. store_header alloc key m len c = Some c' \<and> hands c [] c'"
proof -
  have a: "\<exists>s. assign alloc old m (int len) = Some s" for old using assign_ok [OF assms(1,3,4)] .
  have "is_chunked_text m len \<noteq> None"
  proof
    assume "is_chunked_text m len = None"
    then have l: "8 < len" "take 8 m = ascii ''chunked'' @ [0]" by (auto simp: is_chunked_text_def Let_def split: if_splits)
    have "take 8 m ! 7 = 0" unfolding l(2) by (simp add: ascii_def)
    then have "m ! 7 = 0" by simp
    moreover have "take len m ! 7 \<in> set (take len m)" using l(1) assms(4) by (intro nth_mem) simp
    ultimately show False using l(1) assms(5) by simp
  qed
  then show ?thesis
    using assms(2) a [of "hc_location c"] a [of "hc_auth_header c"]
    by (auto simp: store_header_def hands_def receiving_def handed_def update_defs)
qed

lemma callback_ok:
  assumes "\<forall>f n. alloc f n" "receiving c" "span_ok bs e" "take (length bs) (hb_data (hc_response c)) = bs"
  shows "\<exists>c'. parser_callback alloc e c = Some c' \<and> hands c (body_of bs e) c'"
proof -
  let ?d = "hb_data (hc_response c)"
  have len: "length bs \<le> length ?d" using assms(4) by (metis length_take min.cobounded1 min.commute)
  have span: "take l (drop a bs) = take l (drop a ?d)" if "a + l \<le> length bs" for a l
  proof -
    have "take l (drop a bs) = take l (drop a (take (length bs) ?d))" by (simp only: assms(4))
    also have "\<dots> = take l (drop a ?d)" using that by (simp add: drop_take)
    finally show ?thesis .
  qed
  show ?thesis
  proof (cases e)
    case (On_header_field a l)
    then have "\<exists>s. assign alloc (hc_current_header_key c) (drop a ?d) (int l) = Some s"
      using assms(3) len by (intro assign_ok assms(1)) auto
    then show ?thesis using assms(2) On_header_field
      by (auto simp: http_on_header_field_def hands_def receiving_def handed_def)
  next
    case (On_header_value a l)
    have v: "0 < l" "l \<le> length (drop a ?d)" "0 \<notin> set (take l (drop a ?d))"
      using assms(3) len On_header_value span [of a l] by auto
    show ?thesis
    proof (cases "hc_current_header_key c")
      case None
      then show ?thesis using assms(2) On_header_value by (simp add: http_on_header_value_def hands_def)
    next
      case (Some key)
      obtain c1 where c1: "store_header alloc key (drop a ?d) l c = Some c1" "hands c [] c1"
        using store_header_ok [OF assms(1,2) v, of key] by blast
      obtain s where "assign alloc (hc_current_header_value c1) (drop a ?d) (int l) = Some s"
        using assign_ok [OF assms(1) v(1,2)] by blast
      then show ?thesis using c1 Some On_header_value
        by (auto simp: http_on_header_value_def Let_def hands_def receiving_def handed_def update_defs)
    qed
  next
    case (On_body a l)
    then have "a + l \<le> length ?d" "take l (drop a bs) = take l (drop a ?d)" using assms(3) len span [of a l] by auto
    then show ?thesis using assms(2) On_body
      by (auto simp: http_on_body_def Let_def hands_def receiving_def handed_def update_defs)
  qed (use assms(2) in \<open>auto simp: http_on_message_begin_def http_on_headers_complete_def http_on_message_complete_def
      hands_def receiving_def handed_def update_defs\<close>)
qed

lemma run_callbacks_ok:
  assumes "\<forall>f n. alloc f n"
  shows "receiving c \<Longrightarrow> list_all (span_ok bs) es \<Longrightarrow> take (length bs) (hb_data (hc_response c)) = bs \<Longrightarrow>
    \<exists>c'. run_callbacks alloc es c = Some c' \<and> hands c (concat (map (body_of bs) es)) c'"
proof (induction es arbitrary: c)
  case Nil
  then show ?case by (simp add: hands_def)
next
  case (Cons e es)
  then obtain c1 where c1: "parser_callback alloc e c = Some c1" "hands c (body_of bs e) c1"
    using callback_ok [OF assms, of c bs e] by auto
  then have "receiving c1" "take (length bs) (hb_data (hc_response c1)) = bs"
    using Cons.prems(3) by (simp_all add: hands_def)
  with Cons obtain c' where "run_callbacks alloc es c1 = Some c'" "hands c1 (concat (map (body_of bs) es)) c'" by force
  then show ?case using c1 hands_trans by fastforce
qed

lemma execute_ok:
  assumes "\<forall>f n. alloc f n" "parser_ok lib" "receiving c" "bs = take n (hb_data (hc_response c))"
  shows "\<exists>c'. http_parser_execute alloc lib n c = Some c' \<and> receiving c' \<and> hc_net c' = hc_net c \<and>
    handed c' = handed c @ fst (bodies lib (hc_parser c) [bs]) \<and> hc_parser c' = snd (bodies lib (hc_parser c) [bs])"
proof -
  obtain evs p where e: "pl_execute lib (hc_parser c) bs = (evs, p)" by (cases "pl_execute lib (hc_parser c) bs")
  then have "list_all (span_ok bs) evs" using assms(2) unfolding parser_ok_def by (metis fst_conv)
  moreover have "receiving (c\<lparr>hc_parser := p\<rparr>)" using assms(3) by (simp add: receiving_def)
  moreover have "take (length bs) (hb_data (hc_response (c\<lparr>hc_parser := p\<rparr>))) = bs"
    using assms(4) by (simp add: min_def)
  ultimately obtain c' where "run_callbacks alloc evs (c\<lparr>hc_parser := p\<rparr>) = Some c'"
      "hands (c\<lparr>hc_parser := p\<rparr>) (concat (map (body_of bs) evs)) c'"
    using run_callbacks_ok [OF assms(1), of "c\<lparr>hc_parser := p\<rparr>" bs evs] by blast
  then show ?thesis using e assms(4) by (auto simp: http_parser_execute_def hands_def handed_def)
qed

text \<open>The pieces in which the bytes of a script of reads arrive.\<close>

definition arrived :: "nat \<Rightarrow> byte list option list \<Rightarrow> byte list list" where
  "arrived n xs = concat (map (\<lambda>x. case x of None \<Rightarrow> [] | Some bs \<Rightarrow> if bs = [] then [] else [take n bs]) xs)"

lemma arrived_append: "arrived n (xs @ ys) = arrived n xs @ arrived n ys"
  by (simp add: arrived_def)

lemma arrived_nonempty: "0 < n \<Longrightarrow> [] \<notin> set (arrived n xs)"
  by (auto simp: arrived_def split: option.splits if_splits)

text \<open>What a loop that reads does: the handler has got the bodies of the pieces that arrived, in order.\<close>

definition delivers :: "'p http_parser_lib \<Rightarrow> 'p esp_http_client \<Rightarrow> 'p esp_http_client \<Rightarrow> bool" where
  "delivers lib c c' \<longleftrightarrow> receiving c' \<and> hc_buffer_size c' = hc_buffer_size c \<and>
     (\<exists>pieces k. filter (\<lambda>bs. bs \<noteq> []) pieces = arrived (nat (hc_buffer_size c)) (take k (net_reads (hc_net c))) \<and>
       net_reads (hc_net c') = drop k (net_reads (hc_net c)) \<and>
       handed c' = handed c @ fst (bodies lib (hc_parser c) pieces) \<and> hc_parser c' = snd (bodies lib (hc_parser c) pieces))"

lemma deliversI:
  assumes "receiving c'" "hc_buffer_size c' = hc_buffer_size c"
    "filter (\<lambda>bs. bs \<noteq> []) pieces = arrived (nat (hc_buffer_size c)) (take k (net_reads (hc_net c)))"
    "net_reads (hc_net c') = drop k (net_reads (hc_net c))"
    "handed c' = handed c @ fst (bodies lib (hc_parser c) pieces)" "hc_parser c' = snd (bodies lib (hc_parser c) pieces)"
  shows "delivers lib c c'"
  using assms unfolding delivers_def by blast

lemma delivers_trans:
  assumes "delivers lib c c1" "delivers lib c1 c2"
  shows "delivers lib c c2"
proof -
  let ?n = "nat (hc_buffer_size c)" and ?r = "net_reads (hc_net c)"
  obtain ps k where 1: "filter (\<lambda>bs. bs \<noteq> []) ps = arrived ?n (take k ?r)" "net_reads (hc_net c1) = drop k ?r"
      "handed c1 = handed c @ fst (bodies lib (hc_parser c) ps)" "hc_parser c1 = snd (bodies lib (hc_parser c) ps)"
      "hc_buffer_size c1 = hc_buffer_size c"
    using assms(1) unfolding delivers_def by blast
  obtain qs j where 2: "filter (\<lambda>bs. bs \<noteq> []) qs = arrived ?n (take j (drop k ?r))" "net_reads (hc_net c2) = drop j (drop k ?r)"
      "handed c2 = handed c1 @ fst (bodies lib (hc_parser c1) qs)" "hc_parser c2 = snd (bodies lib (hc_parser c1) qs)"
      "receiving c2" "hc_buffer_size c2 = hc_buffer_size c1"
    using assms(2) 1(2,5) unfolding delivers_def by metis
  have "net_reads (hc_net c2) = drop (k + j) ?r" using 2(2) by (simp add: add.commute)
  then show ?thesis
    by (rule deliversI [where pieces = "ps @ qs", rotated 3]) (use 1 2 in \<open>simp_all add: bodies_append take_add arrived_append\<close>)
qed

lemma delivers_same:
  assumes "receiving c'" "hc_net c' = hc_net c" "handed c' = handed c" "hc_parser c' = hc_parser c" "hc_buffer_size c' = hc_buffer_size c"
  shows "delivers lib c c'"
  by (rule deliversI [where pieces = "[]" and k = 0]) (use assms in \<open>simp_all add: arrived_def\<close>)

text \<open>A read over TCP: an error or nothing, or the next piece of the script, as far as it fits.\<close>

lemma read_ok:
  assumes "receiving c"
  shows "\<exists>r c' k. read_into (nat (hc_buffer_size c)) c = Some (r, c') \<and> receiving c' \<and> handed c' = handed c \<and>
    hc_parser c' = hc_parser c \<and> hc_buffer_size c' = hc_buffer_size c \<and> hc_state c' = hc_state c \<and>
    net_reads (hc_net c') = drop k (net_reads (hc_net c)) \<and>
    (0 < r \<longrightarrow> length (net_reads (hc_net c')) < length (net_reads (hc_net c))) \<and>
    arrived (nat (hc_buffer_size c)) (take k (net_reads (hc_net c))) =
      (if 0 < r then [take (nat r) (hb_data (hc_response c'))] else [])"
proof -
  obtain t where t: "hc_transport c = Some t" "tr_read t = Some tcp_read" using assms by (auto simp: receiving_def)
  let ?d = "hb_data (hc_response c)" and ?n = "nat (hc_buffer_size c)" and ?w = "hc_net c"
  have l: "length ?d = ?n" "0 < ?n" using assms by (simp_all add: receiving_def)
  have "tcp_read ?d ?n (hc_timeout_ms c) ?w \<noteq> None"
    using l by (auto simp: tcp_read_def blit_def net_read_def split: prod.splits option.splits bind_splits)
  then obtain r d w where r: "tcp_read ?d ?n (hc_timeout_ms c) ?w = Some (r, d, w)" by auto
  have len: "length d = ?n" using tcp_read_len [OF r] l by simp
  have tk: "take (min (length z) k) z = take k z" for z :: "byte list" and k by (simp add: min_def)
  have k: "\<exists>k. net_reads w = drop k (net_reads ?w) \<and> (0 < r \<longrightarrow> length (net_reads w) < length (net_reads ?w)) \<and>
    arrived ?n (take k (net_reads ?w)) = (if 0 < r then [take (nat r) d] else [])"
  proof (cases "fst (tcp_poll_read (hc_timeout_ms c) ?w) \<le> 0")
    case True
    then show ?thesis using r
      by (intro exI [of _ 0])
        (auto simp: tcp_read_def tcp_poll_read_def net_select_def arrived_def split: prod.splits)
  next
    case False
    then show ?thesis using r l
      by (intro exI [of _ 1], cases "net_reads ?w")
        (auto simp: tcp_read_def tcp_poll_read_def net_select_def net_read_def next_of_def blit_eq_Some_iff tk arrived_def
          split: prod.splits option.splits if_splits bind_splits)
  qed
  have "read_into ?n c = Some (r, (on_response (\<lambda>x. x\<lparr>hb_data := d\<rparr>) c)\<lparr>hc_net := w\<rparr>)"
    using t r by (simp add: read_into_def transport_read_def)
  then show ?thesis using assms len k
    by (intro exI [of _ r] exI [of _ "(on_response (\<lambda>x. x\<lparr>hb_data := d\<rparr>) c)\<lparr>hc_net := w\<rparr>"])
      (auto simp: receiving_def handed_def update_defs)
qed

text \<open>A read and the parser on what it read, as all loops do; \<open>c2\<close> is what is kept between them.\<close>

lemma read_execute_ok:
  assumes "\<forall>f n. alloc f n" "parser_ok lib" "receiving c"
    and g: "\<And>c r. hc_net (g r c) = hc_net c" "\<And>c r. hc_parser (g r c) = hc_parser c" "\<And>c r. handed (g r c) = handed c"
      "\<And>c r. receiving (g r c) = receiving c" "\<And>c r. hb_data (hc_response (g r c)) = hb_data (hc_response c)"
      "\<And>c r. hc_buffer_size (g r c) = hc_buffer_size c"
  shows "\<exists>r c1. read_into (nat (hc_buffer_size c)) c = Some (r, c1) \<and> hc_state c1 = hc_state c \<and>
    (r \<le> 0 \<longrightarrow> delivers lib c c1) \<and>
    (0 \<le> r \<longrightarrow> (\<exists>c2. http_parser_execute alloc lib (nat r) (g r c1) = Some c2 \<and> delivers lib c c2 \<and>
      (0 < r \<longrightarrow> length (net_reads (hc_net c2)) < length (net_reads (hc_net c)))))"
proof -
  obtain r c1 k where r: "read_into (nat (hc_buffer_size c)) c = Some (r, c1)" and c1: "receiving c1" "handed c1 = handed c"
    "hc_parser c1 = hc_parser c" "hc_buffer_size c1 = hc_buffer_size c" "hc_state c1 = hc_state c"
    "net_reads (hc_net c1) = drop k (net_reads (hc_net c))"
    "0 < r \<longrightarrow> length (net_reads (hc_net c1)) < length (net_reads (hc_net c))"
    "arrived (nat (hc_buffer_size c)) (take k (net_reads (hc_net c))) = (if 0 < r then [take (nat r) (hb_data (hc_response c1))] else [])"
    using read_ok [OF assms(3)] by blast
  have "\<exists>c2. http_parser_execute alloc lib (nat r) (g r c1) = Some c2 \<and> delivers lib c c2 \<and>
      (0 < r \<longrightarrow> length (net_reads (hc_net c2)) < length (net_reads (hc_net c)))" if "0 \<le> r"
  proof -
    let ?b = "take (nat r) (hb_data (hc_response (g r c1)))"
    have "receiving (g r c1)" using c1(1) g(4) by simp
    from execute_ok [OF assms(1,2) this refl, of "nat r"] obtain c2 where
      c2: "http_parser_execute alloc lib (nat r) (g r c1) = Some c2" "receiving c2" "hc_net c2 = hc_net c1"
        "handed c2 = handed c @ fst (bodies lib (hc_parser c) [?b])" "hc_parser c2 = snd (bodies lib (hc_parser c) [?b])"
      using g c1 by auto
    have bs: "hc_buffer_size c2 = hc_buffer_size c"
      using fixed_execute [OF c2(1)] g(6) c1(4) by (simp add: fixed_def)
    have "0 < nat (hc_buffer_size c)" using assms(3) by (simp add: receiving_def)
    from arrived_nonempty [OF this, of "take k (net_reads (hc_net c))"]
    have "filter (\<lambda>bs. bs \<noteq> []) [?b] = arrived (nat (hc_buffer_size c)) (take k (net_reads (hc_net c)))"
      using c1(8) g(5) that by (cases "0 < r") auto
    then have "delivers lib c c2"
      by (rule deliversI [OF c2(2) bs]) (use c2 c1 in simp_all)
    then show ?thesis using c2(1,3) c1(7) by auto
  qed
  moreover have "delivers lib c c1" if "r \<le> 0"
    by (rule deliversI [where pieces = "[]" and k = k]) (use c1 that in simp_all)
  ultimately show ?thesis using r c1(5) by auto
qed

lemma get_data_ok:
  assumes "\<forall>f n. alloc f n" "parser_ok lib" "receiving c"
  shows "\<exists>r c'. esp_http_client_get_data alloc lib c = Some (r, c') \<and> delivers lib c c' \<and>
    (0 < r \<longrightarrow> length (net_reads (hc_net c')) < length (net_reads (hc_net c)))"
proof (cases "hc_state c < HTTP_STATE_RES_COMPLETE_HEADER")
  case True
  then show ?thesis using delivers_same [of c c lib] assms(3) by (auto simp: esp_http_client_get_data_def)
next
  case False
  obtain r c1 where r: "read_into (nat (hc_buffer_size c)) c = Some (r, c1)" "r \<le> 0 \<longrightarrow> delivers lib c c1"
    "0 \<le> r \<longrightarrow> (\<exists>c2. http_parser_execute alloc lib (nat r) c1 = Some c2 \<and> delivers lib c c2 \<and>
      (0 < r \<longrightarrow> length (net_reads (hc_net c2)) < length (net_reads (hc_net c))))"
    using read_execute_ok [OF assms, of "\<lambda>_ c. c"] by auto
  then show ?thesis using False by (cases "0 \<le> r") (auto simp: esp_http_client_get_data_def)
qed

lemma body_loop_ok:
  assumes "\<forall>f n. alloc f n" "parser_ok lib"
  shows "receiving c \<Longrightarrow> \<exists>c'. body_loop left alloc lib c = Some c' \<and> delivers lib c c'"
proof (induction "length (net_reads (hc_net c))" arbitrary: c rule: less_induct)
  case less
  show ?case
  proof (cases "left c")
    case False
    then show ?thesis using delivers_same [of c c lib] less.prems by (simp add: body_loop.simps [of _ _ _ c])
  next
    case True
    obtain r c1 where r: "esp_http_client_get_data alloc lib c = Some (r, c1)" "delivers lib c c1"
        "0 < r \<longrightarrow> length (net_reads (hc_net c1)) < length (net_reads (hc_net c))"
      using get_data_ok [OF assms less.prems] by blast
    show ?thesis
    proof (cases "r \<le> 0")
      case True
      then show ?thesis using r \<open>left c\<close> by (auto simp: body_loop.simps [of _ _ _ c])
    next
      case False
      then obtain c' where "body_loop left alloc lib c1 = Some c'" "delivers lib c1 c'"
        using less.hyps [of c1] r by (auto simp: delivers_def)
      then show ?thesis using r \<open>left c\<close> False delivers_trans [OF r(2)] by (auto simp: body_loop.simps [of _ _ _ c])
    qed
  qed
qed

lemma fetch_loop_ok:
  assumes "\<forall>f n. alloc f n" "parser_ok lib"
  shows "receiving c \<Longrightarrow> \<exists>ok c'. fetch_loop alloc lib c = Some (ok, c') \<and> delivers lib c c' \<and>
    (ok \<longrightarrow> HTTP_STATE_RES_COMPLETE_HEADER \<le> hc_state c')"
proof (induction "length (net_reads (hc_net c))" arbitrary: c rule: less_induct)
  case less
  show ?case
  proof (cases "hc_state c < HTTP_STATE_RES_COMPLETE_HEADER")
    case False
    then have "fetch_loop alloc lib c = Some (True, c)" by (simp add: fetch_loop.simps [of _ _ c])
    then show ?thesis using False delivers_same [of c c lib] less.prems by (auto simp: not_less)
  next
    case True
    let ?g = "\<lambda>r. on_response (\<lambda>x. x\<lparr>hb_len := r\<rparr>) :: 'a esp_http_client \<Rightarrow> 'a esp_http_client"
    obtain r c1 where r: "read_into (nat (hc_buffer_size c)) c = Some (r, c1)" "r \<le> 0 \<longrightarrow> delivers lib c c1"
      "0 \<le> r \<longrightarrow> (\<exists>c2. http_parser_execute alloc lib (nat r) (?g r c1) = Some c2 \<and> delivers lib c c2 \<and>
        (0 < r \<longrightarrow> length (net_reads (hc_net c2)) < length (net_reads (hc_net c))))"
      using read_execute_ok [OF assms less.prems, of ?g] by (auto simp: receiving_def handed_def update_defs)
    have g: "delivers lib c1 (?g r c1)" if "delivers lib c c1"
      using that by (intro delivers_same) (auto simp: delivers_def receiving_def handed_def update_defs)
    show ?thesis
    proof (cases "r \<le> 0")
      case r0: True
      then have "delivers lib c (?g r c1)" using r(2) g delivers_trans by blast
      then show ?thesis using r r0 True by (auto simp: fetch_loop.simps [of _ _ c] Let_def)
    next
      case False
      then obtain c2 where c2: "http_parser_execute alloc lib (nat r) (?g r c1) = Some c2" "delivers lib c c2"
          "length (net_reads (hc_net c2)) < length (net_reads (hc_net c))"
        using r(3) by auto
      then have "receiving c2" by (simp add: delivers_def)
      from less.hyps [OF c2(3) this] obtain ok c' where "fetch_loop alloc lib c2 = Some (ok, c')" "delivers lib c2 c'"
          "ok \<longrightarrow> HTTP_STATE_RES_COMPLETE_HEADER \<le> hc_state c'" by blast
      then show ?thesis using r c2 False True delivers_trans [OF c2(2)]
        by (auto simp: fetch_loop.simps [of _ _ c] Let_def)
    qed
  qed
qed

section \<open>Sending a request over TCP\<close>

text \<open>The network takes the next \<open>k\<close> writes of up to \<open>siz\<close> bytes as a whole.\<close>

definition takes :: "nat \<Rightarrow> nat \<Rightarrow> net \<Rightarrow> bool" where
  "takes k siz w \<longleftrightarrow> k \<le> length (net_polls w) \<and> k \<le> length (net_writes w) \<and>
     (\<forall>p \<in> set (take k (net_polls w)). 0 < p) \<and> (\<forall>n \<in> set (take k (net_writes w)). int siz \<le> n)"

lemma tcp_write_takes:
  assumes "takes (Suc k) siz w" "len \<le> siz" "len \<le> length buf"
  shows "\<exists>w'. tcp_write buf len tmo w = Some (int len, buf, w') \<and> net_out w' = net_out w @ take len buf \<and> takes k siz w' \<and>
    net_reads w' = net_reads w \<and> net_polls w' = tl (net_polls w)"
proof -
  obtain p ps n ns where w: "net_polls w = p # ps" "net_writes w = n # ns"
    using assms(1) by (cases "net_polls w"; cases "net_writes w") (auto simp: takes_def)
  let ?w = "w\<lparr>net_polls := ps, net_writes := ns, net_out := net_out w @ take len buf\<rparr>"
  have p: "0 < p" "int siz \<le> n" and k: "takes k siz ?w"
    using assms(1) w by (auto simp: takes_def)
  have s: "tcp_poll_write tmo w = (p, w\<lparr>net_polls := ps\<rparr>)"
    by (simp add: tcp_poll_write_def net_select_def next_of_def w)
  have "next_of (-1) (net_writes (w\<lparr>net_polls := ps\<rparr>)) = n" "\<not> n < 0" "min (nat n) (length (take len buf)) = len"
    using p assms(2,3) w by (simp_all add: next_of_def)
  then have "net_write (take len buf) (w\<lparr>net_polls := ps\<rparr>) = (int len, ?w)"
    using w assms(3) by (simp add: net_write_def Let_def min_def)
  then have "tcp_write buf len tmo w = Some (int len, buf, ?w)" using assms(3) s p(1)
    by (simp add: tcp_write_def)
  then show ?thesis using k w(1) by simp
qed

definition over_tcp :: "'p esp_http_client \<Rightarrow> bool" where
  "over_tcp c \<longleftrightarrow> (\<exists>t. hc_transport c = Some t \<and> tr_write t = Some tcp_write)"

lemma transport_write_takes:
  assumes "over_tcp c" "takes (Suc k) siz (hc_net c)" "len \<le> siz" "len \<le> length buf"
  shows "\<exists>w'. transport_write (hc_transport c) buf len (hc_timeout_ms c) (hc_net c) = Some (int len, buf, w') \<and>
    net_out w' = net_out (hc_net c) @ take len buf \<and> takes k siz w' \<and>
    net_reads w' = net_reads (hc_net c) \<and> net_polls w' = tl (net_polls (hc_net c))"
  using assms(1) tcp_write_takes [OF assms(2-4)] by (auto simp: over_tcp_def transport_write_def)

text \<open>The body, in pieces of the size of the buffer.\<close>

lemma write_loop_takes:
  assumes "over_tcp c" "0 < hc_buffer_size c" "0 \<le> len" "nat len \<le> k * nat (hc_buffer_size c)"
    "widx + nat len \<le> length buf" "takes k (nat (hc_buffer_size c)) (hc_net c)"
  shows "\<exists>w. write_loop buf widx len c = Some (int widx + len, c\<lparr>hc_net := w\<rparr>) \<and>
    net_out w = net_out (hc_net c) @ take (nat len) (drop widx buf)"
  using assms
proof (induction k arbitrary: c len widx)
  case 0
  then show ?case
    by (intro exI [of _ "hc_net c"]) (simp add: write_loop.simps [of buf widx 0 c])
next
  case (Suc k)
  show ?case
  proof (cases "len = 0")
    case True
    then show ?thesis
      by (intro exI [of _ "hc_net c"]) (simp add: write_loop.simps [of buf widx 0 c])
  next
    case False
    let ?n = "nat (min len (hc_buffer_size c))"
    have n: "?n \<le> nat (hc_buffer_size c)" "?n \<le> length (drop widx buf)" "0 < ?n" "int ?n \<le> len" "int ?n = min len (hc_buffer_size c)"
      using Suc.prems False by (auto simp: min_def)
    obtain w where w: "transport_write (hc_transport c) (drop widx buf) ?n (hc_timeout_ms c) (hc_net c) = Some (int ?n, drop widx buf, w)"
        "net_out w = net_out (hc_net c) @ take ?n (drop widx buf)" "takes k (nat (hc_buffer_size c)) w"
      using transport_write_takes [OF Suc.prems(1,6) n(1,2)] by blast
    let ?c = "c\<lparr>hc_net := w\<rparr>"
    have "nat (len - int ?n) \<le> k * nat (hc_buffer_size ?c)"
      using Suc.prems(2-4) n by (auto simp: min_def split: if_splits)
    moreover have "widx + ?n + nat (len - int ?n) \<le> length buf" using Suc.prems(5) n(4) by linarith
    moreover have "over_tcp ?c" using Suc.prems(1) by (simp add: over_tcp_def)
    ultimately obtain w' where w': "write_loop buf (widx + ?n) (len - int ?n) ?c = Some (int (widx + ?n) + (len - int ?n), ?c\<lparr>hc_net := w'\<rparr>)"
        "net_out w' = net_out w @ take (nat (len - int ?n)) (drop (widx + ?n) buf)"
      using Suc.IH [of ?c "len - int ?n" "widx + ?n"] Suc.prems(2) n(4) w(3) by auto
    have "take ?n (drop widx buf) @ take (nat (len - int ?n)) (drop (widx + ?n) buf) = take (nat len) (drop widx buf)"
      using n(4) by (metis add.commute drop_drop le_add_diff_inverse nat_diff_distrib nat_int of_nat_0_le_iff take_add nat_mono)
    moreover have "write_loop buf widx len c = Some (int widx + len, ?c\<lparr>hc_net := w'\<rparr>)"
      using w(1) w'(1) n(3) False Suc.prems(2,3)
      by (simp add: write_loop.simps [of buf widx len c] Let_def min_le_iff_disj)
    ultimately show ?thesis using w(2) w'(2) by (intro exI [of _ w']) simp
  qed
qed

text \<open>The request line and the headers.\<close>

definition request_text :: "byte list \<Rightarrow> byte list \<Rightarrow> byte list option \<Rightarrow> byte list" where
  "request_text meth path query =
     meth @ [0x20] @ path @ (case query of None \<Rightarrow> [] | Some q \<Rightarrow> 0x3F # q) @ [0x20] @ ascii ''HTTP/1.1'' @ [0x0D, 0x0A]"

lemma print_piece_fits:
  assumes "int (length pre) + int (length t) < siz" "siz \<le> int (length d)" "take (length pre) d = pre"
  shows "\<exists>d'. print_piece siz t (Some (d, int (length pre))) = Some (Some (d', int (length (pre @ t)))) \<and>
    length d' = length d \<and> take (length (pre @ t)) d' = pre @ t"
  using snprintf_fits [of "length pre" t siz d] assms by (auto simp: print_piece_def Let_def)

lemma request_line_fits:
  assumes "HTTP_METHOD_MAPPING (ci_method (hc_info c)) = Some meth" "ci_path (hc_info c) = Some path"
    and fit: "int (length (request_text meth path (ci_query (hc_info c)))) < hc_buffer_size c"
    and len: "hc_buffer_size c \<le> int (length (hb_data (hc_request c)))"
  defines "l \<equiv> request_text meth path (ci_query (hc_info c))"
  shows "\<exists>d. request_line c = Some (Some (d, int (length l))) \<and> length d = length (hb_data (hc_request c)) \<and> take (length l) d = l"
proof -
  let ?siz = "hc_buffer_size c" and ?fin = "[0x20] @ ascii ''HTTP/1.1'' @ [0x0D, 0x0A]"
  obtain d1 where d1: "print_piece ?siz (meth @ [0x20] @ path) (Some (hb_data (hc_request c), 0)) =
      Some (Some (d1, int (length (meth @ [0x20] @ path))))" "length d1 = length (hb_data (hc_request c))"
      "take (length (meth @ [0x20] @ path)) d1 = meth @ [0x20] @ path"
    using print_piece_fits [of "[]" "meth @ [0x20] @ path" ?siz "hb_data (hc_request c)"] fit len by (auto simp: request_text_def)
  show ?thesis
  proof (cases "ci_query (hc_info c)")
    case None
    obtain d where "print_piece ?siz ?fin (Some (d1, int (length (meth @ [0x20] @ path)))) =
        Some (Some (d, int (length ((meth @ [0x20] @ path) @ ?fin))))" "length d = length d1"
        "take (length ((meth @ [0x20] @ path) @ ?fin)) d = (meth @ [0x20] @ path) @ ?fin"
      using print_piece_fits [of "meth @ [0x20] @ path" ?fin ?siz d1] fit len d1 None by (auto simp: request_text_def)
    then show ?thesis using assms(1,2) d1 None
      by (intro exI [of _ d]) (simp add: request_line_def Let_def l_def request_text_def)
  next
    case (Some q)
    let ?pre = "meth @ [0x20] @ path" and ?pre2 = "(meth @ [0x20] @ path) @ 0x3F # q"
    obtain d2 where d2: "print_piece ?siz (0x3F # q) (Some (d1, int (length ?pre))) = Some (Some (d2, int (length ?pre2)))"
        "length d2 = length d1" "take (length ?pre2) d2 = ?pre2"
      using print_piece_fits [of ?pre "0x3F # q" ?siz d1] fit len d1 Some by (auto simp: request_text_def)
    obtain d where "print_piece ?siz ?fin (Some (d2, int (length ?pre2))) = Some (Some (d, int (length (?pre2 @ ?fin))))"
        "length d = length d2" "take (length (?pre2 @ ?fin)) d = ?pre2 @ ?fin"
      using print_piece_fits [of ?pre2 ?fin ?siz d2] fit len d1(2) d2 Some by (auto simp: request_text_def)
    then show ?thesis using assms(1,2) d1 d2 Some
      by (intro exI [of _ d]) (simp add: request_line_def Let_def l_def request_text_def)
  qed
qed

lemma generate_end: "http_header_generate_string h (length h) buf blen = Some (0, buf, blen)"
  by (simp add: http_header_generate_string_def measure_loop_eq)

lemma send_head_takes:
  assumes "over_tcp c" "takes (Suc k) (nat (hc_buffer_size c)) (hc_net c)"
    "HTTP_METHOD_MAPPING (ci_method (hc_info c)) = Some meth" "ci_path (hc_info c) = Some path"
    "length (hb_data (hc_request c)) = nat (hc_buffer_size c)" "hd_headers (hc_request c) \<noteq> []"
  defines "h \<equiv> request_text meth path (ci_query (hc_info c)) @ lines_of (hd_headers (hc_request c)) @ [0x0D, 0x0A]"
  assumes fit: "int (length h) < hc_buffer_size c"
  shows "\<exists>d w. send_head c = Some (ESP_OK, c\<lparr>hc_request := (hc_request c)\<lparr>hb_data := d\<rparr>, hc_net := w, hc_state := HTTP_STATE_REQ_COMPLETE_HEADER\<rparr>) \<and>
    length d = nat (hc_buffer_size c) \<and> net_out w = net_out (hc_net c) @ h \<and> takes k (nat (hc_buffer_size c)) w \<and>
    net_reads w = net_reads (hc_net c) \<and> net_polls w = tl (net_polls (hc_net c))"
proof -
  let ?siz = "hc_buffer_size c" and ?hs = "hd_headers (hc_request c)"
  define l where "l = request_text meth path (ci_query (hc_info c))"
  obtain d where d: "request_line c = Some (Some (d, int (length l)))" "length d = nat ?siz" "take (length l) d = l"
    using request_line_fits [OF assms(3,4)] fit assms(5) by (auto simp: h_def l_def)
  let ?n = "length (lines_of ?hs) + 2"
  obtain b where b: "http_header_generate_string ?hs 0 (drop (length l) d) (?siz - int (length l)) = Some (int (length ?hs), b, int ?n)"
      "length b = length (drop (length l) d)" "take ?n b = lines_of ?hs @ [0x0D, 0x0A]"
    using generate_all [of 0 ?hs "?siz - int (length l)" "drop (length l) d"] assms(6) fit d(2) by (auto simp: h_def l_def)
  let ?d = "(take (length l) d @ b)[?n + length l := 0]"
  have ln: "?n + length l < length (take (length l) d @ b)" using fit d(2) b(2) by (auto simp: h_def l_def)
  have "take (length l + ?n) (take (length l) d @ b) = take (length l) d @ take ?n b"
    using d(2) fit by (simp add: h_def l_def)
  then have tk: "take (?n + length l) ?d = h"
    using d(3) b(3) by (simp add: h_def l_def add.commute)
  have lh: "?n + length l = length h" by (simp add: h_def l_def)
  let ?c1 = "on_request (\<lambda>r. r\<lparr>hb_data := d\<rparr>) c"
  have tcp: "over_tcp ?c1" using assms(1) by (simp add: over_tcp_def on_request_def)
  have "takes (Suc k) (nat ?siz) (hc_net ?c1)" "?n + length l \<le> nat ?siz" "?n + length l \<le> length ?d"
    using assms(2) fit lh ln by (simp_all add: on_request_def)
  from transport_write_takes [OF tcp this] obtain w where
    w: "transport_write (hc_transport ?c1) ?d (?n + length l) (hc_timeout_ms ?c1) (hc_net ?c1) = Some (int (?n + length l), ?d, w)"
      "net_out w = net_out (hc_net c) @ h" "takes k (nat ?siz) w" "net_reads w = net_reads (hc_net c)" "net_polls w = tl (net_polls (hc_net c))"
    unfolding tk by (auto simp: on_request_def)
  let ?c2 = "(on_request (\<lambda>r. r\<lparr>hb_data := ?d\<rparr>) ?c1)\<lparr>hc_net := w\<rparr>"
  have last: "header_loop (length ?hs) 0 ?siz ?c2 = Some (ESP_OK, ?c2)"
    by (subst header_loop.simps) (simp add: generate_end on_request_def)
  have "header_loop 0 (length l) (?siz - int (length l)) ?c1 = Some (ESP_OK, ?c2)"
    using b(1) w(1) ln assms(6) last
    by (subst header_loop.simps) (simp add: on_request_def wr_def nat_add_distrib)
  then have "send_head c = Some (ESP_OK, ?c2\<lparr>hc_state := HTTP_STATE_REQ_COMPLETE_HEADER\<rparr>)"
    using d(1) by (simp add: send_head_def)
  then show ?thesis using w(2-5) d(2) b(2)
    by (intro exI [of _ ?d] exI [of _ w]) (auto simp: on_request_def)
qed

lemma trim_nospace: "\<forall>c \<in> set s. \<not> isspace c \<Longrightarrow> trim s = s"
proof -
  assume a: "\<forall>c \<in> set s. \<not> isspace c"
  have d: "dropWhile isspace t = t" if "\<forall>c \<in> set t. \<not> isspace c" for t using that by (cases t) auto
  show ?thesis using d [OF a] d [of "rev s"] a by (simp add: trim_def)
qed

lemma decimal_digits: "c \<in> set (decimal n) \<Longrightarrow> \<exists>k < 10. c = of_nat (48 + k)"
proof (induction n rule: decimal.induct)
  case (1 n)
  show ?case
  proof (cases "n < 10")
    case True
    then show ?thesis using "1.prems" by (auto simp: decimal.simps [of n])
  next
    case False
    then have "c \<in> set (decimal (n div 10)) \<or> c = of_nat (48 + n mod 10)"
      using "1.prems" by (auto simp: decimal.simps [of n])
    then show ?thesis using "1.IH" [OF False] by (metis mod_less_divisor zero_less_numeral)
  qed
qed

lemma decimal_clean: "trim (decimal n) = decimal n" "0 \<notin> set (decimal n)"
proof -
  have "\<not> isspace w \<and> w \<noteq> 0" if "k < 10" "w = of_nat (48 + k)" for k and w :: byte
  proof -
    have u: "unat w = 48 + k" using that unfolding that(2) unat_of_nat by simp
    then have "w \<noteq> 0x20" "\<not> w \<le> 13" "w \<noteq> 0" by (auto simp: word_le_nat_alt)
    then show ?thesis by (simp add: isspace_def)
  qed
  then show "trim (decimal n) = decimal n" "0 \<notin> set (decimal n)"
    using decimal_digits trim_nospace by metis+
qed

abbreviation CONTENT_LENGTH :: "byte list" where "CONTENT_LENGTH \<equiv> ascii ''Content-Length''"

lemma length_header_map:
  fixes c :: "'p esp_http_client"
  assumes "header_list.wf (hd_headers (hc_request c))" "\<forall>f n. alloc f n"
  shows "\<exists>h'. length_header alloc (int n) c = Some (on_request (\<lambda>r. r\<lparr>hd_headers := h'\<rparr>) c) \<and> header_list.wf h' \<and> h' \<noteq> [] \<and>
    header_map h' = (\<lambda>j. if lower j = lower CONTENT_LENGTH then Some (decimal n) else header_map (hd_headers (hc_request c)) j)"
proof -
  let ?h = "hd_headers (hc_request c)"
  have k: "trim CONTENT_LENGTH = CONTENT_LENGTH" "0 \<notin> set CONTENT_LENGTH"
    by (auto simp: ascii_def isspace_def intro!: trim_nospace)
  obtain h' where h': "http_header_set (alloc Header_c) ?h (Some CONTENT_LENGTH) (Some (decimal n)) = Some (ESP_OK, h')" "header_list.wf h'"
      "header_map h' = (\<lambda>j. if lower j = lower CONTENT_LENGTH then Some (decimal n) else header_map ?h j)"
    using header_list_map [OF assms(1) k decimal_clean(2), of "alloc Header_c" n, THEN conjunct2, THEN conjunct1]
      assms(2) unfolding decimal_clean(1) by blast
  have "header_map h' CONTENT_LENGTH = Some (decimal n)" using h'(3) by simp
  then have "h' \<noteq> []" by (auto simp: header_map_def find_header_eq)
  then show ?thesis using h' assms(2)
    by (auto simp: length_header_def http_header_set_format_def)
qed

lemma open_connection_keeps:
  assumes "open_connection c = Some (e, c')"
  shows "hc_request c' = hc_request c \<and> hc_info c' = hc_info c \<and> hc_buffer_size c' = hc_buffer_size c \<and>
    hc_post_data c' = hc_post_data c \<and> hc_post_len c' = hc_post_len c"
  using assms by (auto simp: open_connection_def Let_def update_defs split: bind_splits if_splits)

lemma prepare_keeps:
  assumes "esp_http_client_prepare alloc md5 b64 lib c = Some (e, c')"
  shows "hc_post_data c' = hc_post_data c \<and> hc_post_len c' = hc_post_len c \<and> hc_buffer_size c' = hc_buffer_size c"
  using assms
  by (auto simp: esp_http_client_prepare_def auth_response_def new_nonce_def count_nonce_def esp_random_def
      esp_http_client_set_header_def Let_def update_defs
      split: bind_splits if_splits option.splits esp_http_client_auth_type.splits)

text \<open>
  C10. What goes on the wire. After the request was prepared and the connection is open, for a body
  of \<open>n\<close> bytes: the header list gets the content length and keeps everything else, and when the head fits the buffer and
  the network takes what it is given, the request line, all headers, the empty line and exactly the first \<open>n\<close> bytes of the
  body are written, in this order, and the client waits for the response.
\<close>

theorem request_on_the_wire:
  fixes c :: "'p esp_http_client"
  assumes "hc_state c \<noteq> HTTP_STATE_UNINIT" "\<forall>f n. alloc f n"
    and "esp_http_client_prepare alloc md5 b64 lib c = Some (ESP_OK, c1)" "open_connection c1 = Some (ESP_OK, c2)"
      "length_header alloc (int n) c2 = Some c3"
    and "over_tcp c2" "takes (Suc k) (nat (hc_buffer_size c)) (hc_net c2)"
    and "HTTP_METHOD_MAPPING (ci_method (hc_info c2)) = Some meth" "ci_path (hc_info c2) = Some path"
    and "length (hb_data (hc_request c2)) = nat (hc_buffer_size c)" "header_list.wf (hd_headers (hc_request c2))"
    and "hc_post_data c = Some d" "hc_post_len c = int n" "0 < n" "n \<le> length d" "n \<le> k * nat (hc_buffer_size c)"
    and fit: "int (length (request_text meth path (ci_query (hc_info c2)) @ lines_of (hd_headers (hc_request c3)) @ [0x0D, 0x0A]))
      < hc_buffer_size c"
  shows "header_map (hd_headers (hc_request c3)) =
      (\<lambda>j. if lower j = lower CONTENT_LENGTH then Some (decimal n) else header_map (hd_headers (hc_request c2)) j) \<and>
    (\<exists>c'. send_request alloc md5 b64 lib c = Some (ESP_OK, c') \<and> hc_state c' = HTTP_STATE_REQ_COMPLETE_HEADER \<and>
      net_out (hc_net c') = net_out (hc_net c2) @ request_text meth path (ci_query (hc_info c2)) @
        lines_of (hd_headers (hc_request c3)) @ [0x0D, 0x0A] @ take n d)"
proof -
  have keep: "hc_buffer_size c2 = hc_buffer_size c" "hc_post_data c2 = Some d" "hc_post_len c2 = int n"
    using prepare_keeps [OF assms(3)] open_connection_keeps [OF assms(4)] assms(12,13) by simp_all
  obtain h where h: "length_header alloc (int n) c2 = Some (on_request (\<lambda>r. r\<lparr>hd_headers := h\<rparr>) c2)" "h \<noteq> []"
      "header_map h = (\<lambda>j. if lower j = lower CONTENT_LENGTH then Some (decimal n) else header_map (hd_headers (hc_request c2)) j)"
    using length_header_map [OF assms(11,2)] by blast
  have c3: "c3 = on_request (\<lambda>r. r\<lparr>hd_headers := h\<rparr>) c2" using h(1) assms(5) by simp
  let ?head = "request_text meth path (ci_query (hc_info c2)) @ lines_of h @ [0x0D, 0x0A]"
  have hfit: "int (length ?head) < hc_buffer_size c" using fit by (simp add: c3 on_request_def)
  have tcp: "over_tcp c3" using assms(6) by (simp add: over_tcp_def on_request_def c3)
  obtain b w where w: "send_head c3 = Some (ESP_OK, c3\<lparr>hc_request := (hc_request c3)\<lparr>hb_data := b\<rparr>, hc_net := w,
      hc_state := HTTP_STATE_REQ_COMPLETE_HEADER\<rparr>)" "net_out w = net_out (hc_net c2) @ ?head" "takes k (nat (hc_buffer_size c)) w"
    using send_head_takes [OF tcp, of k meth path] assms(7-10) hfit h(2) keep(1) by (auto simp: on_request_def c3)
  let ?c4 = "c3\<lparr>hc_request := (hc_request c3)\<lparr>hb_data := b\<rparr>, hc_net := w, hc_state := HTTP_STATE_REQ_COMPLETE_HEADER\<rparr>"
  have o: "esp_http_client_open alloc md5 b64 lib c (int n) = Some (ESP_OK, ?c4)"
    using assms(1,3-5) w(1) by (simp add: esp_http_client_open_def)
  have "over_tcp ?c4" "0 < hc_buffer_size ?c4" "takes k (nat (hc_buffer_size ?c4)) (hc_net ?c4)"
    using assms(6) hfit w(3) keep(1) by (simp_all add: over_tcp_def on_request_def c3)
  then obtain w' where w': "write_loop d 0 (int n) ?c4 = Some (int n, ?c4\<lparr>hc_net := w'\<rparr>)" "net_out w' = net_out w @ take n d"
    using write_loop_takes [of ?c4 "int n" k 0 d] assms(15,16) keep(1) by (auto simp: on_request_def c3)
  have "esp_http_client_write ?c4 d (int n) = Some (int n, ?c4\<lparr>hc_net := w'\<rparr>)"
    using w'(1) by (simp add: esp_http_client_write_def state_order)
  then have "send_request alloc md5 b64 lib c = Some (ESP_OK, ?c4\<lparr>hc_net := w'\<rparr>)"
    using o assms(13,14) keep(2,3) by (simp add: send_request_def on_request_def c3)
  then show ?thesis using w(2) w'(2) h(3) by (auto simp: c3 on_request_def)
qed

definition sample_net :: net where
  "sample_net = \<lparr>net_resolves = (\<lambda>_. True), net_sockets = [], net_connects = [], net_polls = [1, 1, 1, 1], net_reads = [],
     net_writes = [1000, 1000, 1000], net_closes = [], net_out = [], net_rand = [], tcp_sock = 3\<rparr>"

definition sample_client :: "unit esp_http_client" where
  "sample_client = (new_client () sample_net [])\<lparr>hc_transport := transport_tcp_init True True 1, hc_state := HTTP_STATE_CONNECTED,
     hc_max_redirection_count := 10, hc_buffer_size := 64, hc_event_handler := True, hc_post_data := Some (ascii ''hi''), hc_post_len := 2,
     hc_request := new_data\<lparr>hb_data := replicate 64 0\<rparr>, hc_response := new_data\<lparr>hb_data := replicate 64 0\<rparr>,
     hc_info := no_connection_info\<lparr>ci_path := Some (ascii ''/''), ci_method := HTTP_METHOD_POST\<rparr>\<rparr>"

theorem request_on_the_wire_witness:
  "\<exists>c'. send_request (\<lambda>_ _. True) (\<lambda>x. x) (\<lambda>x. x) \<lparr>pl_init = (), pl_execute = (\<lambda>_ _. ([], ())), pl_keep_alive = (\<lambda>_. True)\<rparr>
     sample_client = Some (ESP_OK, c') \<and>
     net_out (hc_net c') = ascii ''POST / HTTP/1.1'' @ [0x0D, 0x0A] @ ascii ''Content-Length: 2'' @ [0x0D, 0x0A, 0x0D, 0x0A] @ ascii ''hi''"
proof -
  let ?alloc = "\<lambda>(_ :: c_file) (_ :: nat). True" and ?lib = "\<lparr>pl_init = (), pl_execute = (\<lambda>_ _. ([], ())), pl_keep_alive = (\<lambda>_. True)\<rparr>"
  have p: "esp_http_client_prepare ?alloc (\<lambda>x. x) (\<lambda>x. x) ?lib sample_client = Some (ESP_OK, sample_client)"
    by (simp add: esp_http_client_prepare_def sample_client_def new_client_def on_response_def no_connection_info_def new_data_def)
  have o: "open_connection sample_client = Some (ESP_OK, sample_client)"
    by (simp add: open_connection_def sample_client_def state_order)
  have t: "trimmed CONTENT_LENGTH = Some CONTENT_LENGTH" "trimmed (ascii ''2'') = Some (ascii ''2'')" "decimal 2 = ascii ''2''"
    by (simp_all add: trimmed_eq trim_def ascii_def isspace_def decimal.simps [of 2])
  let ?c3 = "on_request (\<lambda>r. r\<lparr>hd_headers := [\<lparr>h_key = CONTENT_LENGTH, h_value = ascii ''2''\<rparr>]\<rparr>) sample_client"
  have l: "length_header ?alloc (int 2) sample_client = Some ?c3"
    using t by (simp add: length_header_def http_header_set_format_def http_header_set_def get_item_eq http_header_new_item_def
        sample_client_def new_client_def new_data_def on_request_def)
  have f: "hc_state sample_client \<noteq> HTTP_STATE_UNINIT" "\<forall>f n. ?alloc f n" "over_tcp sample_client"
    "takes (Suc 1) (nat (hc_buffer_size sample_client)) (hc_net sample_client)"
    "HTTP_METHOD_MAPPING (ci_method (hc_info sample_client)) = Some (ascii ''POST'')" "ci_path (hc_info sample_client) = Some (ascii ''/'')"
    "length (hb_data (hc_request sample_client)) = nat (hc_buffer_size sample_client)"
    "header_list.wf (hd_headers (hc_request sample_client))" "hc_post_data sample_client = Some (ascii ''hi'')"
    "hc_post_len sample_client = int 2" "0 < (2 :: nat)" "2 \<le> length (ascii ''hi'')" "2 \<le> 1 * nat (hc_buffer_size sample_client)"
    by (simp_all add: sample_client_def new_client_def new_data_def sample_net_def takes_def over_tcp_def no_connection_info_def
        transport_tcp_init_def transport_init_def transport_set_func_def transport_set_context_data_def header_list.wf_def ascii_def)
  have q: "ci_query (hc_info sample_client) = None" "net_out (hc_net sample_client) = []" "hc_buffer_size sample_client = 64"
    "hd_headers (hc_request ?c3) = [\<lparr>h_key = CONTENT_LENGTH, h_value = ascii ''2''\<rparr>]"
    by (simp_all add: sample_client_def new_client_def no_connection_info_def sample_net_def on_request_def)
  have "int (length (request_text (ascii ''POST'') (ascii ''/'') (ci_query (hc_info sample_client)) @
      lines_of (hd_headers (hc_request ?c3)) @ [0x0D, 0x0A])) < hc_buffer_size sample_client"
    unfolding q by (simp add: request_text_def header_line_def ascii_def)
  from request_on_the_wire [OF f(1,2) p o l f(3-) this, THEN conjunct2]
  show ?thesis unfolding q by (auto simp: request_text_def header_line_def ascii_def)
qed

section \<open>Requests and responses\<close>


text \<open>A parser that takes the first bytes for complete headers with status 200.\<close>

definition sample_lib :: "unit http_parser_lib" where
  "sample_lib = \<lparr>pl_init = (), pl_execute = (\<lambda>_ bs. (if length bs < 2 then [] else
     [On_message_begin, On_headers_complete 200 1 1, On_body 1 1, On_message_complete], ())), pl_keep_alive = (\<lambda>_. True)\<rparr>"

definition sample_get :: "unit esp_http_client" where
  "sample_get = sample_client\<lparr>hc_net := sample_net\<lparr>net_reads := [Some [1, 2]]\<rparr>, hc_buffer_size := 40, hc_disable_auto_redirect := True,
     hc_post_data := None, hc_post_len := 0, hc_request := new_data\<lparr>hb_data := replicate 40 0\<rparr>,
     hc_response := new_data\<lparr>hb_data := replicate 40 0\<rparr>\<rparr>"

lemma sample_get_sent:
  "\<exists>d w. send_request (\<lambda>_ _. True) id id sample_lib sample_get = Some (ESP_OK,
     sample_get\<lparr>hc_request := new_data\<lparr>hd_headers := [\<lparr>h_key = CONTENT_LENGTH, h_value = ascii ''0''\<rparr>], hb_data := d\<rparr>, hc_net := w,
       hc_state := HTTP_STATE_REQ_COMPLETE_HEADER\<rparr>) \<and> length d = 40 \<and> net_reads w = [Some [1, 2]] \<and> net_polls w = [1, 1, 1]"
proof -
  let ?alloc = "\<lambda>(_ :: c_file) (_ :: nat). True"
  have p: "esp_http_client_prepare ?alloc id id sample_lib sample_get = Some (ESP_OK, sample_get)"
    by (simp add: esp_http_client_prepare_def sample_get_def sample_client_def new_client_def on_response_def no_connection_info_def
        new_data_def sample_lib_def)
  have o: "open_connection sample_get = Some (ESP_OK, sample_get)"
    by (simp add: open_connection_def sample_get_def sample_client_def state_order)
  have t: "trimmed CONTENT_LENGTH = Some CONTENT_LENGTH" "trimmed (ascii ''0'') = Some (ascii ''0'')" "decimal 0 = ascii ''0''"
    by (simp_all add: trimmed_eq trim_def ascii_def isspace_def decimal.simps [of 0])
  let ?c3 = "on_request (\<lambda>r. r\<lparr>hd_headers := [\<lparr>h_key = CONTENT_LENGTH, h_value = ascii ''0''\<rparr>]\<rparr>) sample_get"
  have l: "length_header ?alloc 0 sample_get = Some ?c3"
    using t by (simp add: length_header_def http_header_set_format_def http_header_set_def get_item_eq http_header_new_item_def
        sample_get_def sample_client_def new_client_def new_data_def on_request_def)
  have f: "over_tcp ?c3" "takes (Suc 1) (nat (hc_buffer_size ?c3)) (hc_net ?c3)"
    "HTTP_METHOD_MAPPING (ci_method (hc_info ?c3)) = Some (ascii ''POST'')" "ci_path (hc_info ?c3) = Some (ascii ''/'')"
    "length (hb_data (hc_request ?c3)) = nat (hc_buffer_size ?c3)" "hd_headers (hc_request ?c3) \<noteq> []"
    by (simp_all add: sample_get_def sample_client_def new_client_def new_data_def sample_net_def takes_def over_tcp_def no_connection_info_def
        transport_tcp_init_def transport_init_def transport_set_func_def transport_set_context_data_def on_request_def)
  have "int (length (request_text (ascii ''POST'') (ascii ''/'') (ci_query (hc_info ?c3)) @ lines_of (hd_headers (hc_request ?c3)) @ [0x0D, 0x0A]))
      < hc_buffer_size ?c3"
    by (simp add: request_text_def header_line_def ascii_def sample_get_def sample_client_def no_connection_info_def on_request_def)
  from send_head_takes [OF f this] obtain d w where
    s: "send_head ?c3 = Some (ESP_OK, ?c3\<lparr>hc_request := (hc_request ?c3)\<lparr>hb_data := d\<rparr>, hc_net := w, hc_state := HTTP_STATE_REQ_COMPLETE_HEADER\<rparr>)"
      "length d = nat (hc_buffer_size ?c3)" "net_reads w = net_reads (hc_net ?c3)" "net_polls w = tl (net_polls (hc_net ?c3))"
    by blast
  have "esp_http_client_open ?alloc id id sample_lib sample_get 0 =
      Some (ESP_OK, ?c3\<lparr>hc_request := (hc_request ?c3)\<lparr>hb_data := d\<rparr>, hc_net := w, hc_state := HTTP_STATE_REQ_COMPLETE_HEADER\<rparr>)"
    using p o l s(1) by (simp add: esp_http_client_open_def) (simp add: sample_get_def sample_client_def)
  then have "send_request ?alloc id id sample_lib sample_get =
      Some (ESP_OK, ?c3\<lparr>hc_request := (hc_request ?c3)\<lparr>hb_data := d\<rparr>, hc_net := w, hc_state := HTTP_STATE_REQ_COMPLETE_HEADER\<rparr>)"
    by (simp add: send_request_def sample_get_def on_request_def)
  moreover have "?c3\<lparr>hc_request := (hc_request ?c3)\<lparr>hb_data := d\<rparr>, hc_net := w, hc_state := HTTP_STATE_REQ_COMPLETE_HEADER\<rparr> =
    sample_get\<lparr>hc_request := new_data\<lparr>hd_headers := [\<lparr>h_key = CONTENT_LENGTH, h_value = ascii ''0''\<rparr>], hb_data := d\<rparr>, hc_net := w,
       hc_state := HTTP_STATE_REQ_COMPLETE_HEADER\<rparr>"
    by (simp add: on_request_def sample_get_def)
  ultimately show ?thesis using s(2-4)
    by (simp add: on_request_def sample_get_def sample_net_def) blast
qed

text \<open>
  C39. A client whose redirections are switched off or used up never succeeds. The counter is
  compared before the status is looked at, and nothing resets it: \<open>perform\<close> does not return success for any response, and when
  the response arrives it returns the redirection error, though the status may be 200.
\<close>

theorem exhausted_client_never_succeeds:
  assumes "hc_disable_auto_redirect c \<or> hc_max_redirection_count c \<le> hc_redirect_counter c"
  shows "esp_http_client_perform alloc md5 b64 parse_url stale lib c \<noteq> Some (ESP_OK, c') \<and>
    (send_request alloc md5 b64 lib c = Some (ESP_OK, c1) \<and> esp_http_client_fetch_headers alloc lib c1 = Some (n, c2) \<and> 0 \<le> n \<longrightarrow>
       esp_http_client_perform alloc md5 b64 parse_url stale lib c = Some (ESP_ERR_HTTP_MAX_REDIRECT, c2))"
proof (intro conjI impI)
  have "perform_round alloc md5 b64 parse_url stale lib c \<noteq> Some (Inr ck)" for ck
    using perform_round_steps [of alloc md5 b64 parse_url stale lib c "Inr ck" ck] assms by auto
  moreover have "perform_round alloc md5 b64 parse_url stale lib c \<noteq> Some (Inl (ESP_OK, c'))"
    using perform_round_steps [of alloc md5 b64 parse_url stale lib c "Inl (ESP_OK, c')" c'] assms by auto
  ultimately show "esp_http_client_perform alloc md5 b64 parse_url stale lib c \<noteq> Some (ESP_OK, c')"
    by (auto simp: esp_http_client_perform.simps [of _ _ _ _ _ _ c] split: bind_splits sum.splits)
next
  assume a: "send_request alloc md5 b64 lib c = Some (ESP_OK, c1) \<and> esp_http_client_fetch_headers alloc lib c1 = Some (n, c2) \<and> 0 \<le> n"
  then have "limits c2 = limits c"
    using send_request_round [of alloc md5 b64 lib c c1] limits_fixed [OF fixed_fetch [of alloc lib c1 n c2]] by simp
  then have "esp_http_check_response alloc parse_url stale c2 = Some (ESP_ERR_HTTP_MAX_REDIRECT, c2)"
    using assms by (auto simp: esp_http_check_response_def limits_def)
  then have "perform_round alloc md5 b64 parse_url stale lib c = Some (Inl (ESP_ERR_HTTP_MAX_REDIRECT, c2))"
    using a by (simp add: perform_round_def)
  then show "esp_http_client_perform alloc md5 b64 parse_url stale lib c = Some (ESP_ERR_HTTP_MAX_REDIRECT, c2)"
    by (simp add: esp_http_client_perform.simps [of _ _ _ _ _ _ c])
qed

theorem exhausted_client_never_succeeds_witness:
  "\<exists>c'. esp_http_client_perform (\<lambda>_ _. True) id id (\<lambda>_. None) (\<lambda>_. Some) sample_lib sample_get = Some (ESP_ERR_HTTP_MAX_REDIRECT, c') \<and>
     hd_status_code (hc_response c') = 200"
proof -
  obtain d w where s: "send_request (\<lambda>_ _. True) id id sample_lib sample_get = Some (ESP_OK,
     sample_get\<lparr>hc_request := new_data\<lparr>hd_headers := [\<lparr>h_key = CONTENT_LENGTH, h_value = ascii ''0''\<rparr>], hb_data := d\<rparr>, hc_net := w,
       hc_state := HTTP_STATE_REQ_COMPLETE_HEADER\<rparr>)" and w: "net_reads w = [Some [1, 2]]" "net_polls w = [1, 1, 1]"
    using sample_get_sent by blast
  let ?c1 = "sample_get\<lparr>hc_request := new_data\<lparr>hd_headers := [\<lparr>h_key = CONTENT_LENGTH, h_value = ascii ''0''\<rparr>], hb_data := d\<rparr>, hc_net := w,
       hc_state := HTTP_STATE_REQ_COMPLETE_HEADER\<rparr>"
  have "\<exists>c2. esp_http_client_fetch_headers (\<lambda>_ _. True) sample_lib ?c1 = Some (1, c2) \<and> hd_status_code (hc_response c2) = 200"
    by (simp add: esp_http_client_fetch_headers_def fetch_loop.simps state_order read_into_def transport_read_def w
        sample_get_def sample_client_def transport_tcp_init_def transport_init_def transport_set_func_def transport_set_context_data_def
        tcp_read_def tcp_poll_read_def net_select_def net_read_def next_of_def blit_def new_data_def http_parser_execute_def sample_lib_def
        http_on_message_begin_def http_on_headers_complete_def http_on_body_def http_on_message_complete_def update_defs Let_def)
  then obtain c2 where f: "esp_http_client_fetch_headers (\<lambda>_ _. True) sample_lib ?c1 = Some (1, c2)" "hd_status_code (hc_response c2) = 200"
    by blast
  have "hc_disable_auto_redirect sample_get \<or> hc_max_redirection_count sample_get \<le> hc_redirect_counter sample_get"
    by (simp add: sample_get_def)
  from exhausted_client_never_succeeds [OF this, THEN conjunct2, rule_format, of "\<lambda>_ _. True" id id sample_lib ?c1 1 c2] show ?thesis
    using s f by auto
qed



section \<open>URLs and credentials\<close>

definition sample_url :: "byte list \<Rightarrow> http_parser_url option" where
  "sample_url u = Some \<lparr>pu_schema = (0, 0), pu_host = (0, length u), pu_port = (0, 0), pu_path = (0, 0), pu_query = (0, 0), pu_userinfo = (0, 0)\<rparr>"

lemma assign_text:
  assumes "0 \<notin> set s" "s \<noteq> []"
  shows "assign (\<lambda>_ _. True) old (s @ 0 # r) 0 = Some s"
    "n = int (length s) \<Longrightarrow> assign (\<lambda>_ _. True) old (s @ 0 # r) n = Some s"
  using assms by (simp_all add: assign_def http_utils_assign_string_def str_arg_def c_str_append)

text \<open>
  A new host goes unnoticed. \<open>esp_http_client_set_url\<close> compares the new host with the old pointer,
  after the string was reallocated; when the object did not move, no URL ever changes the Host header, and a connection on
  the same port stays open, to the old host.
\<close>

theorem new_host_unnoticed:
  assumes "\<And>old new. stale old new = Some new" "esp_http_client_set_url alloc parse_url stale c (Some u) = Some (e, c')"
  shows "hd_headers (hc_request c') = hd_headers (hc_request c) \<and>
    (ci_port (hc_info c') = ci_port (hc_info c) \<longrightarrow> hc_state c' = hc_state c \<and> hc_net c' = hc_net c)"
proof (cases "parse_url u")
  case None
  then show ?thesis using assms(2) by (simp add: esp_http_client_set_url_def)
next
  case (Some purl)
  obtain e1 c1 where c1: "set_url_host alloc stale u purl c = Some (e1, c1)"
    using assms(2) Some by (auto simp: esp_http_client_set_url_def split: bind_splits)
  then have 1: "e1 = ESP_OK" "hc_request c1 = hc_request c" "hc_state c1 = hc_state c" "hc_net c1 = hc_net c"
      "ci_port (hc_info c1) = ci_port (hc_info c)"
    by (auto simp: set_url_host_def assms(1) Let_def on_info_def split: if_splits bind_splits option.splits)
  obtain c2 i i' where c2: "set_url_port alloc u purl (ci_port (hc_info c)) c1 = Some c2"
      "set_url_user alloc u purl (hc_info c2) = Some i" "set_url_path alloc u purl i = Some i'" "c' = c2\<lparr>hc_info := i'\<rparr>"
    using assms(2) Some c1 1(1) by (auto simp: esp_http_client_set_url_def split: bind_splits)
  have cl: "hc_info (snd (esp_http_client_close c)) = hc_info c" "hc_request (snd (esp_http_client_close c)) = hc_request c" for c :: "'a esp_http_client"
    using fixed_close [of c] by (simp_all add: fixed_def)
  obtain j where "c2 = (if ci_port (hc_info c) \<noteq> ci_port j then snd (esp_http_client_close (c1\<lparr>hc_info := j\<rparr>)) else c1\<lparr>hc_info := j\<rparr>)"
    using c2(1) by (auto simp: set_url_port_def Let_def split: bind_splits)
  then have 2: "hc_request c2 = hc_request c" "ci_port (hc_info c2) = ci_port (hc_info c) \<longrightarrow> hc_state c2 = hc_state c \<and> hc_net c2 = hc_net c"
    using 1(2-4) by (simp_all add: cl)
  have "ci_port i' = ci_port (hc_info c2)"
    using c2(2,3) by (auto simp: set_url_user_def set_url_path_def Let_def split: if_splits bind_splits)
  then show ?thesis using 2 c2(4) by simp
qed

theorem new_host_unnoticed_witness:
  "\<exists>c'. esp_http_client_set_url (\<lambda>_ _. True) sample_url (\<lambda>_. Some)
       (sample_client\<lparr>hc_info := (hc_info sample_client)\<lparr>ci_host := Some (ascii ''a'')\<rparr>\<rparr>) (Some (ascii ''b'')) = Some (ESP_OK, c') \<and>
     ci_host (hc_info c') = Some (ascii ''b'') \<and> hc_state c' = HTTP_STATE_CONNECTED \<and>
     hd_headers (hc_request c') = hd_headers (hc_request sample_client)"
proof -
  let ?c = "sample_client\<lparr>hc_info := (hc_info sample_client)\<lparr>ci_host := Some (ascii ''a'')\<rparr>\<rparr>"
  have a: "assign (\<lambda>_ _. True) old (ascii ''/'' @ [0]) 0 = Some (ascii ''/'')"
    "assign (\<lambda>_ _. True) old (ascii ''b'' @ [0]) 1 = Some (ascii ''b'')" for old
    by (rule assign_text; simp add: ascii_def)+
  have lb: "length (ascii ''b'') = 1" by (simp add: ascii_def)
  have "\<exists>c'. esp_http_client_set_url (\<lambda>_ _. True) sample_url (\<lambda>_. Some) ?c (Some (ascii ''b'')) = Some (ESP_OK, c') \<and>
      ci_host (hc_info c') = Some (ascii ''b'') \<and> ci_port (hc_info c') = ci_port (hc_info ?c)"
    by (simp add: esp_http_client_set_url_def sample_url_def set_url_host_def set_url_port_def url_port_info_def set_url_user_def
        set_url_path_def assign_field_def a lb on_info_def sample_client_def no_connection_info_def)
  then obtain c' where c': "esp_http_client_set_url (\<lambda>_ _. True) sample_url (\<lambda>_. Some) ?c (Some (ascii ''b'')) = Some (ESP_OK, c')"
      "ci_host (hc_info c') = Some (ascii ''b'')" "ci_port (hc_info c') = ci_port (hc_info ?c)" by blast
  have "hc_state ?c = HTTP_STATE_CONNECTED" "hd_headers (hc_request ?c) = hd_headers (hc_request sample_client)"
    by (simp_all add: sample_client_def)
  then show ?thesis using new_host_unnoticed [OF _ c'(1)] c' by auto
qed

text \<open>The credentials of the configuration are dropped: \<open>esp_http_client_set_url\<close> clears them for a URL without user.\<close>

lemma config_credentials_lost:
  assumes "parse_url u = Some purl" "snd (pu_userinfo purl) = 0"
    "esp_http_client_set_url alloc parse_url stale c (Some u) = Some (ESP_OK, c')"
  shows "ci_username (hc_info c') = None \<and> ci_password (hc_info c') = None"
  using assms
  by (auto simp: esp_http_client_set_url_def set_url_user_def set_url_path_def split: bind_splits if_splits)

text \<open>An answer 401 without a challenge is undefined: the header is trimmed before it is tested for NULL.\<close>

lemma unauthorized_without_challenge:
  "hc_auth_header c = None \<Longrightarrow> unauthorized alloc c = None"
  by (simp add: unauthorized_def)

text \<open>The value of an empty header is taken from the rest of the buffer, and past its end when no zero byte follows.\<close>

lemma empty_header_overrun:
  assumes "hc_current_header_key c = Some (ascii ''X'')" "0 \<notin> set (drop at (hb_data (hc_response c)))"
  shows "http_on_header_value alloc at 0 c = None"
proof -
  have "store_header alloc (ascii ''X'') m 0 c = Some c" for m
    by (simp add: store_header_def lower_def ascii_def tolower_def)
  moreover have "assign alloc old (drop at (hb_data (hc_response c))) 0 = None" for old
    using assms(2) by (simp add: assign_def http_utils_assign_string_def str_arg_def c_str_def)
  ultimately show ?thesis using assms(1) by (simp add: http_on_header_value_def Let_def)
qed

end
