(* ===== verification/Http_Types.thy ===== *)
theory Http_Types
  imports Http_Exchange
begin

text \<open>
  Well-formed HTTP clients: the buffers have the configured size, the connection information is complete, the state is one of
  those the code compares with, and a connected client has a transport. Every operation keeps this, the transports being
  held to the contracts \<open>stream_reader\<close> and \<open>stream_writer\<close>, and \<open>esp_http_client_init\<close> establishes it.
\<close>

section \<open>Well-formed clients\<close>

text \<open>The contract of the transports: reads and writes leave the size of the buffer alone.\<close>

definition keeps_buffers :: "transport_item \<Rightarrow> bool" where
  "keeps_buffers t \<longleftrightarrow> (\<forall>f. tr_read t = Some f \<longrightarrow> stream_reader f) \<and>
     (\<forall>f. tr_write t = Some f \<longrightarrow> (\<exists>carries. stream_writer f carries))"

definition buffers_ok :: "'p esp_http_client \<Rightarrow> bool" where
  "buffers_ok c \<longleftrightarrow> 0 < hc_buffer_size c \<and> length (hb_data (hc_request c)) = nat (hc_buffer_size c) \<and>
     length (hb_data (hc_response c)) = nat (hc_buffer_size c) \<and> list_all keeps_buffers (hc_transport_list c) \<and>
     (\<forall>t. hc_transport c = Some t \<longrightarrow> keeps_buffers t)"

definition state_ok :: "'p esp_http_client \<Rightarrow> bool" where
  "state_ok c \<longleftrightarrow> HTTP_STATE_INIT \<le> hc_state c \<and> hc_state c \<le> HTTP_STATE_RES_COMPLETE_HEADER \<and>
     (HTTP_STATE_INIT < hc_state c \<longrightarrow> hc_transport c \<noteq> None)"

definition info_ok :: "connection_info \<Rightarrow> bool" where
  "info_ok i \<longleftrightarrow> ci_method i \<noteq> HTTP_METHOD_MAX \<and> ci_scheme i \<noteq> None \<and> ci_host i \<noteq> None \<and> ci_path i \<noteq> None"

definition client_ok :: "'p esp_http_client \<Rightarrow> bool" where
  "client_ok c \<longleftrightarrow> buffers_ok c \<and> state_ok c \<and> info_ok (hc_info c) \<and> hb_output (hc_response c) = None"

lemma transport_read_len:
  assumes "transport_read t buf len tmo w = Some (r, buf', w')" "\<forall>i. t = Some i \<longrightarrow> keeps_buffers i"
  shows "length buf' = length buf"
  using assms by (auto simp: transport_read_def keeps_buffers_def split: option.splits dest: stream_reader.read_len)

lemma transport_write_len:
  assumes "transport_write t buf len tmo w = Some (r, buf', w')" "\<forall>i. t = Some i \<longrightarrow> keeps_buffers i"
  shows "length buf' = length buf"
  using assms by (auto simp: transport_write_def keeps_buffers_def split: option.splits dest: stream_writer.write_len)

lemma tcp_keeps_buffers: "transport_tcp_init a b n = Some t \<Longrightarrow> keeps_buffers t"
proof -
  assume "transport_tcp_init a b n = Some t"
  then have "tr_read t = Some tcp_read" "tr_write t = Some tcp_write"
    by (auto simp: transport_tcp_init_def transport_init_def transport_set_func_def transport_set_context_data_def split: if_splits)
  moreover have "stream_reader tcp_read" "stream_writer tcp_write (\<lambda>bs d. bs = d)"
    by (rule tcp_in.stream_reader_axioms, rule tcp_out.stream_writer_axioms)
  ultimately show ?thesis by (auto simp: keeps_buffers_def)
qed

text \<open>Updates that do not touch what is well-formed.\<close>

lemma ok_updates [simp]:
  "client_ok (c\<lparr>hc_parser := p\<rparr>) = client_ok c" "client_ok (c\<lparr>hc_net := w\<rparr>) = client_ok c"
  "client_ok (c\<lparr>hc_is_chunk_complete := b\<rparr>) = client_ok c" "client_ok (c\<lparr>hc_process_again := b\<rparr>) = client_ok c"
  "client_ok (c\<lparr>hc_location := l\<rparr>) = client_ok c" "client_ok (c\<lparr>hc_auth_header := l\<rparr>) = client_ok c"
  "client_ok (c\<lparr>hc_current_header_key := l\<rparr>) = client_ok c" "client_ok (c\<lparr>hc_current_header_value := l\<rparr>) = client_ok c"
  "client_ok (c\<lparr>hc_auth_data := a\<rparr>) = client_ok c" "client_ok (c\<lparr>hc_rand := r\<rparr>) = client_ok c"
  "client_ok (c\<lparr>hc_redirect_counter := n\<rparr>) = client_ok c" "client_ok (c\<lparr>hc_post_data := x\<rparr>) = client_ok c"
  "client_ok (c\<lparr>hc_post_len := n\<rparr>) = client_ok c" "client_ok (http_dispatch_event e d k v c) = client_ok c"
  by (simp_all add: client_ok_def buffers_ok_def state_ok_def http_dispatch_event_def)

lemma ok_on_response:
  "client_ok c \<Longrightarrow> (\<And>r. length (hb_data (f r)) = length (hb_data r)) \<Longrightarrow> (\<And>r. hb_output r = None \<Longrightarrow> hb_output (f r) = None) \<Longrightarrow>
     client_ok (on_response f c)"
  by (simp add: client_ok_def buffers_ok_def state_ok_def on_response_def)

lemma ok_on_request:
  "client_ok c \<Longrightarrow> length (hb_data (f (hc_request c))) = length (hb_data (hc_request c)) \<Longrightarrow> client_ok (on_request f c)"
  by (simp add: client_ok_def buffers_ok_def state_ok_def on_request_def)

lemma ok_info: "client_ok c \<Longrightarrow> info_ok i \<Longrightarrow> client_ok (c\<lparr>hc_info := i\<rparr>)"
  by (simp add: client_ok_def buffers_ok_def state_ok_def)

lemma ok_state:
  "client_ok c \<Longrightarrow> HTTP_STATE_INIT \<le> s \<Longrightarrow> s \<le> HTTP_STATE_RES_COMPLETE_HEADER \<Longrightarrow> s \<le> HTTP_STATE_INIT \<or> hc_transport c \<noteq> None \<Longrightarrow>
     client_ok (c\<lparr>hc_state := s\<rparr>)"
  by (auto simp: client_ok_def buffers_ok_def state_ok_def)

text \<open>The receive path. The output pointer may be set while \<open>esp_http_client_read\<close> runs.\<close>

definition reading_ok :: "'p esp_http_client \<Rightarrow> bool" where
  "reading_ok c \<longleftrightarrow> buffers_ok c \<and> state_ok c \<and> info_ok (hc_info c) \<and> hc_transport c \<noteq> None"

lemma reading_updates [simp]:
  "reading_ok (c\<lparr>hc_parser := p\<rparr>) = reading_ok c" "reading_ok (c\<lparr>hc_net := w\<rparr>) = reading_ok c"
  "reading_ok (c\<lparr>hc_is_chunk_complete := b\<rparr>) = reading_ok c"
  "reading_ok (c\<lparr>hc_location := l\<rparr>) = reading_ok c" "reading_ok (c\<lparr>hc_auth_header := l\<rparr>) = reading_ok c"
  "reading_ok (c\<lparr>hc_current_header_key := l\<rparr>) = reading_ok c" "reading_ok (c\<lparr>hc_current_header_value := l\<rparr>) = reading_ok c"
  "reading_ok (http_dispatch_event e d k v c) = reading_ok c"
  by (simp_all add: reading_ok_def buffers_ok_def state_ok_def http_dispatch_event_def)

definition no_output :: "'p esp_http_client \<Rightarrow> bool" where
  "no_output c \<longleftrightarrow> hb_output (hc_response c) = None"

lemma no_output_updates [simp]:
  "no_output (http_dispatch_event e d k v c) = no_output c"
  "no_output (c\<lparr>hc_current_header_key := l\<rparr>) = no_output c" "no_output (c\<lparr>hc_current_header_value := l\<rparr>) = no_output c"
  by (simp_all add: no_output_def http_dispatch_event_def)

lemma callback_reading:
  assumes "parser_callback alloc e c = Some c'" "reading_ok c"
  shows "reading_ok c' \<and> (no_output c \<longrightarrow> no_output c')"
proof -
  have s: "reading_ok c1 \<and> (no_output c \<longrightarrow> no_output c1)" if "store_header alloc key m len c = Some c1" for key m len c1
    using that assms(2)
    by (auto simp: store_header_def on_response_def reading_ok_def buffers_ok_def state_ok_def no_output_def split: bind_splits if_splits)
  show ?thesis
  proof (cases e)
    case (On_header_value a l)
    then show ?thesis using assms
      by (auto simp: http_on_header_value_def Let_def split: bind_splits option.splits dest!: s)
  next
    case (On_headers_complete st n l)
    then show ?thesis using assms
      by (auto simp: http_on_headers_complete_def on_response_def reading_ok_def buffers_ok_def state_ok_def no_output_def state_order)
  qed (use assms in \<open>auto simp: http_on_message_begin_def http_on_header_field_def http_on_body_def http_on_message_complete_def
      on_response_def reading_ok_def buffers_ok_def state_ok_def no_output_def Let_def http_dispatch_event_def
      split: bind_splits option.splits if_splits\<close>)
qed

lemma execute_reading:
  assumes "http_parser_execute alloc lib n c = Some c'" "reading_ok c"
  shows "reading_ok c' \<and> (no_output c \<longrightarrow> no_output c')"
proof -
  have r: "run_callbacks alloc es c = Some c' \<Longrightarrow> reading_ok c \<Longrightarrow> reading_ok c' \<and> (no_output c \<longrightarrow> no_output c')" for es c c'
    by (induction es arbitrary: c) (auto split: bind_splits dest: callback_reading)
  obtain evs p where "pl_execute lib (hc_parser c) (take n (hb_data (hc_response c))) = (evs, p)"
    by (cases "pl_execute lib (hc_parser c) (take n (hb_data (hc_response c)))")
  then have "run_callbacks alloc evs (c\<lparr>hc_parser := p\<rparr>) = Some c'" using assms(1) by (simp add: http_parser_execute_def)
  from r [OF this] show ?thesis using assms(2) by (simp add: no_output_def)
qed

lemma read_into_reading:
  assumes "read_into n c = Some (r, c')" "reading_ok c"
  shows "reading_ok c' \<and> (no_output c \<longrightarrow> no_output c')"
  using assms transport_read_len
  by (fastforce simp: read_into_def reading_ok_def buffers_ok_def state_ok_def no_output_def on_response_def split: bind_splits)

lemma reading_client: "client_ok c \<Longrightarrow> hc_transport c \<noteq> None \<Longrightarrow> reading_ok c \<and> no_output c"
  by (simp add: client_ok_def reading_ok_def no_output_def)

lemma client_reading: "reading_ok c \<Longrightarrow> no_output c \<Longrightarrow> client_ok c"
  by (simp add: client_ok_def reading_ok_def no_output_def)

lemma connected_transport: "client_ok c \<Longrightarrow> HTTP_STATE_INIT < hc_state c \<Longrightarrow> hc_transport c \<noteq> None"
  by (simp add: client_ok_def state_ok_def)

lemma get_data_reading:
  assumes "esp_http_client_get_data alloc lib c = Some (r, c')" "reading_ok c"
  shows "reading_ok c' \<and> (no_output c \<longrightarrow> no_output c')"
  using assms
  by (auto simp: esp_http_client_get_data_def split: bind_splits if_splits dest!: execute_reading read_into_reading)

lemma body_loop_reading:
  assumes "body_loop left alloc lib c = Some c'"
  shows "reading_ok c \<longrightarrow> reading_ok c' \<and> (no_output c \<longrightarrow> no_output c')"
proof (rule body_loop.raw_induct [where P = "\<lambda>left alloc lib c c'. reading_ok c \<longrightarrow> reading_ok c' \<and> (no_output c \<longrightarrow> no_output c')",
      OF _ assms], goal_cases)
  case (1 f left alloc lib c c')
  then show ?case
    by (auto split: bind_splits if_splits dest!: get_data_reading)
qed

lemma fetch_loop_reading:
  assumes "fetch_loop alloc lib c = Some r"
  shows "reading_ok c \<longrightarrow> reading_ok (snd r) \<and> (no_output c \<longrightarrow> no_output (snd r))"
proof (rule fetch_loop.raw_induct [where P = "\<lambda>alloc lib c r. reading_ok c \<longrightarrow> reading_ok (snd r) \<and> (no_output c \<longrightarrow> no_output (snd r))",
      OF _ assms], goal_cases)
  case (1 f alloc lib c r)
  have h: "reading_ok (on_response (\<lambda>r. r\<lparr>hb_len := n\<rparr>) c) = reading_ok c" "no_output (on_response (\<lambda>r. r\<lparr>hb_len := n\<rparr>) c) = no_output c"
    for n and c :: "'a esp_http_client"
    by (simp_all add: reading_ok_def buffers_ok_def state_ok_def no_output_def on_response_def)
  show ?case
  proof
    assume ok: "reading_ok c"
    show "reading_ok (snd r) \<and> (no_output c \<longrightarrow> no_output (snd r))"
    proof (cases "hc_state c < HTTP_STATE_RES_COMPLETE_HEADER")
      case False
      then show ?thesis using 1(2) ok by auto
    next
      case True
      then obtain n c1 where n: "read_into (nat (hc_buffer_size c)) c = Some (n, c1)" using 1(2) by (auto split: bind_splits)
      have c1: "reading_ok c1 \<and> (no_output c \<longrightarrow> no_output c1)" using read_into_reading [OF n ok] .
      show ?thesis
      proof (cases "n \<le> 0")
        case n0: True
        then show ?thesis using 1(2) True n c1 h by (auto simp: Let_def)
      next
        case False
        then obtain c2 where c2: "http_parser_execute alloc lib (nat n) (on_response (\<lambda>r. r\<lparr>hb_len := n\<rparr>) c1) = Some c2"
            "f alloc lib c2 = Some r"
          using 1(2) True n by (auto simp: Let_def split: bind_splits)
        then show ?thesis using execute_reading [OF c2(1)] 1(1) [OF c2(2)] c1 h by auto
      qed
    qed
  qed
qed

lemma read_loop_reading:
  assumes "read_loop alloc lib buf n ridx c = Some r"
  shows "reading_ok c \<and> no_output c \<longrightarrow> reading_ok (snd (snd r)) \<and> no_output (snd (snd r))"
proof (rule read_loop.raw_induct [where P = "\<lambda>alloc lib buf n ridx c r. reading_ok c \<and> no_output c \<longrightarrow>
      reading_ok (snd (snd r)) \<and> no_output (snd (snd r))", OF _ assms], goal_cases)
  case (1 f alloc lib buf n ridx c r)
  have h: "reading_ok (on_response (\<lambda>r. r\<lparr>hb_output := x\<rparr>) c) = reading_ok c"
    "reading_ok (on_response (\<lambda>r. r\<lparr>hb_raw_len := 0, hb_output := x\<rparr>) c) = reading_ok c"
    "no_output (on_response (\<lambda>r. r\<lparr>hb_raw_len := 0, hb_output := None\<rparr>) c)" for x and c :: "'a esp_http_client"
    by (simp_all add: reading_ok_def buffers_ok_def state_ok_def no_output_def on_response_def)
  show ?case
  proof
    assume ok: "reading_ok c \<and> no_output c"
    show "reading_ok (snd (snd r)) \<and> no_output (snd (snd r))"
    proof (cases "n > 0 \<and> (if hd_is_chunked (hc_response c) then \<not> hc_is_chunk_complete c else more_length c)")
      case False
      then show ?thesis using 1(2) ok by auto
    next
      case True
      note run = 1(2) [unfolded if_P [OF True]]
      obtain l c1 where l: "read_into (nat (min n (hc_buffer_size c))) c = Some (l, c1)"
        using run by (auto split: bind_splits)
      have c1: "reading_ok c1 \<and> no_output c1" using read_into_reading [OF l] ok by blast
      show ?thesis
      proof (cases "l \<le> 0")
        case l0: True
        then show ?thesis using run l c1 by auto
      next
        case False
        then obtain c2 buf' pos m where c2:
            "http_parser_execute alloc lib (nat l) (on_response (\<lambda>r. r\<lparr>hb_output := Some (buf, nat ridx)\<rparr>) c1) = Some c2"
            "f alloc lib buf' (n - m) (ridx + m) (on_response (\<lambda>r. r\<lparr>hb_raw_len := 0, hb_output := None\<rparr>) c2) = Some r"
          using run l by (auto simp: Let_def split: bind_splits prod.splits)
        then show ?thesis using execute_reading [OF c2(1)] 1(1) [OF c2(2)] c1 h by auto
      qed
    qed
  qed
qed

lemma close_ok [simp]:
  assumes "client_ok c"
  shows "client_ok (snd (esp_http_client_close c))"
proof -
  have "client_ok ((http_dispatch_event HTTP_EVENT_DISCONNECTED [] [] [] c)\<lparr>hc_state := HTTP_STATE_INIT\<rparr>)"
    using assms by (intro ok_state) (simp_all add: state_order)
  then have "client_ok ((http_dispatch_event HTTP_EVENT_DISCONNECTED [] [] [] c)\<lparr>hc_state := HTTP_STATE_INIT, hc_net := w\<rparr>)" for w
    by simp
  then show ?thesis using assms by (auto simp: esp_http_client_close_def Let_def split: prod.splits)
qed

lemma set_header_ok: "esp_http_client_set_header alloc c k v = Some (e, c') \<Longrightarrow> client_ok c \<Longrightarrow> client_ok c'"
  by (auto simp: esp_http_client_set_header_def intro!: ok_on_request split: bind_splits)

lemma delete_header_ok: "client_ok c \<Longrightarrow> client_ok (snd (esp_http_client_delete_header c k))"
  by (auto simp: esp_http_client_delete_header_def intro!: ok_on_request split: prod.splits)

lemma set_method_ok: "client_ok c \<Longrightarrow> m \<noteq> HTTP_METHOD_MAX \<Longrightarrow> client_ok (snd (esp_http_client_set_method c m))"
  by (auto simp: esp_http_client_set_method_def on_info_def client_ok_def info_ok_def buffers_ok_def state_ok_def)

lemma set_url_ok:
  assumes "esp_http_client_set_url alloc parse_url stale c u = Some (e, c')" "client_ok c"
  shows "client_ok c'"
proof (cases "\<exists>v purl. u = Some v \<and> parse_url v = Some purl")
  case False
  then show ?thesis using assms by (auto simp: esp_http_client_set_url_def split: option.splits)
next
  case True
  then obtain v purl where u: "u = Some v" "parse_url v = Some purl" by blast
  obtain e1 c1 where c1: "set_url_host alloc stale v purl c = Some (e1, c1)"
    using assms(1) u by (auto simp: esp_http_client_set_url_def split: bind_splits)
  have h: "client_ok (on_info (\<lambda>i. i\<lparr>ci_host := Some h\<rparr>) c)" for h
    using assms(2) by (simp add: on_info_def client_ok_def info_ok_def buffers_ok_def state_ok_def)
  have ok1: "client_ok c1"
    using c1 assms(2) h
    by (auto simp: set_url_host_def Let_def split: if_splits bind_splits option.splits dest!: set_header_ok)
  show ?thesis
  proof (cases "e1 = ESP_OK")
    case False
    then show ?thesis using assms(1) u c1 ok1 by (auto simp: esp_http_client_set_url_def)
  next
    case True
    then obtain c2 i i' where c2: "set_url_port alloc v purl (ci_port (hc_info c)) c1 = Some c2"
        "set_url_user alloc v purl (hc_info c2) = Some i" "set_url_path alloc v purl i = Some i'" "c' = c2\<lparr>hc_info := i'\<rparr>"
      using assms(1) u c1 by (auto simp: esp_http_client_set_url_def split: bind_splits)
    have p: "info_ok i1 \<Longrightarrow> client_ok (c1\<lparr>hc_info := i1\<rparr>)" for i1 using ok_info [OF ok1] .
    have i1: "info_ok (hc_info c1)" using ok1 by (simp add: client_ok_def)
    have ok2: "client_ok c2"
      using c2(1) i1 ok1 by (auto simp: set_url_port_def url_port_info_def Let_def split: if_splits bind_splits intro!: close_ok p) (auto simp: info_ok_def)
    have "info_ok i" using c2(2) ok2 by (auto simp: set_url_user_def client_ok_def info_ok_def Let_def split: if_splits bind_splits)
    then have "info_ok i'" using c2(3) by (auto simp: set_url_path_def info_ok_def split: bind_splits)
    then show ?thesis using c2(4) ok_info [OF ok2] by simp
  qed
qed

lemma set_post_field_ok: "esp_http_client_set_post_field alloc c d n = Some (e, c') \<Longrightarrow> client_ok c \<Longrightarrow> client_ok c'"
  by (auto simp: esp_http_client_set_post_field_def split: option.splits dest!: set_header_ok)

lemma prepare_ok:
  assumes "esp_http_client_prepare alloc md5 b64 lib c = Some (e, c')" "client_ok c"
  shows "client_ok c'"
proof -
  have a: "client_ok c2" if "auth_response alloc md5 b64 c1 = Some (v, c2)" "client_ok c1" for c1 :: "'a esp_http_client" and v c2
    using that by (auto simp: auth_response_def new_nonce_def count_nonce_def esp_random_def Let_def
        split: esp_http_client_auth_type.splits bind_splits)
  have "client_ok (on_response (\<lambda>r. r\<lparr>hd_data_process := 0\<rparr>) c)" using assms(2) by (auto intro: ok_on_response)
  then show ?thesis
    using assms(1) by (auto simp: esp_http_client_prepare_def Let_def split: bind_splits if_splits option.splits dest!: a set_header_ok)
qed

lemma open_connection_ok:
  assumes "open_connection c = Some (e, c')" "client_ok c"
  shows "client_ok c' \<and> (e = ESP_OK \<longrightarrow> HTTP_STATE_CONNECTED \<le> hc_state c')"
proof (cases "hc_state c < HTTP_STATE_CONNECTED")
  case False
  then show ?thesis using assms by (auto simp: open_connection_def)
next
  case True
  define t where "t = transport_list_get_transport (Some (hc_transport_list c)) (ci_scheme (hc_info c))"
  have kt: "keeps_buffers i" if "t = Some i" for i
  proof -
    have "i \<in> set (hc_transport_list c)"
      using that by (auto simp: t_def transport_list_get_transport_def split: option.splits list.splits dest: first_with_SomeD)
    then show ?thesis using assms(2) by (auto simp: client_ok_def buffers_ok_def list_all_iff)
  qed
  have s: "hc_state c = HTTP_STATE_INIT"
    using True assms(2) by (cases "hc_state c") (auto simp: client_ok_def state_ok_def state_order)
  have ok: "client_ok (c\<lparr>hc_transport := t\<rparr>)"
    using assms(2) kt s by (auto simp: client_ok_def buffers_ok_def state_ok_def)
  have st: "client_ok (c1\<lparr>hc_state := HTTP_STATE_CONNECTED\<rparr>)" if "client_ok c1" "hc_transport c1 \<noteq> None" for c1 :: "'a esp_http_client"
    using that by (intro ok_state) (auto simp: state_order)
  show ?thesis
  proof (cases t)
    case None
    then show ?thesis using assms(1) True ok by (auto simp: open_connection_def Let_def t_def)
  next
    case (Some i)
    have tr: "hc_transport (http_dispatch_event HTTP_EVENT_ON_CONNECTED [] [] [] (c\<lparr>hc_transport := Some i, hc_net := w\<rparr>)) \<noteq> None" for w
      by (simp add: http_dispatch_event_def)
    show ?thesis using assms(1) True ok Some
      by (auto simp: open_connection_def Let_def t_def split: bind_splits if_splits intro!: st tr)
  qed
qed

lemma generate_length:
  assumes "http_header_generate_string h i buf n = Some (r, b, m)"
  shows "length b = length buf"
proof -
  have s: "snprintf_at buf off n t = Some b \<Longrightarrow> length b = length buf" for buf off n t b
    by (auto simp: snprintf_at_def dest: blit_length split: if_splits)
  have p: "print_loop its idx i r buf bl k = Some (b, k') \<Longrightarrow> length b = length buf" for its idx r buf bl k b k'
    by (induction its arbitrary: idx buf k) (auto split: if_splits bind_splits dest!: s)
  show ?thesis using assms
    by (auto simp: http_header_generate_string_def Let_def split: prod.splits if_splits bind_splits dest!: p s)
qed

lemma close_transport [simp]: "hc_transport (snd (esp_http_client_close c)) = hc_transport c"
  using fixed_close [of c] by (simp add: fixed_def)

text \<open>While the request is sent the client has a transport.\<close>

definition sending_ok :: "'p esp_http_client \<Rightarrow> bool" where
  "sending_ok c \<longleftrightarrow> client_ok c \<and> hc_transport c \<noteq> None"

lemma header_loop_ok:
  assumes "header_loop i f wl c = Some (e, c')" "sending_ok c"
  shows "sending_ok c'"
proof (rule header_loop_inv [where P = sending_ok, OF assms])
  fix i f wl ret rest n and c :: "'a esp_http_client"
  assume ok: "sending_ok c"
    and g: "http_header_generate_string (hd_headers (hc_request c)) i (drop f (hb_data (hc_request c))) wl = Some (ret, rest, n)"
  have q: "sending_ok (on_request (\<lambda>r. r\<lparr>hb_data := d\<rparr>) c)" if "length d = length (hb_data (hc_request c))" for d
    using ok that ok_on_request [of c "\<lambda>r. r\<lparr>hb_data := d\<rparr>"] by (simp add: sending_ok_def on_request_def)
  show "sending_ok (on_request (\<lambda>r. r\<lparr>hb_data := take f (hb_data (hc_request c)) @ rest\<rparr>) c)"
    by (rule q) (use generate_length [OF g] in simp)
  fix d1 res d2 w
  assume w: "wr (take f (hb_data (hc_request c)) @ rest) (nat n + f) 0 = Some d1"
    "transport_write (hc_transport c) d1 (nat n + f) (hc_timeout_ms c) (hc_net c) = Some (res, d2, w)"
  have "\<forall>i. hc_transport c = Some i \<longrightarrow> keeps_buffers i" using ok by (simp add: sending_ok_def client_ok_def buffers_ok_def)
  then have "length d2 = length (hb_data (hc_request c))"
    using transport_write_len [OF w(2)] wr_length [OF w(1)] generate_length [OF g] by simp
  from q [OF this] show "sending_ok ((on_request (\<lambda>r. r\<lparr>hb_data := d2\<rparr>) c)\<lparr>hc_net := w\<rparr>)"
    by (simp add: sending_ok_def)
qed (simp add: sending_ok_def)

lemma write_loop_ok: "write_loop buf i n c = Some (r, c') \<Longrightarrow> client_ok c \<Longrightarrow> client_ok c'"
  by (erule write_loop_inv) simp_all

lemma length_header_ok:
  assumes "length_header alloc n c = Some c'" "sending_ok c"
  shows "sending_ok c'"
proof -
  have "hc_transport c' = hc_transport c"
    using assms(1) by (auto simp: length_header_def esp_http_client_set_header_def esp_http_client_set_method_def update_defs
        split: if_splits bind_splits)
  moreover have "client_ok c'"
    using assms by (auto simp: length_header_def sending_ok_def intro!: ok_on_request set_method_ok split: if_splits bind_splits
        dest!: set_header_ok)
  ultimately show ?thesis using assms(2) by (simp add: sending_ok_def)
qed

lemma request_line_length: "request_line c = Some (Some (d, n)) \<Longrightarrow> length d = length (hb_data (hc_request c))"
proof -
  have s: "snprintf_at buf off n t = Some b \<Longrightarrow> length b = length buf" for buf off n t b
    by (auto simp: snprintf_at_def dest: blit_length split: if_splits)
  have p: "print_piece siz t st = Some (Some (d, n)) \<Longrightarrow> \<exists>d0 n0. st = Some (d0, n0) \<and> length d = length d0" for siz t st d n
    by (auto simp: print_piece_def Let_def split: option.splits bind_splits if_splits dest!: s)
  show "request_line c = Some (Some (d, n)) \<Longrightarrow> length d = length (hb_data (hc_request c))"
    by (auto simp: request_line_def Let_def split: bind_splits option.splits dest!: p)
qed

lemma send_head_ok:
  assumes "send_head c = Some (e, c')" "sending_ok c"
  shows "sending_ok c'"
proof -
  have q: "sending_ok (on_request (\<lambda>r. r\<lparr>hb_data := d\<rparr>) c)" if "request_line c = Some (Some (d, n))" for d n
    using assms(2) request_line_length [OF that] ok_on_request [of c "\<lambda>r. r\<lparr>hb_data := d\<rparr>"] by (simp add: sending_ok_def on_request_def)
  have s: "sending_ok (c1\<lparr>hc_state := HTTP_STATE_REQ_COMPLETE_HEADER\<rparr>)" if "sending_ok c1" for c1 :: "'a esp_http_client"
    using that ok_state [of c1 HTTP_STATE_REQ_COMPLETE_HEADER] by (auto simp: sending_ok_def state_order)
  show ?thesis using assms
    by (auto simp: send_head_def split: bind_splits option.splits if_splits dest!: header_loop_ok intro!: s q)
qed

lemma open_ok:
  assumes "esp_http_client_open alloc md5 b64 lib c n = Some (e, c')" "client_ok c"
  shows "client_ok c'"
proof (cases "hc_state c = HTTP_STATE_UNINIT")
  case True
  then show ?thesis using assms by (simp add: esp_http_client_open_def)
next
  case False
  then obtain e1 c1 where c1: "esp_http_client_prepare alloc md5 b64 lib c = Some (e1, c1)"
    using assms(1) by (auto simp: esp_http_client_open_def split: bind_splits)
  then have e1: "e1 = ESP_OK" "client_ok c1" using prepare_round prepare_ok assms(2) by blast+
  obtain e2 c2 where c2: "open_connection c1 = Some (e2, c2)"
    using assms(1) False c1 e1(1) by (auto simp: esp_http_client_open_def split: bind_splits)
  have ok2: "client_ok c2" "e2 = ESP_OK \<Longrightarrow> sending_ok c2"
    using open_connection_ok [OF c2 e1(2)] connected_transport [of c2] by (auto simp: sending_ok_def state_order)
  show ?thesis
  proof (cases "e2 = ESP_OK")
    case False
    then show ?thesis using assms(1) \<open>hc_state c \<noteq> HTTP_STATE_UNINIT\<close> c1 e1(1) c2 ok2 by (auto simp: esp_http_client_open_def)
  next
    case True
    then obtain c3 where "length_header alloc n c2 = Some c3" "send_head c3 = Some (e, c')"
      using assms(1) False c1 e1(1) c2 by (auto simp: esp_http_client_open_def split: bind_splits)
    then have "sending_ok c'" using length_header_ok send_head_ok ok2(2) [OF True] by blast
    then show ?thesis by (simp add: sending_ok_def)
  qed
qed

lemma write_ok: "esp_http_client_write c d n = Some (r, c') \<Longrightarrow> client_ok c \<Longrightarrow> client_ok c'"
  by (auto simp: esp_http_client_write_def split: if_splits dest: write_loop_ok)

lemma fetch_ok:
  assumes "esp_http_client_fetch_headers alloc lib c = Some (r, c')" "client_ok c"
  shows "client_ok c'"
proof (cases "hc_state c < HTTP_STATE_REQ_COMPLETE_HEADER")
  case True
  then show ?thesis using assms by (simp add: esp_http_client_fetch_headers_def)
next
  case False
  then have t: "hc_transport c \<noteq> None" using connected_transport [OF assms(2)] by (simp add: state_order)
  let ?c = "(on_response (\<lambda>r. r\<lparr>hd_status_code := -1\<rparr>) c)\<lparr>hc_state := HTTP_STATE_REQ_COMPLETE_DATA\<rparr>"
  have "client_ok (on_response (\<lambda>r. r\<lparr>hd_status_code := -1\<rparr>) c)" using assms(2) by (auto intro: ok_on_response)
  then have "client_ok ?c" using t by (intro ok_state) (auto simp: state_order on_response_def)
  then have rd: "reading_ok ?c" "no_output ?c" using reading_client [of ?c] t by (auto simp: on_response_def)
  obtain ok c1 where f: "fetch_loop alloc lib ?c = Some (ok, c1)"
    using assms(1) False by (auto simp: esp_http_client_fetch_headers_def split: bind_splits)
  have "client_ok c1" using fetch_loop_reading [OF f] rd by (intro client_reading) simp_all
  then show ?thesis using assms(1) False f
    by (auto simp: esp_http_client_fetch_headers_def split: if_splits intro: ok_on_response)
qed

lemma body_ok:
  assumes "body_loop left alloc lib c = Some c'" "client_ok c" "hc_transport c \<noteq> None"
  shows "client_ok c' \<and> hc_transport c' \<noteq> None"
  using body_loop_reading [OF assms(1)] reading_client [OF assms(2,3)] client_reading by (auto simp: reading_ok_def)

lemma take_raw_ok: "take_raw buf n c = Some (r, buf', c') \<Longrightarrow> client_ok c \<Longrightarrow> client_ok c' \<and> hc_transport c' = hc_transport c"
  by (auto simp: take_raw_def Let_def client_ok_def buffers_ok_def state_ok_def split: if_splits bind_splits)

lemma check_response_ok:
  assumes "esp_http_check_response alloc parse_url stale c = Some (e, c')" "client_ok c"
  shows "client_ok c' \<and> hc_transport c' = hc_transport c"
proof -
  have u: "client_ok c1 \<and> hc_transport c1 = hc_transport c" if "unauthorized alloc c = Some c1" for c1
    using that assms(2)
    by (auto simp: unauthorized_def Let_def on_info_def client_ok_def info_ok_def buffers_ok_def state_ok_def split: bind_splits if_splits)
  have t: "hc_transport c1 = hc_transport c" if "esp_http_client_set_url alloc parse_url stale c v = Some (x, c1)" for v x c1
    using that
    by (auto simp: esp_http_client_set_url_def set_url_host_def set_url_port_def url_port_info_def esp_http_client_set_header_def Let_def update_defs
        split: option.splits bind_splits if_splits)
  show ?thesis using assms u t
    by (auto simp: esp_http_check_response_def split: if_splits bind_splits dest: set_url_ok)
qed

lemma perform_round_ok:
  assumes "perform_round alloc md5 b64 parse_url stale lib c = Some res" "client_ok c"
  shows "(\<forall>e c'. res = Inl (e, c') \<longrightarrow> client_ok c') \<and> (\<forall>c'. res = Inr c' \<longrightarrow> client_ok c')"
proof -
  obtain e1 c1 where s: "send_request alloc md5 b64 lib c = Some (e1, c1)"
    using assms(1) by (auto simp: perform_round_def split: bind_splits)
  have ok1: "client_ok c1"
    using s assms(2) by (auto simp: send_request_def split: bind_splits if_splits option.splits dest!: open_ok write_ok)
  show ?thesis
  proof (cases "e1 = ESP_OK")
    case False
    then show ?thesis using assms(1) s ok1 by (auto simp: perform_round_def)
  next
    case True
    then obtain n c2 where f: "esp_http_client_fetch_headers alloc lib c1 = Some (n, c2)"
      using assms(1) s by (auto simp: perform_round_def split: bind_splits)
    have ok2: "client_ok c2" using fetch_ok [OF f ok1] .
    show ?thesis
    proof (cases "n < 0")
      case neg: True
      then show ?thesis using assms(1) s f ok2 True by (auto simp: perform_round_def)
    next
      case False
      then have "\<not> hc_state c1 < HTTP_STATE_REQ_COMPLETE_HEADER" using f by (auto simp: esp_http_client_fetch_headers_def)
      then have "hc_transport c1 \<noteq> None" using connected_transport [OF ok1] by (simp add: state_order)
      then have t2: "hc_transport c2 \<noteq> None" using fixed_fetch [OF f] by (simp add: fixed_def)
      obtain e3 c3 where r: "esp_http_check_response alloc parse_url stale c2 = Some (e3, c3)"
        using assms(1) s f True False by (auto simp: perform_round_def split: bind_splits)
      have ok3: "client_ok c3" "hc_transport c3 \<noteq> None" using check_response_ok [OF r ok2] t2 by simp_all
      show ?thesis
      proof (cases "e3 = ESP_OK")
        case bad: False
        then show ?thesis using assms(1) s f r ok3 True False by (auto simp: perform_round_def)
      next
        case e3: True
        then obtain c4 c5 where b: "body_loop more_chunks alloc lib c3 = Some c4" "body_loop more_length alloc lib c4 = Some c5"
          using assms(1) s f r True False by (auto simp: perform_round_def split: bind_splits)
        have c5: "client_ok c5" "hc_transport c5 \<noteq> None" using body_ok [OF b(1) ok3] body_ok [OF b(2)] by blast+
        let ?d = "http_dispatch_event HTTP_EVENT_ON_FINISH [] [] [] c5"
        have d: "client_ok ?d" "hc_transport ?d \<noteq> None" using c5 by (simp, simp add: http_dispatch_event_def)
        then have "client_ok (?d\<lparr>hc_state := HTTP_STATE_CONNECTED\<rparr>)" by (intro ok_state) (auto simp: state_order)
        then have "client_ok (finish_request lib c5)" using d by (simp add: finish_request_def Let_def)
        then show ?thesis using assms(1) s f r b True False e3 by (auto simp: perform_round_def Let_def split: if_splits)
      qed
    qed
  qed
qed

lemma perform_ok:
  assumes "esp_http_client_perform alloc md5 b64 parse_url stale lib c = Some r"
  shows "client_ok c \<longrightarrow> client_ok (snd r)"
proof (rule esp_http_client_perform.raw_induct
    [where P = "\<lambda>alloc md5 b64 parse_url stale lib c r. client_ok c \<longrightarrow> client_ok (snd r)", OF _ assms], goal_cases)
  case (1 f alloc md5 b64 parse_url stale lib c r)
  show ?case
  proof
    assume ok: "client_ok c"
    obtain res where res: "perform_round alloc md5 b64 parse_url stale lib c = Some res" using 1(2) by (auto split: bind_splits)
    show "client_ok (snd r)"
    proof (cases res)
      case (Inl x)
      then show ?thesis using 1(2) res perform_round_ok [OF res ok] by (cases x) auto
    next
      case (Inr c')
      then have "f alloc md5 b64 parse_url stale lib c' = Some r" using 1(2) res by simp
      from 1(1) [OF this] show ?thesis using perform_round_ok [OF res ok] Inr by simp
    qed
  qed
qed

lemma read_ok_client:
  assumes "esp_http_client_read alloc lib c buf n = Some (r, buf', c')" "client_ok c" "hc_transport c \<noteq> None"
  shows "client_ok c'"
proof -
  obtain i b c1 where t: "take_raw buf n c = Some (i, b, c1)" "read_loop alloc lib b (n - i) i c1 = Some (r, buf', c')"
    using assms(1) by (auto simp: esp_http_client_read_def split: bind_splits)
  have "client_ok c1" "hc_transport c1 \<noteq> None" using take_raw_ok [OF t(1) assms(2)] assms(3) by simp_all
  then show ?thesis using read_loop_reading [OF t(2)] reading_client [of c1] by (intro client_reading) simp_all
qed

section \<open>Histories of calls\<close>

datatype http_call =
    Set_url "byte list option"
  | Set_header "byte list option" "byte list option"
  | Delete_header "byte list option"
  | Set_method esp_http_client_method
  | Set_post_field "byte list option" int
  | Open int
  | Write "byte list" int
  | Fetch_headers
  | Read "byte list" int
  | Perform
  | Close

text \<open>What the header file asks of the caller: a method of the list, and no read before a connection was opened.\<close>

fun legal :: "http_call \<Rightarrow> 'p esp_http_client \<Rightarrow> bool" where
  "legal (Set_method m) c \<longleftrightarrow> m \<noteq> HTTP_METHOD_MAX"
| "legal (Read buf n) c \<longleftrightarrow> hc_transport c \<noteq> None"
| "legal k c \<longleftrightarrow> True"

fun do_call ::
  "(c_file \<Rightarrow> nat \<Rightarrow> bool) \<Rightarrow> (byte list \<Rightarrow> byte list) \<Rightarrow> (byte list \<Rightarrow> byte list) \<Rightarrow>
     (byte list \<Rightarrow> http_parser_url option) \<Rightarrow> (byte list \<Rightarrow> byte list \<Rightarrow> byte list option) \<Rightarrow> 'p http_parser_lib \<Rightarrow>
     http_call \<Rightarrow> 'p esp_http_client \<Rightarrow> 'p esp_http_client option" where
  "do_call alloc md5 b64 parse_url stale lib (Set_url u) c = map_option snd (esp_http_client_set_url alloc parse_url stale c u)"
| "do_call alloc md5 b64 parse_url stale lib (Set_header k v) c = map_option snd (esp_http_client_set_header alloc c k v)"
| "do_call alloc md5 b64 parse_url stale lib (Delete_header k) c = Some (snd (esp_http_client_delete_header c k))"
| "do_call alloc md5 b64 parse_url stale lib (Set_method m) c = Some (snd (esp_http_client_set_method c m))"
| "do_call alloc md5 b64 parse_url stale lib (Set_post_field d n) c = map_option snd (esp_http_client_set_post_field alloc c d n)"
| "do_call alloc md5 b64 parse_url stale lib (Open n) c = map_option snd (esp_http_client_open alloc md5 b64 lib c n)"
| "do_call alloc md5 b64 parse_url stale lib (Write d n) c = map_option snd (esp_http_client_write c d n)"
| "do_call alloc md5 b64 parse_url stale lib Fetch_headers c = map_option snd (esp_http_client_fetch_headers alloc lib c)"
| "do_call alloc md5 b64 parse_url stale lib (Read buf n) c = map_option (\<lambda>(_, _, c'). c') (esp_http_client_read alloc lib c buf n)"
| "do_call alloc md5 b64 parse_url stale lib Perform c = map_option snd (esp_http_client_perform alloc md5 b64 parse_url stale lib c)"
| "do_call alloc md5 b64 parse_url stale lib Close c = Some (snd (esp_http_client_close c))"

text \<open>The clients that a sequence of legal calls makes of a new one.\<close>

inductive http_history ::
  "(c_file \<Rightarrow> nat \<Rightarrow> bool) \<Rightarrow> (byte list \<Rightarrow> byte list) \<Rightarrow> (byte list \<Rightarrow> byte list) \<Rightarrow>
     (byte list \<Rightarrow> http_parser_url option) \<Rightarrow> (byte list \<Rightarrow> byte list \<Rightarrow> byte list option) \<Rightarrow> 'p http_parser_lib \<Rightarrow>
     'p esp_http_client \<Rightarrow> 'p esp_http_client \<Rightarrow> bool"
  for alloc md5 b64 parse_url stale lib c0 where
  Start: "http_history alloc md5 b64 parse_url stale lib c0 c0"
| Call: "http_history alloc md5 b64 parse_url stale lib c0 c \<Longrightarrow> legal k c \<Longrightarrow>
    do_call alloc md5 b64 parse_url stale lib k c = Some c' \<Longrightarrow> http_history alloc md5 b64 parse_url stale lib c0 c'"

lemma http_call_ok:
  assumes "do_call alloc md5 b64 parse_url stale lib k c = Some c'" "legal k c" "client_ok c"
  shows "client_ok c'"
proof (cases k)
  case Perform
  then show ?thesis using assms by (auto dest: perform_ok)
next
  case (Read buf n)
  then show ?thesis using assms by (auto dest: read_ok_client)
qed (use assms in \<open>auto dest: set_url_ok set_header_ok set_post_field_ok open_ok write_ok fetch_ok
    intro: delete_header_ok set_method_ok close_ok\<close>)

text \<open>A client before it is initialised.\<close>

definition young_ok :: "'p esp_http_client \<Rightarrow> bool" where
  "young_ok c \<longleftrightarrow> buffers_ok c \<and> hb_output (hc_response c) = None \<and> hc_state c = HTTP_STATE_UNINIT \<and>
     ci_method (hc_info c) \<noteq> HTTP_METHOD_MAX \<and> ci_scheme (hc_info c) \<noteq> None"

lemma buffers_ok_info [simp]: "buffers_ok (c\<lparr>hc_info := i\<rparr>) = buffers_ok c"
  by (simp add: buffers_ok_def)

lemma close_young [simp]: "hc_state c = HTTP_STATE_UNINIT \<Longrightarrow> esp_http_client_close c = (ESP_OK, c)"
  by (simp add: esp_http_client_close_def state_order)

text \<open>A URL gives a path; without a host the headers stay as they are.\<close>

lemma set_url_young:
  assumes "esp_http_client_set_url alloc parse_url stale c u = Some (ESP_OK, c')" "young_ok c"
  shows "young_ok c' \<and> ci_path (hc_info c') \<noteq> None \<and>
    (ci_host (hc_info c') = None \<longrightarrow> hd_headers (hc_request c') = hd_headers (hc_request c))"
proof -
  obtain v purl where u: "u = Some v" "parse_url v = Some purl"
    using assms(1) by (auto simp: esp_http_client_set_url_def split: option.splits)
  obtain c1 c2 i i' where c1: "set_url_host alloc stale v purl c = Some (ESP_OK, c1)"
    and c2: "set_url_port alloc v purl (ci_port (hc_info c)) c1 = Some c2"
      "set_url_user alloc v purl (hc_info c2) = Some i" "set_url_path alloc v purl i = Some i'" "c' = c2\<lparr>hc_info := i'\<rparr>"
    using assms(1) u by (auto simp: esp_http_client_set_url_def split: bind_splits if_splits)
  have y: "buffers_ok c" "hb_output (hc_response c) = None" "hc_state c = HTTP_STATE_UNINIT"
    "ci_method (hc_info c) \<noteq> HTTP_METHOD_MAX" "ci_scheme (hc_info c) \<noteq> None"
    using assms(2) by (simp_all add: young_ok_def)
  have 1: "young_ok c1 \<and> (ci_host (hc_info c1) = None \<longrightarrow> hd_headers (hc_request c1) = hd_headers (hc_request c))"
    using c1 y
    by (auto simp: set_url_host_def Let_def young_ok_def buffers_ok_def esp_http_client_set_header_def update_defs
        split: if_splits bind_splits option.splits)
  then have u1: "hc_state c1 = HTTP_STATE_UNINIT" by (simp add: young_ok_def)
  have 2: "young_ok c2 \<and> hc_request c2 = hc_request c1 \<and> ci_host (hc_info c2) = ci_host (hc_info c1)"
    using c2(1) 1 u1 by (auto simp: set_url_port_def url_port_info_def Let_def young_ok_def split: if_splits bind_splits)
  have 3: "ci_method i = ci_method (hc_info c2) \<and> ci_scheme i = ci_scheme (hc_info c2) \<and> ci_host i = ci_host (hc_info c2)"
    using c2(2) by (auto simp: set_url_user_def Let_def split: if_splits bind_splits)
  have 4: "ci_method i' = ci_method i \<and> ci_scheme i' = ci_scheme i \<and> ci_host i' = ci_host i \<and> ci_path i' \<noteq> None"
    using c2(3) by (auto simp: set_url_path_def split: if_splits bind_splits)
  show ?thesis using 1 2 3 4 c2(4) by (auto simp: young_ok_def)
qed

lemma set_header_young:
  assumes "esp_http_client_set_header alloc c k v = Some (e, c')" "young_ok c"
  shows "young_ok c' \<and> hc_info c' = hc_info c"
  using assms by (auto simp: esp_http_client_set_header_def on_request_def young_ok_def buffers_ok_def split: bind_splits)

text \<open>Without a host the header list has no Host to delete.\<close>

lemma user_agent_only:
  assumes "esp_http_client_set_header alloc c (Some (ascii ''User-Agent'')) (Some v) = Some (ESP_OK, c')"
    "hd_headers (hc_request c) = []"
  shows "http_header_set f (hd_headers (hc_request c')) (Some (ascii ''Host'')) None = Some (ESP_ERR_NOT_FOUND, hd_headers (hc_request c'))"
proof -
  have "trimmed (ascii ''User-Agent'') = Some (ascii ''User-Agent'')"
    by (simp add: trimmed_eq trim_def ascii_def isspace_def)
  then obtain v' where "hd_headers (hc_request c') = [\<lparr>h_key = ascii ''User-Agent'', h_value = v'\<rparr>]"
    using assms by (auto simp: esp_http_client_set_header_def http_header_set_def http_header_new_item_def get_item_eq on_request_def
        split: if_splits bind_splits)
  then show ?thesis
    by (simp add: http_header_set_def http_header_delete_def get_item_eq) (simp add: lower_def ascii_def tolower_def)
qed

lemma default_headers_ok:
  assumes "default_headers alloc parse_url stale c url = Some (Some c')" "young_ok c" "hd_headers (hc_request c) = []" "hc_transport c = None"
  shows "client_ok (c'\<lparr>hc_state := HTTP_STATE_INIT\<rparr>)"
proof -
  obtain c1 c2 where s: "esp_http_client_set_url alloc parse_url stale c url = Some (ESP_OK, c1)"
      "esp_http_client_set_header alloc c1 (Some (ascii ''User-Agent'')) (Some (ascii ''ESP32 HTTP Client/1.0'')) = Some (ESP_OK, c2)"
      "esp_http_client_set_header alloc c2 (Some (ascii ''Host'')) (ci_host (hc_info c2)) = Some (ESP_OK, c')"
    using assms(1) by (auto simp: default_headers_def split: bind_splits if_splits)
  have 1: "young_ok c1" "ci_path (hc_info c1) \<noteq> None" "ci_host (hc_info c1) = None \<Longrightarrow> hd_headers (hc_request c1) = []"
    using set_url_young [OF s(1) assms(2)] assms(3) by auto
  have 2: "young_ok c2" "hc_info c2 = hc_info c1" using set_header_young [OF s(2) 1(1)] by simp_all
  have 3: "young_ok c'" "hc_info c' = hc_info c1" using set_header_young [OF s(3) 2(1)] 2(2) by simp_all
  have "ci_host (hc_info c1) \<noteq> None"
  proof
    assume n: "ci_host (hc_info c1) = None"
    from user_agent_only [OF s(2) 1(3) [OF n]] s(3) n 2(2) show False by (auto simp: esp_http_client_set_header_def)
  qed
  then show ?thesis using 1(2) 3
    by (auto simp: client_ok_def young_ok_def buffers_ok_def state_ok_def info_ok_def state_order)
qed

lemma http_transports_ok:
  assumes "http_transports alloc ssl = Some l" "\<forall>t. ssl = Some t \<longrightarrow> keeps_buffers t"
  shows "list_all keeps_buffers l"
proof -
  have k: "keeps_buffers (t\<lparr>tr_port := n, tr_scheme := s\<rparr>) = keeps_buffers t" for t n s
    by (simp add: keeps_buffers_def)
  obtain t s where t: "transport_tcp_init (alloc 115) (alloc 159) 1 = Some t" and s: "ssl = Some s"
    using assms(1) by (auto simp: http_transports_def transport_set_default_port_def Let_def split: option.splits)
  have "l = [t\<lparr>tr_port := 80, tr_scheme := Some (ascii ''http'')\<rparr>, s\<lparr>tr_port := 443, tr_scheme := Some (ascii ''https'')\<rparr>]"
    using assms(1) t s by (simp add: http_transports_def transport_set_default_port_def transport_list_add_def Let_def split: if_splits)
  then show ?thesis using tcp_keeps_buffers [OF t] assms(2) s by (simp add: k)
qed

lemma http_init_ok:
  fixes c :: "'p esp_http_client"
  assumes "esp_http_client_init alloc uninit parse_url stale ssl p w rand config = Some (Some c)"
    "\<forall>t. ssl = Some t \<longrightarrow> keeps_buffers t" "cc_method config \<noteq> HTTP_METHOD_MAX" "\<And>n. length (uninit n) = n"
  shows "client_ok c"
proof -
  obtain list c1 c2 c3 where l: "http_transports (alloc Transport_c) ssl = Some list"
    and c1: "set_config alloc ((new_client p w rand :: 'p esp_http_client)\<lparr>hc_transport_list := list\<rparr>) config = Some (ESP_OK, c1)"
      "\<not> hc_buffer_size c1 < 0"
    and c2: "c2 = on_response (\<lambda>r. r\<lparr>hb_data := uninit (nat (hc_buffer_size c1))\<rparr>)
      (on_request (\<lambda>r. r\<lparr>hb_data := uninit (nat (hc_buffer_size c1))\<rparr>) c1)"
    and c3: "default_headers alloc parse_url stale c2 (cc_url config) = Some (Some c3)" "c = c3\<lparr>hc_state := HTTP_STATE_INIT\<rparr>"
    using assms(1) by (auto simp: esp_http_client_init_def Let_def split: if_splits option.splits bind_splits)
  have kl: "list_all keeps_buffers list" using http_transports_ok [OF l assms(2)] .
  let ?c = "(new_client p w rand :: 'p esp_http_client)\<lparr>hc_transport_list := list\<rparr>"
  obtain i path i1 where i: "config_strings (alloc Client_c) config ((hc_info (config_fields config ?c))\<lparr>ci_path := Some path\<rparr>) = Some i"
      "config_scheme alloc config i = Some i1" "hc_info c1 = i1"
      "hc_transport_list c1 = list" "hc_transport c1 = None" "hc_state c1 = HTTP_STATE_UNINIT" "hc_request c1 = new_data"
      "hc_response c1 = new_data" "hc_buffer_size c1 = hc_buffer_size (config_fields config ?c)"
    using c1(1) by (auto simp: set_config_def Let_def config_fields_def on_info_def new_client_def split: option.splits bind_splits)
  have m: "ci_method i = cc_method config"
    using i(1) by (auto simp: config_strings_def config_fields_def on_info_def split: bind_splits)
  have m1: "ci_method i1 = cc_method config \<and> ci_scheme i1 \<noteq> None"
    using i(2) m by (auto simp: config_scheme_def Let_def split: bind_splits)
  have f1: "hc_transport_list c1 = list" "hc_transport c1 = None" "hc_state c1 = HTTP_STATE_UNINIT" "hc_request c1 = new_data"
      "hc_response c1 = new_data" "ci_method (hc_info c1) = cc_method config" "ci_scheme (hc_info c1) \<noteq> None" "0 < hc_buffer_size c1"
    using i m1 c1(2) by (auto simp: config_fields_def split: if_splits)
  have "young_ok c2" "hd_headers (hc_request c2) = []" "hc_transport c2 = None"
    using f1 kl assms(3,4) by (auto simp: c2 young_ok_def buffers_ok_def on_response_def on_request_def new_data_def)
  then show ?thesis using default_headers_ok [OF c3(1)] c3(2) by simp
qed

text \<open>
  C13. Clients stay well formed. Whatever legal calls are made of a client that \<open>esp_http_client_init\<close>
  returned, and however they end: its buffers keep the configured size, it has a scheme, a host, a path and a method that
  can be printed, it is never in a state that the code does not know, and when it is connected it has a transport; the only
  assumption is that the SSL transport keeps the sizes of buffers, which the TCP transport does.
\<close>

theorem http_client_well_formed:
  assumes "esp_http_client_init alloc uninit parse_url stale ssl p w rand config = Some (Some c0)"
    and "\<forall>t. ssl = Some t \<longrightarrow> keeps_buffers t" "cc_method config \<noteq> HTTP_METHOD_MAX" "\<And>n. length (uninit n) = n"
    and "http_history alloc md5 b64 parse_url stale lib c0 c"
  shows "client_ok c"
  using assms(5)
proof (induction rule: http_history.induct)
  case Start
  show ?case by (rule http_init_ok [OF assms(1-4)])
next
  case (Call c k c')
  then show ?case using http_call_ok by blast
qed

definition sample_config :: esp_http_client_config where
  "sample_config = \<lparr>cc_url = Some (ascii ''a''), cc_host = None, cc_port = 0, cc_username = None, cc_password = None,
     cc_auth_type = HTTP_AUTH_TYPE_NONE, cc_path = None, cc_query = None, cc_method = HTTP_METHOD_GET, cc_timeout_ms = 0,
     cc_disable_auto_redirect = False, cc_max_redirection_count = 0, cc_event_handler = True, cc_transport_type = HTTP_TRANSPORT_OVER_TCP,
     cc_buffer_size = 0\<rparr>"

lemma sample_init:
  "\<exists>c. esp_http_client_init (\<lambda>_ _. True) (\<lambda>n. replicate n 0) sample_url (\<lambda>_. Some) (transport_init True) () sample_net [] sample_config =
     Some (Some c) \<and> ci_host (hc_info c) = Some (ascii ''a'')"
proof -
  have t: "trimmed (ascii ''User-Agent'') = Some (ascii ''User-Agent'')" "trimmed (ascii ''Host'') = Some (ascii ''Host'')"
    "trimmed (ascii ''a'') = Some (ascii ''a'')"
    "trimmed (ascii ''ESP32 HTTP Client/1.0'') = Some (ascii ''ESP32 HTTP Client/1.0'')"
    by (simp_all add: trimmed_eq trim_def ascii_def isspace_def)
  have ne: "lower (ascii ''User-Agent'') \<noteq> lower (ascii ''Host'')" by (simp add: lower_def ascii_def tolower_def)
  have a: "assign (\<lambda>_ _. True) old (ascii ''http'' @ [0]) 0 = Some (ascii ''http'')"
    "assign (\<lambda>_ _. True) old (ascii ''/'' @ [0]) 0 = Some (ascii ''/'')"
    "assign (\<lambda>_ _. True) old (ascii ''a'' @ [0]) 1 = Some (ascii ''a'')" for old
    by (rule assign_text; simp add: ascii_def)+
  have la: "length (ascii ''a'') = 1" by (simp add: ascii_def)
  show ?thesis
    by (simp add: la esp_http_client_init_def Let_def http_transports_def transport_tcp_init_def transport_init_def transport_set_func_def
        transport_set_context_data_def transport_set_default_port_def transport_list_add_def set_config_def config_fields_def
        config_path_def config_strings_def dup_def config_scheme_def sample_config_def new_client_def new_data_def no_connection_info_def
        default_headers_def esp_http_client_set_url_def sample_url_def set_url_host_def set_url_port_def url_port_info_def
        set_url_user_def set_url_path_def assign_field_def a t ne update_defs esp_http_client_set_header_def http_header_set_def
        http_header_new_item_def get_item_eq)
qed

theorem http_client_well_formed_witness:
  "\<exists>c. esp_http_client_init (\<lambda>_ _. True) (\<lambda>n. replicate n 0) sample_url (\<lambda>_. Some) (transport_init True) () sample_net [] sample_config =
     Some (Some c) \<and> client_ok (snd (esp_http_client_close (snd (esp_http_client_set_method c HTTP_METHOD_PUT))))"
proof -
  obtain c where c: "esp_http_client_init (\<lambda>_ _. True) (\<lambda>n. replicate n 0) sample_url (\<lambda>_. Some) (transport_init True) () sample_net []
      sample_config = Some (Some c)"
    using sample_init by blast
  have k: "\<forall>t. transport_init True = Some t \<longrightarrow> keeps_buffers t" by (simp add: transport_init_def keeps_buffers_def)
  have "http_history (\<lambda>_ _. True) id id sample_url (\<lambda>_. Some) sample_lib c (snd (esp_http_client_set_method c HTTP_METHOD_PUT))"
    by (rule http_history.Call [where k = "Set_method HTTP_METHOD_PUT", OF http_history.Start]) simp_all
  then have "http_history (\<lambda>_ _. True) id id sample_url (\<lambda>_. Some) sample_lib c
      (snd (esp_http_client_close (snd (esp_http_client_set_method c HTTP_METHOD_PUT))))"
    by (rule http_history.Call [where k = Close]) simp_all
  from http_client_well_formed [OF c k _ _ this] c show ?thesis by (auto simp: sample_config_def)
qed

end
