(* ===== verification/Bt_Machines.thy ===== *)
theory Bt_Machines
  imports Prelude
begin

text \<open>
  The two state machines of the Bluetooth component: \<open>Bluetooth/reconnect_sm.c\<close>, which tries to get a lost
  connection back, and \<open>Bluetooth/key_control.c\<close>, which sends a key to the remote player as a press and a
  release.

  The timers of FreeRTOS and the stack are outside: the calls a machine makes are collected in the order
  they are made, and the expiry of a timer is an event. Periods are in ticks of a millisecond
  (\<open>CONFIG_FREERTOS_HZ\<close> is 1000). A failed \<open>assert\<close> is \<open>None\<close>.
\<close>

section \<open>The reconnection machine\<close>

datatype a2d_rec_state = A2D_REC_STATE_IDLE | A2D_REC_STATE_OPEN | A2D_REC_STATE_MAX

datatype a2d_rec_evt = A2D_REC_EVT_CONNECTED | A2D_REC_EVT_DISCONNECTED | A2D_REC_EVT_ALARM_TO

datatype rec_call =
    Rec_Change_Period nat
  | Rec_Start
  | Rec_Stop
  | Rec_Delete
  | Rec_Connect

record a2d_rec_cb =
  rec_state :: a2d_rec_state
  rec_cnt :: u32
  rec_connect :: bool
  rec_tmr :: bool
  rec_calls :: "rec_call list"

definition no_a2d_rec :: a2d_rec_cb where
  "no_a2d_rec = \<lparr>rec_state = A2D_REC_STATE_IDLE, rec_cnt = 0, rec_connect = False, rec_tmr = False, rec_calls = []\<rparr>"

text \<open>\<open>created\<close> says whether the timer could be created, \<open>connect\<close> whether a function was given.\<close>

definition a2d_rec_sm_init :: "bool \<Rightarrow> bool \<Rightarrow> a2d_rec_cb \<Rightarrow> bool \<times> a2d_rec_cb" where
  "a2d_rec_sm_init created connect cb =
     (let cb1 = no_a2d_rec\<lparr>rec_tmr := created, rec_calls := rec_calls cb\<rparr>
      in if \<not> created then (False, cb1) else (True, cb1\<lparr>rec_connect := connect\<rparr>))"

definition a2d_rec_sm_deinit :: "a2d_rec_cb \<Rightarrow> a2d_rec_cb" where
  "a2d_rec_sm_deinit cb = no_a2d_rec\<lparr>rec_calls := rec_calls cb @ [Rec_Delete]\<rparr>"

definition m_rec_tbl :: "nat list" where
  "m_rec_tbl = [5, 10, 20, 20, 20, 20, 20, 20, 20, 20, 20]"

definition a2d_rec_wait_intv :: "u32 \<Rightarrow> nat" where
  "a2d_rec_wait_intv cnt =
     (if unat cnt \<ge> length m_rec_tbl then 1000 * 600 else 1000 * (m_rec_tbl ! unat cnt))"

definition rec_do :: "rec_call list \<Rightarrow> a2d_rec_cb \<Rightarrow> a2d_rec_cb" where
  "rec_do cs cb = cb\<lparr>rec_calls := rec_calls cb @ cs\<rparr>"

definition a2d_rec_sm_idle_handler :: "a2d_rec_evt \<Rightarrow> a2d_rec_cb \<Rightarrow> a2d_rec_cb option" where
  "a2d_rec_sm_idle_handler event cb =
     (if \<not> rec_tmr cb then None
      else if event = A2D_REC_EVT_DISCONNECTED
      then let cb1 = cb\<lparr>rec_cnt := 0\<rparr>
           in Some ((rec_do [Rec_Change_Period (a2d_rec_wait_intv (rec_cnt cb1)), Rec_Start] cb1)
                \<lparr>rec_state := A2D_REC_STATE_OPEN\<rparr>)
      else Some cb)"

definition a2d_rec_sm_open_handler :: "a2d_rec_evt \<Rightarrow> a2d_rec_cb \<Rightarrow> a2d_rec_cb option" where
  "a2d_rec_sm_open_handler event cb =
     (if \<not> rec_tmr cb then None
      else if event = A2D_REC_EVT_CONNECTED
      then Some ((rec_do [Rec_Stop] cb)\<lparr>rec_cnt := 0, rec_state := A2D_REC_STATE_IDLE\<rparr>)
      else if event = A2D_REC_EVT_ALARM_TO
      then let cb1 = (if rec_connect cb then rec_do [Rec_Connect] cb else cb);
               cb2 = cb1\<lparr>rec_cnt := rec_cnt cb1 + 1\<rparr>
           in Some (rec_do [Rec_Change_Period (a2d_rec_wait_intv (rec_cnt cb2)), Rec_Start] cb2)
      else Some cb)"

definition a2d_rec_sm_handler :: "a2d_rec_evt \<Rightarrow> a2d_rec_cb \<Rightarrow> a2d_rec_cb option" where
  "a2d_rec_sm_handler event cb =
     (case rec_state cb of
        A2D_REC_STATE_IDLE \<Rightarrow> a2d_rec_sm_idle_handler event cb
      | A2D_REC_STATE_OPEN \<Rightarrow> a2d_rec_sm_open_handler event cb
      | A2D_REC_STATE_MAX \<Rightarrow> Some cb)"

lemmas a2d_rec_sm_defs =
  a2d_rec_sm_handler_def a2d_rec_sm_idle_handler_def a2d_rec_sm_open_handler_def rec_do_def

text \<open>A sequence of events.\<close>

fun rec_run :: "a2d_rec_evt list \<Rightarrow> a2d_rec_cb \<Rightarrow> a2d_rec_cb option" where
  "rec_run [] cb = Some cb"
| "rec_run (e # es) cb = do { cb' \<leftarrow> a2d_rec_sm_handler e cb; rec_run es cb' }"

lemma rec_run_append: "rec_run (es @ fs) cb = do { cb' \<leftarrow> rec_run es cb; rec_run fs cb' }"
  by (induction es arbitrary: cb) (auto split: bind_splits)

section \<open>The schedule of reconnections\<close>

text \<open>The waiting time before attempt \<open>k\<close>, in milliseconds.\<close>

definition rec_delay :: "nat \<Rightarrow> nat" where
  "rec_delay k = (if k = 0 then 5000 else if k = 1 then 10000 else if k < 11 then 20000 else 600000)"

lemma m_rec_tbl_delay: "k < 11 \<Longrightarrow> 1000 * m_rec_tbl ! k = rec_delay k"
proof -
  assume "k < 11"
  then have "k = 0 \<or> k = 1 \<or> k = 2 \<or> k = 3 \<or> k = 4 \<or> k = 5 \<or> k = 6 \<or> k = 7 \<or> k = 8 \<or> k = 9 \<or> k = 10"
    by presburger
  then show ?thesis by (elim disjE) (simp_all add: m_rec_tbl_def rec_delay_def)
qed

lemma wait_intv_delay: "a2d_rec_wait_intv cnt = rec_delay (unat cnt)"
  using m_rec_tbl_delay [of "unat cnt"]
  by (cases "unat cnt < 11") (simp_all add: a2d_rec_wait_intv_def m_rec_tbl_def rec_delay_def)

definition arm_for :: "nat \<Rightarrow> rec_call list" where
  "arm_for k = [Rec_Change_Period (rec_delay k), Rec_Start]"

lemma alarms_attempt:
  assumes "rec_state cb = A2D_REC_STATE_OPEN" "rec_tmr cb" "rec_connect cb" "unat (rec_cnt cb) + n < 2 ^ 32"
  shows "rec_run (replicate n A2D_REC_EVT_ALARM_TO) cb =
    Some (cb\<lparr>rec_cnt := rec_cnt cb + of_nat n,
      rec_calls := rec_calls cb @ concat (map (\<lambda>k. Rec_Connect # arm_for (unat (rec_cnt cb) + Suc k)) [0..<n])\<rparr>)"
  using assms
proof (induction n)
  case 0
  then show ?case by simp
next
  case (Suc n)
  have "unat (rec_cnt cb + of_nat n + 1) = unat (rec_cnt cb) + Suc n"
  proof -
    have "unat (rec_cnt cb + of_nat (Suc n)) = unat (rec_cnt cb) + Suc n"
      using Suc.prems(4) by (simp only: unat_word_ariths unat_of_nat) (simp add: mod_add_right_eq)
    then show ?thesis by (simp add: algebra_simps)
  qed
  then show ?case
    using Suc by (simp add: replicate_append_same [symmetric] rec_run_append a2d_rec_sm_defs wait_intv_delay arm_for_def
        algebra_simps)
qed

lemma schedule:
  assumes "rec_state cb = A2D_REC_STATE_IDLE" "rec_tmr cb" "rec_connect cb" "n < 2 ^ 32"
  shows "\<exists>cb'. rec_run (A2D_REC_EVT_DISCONNECTED # replicate n A2D_REC_EVT_ALARM_TO @ [A2D_REC_EVT_CONNECTED]) cb = Some cb' \<and>
    rec_calls cb' = rec_calls cb @ arm_for 0 @ concat (map (\<lambda>k. Rec_Connect # arm_for (Suc k)) [0..<n]) @ [Rec_Stop] \<and>
    rec_state cb' = A2D_REC_STATE_IDLE \<and> rec_cnt cb' = 0"
proof -
  define cb1 where "cb1 = cb\<lparr>rec_cnt := 0, rec_calls := rec_calls cb @ arm_for 0, rec_state := A2D_REC_STATE_OPEN\<rparr>"
  have 1: "a2d_rec_sm_handler A2D_REC_EVT_DISCONNECTED cb = Some cb1"
    using assms(1,2) by (simp add: cb1_def a2d_rec_sm_defs wait_intv_delay arm_for_def)
  have 2: "rec_run (replicate n A2D_REC_EVT_ALARM_TO) cb1 =
    Some (cb1\<lparr>rec_cnt := of_nat n,
      rec_calls := rec_calls cb1 @ concat (map (\<lambda>k. Rec_Connect # arm_for (Suc k)) [0..<n])\<rparr>)"
    using alarms_attempt [of cb1 n] assms by (simp add: cb1_def)
  show ?thesis
    unfolding rec_run.simps 1 Option.bind.bind_lunit rec_run_append 2
    using assms(2) by (simp add: cb1_def a2d_rec_sm_defs)
qed

text \<open>
  C15. A lost connection is fetched back on a schedule. After a disconnection the machine calls the
  connect function whenever its timer expires, and arms the timer for 5 s before the first attempt, 10 s before the
  second, 20 s before each of the next nine and 10 minutes before every later one; when a connection comes,
  the timer is stopped, nothing is called any more, and the next loss starts at 5 s again.
\<close>

theorem reconnection_follows_schedule:
  assumes "a2d_rec_sm_init True True cb0 = (True, cb)" "n < 2 ^ 32"
  shows "\<exists>cb'. rec_run (A2D_REC_EVT_DISCONNECTED # replicate n A2D_REC_EVT_ALARM_TO @ [A2D_REC_EVT_CONNECTED]) cb = Some cb' \<and>
    rec_calls cb' = rec_calls cb @ arm_for 0 @ concat (map (\<lambda>k. Rec_Connect # arm_for (Suc k)) [0..<n]) @ [Rec_Stop] \<and>
    rec_state cb' = A2D_REC_STATE_IDLE \<and> rec_cnt cb' = 0"
  using assms by (intro schedule) (auto simp: a2d_rec_sm_init_def no_a2d_rec_def)

theorem reconnection_follows_schedule_witness:
  "\<exists>cb'. rec_run [A2D_REC_EVT_DISCONNECTED, A2D_REC_EVT_ALARM_TO, A2D_REC_EVT_ALARM_TO, A2D_REC_EVT_CONNECTED]
      (snd (a2d_rec_sm_init True True no_a2d_rec)) = Some cb' \<and>
    rec_calls cb' = [Rec_Change_Period 5000, Rec_Start, Rec_Connect, Rec_Change_Period 10000, Rec_Start,
      Rec_Connect, Rec_Change_Period 20000, Rec_Start, Rec_Stop]"
proof -
  have "a2d_rec_sm_init True True no_a2d_rec = (True, snd (a2d_rec_sm_init True True no_a2d_rec))"
    by (simp add: a2d_rec_sm_init_def)
  moreover have "Suc (Suc 0) < 2 ^ 32" by simp
  ultimately have "\<exists>cb'. rec_run (A2D_REC_EVT_DISCONNECTED # replicate (Suc (Suc 0)) A2D_REC_EVT_ALARM_TO @ [A2D_REC_EVT_CONNECTED])
      (snd (a2d_rec_sm_init True True no_a2d_rec)) = Some cb' \<and>
    rec_calls cb' = rec_calls (snd (a2d_rec_sm_init True True no_a2d_rec)) @ arm_for 0 @
      concat (map (\<lambda>k. Rec_Connect # arm_for (Suc k)) [0..<Suc (Suc 0)]) @ [Rec_Stop]"
    using reconnection_follows_schedule by blast
  then
  have "\<exists>cb'. rec_run [A2D_REC_EVT_DISCONNECTED, A2D_REC_EVT_ALARM_TO, A2D_REC_EVT_ALARM_TO, A2D_REC_EVT_CONNECTED]
      (snd (a2d_rec_sm_init True True no_a2d_rec)) = Some cb' \<and>
    rec_calls cb' = rec_calls (snd (a2d_rec_sm_init True True no_a2d_rec)) @ arm_for 0 @
      (Rec_Connect # arm_for 1) @ (Rec_Connect # arm_for 2) @ [Rec_Stop]"
    by (simp del: rec_run.simps add: numeral_2_eq_2)
  then show ?thesis
    by (simp add: arm_for_def rec_delay_def a2d_rec_sm_init_def no_a2d_rec_def del: rec_run.simps)
qed

text \<open>Events that do not fit the state change nothing: a stale alarm, or a second report of the loss.\<close>

lemma stale_event_ignored:
  "rec_tmr cb \<Longrightarrow> rec_state cb = A2D_REC_STATE_IDLE \<Longrightarrow> e \<noteq> A2D_REC_EVT_DISCONNECTED \<Longrightarrow> a2d_rec_sm_handler e cb = Some cb"
  "rec_tmr cb \<Longrightarrow> rec_state cb = A2D_REC_STATE_OPEN \<Longrightarrow> a2d_rec_sm_handler A2D_REC_EVT_DISCONNECTED cb = Some cb"
  by (simp_all add: a2d_rec_sm_defs)

section \<open>The key machine\<close>

datatype key_act_state = KEY_ACT_STATE_IDLE | KEY_ACT_STATE_PRESS | KEY_ACT_STATE_RELEASE

datatype key_evt =
    ESP_AVRC_CT_KEY_STATE_CHG_EVT
  | ESP_AVRC_CT_PASSTHROUGH_RSP_EVT
  | ESP_AVRC_CT_PT_RSP_TO_EVT

abbreviation (input) ESP_AVRC_PT_CMD_STATE_PRESSED :: byte where "ESP_AVRC_PT_CMD_STATE_PRESSED \<equiv> 0"
abbreviation (input) ESP_AVRC_PT_CMD_STATE_RELEASED :: byte where "ESP_AVRC_PT_CMD_STATE_RELEASED \<equiv> 1"

datatype key_call =
    Key_Create
  | Key_Delete
  | Key_Start
  | Key_Reset
  | Key_Stop
  | Passthrough byte u32 byte

record key_act_cb =
  ka_state :: key_act_state
  ka_key_code :: u32
  ka_tmr :: bool
  ka_tl :: byte
  ka_calls :: "key_call list"

record key_act_param =
  kp_evt :: key_evt
  kp_key_code :: u32
  kp_key_state :: byte
  kp_tl :: byte

definition no_key_act :: key_act_cb where
  "no_key_act = \<lparr>ka_state = KEY_ACT_STATE_IDLE, ka_key_code = 0, ka_tmr = False, ka_tl = 0, ka_calls = []\<rparr>"

definition key_do :: "key_call list \<Rightarrow> key_act_cb \<Rightarrow> key_act_cb" where
  "key_do cs cb = cb\<lparr>ka_calls := ka_calls cb @ cs\<rparr>"

definition key_act_sm_init :: "bool \<Rightarrow> key_act_cb \<Rightarrow> bool \<times> key_act_cb" where
  "key_act_sm_init created cb =
     (let cb1 = (if ka_tmr cb then key_do [Key_Delete] cb else cb);
          cb2 = no_key_act\<lparr>ka_tmr := created, ka_calls := ka_calls cb1 @ [Key_Create]\<rparr>
      in (created, cb2))"

definition key_act_sm_deinit :: "key_act_cb \<Rightarrow> key_act_cb" where
  "key_act_sm_deinit cb =
     (let cb1 = (if ka_tmr cb then key_do [Key_Delete] cb else cb) in no_key_act\<lparr>ka_calls := ka_calls cb1\<rparr>)"

definition key_act_state_hdl_idle :: "key_act_param \<Rightarrow> key_act_cb \<Rightarrow> key_act_cb" where
  "key_act_state_hdl_idle param cb =
     (if kp_evt param = ESP_AVRC_CT_KEY_STATE_CHG_EVT
      then (key_do [Passthrough (kp_tl param) (kp_key_code param) ESP_AVRC_PT_CMD_STATE_PRESSED, Key_Start]
             (cb\<lparr>ka_tl := kp_tl param, ka_key_code := kp_key_code param\<rparr>))\<lparr>ka_state := KEY_ACT_STATE_PRESS\<rparr>
      else cb)"

definition key_forget :: "key_act_cb \<Rightarrow> key_act_cb" where
  "key_forget cb = cb\<lparr>ka_tl := 0, ka_key_code := 0, ka_state := KEY_ACT_STATE_IDLE\<rparr>"

definition key_act_state_hdl_press :: "key_act_param \<Rightarrow> key_act_cb \<Rightarrow> key_act_cb" where
  "key_act_state_hdl_press param cb =
     (if kp_evt param = ESP_AVRC_CT_PASSTHROUGH_RSP_EVT
      then if ka_tl cb \<noteq> kp_tl param \<or> ka_key_code cb \<noteq> kp_key_code param \<or> kp_key_state param \<noteq> ESP_AVRC_PT_CMD_STATE_PRESSED
           then cb
           else let cb1 = cb\<lparr>ka_tl := (ka_tl cb + 1) AND 0x0F\<rparr>
                in (key_do [Passthrough (ka_tl cb1) (kp_key_code param) ESP_AVRC_PT_CMD_STATE_RELEASED, Key_Reset] cb1)
                     \<lparr>ka_state := KEY_ACT_STATE_RELEASE\<rparr>
      else if kp_evt param = ESP_AVRC_CT_PT_RSP_TO_EVT then key_forget cb
      else cb)"

definition key_act_state_hdl_release :: "key_act_param \<Rightarrow> key_act_cb \<Rightarrow> key_act_cb" where
  "key_act_state_hdl_release param cb =
     (if kp_evt param = ESP_AVRC_CT_PASSTHROUGH_RSP_EVT
      then if ka_tl cb \<noteq> kp_tl param \<or> ka_key_code cb \<noteq> kp_key_code param \<or> kp_key_state param \<noteq> ESP_AVRC_PT_CMD_STATE_RELEASED
           then cb
           else (key_do [Key_Stop] cb)\<lparr>ka_state := KEY_ACT_STATE_IDLE, ka_key_code := 0\<rparr>
      else if kp_evt param = ESP_AVRC_CT_PT_RSP_TO_EVT then key_forget cb
      else cb)"

definition key_act_state_machine :: "key_act_param \<Rightarrow> key_act_cb \<Rightarrow> key_act_cb" where
  "key_act_state_machine param cb =
     (case ka_state cb of
        KEY_ACT_STATE_IDLE \<Rightarrow> key_act_state_hdl_idle param cb
      | KEY_ACT_STATE_PRESS \<Rightarrow> key_act_state_hdl_press param cb
      | KEY_ACT_STATE_RELEASE \<Rightarrow> key_act_state_hdl_release param cb)"

lemmas key_act_defs =
  key_act_state_machine_def key_act_state_hdl_idle_def key_act_state_hdl_press_def key_act_state_hdl_release_def
  key_forget_def key_do_def

section \<open>What goes to the remote player\<close>

text \<open>The commands among the calls, and the grammar they obey: a press, or a press with its release, each
  release with the key of the press before it and the next label.\<close>

fun commands :: "key_call list \<Rightarrow> (byte \<times> u32 \<times> byte) list" where
  "commands [] = []"
| "commands (Passthrough lbl key st # cs) = (lbl, key, st) # commands cs"
| "commands (_ # cs) = commands cs"

lemma commands_append [simp]: "commands (xs @ ys) = commands xs @ commands ys"
  by (induction xs rule: commands.induct) auto

text \<open>\<open>paired cs\<close>: the commands of all keys sent; \<open>open_press lbl key cs\<close>: the last is a press without a release.\<close>

inductive paired :: "(byte \<times> u32 \<times> byte) list \<Rightarrow> bool" where
  paired_none: "paired []"
| paired_press: "paired cs \<Longrightarrow> paired (cs @ [(lbl, key, ESP_AVRC_PT_CMD_STATE_PRESSED)])"
| paired_key: "paired cs \<Longrightarrow> paired (cs @ [(lbl, key, ESP_AVRC_PT_CMD_STATE_PRESSED),
    ((lbl + 1) AND 0x0F, key, ESP_AVRC_PT_CMD_STATE_RELEASED)])"

inductive_cases paired_snocE: "paired (cs @ [c])"

definition key_ok :: "key_act_cb \<Rightarrow> bool" where
  "key_ok cb \<longleftrightarrow>
     (case ka_state cb of
        KEY_ACT_STATE_PRESS \<Rightarrow> \<exists>cs. paired cs \<and> commands (ka_calls cb) = cs @ [(ka_tl cb, ka_key_code cb, ESP_AVRC_PT_CMD_STATE_PRESSED)]
      | KEY_ACT_STATE_RELEASE \<Rightarrow> \<exists>cs lbl. paired cs \<and> ka_tl cb = (lbl + 1) AND 0x0F \<and>
          commands (ka_calls cb) = cs @ [(lbl, ka_key_code cb, ESP_AVRC_PT_CMD_STATE_PRESSED), (ka_tl cb, ka_key_code cb, ESP_AVRC_PT_CMD_STATE_RELEASED)]
      | KEY_ACT_STATE_IDLE \<Rightarrow> paired (commands (ka_calls cb)))"

lemma key_ok_paired: "key_ok cb \<Longrightarrow> paired (commands (ka_calls cb))"
  by (auto simp: key_ok_def split: key_act_state.splits intro: paired.intros)

lemma key_ok_idle: "key_ok cb \<Longrightarrow> ka_state cb' = KEY_ACT_STATE_IDLE \<Longrightarrow> commands (ka_calls cb') = commands (ka_calls cb) \<Longrightarrow> key_ok cb'"
  using key_ok_paired [of cb] by (simp add: key_ok_def)

lemma key_machine_ok:
  assumes "key_ok cb"
  shows "key_ok (key_act_state_machine param cb)"
proof (cases "ka_state cb")
  case KEY_ACT_STATE_IDLE
  then show ?thesis using assms by (auto simp: key_act_defs key_ok_def)
next
  case KEY_ACT_STATE_PRESS
  then show ?thesis using assms key_ok_paired [OF assms] by (auto simp: key_act_defs key_ok_def)
next
  case KEY_ACT_STATE_RELEASE
  then show ?thesis using assms key_ok_paired [OF assms] by (auto simp: key_act_defs key_ok_def)
qed

lemma key_init_ok: "key_ok cb \<Longrightarrow> key_ok (snd (key_act_sm_init created cb))"
  using key_ok_paired [of cb] by (simp add: key_act_sm_init_def key_do_def no_key_act_def key_ok_def)

lemma key_deinit_ok: "key_ok cb \<Longrightarrow> key_ok (key_act_sm_deinit cb)"
  using key_ok_paired [of cb] by (simp add: key_act_sm_deinit_def key_do_def no_key_act_def key_ok_def)

lemma no_key_ok: "key_ok no_key_act"
  by (simp add: key_ok_def no_key_act_def paired_none)

text \<open>A key that is answered: press and release are sent, and the machine is idle again.\<close>

definition answered :: "byte \<Rightarrow> u32 \<Rightarrow> key_act_param list" where
  "answered lbl key =
     [\<lparr>kp_evt = ESP_AVRC_CT_KEY_STATE_CHG_EVT, kp_key_code = key, kp_key_state = 0, kp_tl = lbl\<rparr>,
      \<lparr>kp_evt = ESP_AVRC_CT_PASSTHROUGH_RSP_EVT, kp_key_code = key, kp_key_state = ESP_AVRC_PT_CMD_STATE_PRESSED, kp_tl = lbl\<rparr>,
      \<lparr>kp_evt = ESP_AVRC_CT_PASSTHROUGH_RSP_EVT, kp_key_code = key, kp_key_state = ESP_AVRC_PT_CMD_STATE_RELEASED,
       kp_tl = (lbl + 1) AND 0x0F\<rparr>]"

lemma answered_key_sent:
  "ka_state cb = KEY_ACT_STATE_IDLE \<Longrightarrow>
     fold key_act_state_machine (answered lbl key) cb = cb\<lparr>ka_tl := (lbl + 1) AND 0x0F, ka_key_code := 0,
       ka_calls := ka_calls cb @ [Passthrough lbl key ESP_AVRC_PT_CMD_STATE_PRESSED, Key_Start,
         Passthrough ((lbl + 1) AND 0x0F) key ESP_AVRC_PT_CMD_STATE_RELEASED, Key_Reset, Key_Stop]\<rparr>"
  by (simp add: answered_def key_act_defs)

text \<open>
  A lost response: the timer is created with the period \<open>portMAX_DELAY\<close>, and the 500 ms given to
  \<open>xTimerStart\<close> are the time to wait for the timer queue, so no time-out comes for 49 days; until then
  every key is dropped.
\<close>

lemma lost_response_locks_keys:
  assumes "ka_state cb = KEY_ACT_STATE_PRESS" "\<forall>p \<in> set ps. kp_evt p = ESP_AVRC_CT_KEY_STATE_CHG_EVT"
  shows "fold key_act_state_machine ps cb = cb"
  using assms(2)
proof (induction ps)
  case Nil
  then show ?case by simp
next
  case (Cons p ps)
  then have "key_act_state_machine p cb = cb" using assms(1) by (simp add: key_act_defs)
  then show ?case using Cons by simp
qed

end
