(* ===== verification/Dd_Http.thy ===== *)
theory Dd_Http
  imports Prelude
begin

text \<open>
  The speech client \<open>main/dd_http.c\<close>: collecting the reply of the recognition service, handing its
  answer to the speech synthesis service, and playing what comes back.

  The HTTP client, cJSON, MD5 and the player are outside: the events the HTTP client reports are
  arguments, and what the code asks of the others is collected in the state. \<open>None\<close> is undefined
  behaviour. A text in a buffer is the list of its bytes with its terminator.
\<close>

section \<open>URL encoding\<close>

definition upper_hex :: "nat \<Rightarrow> byte" where
  "upper_hex n = of_nat (if n < 10 then 48 + n else 55 + n)"

definition url_plain :: "byte \<Rightarrow> bool" where
  "url_plain ch \<longleftrightarrow> 65 \<le> unat ch \<and> unat ch < 90 \<or> 97 \<le> unat ch \<and> unat ch < 122 \<or> 48 \<le> unat ch \<and> unat ch < 57"

definition url_mark :: "byte \<Rightarrow> bool" where
  "url_mark ch \<longleftrightarrow> ch = 0x2E \<or> ch = 0x2D \<or> ch = 0x5F \<or> ch = 0x2A"

definition percent :: "byte \<Rightarrow> byte list" where
  "percent ch = [0x25, upper_hex (unat ch div 16), upper_hex (unat ch mod 16)]"

text \<open>The loop, for the \<open>n\<close> bytes of \<open>str\<close> from \<open>i\<close>; the result is the value returned and the result buffer.\<close>

fun url_encode_loop :: "byte list \<Rightarrow> nat \<Rightarrow> nat \<Rightarrow> nat \<Rightarrow> byte list \<Rightarrow> nat \<Rightarrow> (nat \<times> byte list) option" where
  "url_encode_loop str i 0 resultSize result j = do { r \<leftarrow> wr result j 0; Some (j, r) }"
| "url_encode_loop str i (Suc n) resultSize result j =
     (if j < resultSize
      then do { ch \<leftarrow> rd str i;
                if url_plain ch
                then do { r \<leftarrow> wr result j ch; url_encode_loop str (i + 1) n resultSize r (j + 1) }
                else if ch = 0x20
                then do { r \<leftarrow> wr result j 0x2B; url_encode_loop str (i + 1) n resultSize r (j + 1) }
                else if url_mark ch
                then do { r \<leftarrow> wr result j ch; url_encode_loop str (i + 1) n resultSize r (j + 1) }
                else if j + 3 < resultSize
                then do { r \<leftarrow> blit result j (percent ch @ [0]); url_encode_loop str (i + 1) n resultSize r (j + 3) }
                else Some (0, result) }
      else do { r \<leftarrow> wr result j 0; Some (j, r) })"

definition URLEncode ::
  "byte list option \<Rightarrow> int \<Rightarrow> byte list option \<Rightarrow> int \<Rightarrow> (nat \<times> byte list option) option" where
  "URLEncode str strSize result resultSize =
     (case (str, result) of
        (Some s, Some r) \<Rightarrow>
          if strSize \<le> 0 \<or> resultSize \<le> 0 then Some (0, result)
          else do { (j, r') \<leftarrow> url_encode_loop s 0 (nat strSize) (nat resultSize) r 0; Some (j, Some r') }
      | _ \<Rightarrow> Some (0, result))"

section \<open>The reply of the recognition service\<close>

datatype tts_state = tts_text_state_start | tts_text_state_run | tts_text_state_finish | tts_text_state_err

text \<open>
  What \<open>tts_text_finish\<close> looks at in an element of the \<open>data\<close> array: the items \<open>sub\<close> and \<open>text\<close> and the
  item \<open>text\<close> of \<open>intent.answer\<close>. An item is \<open>None\<close> when it is missing; its \<open>valuestring\<close> is \<open>None\<close> when
  it is not a string.
\<close>

record reply_node =
  n_sub :: "byte list option option"
  n_text :: "byte list option option"
  n_intent :: "byte list option option option"

record speech =
  tts_text_json :: "byte list option"
  tts_text_iat_txt :: "byte list"
  tts_text_nlp_txt :: "byte list"
  tts_text_state :: tts_state
  tts_text_json_offset :: nat
  http_queue :: nat
  tts_respon_audio_flag :: bool
  tts_file :: bool
  tts_filecnt :: nat
  player_calls :: "(string \<times> byte list) list"

abbreviation (input) TTS_JSON_SIZE :: nat where "TTS_JSON_SIZE \<equiv> 64 * 1024"
abbreviation (input) TTS_IAT_SIZE :: nat where "TTS_IAT_SIZE \<equiv> 256"
abbreviation (input) TTS_NLP_SIZE :: nat where "TTS_NLP_SIZE \<equiv> 2 * 1024"

definition tts_text_start :: "speech \<Rightarrow> speech" where
  "tts_text_start s =
     s\<lparr>tts_text_json := Some (replicate TTS_JSON_SIZE 0), tts_text_iat_txt := replicate TTS_IAT_SIZE 0,
       tts_text_nlp_txt := replicate TTS_NLP_SIZE 0, tts_text_state := tts_text_state_start, tts_text_json_offset := 0\<rparr>"

definition tts_text_push :: "byte list \<Rightarrow> speech \<Rightarrow> speech option" where
  "tts_text_push info s =
     do { json \<leftarrow> tts_text_json s;
          json' \<leftarrow> blit json (tts_text_json_offset s) info;
          Some (s\<lparr>tts_text_json := Some json', tts_text_json_offset := tts_text_json_offset s + length info,
                  tts_text_state := tts_text_state_run\<rparr>) }"

text \<open>\<open>snprintf(buf, size, "%s", text)\<close> and \<open>ddOSEvtSend\<close> to the queue of five messages.\<close>

definition snprintf_s :: "byte list \<Rightarrow> nat \<Rightarrow> byte list \<Rightarrow> byte list option" where
  "snprintf_s buf n t = blit buf 0 (take (n - 1) t @ [0])"

definition send_tts_evt :: "speech \<Rightarrow> speech" where
  "send_tts_evt s = (if http_queue s < 5 then s\<lparr>http_queue := http_queue s + 1\<rparr> else s)"

text \<open>\<open>strcmp(item->valuestring, t) == 0\<close> for an item that is there.\<close>

definition item_is :: "byte list option option \<Rightarrow> byte list \<Rightarrow> bool option" where
  "item_is item t = (case item of None \<Rightarrow> Some False | Some None \<Rightarrow> None | Some (Some v) \<Rightarrow> Some (v = t))"

text \<open>One element: the recognised text, then the answer.\<close>

definition take_iat :: "reply_node \<Rightarrow> bool \<times> bool \<times> speech \<Rightarrow> (bool \<times> bool \<times> speech) option" where
  "take_iat node = (\<lambda>(iat, nlp, s).
     if iat then Some (iat, nlp, s)
     else do { is \<leftarrow> item_is (n_sub node) (ascii ''iat'');
               if \<not> is then Some (iat, nlp, s)
               else case n_text node of
                      None \<Rightarrow> Some (iat, nlp, s)
                    | Some None \<Rightarrow> None
                    | Some (Some t) \<Rightarrow> do { b \<leftarrow> snprintf_s (tts_text_iat_txt s) TTS_IAT_SIZE t;
                                           Some (True, nlp, s\<lparr>tts_text_iat_txt := b\<rparr>) } })"

definition take_nlp :: "reply_node \<Rightarrow> bool \<times> bool \<times> speech \<Rightarrow> (bool \<times> bool \<times> speech) option" where
  "take_nlp node = (\<lambda>(iat, nlp, s).
     if nlp then Some (iat, nlp, s)
     else do { is \<leftarrow> item_is (n_sub node) (ascii ''nlp'');
               if \<not> is then Some (iat, nlp, s)
               else case n_intent node of
                      None \<Rightarrow> Some (iat, nlp, s)
                    | Some None \<Rightarrow> Some (iat, nlp, s)
                    | Some (Some None) \<Rightarrow> None
                    | Some (Some (Some t)) \<Rightarrow>
                        if t = [] then Some (iat, nlp, s)
                        else do { b \<leftarrow> snprintf_s (tts_text_nlp_txt s) TTS_NLP_SIZE t;
                                  Some (iat, True, s\<lparr>tts_text_nlp_txt := b\<rparr>) } })"

fun reply_loop :: "reply_node list \<Rightarrow> bool \<times> bool \<times> speech \<Rightarrow> (bool \<times> speech) option" where
  "reply_loop [] st = Some (False, snd (snd st))"
| "reply_loop (n # ns) st =
     do { st1 \<leftarrow> take_iat n st;
          st2 \<leftarrow> take_nlp n st1;
          if fst st2 \<and> fst (snd st2) then Some (True, snd (snd st2)) else reply_loop ns st2 }"

text \<open>\<open>parse\<close> stands for cJSON: the elements of \<open>data\<close>, or \<open>None\<close> when there is no such array.\<close>

definition tts_text_finish :: "(byte list \<Rightarrow> reply_node list option) \<Rightarrow> speech \<Rightarrow> speech option" where
  "tts_text_finish parse s =
     do { json \<leftarrow> tts_text_json s;
          text \<leftarrow> c_str json;
          let s1 = s\<lparr>tts_text_state := tts_text_state_finish\<rparr>;
          (found, s2) \<leftarrow> (case parse text of None \<Rightarrow> Some (False, s1) | Some nodes \<Rightarrow> reply_loop nodes (False, False, s1));
          Some (send_tts_evt (if found then s2 else s2\<lparr>tts_text_state := tts_text_state_err\<rparr>)) }"

section \<open>Events of the HTTP client\<close>

datatype http_event =
    HTTP_EVENT_ERROR | HTTP_EVENT_ON_CONNECTED | HTTP_EVENT_HEADER_SENT
  | HTTP_EVENT_ON_HEADER "byte list" "byte list"
  | HTTP_EVENT_ON_DATA bool "byte list"
  | HTTP_EVENT_ON_FINISH | HTTP_EVENT_DISCONNECTED

text \<open>The flag of a data event says that the response is chunked.\<close>

definition http_event_handler :: "(byte list \<Rightarrow> reply_node list option) \<Rightarrow> http_event \<Rightarrow> speech \<Rightarrow> speech option" where
  "http_event_handler parse evt s =
     (case evt of
        HTTP_EVENT_ON_DATA chunked d \<Rightarrow> if \<not> chunked then tts_text_push d s else Some s
      | HTTP_EVENT_ON_FINISH \<Rightarrow> tts_text_finish parse s
      | _ \<Rightarrow> Some s)"

text \<open>\<open>can_open\<close> says whether \<open>fopen\<close> succeeds; \<open>fwrite\<close> and \<open>fclose\<close> need an open file.\<close>

definition http_event_handler_tts :: "bool \<Rightarrow> http_event \<Rightarrow> speech \<Rightarrow> speech option" where
  "http_event_handler_tts can_open evt s =
     (case evt of
        HTTP_EVENT_ON_HEADER k v \<Rightarrow>
          if strstr k (ascii ''Content-Type'') \<noteq> None
          then if strstr v (ascii ''audio'') \<noteq> None
               then Some (s\<lparr>player_calls := player_calls s @ [(''rawStop'', []), (''rawStart'', ascii ''raw://from.mp3/to.mp3#i2s,16000,1,mp3'')],
                            tts_respon_audio_flag := True, tts_filecnt := tts_filecnt s + 1, tts_file := can_open\<rparr>)
               else if strstr v (ascii ''text'') \<noteq> None then Some (s\<lparr>tts_respon_audio_flag := False\<rparr>)
               else Some s
          else Some s
      | HTTP_EVENT_ON_DATA chunked d \<Rightarrow>
          if tts_respon_audio_flag s \<and> \<not> chunked
          then if tts_file s then Some (s\<lparr>player_calls := player_calls s @ [(''rawWrite'', d)]\<rparr>) else None
          else Some s
      | HTTP_EVENT_ON_FINISH \<Rightarrow> if tts_file s then Some (s\<lparr>tts_file := False\<rparr>) else None
      | _ \<Rightarrow> Some s)"

section \<open>Requests\<close>

record http_request =
  req_url :: "byte list"
  req_headers :: "(byte list \<times> byte list) list"
  req_body :: "byte list"

text \<open>The checksum headers both services want: \<open>md5\<close> is \<open>mbedtls_md5\<close>, \<open>param\<close> the fixed base64 text.\<close>

definition xf_headers :: "(byte list \<Rightarrow> byte list) \<Rightarrow> nat \<Rightarrow> byte list \<Rightarrow> byte list \<Rightarrow> (byte list \<times> byte list) list" where
  "xf_headers md5 now apikey param =
     [(ascii ''X-Appid'', ascii ''5b976677''), (ascii ''X-CurTime'', decimal now), (ascii ''X-Param'', param),
      (ascii ''X-CheckSum'', hex_text (md5 (apikey @ decimal now @ param)))]"

definition xunfei_tts_request ::
  "(byte list \<Rightarrow> byte list) \<Rightarrow> nat \<Rightarrow> byte list \<Rightarrow> byte list \<Rightarrow> int \<Rightarrow> http_request option" where
  "xunfei_tts_request md5 now param buffer len =
     do { b0 \<leftarrow> blit (replicate 1000 0) 0 (ascii ''text='' @ [0]);
          (_, r) \<leftarrow> URLEncode (Some buffer) len (Some (drop 5 b0)) (1000 - 5);
          let urlbuff = take 5 b0 @ (case r of None \<Rightarrow> [] | Some x \<Rightarrow> x);
          text \<leftarrow> c_str urlbuff;
          Some \<lparr>req_url = ascii ''http://api.xfyun.cn/v1/service/v1/tts'',
                req_headers = (ascii ''Content-Type'', ascii ''application/x-www-form-urlencoded; charset=utf-8'') #
                  xf_headers md5 now (ascii ''0df05848029ed4e9fd3db36f485850df'') param,
                req_body = take (length text + 1) urlbuff\<rparr> }"

definition data_post_request ::
  "(byte list \<Rightarrow> byte list) \<Rightarrow> nat \<Rightarrow> byte list \<Rightarrow> byte list \<Rightarrow> speech \<Rightarrow> http_request \<times> speech" where
  "data_post_request md5 now param recording s =
     (\<lparr>req_url = ascii ''http://openapi.xfyun.cn/v2/aiui'',
       req_headers = xf_headers md5 now (ascii ''1f61390c3ffb48f9bb7b021c81070b69'') param,
       req_body = recording\<rparr>, tts_text_start s)"

text \<open>One pass of the loop of \<open>ddhttp_task\<close>: a message of the queue is served, when there is one.\<close>

definition ddhttp_task_pass ::
  "(byte list \<Rightarrow> byte list) \<Rightarrow> nat \<Rightarrow> byte list \<Rightarrow> speech \<Rightarrow> (http_request option \<times> speech) option" where
  "ddhttp_task_pass md5 now param s =
     (if http_queue s = 0 then Some (None, s)
      else (let s1 = s\<lparr>http_queue := http_queue s - 1\<rparr> in
            if tts_text_state s1 = tts_text_state_finish
            then do { t \<leftarrow> c_str (tts_text_nlp_txt s1);
                      q \<leftarrow> xunfei_tts_request md5 now param t (int (length t));
                      Some (Some q, s1) }
            else Some (None, s1)))"

section \<open>What the encoding is\<close>

definition url_byte :: "byte \<Rightarrow> byte list" where
  "url_byte ch = (if url_plain ch \<or> url_mark ch then [ch] else if ch = 0x20 then [0x2B] else percent ch)"

definition url_encoding :: "byte list \<Rightarrow> byte list" where
  "url_encoding s = concat (map url_byte s)"

lemma url_encoding_simps [simp]:
  "url_encoding [] = []" "url_encoding (c # s) = url_byte c @ url_encoding s"
  by (simp_all add: url_encoding_def)

text \<open>Reading one encoded byte, and a whole text, as a server does.\<close>

definition unhex :: "byte \<Rightarrow> nat" where
  "unhex b = (if unat b < 58 then unat b - 48 else unat b - 55)"

fun url_dec :: "byte list \<Rightarrow> (byte \<times> byte list) option" where
  "url_dec [] = None"
| "url_dec (c # s) =
     (if c = 0x25 then (case s of h # l # r \<Rightarrow> Some (of_nat (unhex h * 16 + unhex l), r) | _ \<Rightarrow> None)
      else if c = 0x2B then Some (0x20, s) else Some (c, s))"

lemma unhex_upper: "n < 16 \<Longrightarrow> unhex (upper_hex n) = n"
  by (simp add: unhex_def upper_hex_def unat_of_nat)

lemma url_plain_safe: "url_plain c \<Longrightarrow> c \<noteq> 0x25 \<and> c \<noteq> 0x2B \<and> c \<noteq> 0x20 \<and> c \<noteq> 0"
  by (auto simp: url_plain_def)

lemma url_mark_safe: "url_mark c \<Longrightarrow> c \<noteq> 0x25 \<and> c \<noteq> 0x2B \<and> c \<noteq> 0x20 \<and> c \<noteq> 0"
  by (auto simp: url_mark_def)

lemma url_dec_byte: "url_dec (url_byte c @ s) = Some (c, s)"
proof -
  have "unat c < 256" using unsigned_less [of c] by simp
  then have "of_nat (unhex (upper_hex (unat c div 16)) * 16 + unhex (upper_hex (unat c mod 16))) = c"
    by (simp add: unhex_upper less_mult_imp_div_less del: of_nat_add of_nat_mult)
  then show ?thesis
    using url_plain_safe [of c] url_mark_safe [of c] by (auto simp: url_byte_def percent_def)
qed

interpretation url: prefix_codec url_byte url_dec "\<lambda>_. True"
  by unfold_locales (rule url_dec_byte)

lemma unat_upper_hex: "n < 16 \<Longrightarrow> unat (upper_hex n) = (if n < 10 then 48 + n else 55 + n)"
  unfolding upper_hex_def unat_of_nat by simp

lemma url_byte_nonzero: "0 \<notin> set (url_byte c)"
proof -
  have "upper_hex n \<noteq> 0" if "n < 16" for n
    using unat_upper_hex [OF that] by (metis add_is_0 unsigned_0 zero_neq_numeral)
  moreover have "unat c < 256" using unsigned_less [of c] by simp
  then have "unat c div 16 < 16" by (simp add: less_mult_imp_div_less)
  ultimately show ?thesis
    using url_plain_safe [of c] url_mark_safe [of c] by (auto simp: url_byte_def percent_def)
qed

lemma url_encoding_nonzero: "0 \<notin> set (url_encoding s)"
  by (induction s) (simp_all add: url_byte_nonzero)

text \<open>The loop writes the encoding, then the terminator.\<close>

lemma take_blit: "blit r j x = Some r' \<Longrightarrow> j \<le> length r \<Longrightarrow> n \<le> length x \<Longrightarrow> take (j + n) r' = take j r @ take n x"
  by (auto simp: blit_eq_Some_iff min_def)

lemma url_loop:
  assumes "j + length (url_encoding s) < resultSize" "resultSize \<le> length result"
  shows "url_encode_loop (pre @ s @ post) (length pre) (length s) resultSize result j =
    Some (j + length (url_encoding s),
      take j result @ url_encoding s @ 0 # drop (j + length (url_encoding s) + 1) result)"
  using assms
proof (induction s arbitrary: pre result j)
  case Nil
  then show ?case by (simp add: wr_def upd_conv_take_nth_drop)
next
  case (Cons c s)
  have ch: "rd (pre @ (c # s) @ post) (length pre) = Some c" by (simp add: rd_def)
  have len: "j + length (url_byte c) + length (url_encoding s) < resultSize" using Cons.prems(1) by simp
  have pre: "pre @ (c # s) @ post = (pre @ [c]) @ s @ post" "Suc (length pre) = length (pre @ [c])" by simp_all
  have step: "url_encode_loop (pre @ (c # s) @ post) (length pre) (Suc (length s)) resultSize result j =
      url_encode_loop (pre @ (c # s) @ post) (Suc (length pre)) (length s) resultSize r (j + length (url_byte c)) \<Longrightarrow>
      length r = length result \<Longrightarrow> take (j + length (url_byte c)) r = take j result @ url_byte c \<Longrightarrow>
      (\<And>n. j + length (url_byte c) < n \<Longrightarrow> drop n r = drop n result) \<Longrightarrow> ?case" for r
    using Cons.IH [of "j + length (url_byte c)" r "pre @ [c]"] len Cons.prems(2)
    by (simp add: add.assoc)
  show ?case
  proof (cases "url_plain c \<or> url_mark c \<or> c = 0x20")
    case True
    define x where "x = (if c = 0x20 then 0x2B else c)"
    have x: "url_byte c = [x]" using True url_plain_safe [of c] url_mark_safe [of c] by (auto simp: url_byte_def x_def)
    have j: "j < resultSize" "j < length result" using len x Cons.prems(2) by simp_all
    show ?thesis
    proof (rule step [of "result[j := x]"])
      show "url_encode_loop (pre @ (c # s) @ post) (length pre) (Suc (length s)) resultSize result j =
          url_encode_loop (pre @ (c # s) @ post) (Suc (length pre)) (length s) resultSize (result[j := x]) (j + length (url_byte c))"
        using True j ch url_plain_safe [of c] url_mark_safe [of c] by (auto simp: wr_def x x_def)
    qed (use j x in \<open>simp_all add: take_Suc_update\<close>)
  next
    case False
    then have p: "url_byte c = percent c" "length (percent c) = 3" by (simp_all add: url_byte_def percent_def)
    have j: "j + 3 < resultSize" "j + 4 \<le> length result" using len p Cons.prems(2) by simp_all
    then obtain r where r: "blit result j (percent c @ [0]) = Some r"
      "r = take j result @ (percent c @ [0]) @ drop (j + 4) result"
      using p(2) by (simp add: blit_def)
    show ?thesis
    proof (rule step [of r])
      show "url_encode_loop (pre @ (c # s) @ post) (length pre) (Suc (length s)) resultSize result j =
          url_encode_loop (pre @ (c # s) @ post) (Suc (length pre)) (length s) resultSize r (j + length (url_byte c))"
        using False j r(1) ch p by simp
      show "drop n r = drop n result" if "j + length (url_byte c) < n" for n
      proof -
        have "j + 4 \<le> n" using that p by simp
        then obtain m where "n = j + 4 + m" using le_Suc_ex by blast
        with j p show ?thesis by (simp add: r(2) min_def ac_simps)
      qed
    qed (use j p r(2) in \<open>simp_all add: min_def\<close>)
  qed
qed

lemma url_encode_text:
  assumes "s \<noteq> []" "length (url_encoding s) < resultSize" "resultSize \<le> length result"
  shows "URLEncode (Some (s @ post)) (int (length s)) (Some result) (int resultSize) =
    Some (length (url_encoding s), Some (url_encoding s @ 0 # drop (length (url_encoding s) + 1) result))"
  using url_loop [of 0 s resultSize result "[]" post] assms by (simp add: URLEncode_def)

text \<open>
  C18. A text survives URL encoding. If its encoding is shorter than the result buffer,
  \<open>URLEncode\<close> stays inside its buffers, returns the length of the encoding and leaves a
  terminated string; decoding that string byte by byte gives the text back.
\<close>

theorem url_encode_roundtrip:
  assumes "s \<noteq> []" "length (url_encoding s) < resultSize" "resultSize \<le> length result"
  shows "\<exists>enc result'. URLEncode (Some (s @ post)) (int (length s)) (Some result) (int resultSize) =
      Some (length enc, Some result') \<and>
    c_str result' = Some enc \<and> length result' = length result \<and> dec_many url_dec (length s) enc = Some (s, [])"
proof -
  have "dec_many url_dec (length s) (url_encoding s) = Some (s, [])"
    using url.dec_many_enc [of s "[]"] by (simp add: url_encoding_def list_all_iff)
  moreover have "c_str (url_encoding s @ 0 # drop (length (url_encoding s) + 1) result) = Some (url_encoding s)"
    by (rule c_str_append [OF url_encoding_nonzero])
  ultimately show ?thesis
    using url_encode_text [OF assms, of post] assms(2,3)
    by (intro exI [of _ "url_encoding s"] exI) (auto intro: exI)
qed

text \<open>A text whose encoding has exactly the size of the buffer is terminated one byte behind it.\<close>

lemma url_encode_overrun:
  assumes "list_all url_plain s" "s \<noteq> []"
  shows "URLEncode (Some s) (int (length s)) (Some (replicate (length s) 0)) (int (length s)) = None"
proof -
  have "url_encode_loop (pre @ s) (length pre) (length s) (length pre + length s) result (length pre) = None"
    if "list_all url_plain s" "length result = length pre + length s" for pre s result :: "byte list"
    using that
  proof (induction s arbitrary: pre result)
    case (Cons c s)
    then show ?case
      using Cons.IH [of "result[length pre := c]" "pre @ [c]"] by (simp add: rd_def wr_def)
  qed (simp add: wr_def)
  from this [of s "replicate (length s) 0" "[]"] assms show ?thesis by (simp add: URLEncode_def)
qed

theorem url_encode_roundtrip_witness:
  "\<exists>enc result'. URLEncode (Some [0x5A, 0x20, 0x41]) 3 (Some (replicate 16 0)) 16 = Some (length enc, Some result') \<and>
     dec_many url_dec (length [0x5A :: byte, 0x20, 0x41]) enc = Some ([0x5A, 0x20, 0x41], [])"
  using url_encode_roundtrip [of "[0x5A, 0x20, 0x41]" 16 "replicate 16 0" "[]"]
  by (simp add: url_byte_def url_plain_def url_mark_def percent_def del: dec_many.simps) blast

section \<open>From a recording to the spoken answer\<close>

fun run_all :: "('e \<Rightarrow> 's \<Rightarrow> 's option) \<Rightarrow> 'e list \<Rightarrow> 's \<Rightarrow> 's option" where
  "run_all f [] s = Some s"
| "run_all f (e # es) s = do { s1 \<leftarrow> f e s; run_all f es s1 }"

lemma run_all_append: "run_all f (es @ fs) s = do { s1 \<leftarrow> run_all f es s; run_all f fs s1 }"
proof (induction es arbitrary: s)
  case (Cons e es)
  then show ?case by (cases "f e s") simp_all
qed simp

definition data_chunk :: "byte list \<Rightarrow> http_event" where
  "data_chunk d = HTTP_EVENT_ON_DATA False d"

lemma pushes:
  assumes "tts_text_json s = Some (pre @ rest)" "tts_text_json_offset s = length pre" "length (concat cs) \<le> length rest"
  shows "\<exists>st. run_all (http_event_handler parse) (map data_chunk cs) s =
    Some (s\<lparr>tts_text_json := Some (pre @ concat cs @ drop (length (concat cs)) rest),
            tts_text_state := st, tts_text_json_offset := length pre + length (concat cs)\<rparr>)"
  using assms
proof (induction cs arbitrary: s pre rest)
  case Nil
  then show ?case by (intro exI [of _ "tts_text_state s"]) simp
next
  case (Cons c cs)
  let ?s1 = "s\<lparr>tts_text_json := Some ((pre @ c) @ drop (length c) rest),
      tts_text_json_offset := length pre + length c, tts_text_state := tts_text_state_run\<rparr>"
  have one: "http_event_handler parse (data_chunk c) s = Some ?s1"
    using Cons.prems by (simp add: http_event_handler_def data_chunk_def tts_text_push_def blit_def)
  have p: "tts_text_json ?s1 = Some ((pre @ c) @ drop (length c) rest)"
    "tts_text_json_offset ?s1 = length (pre @ c)" "length (concat cs) \<le> length (drop (length c) rest)"
    using Cons.prems(3) by simp_all
  obtain st where "run_all (http_event_handler parse) (map data_chunk cs) ?s1 =
      Some (?s1\<lparr>tts_text_json := Some ((pre @ c) @ concat cs @ drop (length (concat cs)) (drop (length c) rest)),
            tts_text_state := st, tts_text_json_offset := length (pre @ c) + length (concat cs)\<rparr>)"
    using Cons.IH [OF p] by blast
  with one show ?case by (intro exI [of _ st]) (simp add: add.assoc add.commute)
qed

subsection \<open>What the reply says\<close>

definition node_iat :: "reply_node \<Rightarrow> byte list option" where
  "node_iat n = (if n_sub n = Some (Some (ascii ''iat'')) then (case n_text n of Some t \<Rightarrow> t | None \<Rightarrow> None) else None)"

definition node_nlp :: "reply_node \<Rightarrow> byte list option" where
  "node_nlp n = (if n_sub n = Some (Some (ascii ''nlp'')) \<and> n_intent n \<noteq> Some (Some (Some []))
     then (case n_intent n of Some (Some t) \<Rightarrow> t | _ \<Rightarrow> None) else None)"

fun first_some :: "('a \<Rightarrow> 'b option) \<Rightarrow> 'a list \<Rightarrow> 'b option" where
  "first_some f [] = None"
| "first_some f (x # xs) = (case f x of None \<Rightarrow> first_some f xs | Some y \<Rightarrow> Some y)"

text \<open>All the items that are there are strings.\<close>

definition strings :: "reply_node \<Rightarrow> bool" where
  "strings n \<longleftrightarrow> n_sub n \<noteq> Some None \<and> n_text n \<noteq> Some None \<and> n_intent n \<noteq> Some (Some None)"

definition put_text :: "byte list \<Rightarrow> nat \<Rightarrow> byte list \<Rightarrow> byte list" where
  "put_text buf n t = take (n - 1) t @ 0 # drop (length (take (n - 1) t) + 1) buf"

lemma snprintf_put: "length buf = n \<Longrightarrow> 0 < n \<Longrightarrow> snprintf_s buf n t = Some (put_text buf n t)"
  by (simp add: snprintf_s_def blit_def put_text_def)

definition buffers_ok :: "speech \<Rightarrow> bool" where
  "buffers_ok s \<longleftrightarrow> length (tts_text_iat_txt s) = TTS_IAT_SIZE \<and> length (tts_text_nlp_txt s) = TTS_NLP_SIZE"

definition keep_iat :: "byte list option \<Rightarrow> speech \<Rightarrow> speech" where
  "keep_iat t s = (case t of None \<Rightarrow> s | Some t \<Rightarrow> s\<lparr>tts_text_iat_txt := put_text (tts_text_iat_txt s) TTS_IAT_SIZE t\<rparr>)"

definition keep_nlp :: "byte list option \<Rightarrow> speech \<Rightarrow> speech" where
  "keep_nlp t s = (case t of None \<Rightarrow> s | Some t \<Rightarrow> s\<lparr>tts_text_nlp_txt := put_text (tts_text_nlp_txt s) TTS_NLP_SIZE t\<rparr>)"

lemma put_text_length: "length buf = n \<Longrightarrow> 0 < n \<Longrightarrow> length (put_text buf n t) = n"
  by (simp add: put_text_def min_def)

lemma keep_ok: "buffers_ok s \<Longrightarrow> buffers_ok (keep_iat t s) \<and> buffers_ok (keep_nlp t' s)"
  by (auto simp: buffers_ok_def keep_iat_def keep_nlp_def put_text_length split: option.splits)

lemma take_iat_eq:
  assumes "strings n" "buffers_ok s"
  shows "take_iat n (iat, nlp, s) =
    (if iat then Some (iat, nlp, s) else Some (node_iat n \<noteq> None, nlp, keep_iat (node_iat n) s))"
  using assms
  by (auto simp: take_iat_def item_is_def strings_def node_iat_def keep_iat_def buffers_ok_def snprintf_put
      split: option.splits)

lemma take_nlp_eq:
  assumes "strings n" "buffers_ok s"
  shows "take_nlp n (iat, nlp, s) =
    (if nlp then Some (iat, nlp, s) else Some (iat, node_nlp n \<noteq> None, keep_nlp (node_nlp n) s))"
  using assms
  by (auto simp: take_nlp_def item_is_def strings_def node_nlp_def keep_nlp_def buffers_ok_def snprintf_put
      split: option.splits)

lemma reply_loop_eq:
  assumes "list_all strings ns" "buffers_ok s" "\<not> (iat \<and> nlp)"
    and "iat \<or> first_some node_iat ns \<noteq> None" "nlp \<or> first_some node_nlp ns \<noteq> None"
  shows "reply_loop ns (iat, nlp, s) =
    Some (True, keep_nlp (if nlp then None else first_some node_nlp ns) (keep_iat (if iat then None else first_some node_iat ns) s))"
  using assms
proof (induction ns arbitrary: iat nlp s)
  case (Cons n ns)
  have n: "strings n" "list_all strings ns" using Cons.prems(1) by simp_all
  define s1 where "s1 = (if iat then s else keep_iat (node_iat n) s)"
  define iat' where "iat' = (iat \<or> node_iat n \<noteq> None)"
  have i: "take_iat n (iat, nlp, s) = Some (iat', nlp, s1)"
    using take_iat_eq [OF n(1) Cons.prems(2), of iat nlp] by (auto simp: s1_def iat'_def)
  have ok1: "buffers_ok s1" using keep_ok [OF Cons.prems(2)] Cons.prems(2) by (simp add: s1_def)
  define s2 where "s2 = (if nlp then s1 else keep_nlp (node_nlp n) s1)"
  define nlp' where "nlp' = (nlp \<or> node_nlp n \<noteq> None)"
  have a: "take_nlp n (iat', nlp, s1) = Some (iat', nlp', s2)"
    using take_nlp_eq [OF n(1) ok1, of iat' nlp] by (auto simp: s2_def nlp'_def)
  have ok2: "buffers_ok s2" using keep_ok [OF ok1] ok1 by (simp add: s2_def)
  have comm: "keep_nlp x (keep_iat y z) = keep_iat y (keep_nlp x z)" for x y z
    by (simp add: keep_nlp_def keep_iat_def split: option.splits)
  show ?case
  proof (cases "iat' \<and> nlp'")
    case True
    then have "reply_loop (n # ns) (iat, nlp, s) = Some (True, s2)" using i a by simp
    with True show ?thesis
      by (auto simp: s2_def s1_def iat'_def nlp'_def keep_iat_def keep_nlp_def split: option.splits)
  next
    case False
    have "reply_loop (n # ns) (iat, nlp, s) = reply_loop ns (iat', nlp', s2)" using False i a by auto
    also have "\<dots> = Some (True, keep_nlp (if nlp' then None else first_some node_nlp ns)
        (keep_iat (if iat' then None else first_some node_iat ns) s2))"
      by (rule Cons.IH [OF n(2) ok2 False]) (use Cons.prems(4,5) in \<open>auto simp: iat'_def nlp'_def split: option.splits\<close>)
    finally show ?thesis
      using False Cons.prems(3)
      by (auto simp: s2_def s1_def iat'_def nlp'_def keep_iat_def keep_nlp_def split: option.splits)
  qed
qed auto

subsection \<open>The answer is spoken\<close>

lemma tts_request_text:
  assumes "a \<noteq> []" "length (url_encoding a) < 995"
  shows "\<exists>q. xunfei_tts_request md5 now param (a @ post) (int (length a)) = Some q \<and>
    req_body q = ascii ''text='' @ url_encoding a @ [0]"
proof -
  let ?b0 = "ascii ''text='' @ replicate 995 0"
  have b0: "blit (replicate 1000 0) 0 (ascii ''text='' @ [0]) = Some ?b0"
  proof -
    have "[0] @ replicate 994 0 = replicate 995 (0 :: byte)" by (simp add: eval_nat_numeral)
    then show ?thesis by (simp add: blit_def ascii_def)
  qed
  let ?e = "url_encoding a"
  have enc: "URLEncode (Some (a @ post)) (int (length a)) (Some (replicate 995 0)) 995 =
      Some (length ?e, Some (?e @ 0 # replicate (994 - length ?e) 0))"
    using url_encode_text [OF assms(1,2), of "replicate 995 0" post] by simp
  have "0 \<notin> set (ascii ''text='' @ ?e)" using url_encoding_nonzero [of a] by (simp add: ascii_def)
  then have t: "c_str (ascii ''text='' @ ?e @ 0 # replicate (994 - length ?e) 0) = Some (ascii ''text='' @ ?e)"
    using c_str_append [of "ascii ''text='' @ ?e"] by simp
  have l5: "length (ascii ''text='') = 5" by (simp add: ascii_def)
  show ?thesis
    using b0 enc t l5 by (simp add: xunfei_tts_request_def Let_def)
qed

lemma put_text_str: "length a < n \<Longrightarrow> 0 \<notin> set a \<Longrightarrow> c_str (put_text buf n a) = Some a"
  by (simp add: put_text_def c_str_append)


lemma text_reply_closes_nothing:
  assumes "\<not> tts_file s"
  shows "run_all (http_event_handler_tts can_open)
    [HTTP_EVENT_ON_HEADER (ascii ''Content-Type'') (ascii ''text/plain''), HTTP_EVENT_ON_DATA False d, HTTP_EVENT_ON_FINISH] s = None"
  using assms by (simp add: http_event_handler_tts_def ascii_def)


end
