(* ===== verification/Adc_Button.thy ===== *)
theory Adc_Button
  imports Prelude "HOL-Library.Multiset"
begin

text \<open>
  The buttons on a resistor ladder, \<open>components/DeviceController/TouchManager/AdcButton.c\<close>: the
  filtered reading of the converter, the decoding of the voltage, and the task with its three timers
  that tells clicks, long presses and releases apart.

  A reading takes the ten values \<open>adc1_to_voltage\<close> returns, \<open>sample i\<close> for the \<open>i\<close>th. A FreeRTOS timer
  is running or dormant; an expiry of a running timer is a step of its own, and runs its callback to
  the end, as does one pass of the loop of \<open>buttonTask\<close>. The calls of the application's callback are
  collected in \<open>btn_calls\<close>. \<open>None\<close> is undefined behaviour: an access to \<open>btn\<close> outside its six entries.
\<close>

section \<open>The reading\<close>

abbreviation (input) ADC_SAMPLES_NUM :: nat where "ADC_SAMPLES_NUM \<equiv> 10"

definition compare_swap :: "nat \<Rightarrow> u32 list \<Rightarrow> u32 list" where
  "compare_swap i d = (if d ! i > d ! (i + 1) then d[i := d ! (i + 1), i + 1 := d ! i] else d)"

definition bubble_pass :: "nat \<Rightarrow> u32 list \<Rightarrow> u32 list" where
  "bubble_pass n d = fold compare_swap [0..<n] d"

definition bubble_sort :: "u32 list \<Rightarrow> u32 list" where
  "bubble_sort d = fold (\<lambda>j. bubble_pass (length d - j - 1)) [0..<length d - 1] d"

definition getAdcVoltage :: "(nat \<Rightarrow> u32) \<Rightarrow> int" where
  "getAdcVoltage sample =
     (let d = bubble_sort (map sample [0..<ADC_SAMPLES_NUM]);
          sum = fold (\<lambda>i s. s + d ! i) [1..<ADC_SAMPLES_NUM - 1] (0 :: u32)
      in uint (sum div of_nat (ADC_SAMPLES_NUM - 2)))"

section \<open>Decoding\<close>

abbreviation (input) USER_KEY_MAX :: nat where "USER_KEY_MAX \<equiv> 6"
abbreviation (input) USER_KEY_REC :: int where "USER_KEY_REC \<equiv> 2"

definition baseVccVoltage :: u32 where
  "baseVccVoltage = 3106"

definition stepLevel :: "u16 list list" where
  "stepLevel = [[0, 14, 27, 42, 55, 68, 99], [0, 220, 384, 525, 673, 830, 990]]"

definition threshold :: "nat \<Rightarrow> u32" where
  "threshold i = (ucast (stepLevel ! 1 ! i) * baseVccVoltage) div 1000"

text \<open>The comparisons are unsigned: the level is a \<open>uint32_t\<close>.\<close>

definition getButtonId :: "int \<Rightarrow> int" where
  "getButtonId adc =
     (case List.find (\<lambda>i. word_of_int adc > threshold i \<and> word_of_int adc \<le> threshold (i + 1)) [0..<USER_KEY_MAX] of
        None \<Rightarrow> -1
      | Some i \<Rightarrow> int i)"

definition key_of :: "(nat \<Rightarrow> u32) \<Rightarrow> int" where
  "key_of sample = getButtonId (getAdcVoltage sample)"

section \<open>The state\<close>

datatype BtnState = BTN_STATE_IDLE | BTN_STATE_CLICK | BTN_STATE_PRESS | BTN_STATE_RELEASE

record BtnDecription =
  activeId :: int
  clickCnt :: int
  onlyClick :: int

record adc_btn =
  btn :: "BtnDecription list"
  releaseTmr :: bool
  pressTmr :: bool
  longPressTmr :: bool
  timerStartflag :: bool
  firstId :: int
  btnCallback :: bool
  btn_calls :: "(int \<times> BtnState) list"

abbreviation (input) CLICK_TIME_THRESHOLD :: int where "CLICK_TIME_THRESHOLD \<equiv> 6"

definition resetBtn :: "adc_btn \<Rightarrow> adc_btn" where
  "resetBtn s = s\<lparr>btn := replicate USER_KEY_MAX \<lparr>activeId = -1, clickCnt = 0, onlyClick = 0\<rparr>\<rparr>"

text \<open>\<open>adc_btn_init\<close> and the start of \<open>buttonTask\<close>.\<close>

definition adc_btn_init :: "bool \<Rightarrow> adc_btn" where
  "adc_btn_init cb =
     resetBtn \<lparr>btn = [], releaseTmr = False, pressTmr = False, longPressTmr = False, timerStartflag = False,
       firstId = -1, btnCallback = cb, btn_calls = []\<rparr>"

definition active_id :: "adc_btn \<Rightarrow> int" where
  "active_id s = (case List.find (\<lambda>i. activeId (btn s ! i) > -1) [0..<6] of None \<Rightarrow> -1 | Some i \<Rightarrow> int i)"

definition at_btn :: "int \<Rightarrow> (BtnDecription \<Rightarrow> BtnDecription) \<Rightarrow> adc_btn \<Rightarrow> adc_btn option" where
  "at_btn i f s =
     (if 0 \<le> i \<and> nat i < length (btn s) then Some (s\<lparr>btn := (btn s)[nat i := f (btn s ! nat i)]\<rparr>) else None)"

definition report :: "int \<Rightarrow> BtnState \<Rightarrow> adc_btn \<Rightarrow> adc_btn" where
  "report i st s = (if btnCallback s then s\<lparr>btn_calls := btn_calls s @ [(i, st)]\<rparr> else s)"

section \<open>The timer callbacks and the task\<close>

definition buttonReleaseCb :: "adc_btn \<Rightarrow> adc_btn option" where
  "buttonReleaseCb s =
     (let actId = active_id s in
      do { s1 \<leftarrow> at_btn actId (\<lambda>b. b\<lparr>activeId := -1, clickCnt := 0\<rparr>) s;
           Some ((report actId BTN_STATE_RELEASE s1)
             \<lparr>firstId := -1, longPressTmr := False, pressTmr := False, timerStartflag := False\<rparr>) })"

definition buttonPressCb :: "(nat \<Rightarrow> u32) \<Rightarrow> adc_btn \<Rightarrow> adc_btn option" where
  "buttonPressCb sample s =
     (let actId = active_id s; id = key_of sample; clear = (\<lambda>b. b\<lparr>activeId := 0, clickCnt := 0\<rparr>) in
      if id = actId
      then do { s1 \<leftarrow> at_btn actId (\<lambda>b. b\<lparr>clickCnt := clickCnt b + 1\<rparr>) s;
                if clickCnt (btn s1 ! nat actId) > CLICK_TIME_THRESHOLD
                then if actId = USER_KEY_REC
                     then do { s2 \<leftarrow> at_btn actId clear (s1\<lparr>pressTmr := False, longPressTmr := False\<rparr>);
                               Some (report actId BTN_STATE_CLICK s2) }
                     else Some (s1\<lparr>pressTmr := False\<rparr>)
                else Some s1 }
      else do { s1 \<leftarrow> at_btn actId (\<lambda>b. b) s;
                s2 \<leftarrow> at_btn actId clear (s1\<lparr>pressTmr := False, longPressTmr := False\<rparr>);
                if clickCnt (btn s1 ! nat actId) > 0
                then Some (report actId BTN_STATE_CLICK s2)
                else Some (s2\<lparr>firstId := -1\<rparr>) })"

definition buttonLongPressCb :: "(nat \<Rightarrow> u32) \<Rightarrow> adc_btn \<Rightarrow> adc_btn option" where
  "buttonLongPressCb sample s =
     (let actId = active_id s in
      do { s1 \<leftarrow> at_btn actId (\<lambda>b. b\<lparr>clickCnt := 0, activeId := 0\<rparr>) (s\<lparr>longPressTmr := False\<rparr>);
           Some (if key_of sample = actId then report actId BTN_STATE_PRESS s1 else s1) })"

text \<open>One pass of the loop of \<open>buttonTask\<close>.\<close>

definition buttonTask_pass :: "(nat \<Rightarrow> u32) \<Rightarrow> adc_btn \<Rightarrow> adc_btn option" where
  "buttonTask_pass sample s =
     (let id = key_of sample in
      if id = -1
      then Some (if timerStartflag s then s\<lparr>releaseTmr := True, timerStartflag := False\<rparr> else s)
      else if firstId s \<noteq> id
      then do { s1 \<leftarrow> at_btn id (\<lambda>b. b\<lparr>activeId := id\<rparr>) (s\<lparr>firstId := id\<rparr>);
                Some (s1\<lparr>pressTmr := True, longPressTmr := longPressTmr s \<or> id \<noteq> USER_KEY_REC,
                         timerStartflag := True\<rparr>) }
      else Some (s\<lparr>releaseTmr := False\<rparr>))"

text \<open>
  What can happen: a pass of the task, or the expiry of a running timer. The release timer and the
  long press timer are one-shot, the press timer reloads.
\<close>

datatype adc_event =
    Poll "nat \<Rightarrow> u32" | Press_Expires "nat \<Rightarrow> u32" | Long_Expires "nat \<Rightarrow> u32" | Release_Expires

fun adc_enabled :: "adc_event \<Rightarrow> adc_btn \<Rightarrow> bool" where
  "adc_enabled (Poll _) s = True"
| "adc_enabled (Press_Expires _) s = pressTmr s"
| "adc_enabled (Long_Expires _) s = longPressTmr s"
| "adc_enabled Release_Expires s = releaseTmr s"

fun adc_do :: "adc_event \<Rightarrow> adc_btn \<Rightarrow> adc_btn option" where
  "adc_do (Poll sample) s = buttonTask_pass sample s"
| "adc_do (Press_Expires sample) s = buttonPressCb sample s"
| "adc_do (Long_Expires sample) s = buttonLongPressCb sample (s\<lparr>longPressTmr := False\<rparr>)"
| "adc_do Release_Expires s = buttonReleaseCb (s\<lparr>releaseTmr := False\<rparr>)"

fun adc_run :: "adc_event list \<Rightarrow> adc_btn \<Rightarrow> adc_btn option" where
  "adc_run [] s = Some s"
| "adc_run (e # es) s = (if adc_enabled e s then do { s1 \<leftarrow> adc_do e s; adc_run es s1 } else None)"

inductive adc_reachable :: "bool \<Rightarrow> adc_btn \<Rightarrow> bool" for cb where
  start: "adc_reachable cb (adc_btn_init cb)"
| step: "adc_reachable cb s \<Longrightarrow> adc_enabled e s \<Longrightarrow> adc_do e s = Some s' \<Longrightarrow> adc_reachable cb s'"

section \<open>Sorting\<close>

lemma compare_swap_length [simp]: "length (compare_swap i d) = length d"
  by (simp add: compare_swap_def)

lemma bubble_pass_0 [simp]: "bubble_pass 0 d = d"
  by (simp add: bubble_pass_def)

lemma bubble_pass_Suc: "bubble_pass (Suc n) d = compare_swap n (bubble_pass n d)"
  by (simp add: bubble_pass_def)

lemma mset_compare_swap: "i + 1 < length d \<Longrightarrow> mset (compare_swap i d) = mset d"
  by (simp add: compare_swap_def mset_swap)

lemma compare_swap_nth:
  assumes "i + 1 < length d"
  shows "compare_swap i d ! k =
    (if k = i then min (d ! i) (d ! (i + 1)) else if k = i + 1 then max (d ! i) (d ! (i + 1)) else d ! k)"
  using assms by (auto simp: compare_swap_def nth_list_update min_def max_def)

text \<open>A pass permutes the elements, leaves those behind it alone and brings the largest to its end.\<close>

lemma bubble_pass_props:
  assumes "n < length d"
  shows "length (bubble_pass n d) = length d \<and> mset (bubble_pass n d) = mset d \<and>
    (\<forall>k > n. bubble_pass n d ! k = d ! k) \<and> (\<forall>k \<le> n. bubble_pass n d ! k \<le> bubble_pass n d ! n)"
  using assms
proof (induction n)
  case (Suc n)
  let ?e = "bubble_pass n d"
  from Suc have IH: "length ?e = length d" "mset ?e = mset d" "\<forall>k > n. ?e ! k = d ! k" "\<forall>k \<le> n. ?e ! k \<le> ?e ! n"
    by simp_all
  have n: "n + 1 < length ?e" using Suc.prems IH(1) by simp
  show ?case
    using IH n mset_compare_swap [OF n]
    by (auto simp: bubble_pass_Suc compare_swap_nth [OF n] le_Suc_eq max_def min_def intro: order_trans)
qed simp

lemma bubble_pass_bound:
  assumes "n < length d" "n < q" "q < length d" and "\<forall>p \<le> n. d ! p \<le> d ! q" and "p \<le> n"
  shows "bubble_pass n d ! p \<le> bubble_pass n d ! q"
proof -
  let ?e = "bubble_pass n d"
  from bubble_pass_props [OF assms(1)]
  have e: "length ?e = length d" "mset ?e = mset d" "\<forall>k > n. ?e ! k = d ! k" by simp_all
  have "drop (Suc n) ?e = drop (Suc n) d"
    by (rule nth_equalityI) (simp_all add: e)
  then have "mset (take (Suc n) ?e) = mset (take (Suc n) d)"
    using e(2) append_take_drop_id [of "Suc n" ?e] append_take_drop_id [of "Suc n" d]
    by (metis add_right_cancel mset_append)
  moreover have "?e ! p \<in> set (take (Suc n) ?e)"
    using assms(1,5) e(1) by (auto simp: in_set_conv_nth intro!: exI [of _ p])
  ultimately have "?e ! p \<in> set (take (Suc n) d)" by (metis set_mset_mset)
  then obtain r where "r \<le> n" "?e ! p = d ! r"
    by (auto simp: in_set_conv_nth) (metis less_Suc_eq_le)
  with assms(2,4) e(3) show ?thesis by simp
qed

lemma bubble_outer:
  assumes "j \<le> length d - 1"
  shows "\<exists>e. fold (\<lambda>j. bubble_pass (length d - j - 1)) [0..<j] d = e \<and> length e = length d \<and> mset e = mset d \<and>
    (\<forall>q. length d - j \<le> q \<longrightarrow> q < length d \<longrightarrow> (\<forall>p \<le> q. e ! p \<le> e ! q))"
  using assms
proof (induction j)
  case (Suc j)
  let ?f = "fold (\<lambda>j. bubble_pass (length d - j - 1))"
  let ?n = "length d - j - 1"
  obtain e where e: "?f [0..<j] d = e" "length e = length d" "mset e = mset d"
      "\<forall>q. length d - j \<le> q \<longrightarrow> q < length d \<longrightarrow> (\<forall>p \<le> q. e ! p \<le> e ! q)"
    using Suc by auto
  have n: "?n < length e" using Suc.prems e(2) by simp
  let ?g = "bubble_pass ?n e"
  from bubble_pass_props [OF n]
  have g: "length ?g = length d" "mset ?g = mset d" "\<forall>k > ?n. ?g ! k = e ! k" "\<forall>k \<le> ?n. ?g ! k \<le> ?g ! ?n"
    using e(2,3) by simp_all
  have "?g ! p \<le> ?g ! q" if q: "length d - Suc j \<le> q" "q < length d" "p \<le> q" for p q
  proof (cases "q = ?n")
    case True
    with q(3) g(4) show ?thesis by simp
  next
    case False
    with q have nq: "?n < q" "length d - j \<le> q" by simp_all
    show ?thesis
    proof (cases "p \<le> ?n")
      case True
      show ?thesis
        by (rule bubble_pass_bound [OF n nq(1) _ _ True]) (use nq q e(2,4) in auto)
    next
      case False
      with nq q e(4) g(3) show ?thesis by simp
    qed
  qed
  moreover have "?f [0..<Suc j] d = ?g" using e(1) by simp
  ultimately show ?case using g by (intro exI [of _ ?g]) auto
qed auto

lemma bubble_sort_eq: "bubble_sort d = sort d"
proof (rule sym, rule properties_for_sort)
  obtain e where e: "bubble_sort d = e" "length e = length d" "mset e = mset d"
      "\<forall>q. length d - (length d - 1) \<le> q \<longrightarrow> q < length d \<longrightarrow> (\<forall>p \<le> q. e ! p \<le> e ! q)"
    using bubble_outer [of "length d - 1" d] by (auto simp: bubble_sort_def)
  show "mset (bubble_sort d) = mset d" using e by simp
  show "sorted (bubble_sort d)"
    unfolding sorted_iff_nth_mono e(1)
  proof (intro allI impI)
    fix i j assume ij: "i \<le> j" "j < length e"
    show "e ! i \<le> e ! j"
    proof (cases "j = 0")
      case False
      then have "length d - (length d - 1) \<le> j" using ij e(2) by simp
      from e(4) [rule_format, OF this, of i] ij e(2) show ?thesis by simp
    qed (use ij in simp)
  qed
qed

section \<open>The reading is a trimmed mean\<close>

lemma uint_sum_list: "uint (sum_list (ws :: u32 list)) = sum_list (map uint ws) mod 2 ^ 32"
  by (induction ws) (simp_all add: uint_word_ariths(1) mod_simps)

lemma fold_plus_nth: "fold (\<lambda>i s. s + d ! i) is a = a + sum_list (map ((!) d) is)" for a :: u32
  by (induction "is" arbitrary: a) (simp_all add: ac_simps)

lemma trimmed_sum:
  assumes "length d = 10"
  shows "fold (\<lambda>i s. s + d ! i) [1..<9] (0 :: u32) = sum_list (butlast (tl d))"
proof -
  have "map ((!) d) [1..<9] = butlast (tl d)"
    by (rule nth_equalityI) (simp_all add: assms nth_butlast nth_tl del: upt_Suc)
  then show ?thesis unfolding fold_plus_nth by simp
qed

lemma getAdcVoltage_eq:
  "getAdcVoltage sample =
    (sum_list (map uint (butlast (tl (sort (map sample [0..<10]))))) mod 2 ^ 32) div 8"
  using trimmed_sum [of "sort (map sample [0..<10])"]
  by (simp add: getAdcVoltage_def Let_def bubble_sort_eq uint_div uint_sum_list)

text \<open>
  C30. The reading is the mean of the eight middle values: the two nested loops sort the ten samples
  like the library's sort function, the lowest and the highest are left out, and the sum of the
  others is taken in 32 bits and divided by eight.
\<close>

theorem adc_reading_trimmed_mean:
  "getAdcVoltage sample =
     (sum_list (map uint (butlast (tl (sort (map sample [0..<10]))))) mod 2 ^ 32) div 8"
  by (rule getAdcVoltage_eq)

lemma glitch_middle:
  assumes "sorted s" "length s = 10" and "length (filter (\<lambda>v. \<not> (lo \<le> uint v \<and> uint v \<le> hi)) s) \<le> 1"
    and "1 \<le> i" "i \<le> 8"
  shows "lo \<le> uint (s ! i) \<and> uint ((s :: u32 list) ! i) \<le> hi"
proof (rule ccontr)
  let ?P = "\<lambda>v :: u32. \<not> (lo \<le> uint v \<and> uint v \<le> hi)"
  assume bad: "\<not> ?thesis"
  have mono: "uint (s ! p) \<le> uint (s ! q)" if "p \<le> q" "q < 10" for p q
    using sorted_nth_mono [OF assms(1) that(1)] that assms(2) by (simp add: word_le_def)
  have "\<exists>k < 10. k \<noteq> i \<and> ?P (s ! k)"
  proof (cases "uint (s ! i) < lo")
    case True
    then show ?thesis using mono [of 0 i] assms(4,5) by (intro exI [of _ 0]) auto
  next
    case False
    then show ?thesis using bad mono [of i 9] assms(4,5) by (intro exI [of _ 9]) auto
  qed
  then obtain k where "k < 10" "k \<noteq> i" "?P (s ! k)" by blast
  then have "{i, k} \<subseteq> {n. n < length s \<and> ?P (s ! n)}" using bad assms(2,5) by auto
  from card_mono [OF _ this] \<open>k \<noteq> i\<close> have "2 \<le> length (filter ?P s)"
    by (simp add: length_filter_conv_card)
  with assms(3) show False by simp
qed

lemma sum_list_bounds: "(\<forall>x \<in> set xs. lo \<le> x \<and> x \<le> (hi :: int)) \<Longrightarrow> int (length xs) * lo \<le> sum_list xs \<and> sum_list xs \<le> int (length xs) * hi"
  by (induction xs) (auto simp: algebra_simps)

lemma length_filter_sort: "length (filter p (sort xs)) = length (filter p xs)"
  by (metis mset_filter mset_sort size_mset)

text \<open>
  One bad sample does not matter. If at most one of the ten samples lies outside a range of
  voltages, the reading lies inside it; nothing overflows, as long as the voltages are below 2^28.
\<close>

theorem adc_single_glitch:
  assumes "length (filter (\<lambda>v. \<not> (lo \<le> uint v \<and> uint v \<le> hi)) (map sample [0..<10])) \<le> 1"
    and "0 \<le> lo" and "hi < 2 ^ 28"
  shows "lo \<le> getAdcVoltage sample \<and> getAdcVoltage sample \<le> hi"
proof -
  let ?s = "sort (map sample [0..<10])" and ?P = "\<lambda>v :: u32. \<not> (lo \<le> uint v \<and> uint v \<le> hi)"
  define m where "m = butlast (tl ?s)"
  have one: "length (filter ?P ?s) \<le> 1"
    using assms(1) unfolding length_filter_sort .
  have len: "length m = 8" by (simp add: m_def)
  have "lo \<le> uint x \<and> uint x \<le> hi" if x: "x \<in> set m" for x
  proof -
    obtain i where i: "i < 8" "x = m ! i" using x len unfolding in_set_conv_nth by metis
    then have "x = ?s ! (i + 1)" by (simp add: m_def nth_butlast nth_tl)
    with glitch_middle [OF sorted_sort _ one, of "i + 1"] i(1) show ?thesis by simp
  qed
  then have b: "8 * lo \<le> sum_list (map uint m) \<and> sum_list (map uint m) \<le> 8 * hi"
    using sum_list_bounds [of "map uint m" lo hi] len by auto
  have "sum_list (map uint m) mod 2 ^ 32 = sum_list (map uint m)"
    using assms(2,3) b by (intro mod_pos_pos_trivial) auto
  then have "getAdcVoltage sample = sum_list (map uint m) div 8"
    using getAdcVoltage_eq [of sample] by (simp only: m_def)
  with b show ?thesis by linarith
qed

theorem adc_single_glitch_witness:
  "900 \<le> getAdcVoltage (\<lambda>i. if i = 4 then 4000 else 950) \<and> getAdcVoltage (\<lambda>i. if i = 4 then 4000 else 950) \<le> 1000"
  by (rule adc_single_glitch) (simp_all add: upt_rec [of _ 10])

section \<open>The state machine\<close>

lemma key_range: "-1 \<le> key_of sample \<and> key_of sample < 6"
  by (auto simp: key_of_def getButtonId_def find_Some_iff split: option.splits)

lemma active_id_range: "-1 \<le> active_id s \<and> active_id s < 6"
  by (auto simp: active_id_def find_Some_iff split: option.splits)

lemma active_id_iff: "active_id s = -1 \<longleftrightarrow> (\<forall>i < 6. activeId (btn s ! i) \<le> -1)"
  by (auto simp: active_id_def find_None_iff find_Some_iff not_less split: option.splits)
    (metis not_less)

lemma active_id_active:
  assumes "active_id s \<noteq> -1"
  shows "-1 < activeId (btn s ! nat (active_id s))"
proof (cases "List.find (\<lambda>i. activeId (btn s ! i) > -1) [0..<6]")
  case None
  with assms show ?thesis by (simp add: active_id_def)
next
  case (Some i)
  then have "active_id s = int i" by (simp add: active_id_def)
  with Some show ?thesis by (auto simp: find_Some_iff)
qed

lemma active_id_cong: "btn s = btn s' \<Longrightarrow> active_id s = active_id s'"
  by (simp add: active_id_def)

lemma report_fields [simp]:
  "btn (report i st s) = btn s" "releaseTmr (report i st s) = releaseTmr s" "pressTmr (report i st s) = pressTmr s"
  "longPressTmr (report i st s) = longPressTmr s" "timerStartflag (report i st s) = timerStartflag s"
  "firstId (report i st s) = firstId s" "btnCallback (report i st s) = btnCallback s"
  by (simp_all add: report_def)

text \<open>Something is active as long as a timer or the start flag can lead to its use.\<close>

definition adc_inv :: "adc_btn \<Rightarrow> bool" where
  "adc_inv s \<longleftrightarrow> length (btn s) = 6 \<and> -1 \<le> firstId s \<and> firstId s < 6 \<and>
     (pressTmr s \<or> longPressTmr s \<or> releaseTmr s \<or> timerStartflag s \<longrightarrow> active_id s \<noteq> -1) \<and>
     (\<forall>(i, st) \<in> set (btn_calls s). 0 \<le> i \<and> i < 6 \<and> st \<noteq> BTN_STATE_IDLE)"

lemma at_btn_active:
  assumes "length (btn s) = 6" "0 \<le> i" "i < 6"
  shows "\<exists>s'. at_btn i f s = Some s' \<and> s' = s\<lparr>btn := (btn s)[nat i := f (btn s ! nat i)]\<rparr>"
  using assms by (simp add: at_btn_def)

lemma active_after:
  assumes "length (btn s) = 6" "0 \<le> i" "i < 6" "-1 < activeId b"
  shows "active_id (s\<lparr>btn := (btn s)[nat i := b]\<rparr>) \<noteq> -1"
  unfolding active_id_iff using assms by (auto intro!: exI [of _ "nat i"] simp: not_le)

lemma inv_start: "adc_inv (adc_btn_init cb)"
  by (simp add: adc_inv_def adc_btn_init_def resetBtn_def)

lemma inv_poll:
  assumes "adc_inv s"
  shows "\<exists>s'. buttonTask_pass sample s = Some s' \<and> adc_inv s'"
proof (cases "key_of sample = -1 \<or> firstId s = key_of sample")
  case True
  then show ?thesis using assms key_range [of sample]
    by (auto simp: buttonTask_pass_def Let_def adc_inv_def active_id_def)
next
  case False
  let ?k = "key_of sample"
  have k: "0 \<le> ?k" "?k < 6" using False key_range [of sample] by linarith+
  let ?s1 = "s\<lparr>firstId := ?k, btn := (btn s)[nat ?k := (btn s ! nat ?k)\<lparr>activeId := ?k\<rparr>]\<rparr>"
  have "active_id ?s1 \<noteq> -1"
    using active_after [of "s\<lparr>firstId := ?k\<rparr>" ?k "(btn s ! nat ?k)\<lparr>activeId := ?k\<rparr>"] assms k
    by (simp add: adc_inv_def)
  then show ?thesis
    using False k assms by (auto simp: buttonTask_pass_def Let_def at_btn_def adc_inv_def active_id_def)
qed

lemma cleared_active:
  assumes "length (btn s) = 6" "active_id s \<noteq> -1" "btn s' = (btn s)[nat (active_id s) := b]" "-1 < activeId b"
  shows "active_id s' \<noteq> -1"
proof -
  have "0 \<le> active_id s" "active_id s < 6" using active_id_range [of s] assms(2) by linarith+
  from active_after [OF assms(1) this assms(4)] show ?thesis
    using active_id_cong [of s' "s\<lparr>btn := (btn s)[nat (active_id s) := b]\<rparr>"] assms(3) by simp
qed

lemma active_bounds: "active_id s \<noteq> -1 \<Longrightarrow> 0 \<le> active_id s \<and> active_id s < 6"
  using active_id_range [of s] by linarith

lemma report_calls:
  "set (btn_calls (report i st s)) \<subseteq> insert (i, st) (set (btn_calls s))"
  by (auto simp: report_def)

lemma inv_long:
  assumes "adc_inv s" "longPressTmr s"
  shows "\<exists>s'. buttonLongPressCb sample (s\<lparr>longPressTmr := False\<rparr>) = Some s' \<and> adc_inv s'"
proof -
  let ?a = "active_id s" and ?b = "(btn s ! nat (active_id s))\<lparr>clickCnt := 0, activeId := 0\<rparr>"
  have a: "?a \<noteq> -1" "0 \<le> ?a" "?a < 6" and len: "length (btn s) = 6"
    using assms active_bounds [of s] by (auto simp: adc_inv_def)
  have eq: "active_id (s\<lparr>longPressTmr := False\<rparr>) = ?a" by (rule active_id_cong) simp
  let ?s1 = "s\<lparr>longPressTmr := False, btn := (btn s)[nat ?a := ?b]\<rparr>"
  let ?s2 = "if key_of sample = ?a then report ?a BTN_STATE_PRESS ?s1 else ?s1"
  have "buttonLongPressCb sample (s\<lparr>longPressTmr := False\<rparr>) = Some ?s2"
    using a len eq by (simp add: buttonLongPressCb_def Let_def at_btn_def)
  moreover have "active_id ?s2 \<noteq> -1"
    by (rule cleared_active [OF len a(1)]) auto
  then have "adc_inv ?s2"
    using assms a report_calls [of ?a BTN_STATE_PRESS ?s1] by (auto simp: adc_inv_def)
  ultimately show ?thesis by blast
qed

lemma inv_release:
  assumes "adc_inv s" "releaseTmr s"
  shows "\<exists>s'. buttonReleaseCb (s\<lparr>releaseTmr := False\<rparr>) = Some s' \<and> adc_inv s'"
proof -
  have a: "0 \<le> active_id s" "active_id s < 6" and len: "length (btn s) = 6"
    using assms active_bounds [of s] by (auto simp: adc_inv_def)
  have "active_id (s\<lparr>releaseTmr := False\<rparr>) = active_id s" by (rule active_id_cong) simp
  then show ?thesis
    using assms a len by (auto simp: buttonReleaseCb_def Let_def at_btn_def adc_inv_def report_def)
qed

lemma inv_press:
  assumes "adc_inv s" "pressTmr s"
  shows "\<exists>s'. buttonPressCb sample s = Some s' \<and> adc_inv s'"
proof -
  let ?a = "active_id s"
  have a: "?a \<noteq> -1" "0 \<le> ?a" "?a < 6" and len: "length (btn s) = 6"
    using assms active_bounds [of s] by (auto simp: adc_inv_def)
  have act: "-1 < activeId (btn s ! nat ?a)"
    by (rule active_id_active [OF a(1)])
  have keep: "adc_inv s'" if "length (btn s') = 6" "firstId s' = firstId s \<or> firstId s' = -1" "active_id s' \<noteq> -1"
    "set (btn_calls s') \<subseteq> insert (?a, BTN_STATE_CLICK) (set (btn_calls s))" for s'
    using that assms(1) a by (auto simp: adc_inv_def)
  have "nat ?a < 6" using a by simp
  then have "\<exists>s'. buttonPressCb sample s = Some s'"
    using a len by (simp add: buttonPressCb_def Let_def at_btn_def)
  then obtain s' where s': "buttonPressCb sample s = Some s'" by blast
  moreover have "length (btn s') = 6" "firstId s' = firstId s \<or> firstId s' = -1"
    "set (btn_calls s') \<subseteq> insert (?a, BTN_STATE_CLICK) (set (btn_calls s))"
    using s' a len by (auto simp: buttonPressCb_def Let_def at_btn_def report_def split: if_splits)
  moreover have "\<exists>b. btn s' = (btn s)[nat ?a := b] \<and> -1 < activeId b"
    using s' a len act by (auto simp: buttonPressCb_def Let_def at_btn_def split: if_splits)
  then have "active_id s' \<noteq> -1" using cleared_active [OF len a(1)] by blast
  ultimately show ?thesis using keep by blast
qed

lemma adc_do_inv: "adc_inv s \<Longrightarrow> adc_enabled e s \<Longrightarrow> \<exists>s'. adc_do e s = Some s' \<and> adc_inv s'"
  by (cases e) (use inv_poll inv_press inv_long inv_release in auto)

lemma reachable_inv: "adc_reachable cb s \<Longrightarrow> adc_inv s"
proof (induction rule: adc_reachable.induct)
  case start
  show ?case by (rule inv_start)
next
  case (step s e s')
  then show ?case using adc_do_inv [of s e] by auto
qed

text \<open>
  C31. The buttons are never indexed with -1. In every state the button task and its timers can
  reach, whatever timer expires and whatever the converter reads, the callback finds an active
  button, and the application is only told of the six keys.
\<close>

theorem adc_index_safe:
  assumes "adc_reachable cb s" and "adc_enabled e s"
  shows "\<exists>s'. adc_do e s = Some s' \<and> (\<forall>(i, st) \<in> set (btn_calls s'). 0 \<le> i \<and> i < 6 \<and> st \<noteq> BTN_STATE_IDLE)"
  using adc_do_inv [OF reachable_inv [OF assms(1)] assms(2)] unfolding adc_inv_def by blast

theorem adc_index_safe_witness:
  "\<exists>s'. adc_do (Poll (\<lambda>_. 1000)) (adc_btn_init True) = Some s'"
  using adc_index_safe [OF adc_reachable.start, of "Poll (\<lambda>_. 1000)" True] by auto

section \<open>Clicks, long presses and a lost release\<close>

text \<open>No button touched, and a button held for \<open>c\<close> expiries of the press timer.\<close>

definition ready :: "(int \<times> BtnState) list \<Rightarrow> adc_btn" where
  "ready cs = (adc_btn_init True)\<lparr>btn_calls := cs\<rparr>"

definition held :: "nat \<Rightarrow> int \<Rightarrow> bool \<Rightarrow> (int \<times> BtnState) list \<Rightarrow> adc_btn" where
  "held k c press cs =
     \<lparr>btn = (replicate 6 \<lparr>activeId = -1, clickCnt = 0, onlyClick = 0\<rparr>)[k := \<lparr>activeId = int k, clickCnt = c, onlyClick = 0\<rparr>],
      releaseTmr = False, pressTmr = press, longPressTmr = k \<noteq> 2, timerStartflag = True, firstId = int k,
      btnCallback = True, btn_calls = cs\<rparr>"

lemma key_cases: "k < 6 \<Longrightarrow> k = 0 \<or> k = 1 \<or> k = 2 \<or> k = 3 \<or> k = 4 \<or> k = (5 :: nat)"
  by arith

lemmas adc_step_defs =
  buttonTask_pass_def buttonPressCb_def buttonLongPressCb_def buttonReleaseCb_def at_btn_def report_def
  active_id_def Let_def upt_rec [of _ 6] eval_nat_numeral

lemma touch:
  assumes "key_of down = int k" "k < 6"
  shows "adc_do (Poll down) (ready cs) = Some (held k 0 True cs)"
  using key_cases [OF assms(2)] assms(1)
  by (elim disjE) (simp_all add: ready_def held_def adc_btn_init_def resetBtn_def buttonTask_pass_def at_btn_def Let_def eval_nat_numeral)

lemma active_held: "k < 6 \<Longrightarrow> active_id (held k c p cs) = int k"
  by (drule key_cases, elim disjE) (simp_all add: held_def active_id_def upt_rec [of _ 6] eval_nat_numeral)

lemma btn_held: "k < 6 \<Longrightarrow> btn (held k c p cs) ! k = \<lparr>activeId = int k, clickCnt = c, onlyClick = 0\<rparr>"
  by (simp add: held_def)

lemma btn_held_length [simp]: "length (btn (held k c p cs)) = 6"
  by (simp add: held_def)

lemma replicate_update [simp]: "(replicate n x)[k := x] = replicate n x"
  by (cases "k < n") (simp_all add: list_update_same_conv list_update_beyond)

lemma hold_tick:
  assumes "key_of down = int k" "k < 6" "c < 6"
  shows "buttonPressCb down (held k c True cs) = Some (held k (c + 1) True cs)"
  using assms active_held [OF assms(2), of c True cs] btn_held [OF assms(2), of c True cs]
  by (simp add: buttonPressCb_def at_btn_def Let_def) (simp add: held_def)

lemma hold_last:
  assumes "key_of down = int k" "k < 6"
  shows "buttonPressCb down (held k 6 True cs) =
    Some (if k = 2 then (held k 0 False (cs @ [(2, BTN_STATE_CLICK)]))
            \<lparr>btn := (replicate 6 \<lparr>activeId = -1, clickCnt = 0, onlyClick = 0\<rparr>)[k := \<lparr>activeId = 0, clickCnt = 0, onlyClick = 0\<rparr>]\<rparr>
          else held k 7 False cs)"
  using assms active_held [OF assms(2), of 6 True cs] btn_held [OF assms(2), of 6 True cs]
  by (simp add: buttonPressCb_def at_btn_def Let_def report_def) (simp add: held_def)

lemma hold_ticks:
  assumes "key_of down = int k" "k < 6"
  shows "c + int n \<le> 6 \<Longrightarrow> adc_run (replicate n (Press_Expires down) @ es) (held k c True cs) =
    adc_run es (held k (c + int n) True cs)"
proof (induction n arbitrary: c)
  case (Suc n)
  have "c < 6" using Suc.prems by simp
  from hold_tick [OF assms this] Suc.IH [of "c + 1"] Suc.prems show ?case
    by (simp add: ac_simps) (simp add: held_def)
qed simp

text \<open>A button that was reported, waiting for its release.\<close>

definition spent :: "nat \<Rightarrow> bool \<Rightarrow> bool \<Rightarrow> (int \<times> BtnState) list \<Rightarrow> adc_btn" where
  "spent k flag rel cs = (held k 0 False cs)
     \<lparr>btn := (replicate 6 \<lparr>activeId = -1, clickCnt = 0, onlyClick = 0\<rparr>)[k := \<lparr>activeId = 0, clickCnt = 0, onlyClick = 0\<rparr>],
      longPressTmr := False, timerStartflag := flag, releaseTmr := rel\<rparr>"

lemma btn_spent [simp]: "length (btn (spent k f r cs)) = 6"
  by (simp add: spent_def held_def)

lemma active_spent: "k < 6 \<Longrightarrow> active_id (spent k flag rel cs) = int k"
  by (drule key_cases, elim disjE) (simp_all add: spent_def active_id_def upt_rec [of _ 6] eval_nat_numeral)

lemma let_go:
  fixes c :: int and flag rel :: bool and cs :: "(int \<times> BtnState) list"
  assumes "key_of up = -1" "k < 6" "0 < c"
  shows "buttonPressCb up ((held k c True cs)\<lparr>timerStartflag := flag, releaseTmr := rel\<rparr>) =
    Some (spent k flag rel (cs @ [(int k, BTN_STATE_CLICK)]))"
proof -
  let ?h = "(held k c True cs)\<lparr>timerStartflag := flag, releaseTmr := rel\<rparr>"
  have "active_id ?h = int k" using active_held [OF assms(2), of c True cs] by (simp add: active_id_def)
  then show ?thesis
    using assms btn_held [OF assms(2), of c True cs]
    by (simp add: buttonPressCb_def at_btn_def Let_def report_def) (simp add: held_def spent_def)
qed

lemma long_press:
  assumes "key_of down = int k" "k < 6" "k \<noteq> 2"
  shows "buttonLongPressCb down ((held k c False cs)\<lparr>longPressTmr := False\<rparr>) =
    Some (spent k True False (cs @ [(int k, BTN_STATE_PRESS)]))"
proof -
  let ?h = "(held k c False cs)\<lparr>longPressTmr := False\<rparr>"
  have "active_id ?h = int k" using active_held [OF assms(2), of c False cs] by (simp add: active_id_def)
  then show ?thesis
    using assms btn_held [OF assms(2), of c False cs]
    by (simp add: buttonLongPressCb_def at_btn_def Let_def report_def) (simp add: held_def spent_def)
qed

lemma released:
  assumes "k < 6"
  shows "buttonReleaseCb (spent k flag False cs) = Some (ready (cs @ [(int k, BTN_STATE_RELEASE)]))"
  using active_spent [OF assms, of flag False cs] assms
  by (simp add: buttonReleaseCb_def at_btn_def Let_def report_def)
    (simp add: held_def spent_def ready_def adc_btn_init_def resetBtn_def)

lemma poll_up:
  assumes "key_of up = -1"
  shows "buttonTask_pass up s = Some (if timerStartflag s then s\<lparr>releaseTmr := True, timerStartflag := False\<rparr> else s)"
  using assms by (simp add: buttonTask_pass_def Let_def)

lemma poll_same:
  assumes "key_of down = int k" "firstId s = int k"
  shows "buttonTask_pass down s = Some (s\<lparr>releaseTmr := False\<rparr>)"
  using assms by (simp add: buttonTask_pass_def Let_def)

lemma held_fields [simp]:
  "pressTmr (held k c p cs) = p" "longPressTmr (held k c p cs) \<longleftrightarrow> k \<noteq> 2" "timerStartflag (held k c p cs)"
  "releaseTmr (held k c p cs) = False" "firstId (held k c p cs) = int k"
  by (simp_all add: held_def)

lemma spent_fields [simp]:
  "pressTmr (spent k f r cs) = False" "longPressTmr (spent k f r cs) = False" "timerStartflag (spent k f r cs) = f"
  "releaseTmr (spent k f r cs) = r" "firstId (spent k f r cs) = int k"
  "(spent k f r cs)\<lparr>releaseTmr := r', timerStartflag := f'\<rparr> = spent k f' r' cs"
  "(spent k f r cs)\<lparr>releaseTmr := r'\<rparr> = spent k f r' cs" "(spent k f r cs)\<lparr>timerStartflag := f'\<rparr> = spent k f' r cs"
  "(spent k f r cs)\<lparr>timerStartflag := f', releaseTmr := r'\<rparr> = spent k f' r' cs"
  by (simp_all add: held_def spent_def)

lemma touch_hold:
  assumes "key_of down = int k" "k < 6" "p \<le> 6"
  shows "adc_run (Poll down # replicate p (Press_Expires down) @ es) (ready cs) = adc_run es (held k (int p) True cs)"
  using touch [OF assms(1,2)] hold_ticks [OF assms(1,2), of 0 p es cs] assms(3) by simp

lemma click_and_press:
  assumes "key_of down = int k" "k < 6" "key_of up = -1"
  shows "(1 \<le> p \<and> p \<le> 6 \<longrightarrow>
      adc_run (Poll down # replicate p (Press_Expires down) @ [Poll up, Press_Expires up, Release_Expires]) (ready cs) =
        Some (ready (cs @ [(int k, BTN_STATE_CLICK), (int k, BTN_STATE_RELEASE)]))) \<and>
    (k \<noteq> 2 \<longrightarrow>
      adc_run (Poll down # replicate 7 (Press_Expires down) @ [Long_Expires down, Poll up, Release_Expires]) (ready cs) =
        Some (ready (cs @ [(int k, BTN_STATE_PRESS), (int k, BTN_STATE_RELEASE)]))) \<and>
    (k = 2 \<longrightarrow>
      adc_run (Poll down # replicate 7 (Press_Expires down) @ [Poll up, Release_Expires]) (ready cs) =
        Some (ready (cs @ [(int k, BTN_STATE_CLICK), (int k, BTN_STATE_RELEASE)])))"
proof (intro conjI impI)
  assume p: "1 \<le> p \<and> p \<le> 6"
  have "buttonPressCb up ((held k (int p) True cs)\<lparr>releaseTmr := True, timerStartflag := False\<rparr>) =
      Some (spent k False True (cs @ [(int k, BTN_STATE_CLICK)]))"
    using let_go [OF assms(3,2), where c = "int p" and flag = False and rel = True and cs = cs] p by (simp add: held_def)
  with p touch_hold [OF assms(1,2), of p] poll_up [OF assms(3)] released [OF assms(2)]
  show "adc_run (Poll down # replicate p (Press_Expires down) @ [Poll up, Press_Expires up, Release_Expires]) (ready cs) =
      Some (ready (cs @ [(int k, BTN_STATE_CLICK), (int k, BTN_STATE_RELEASE)]))"
    by simp
next
  have r7: "replicate 7 x = replicate 6 x @ [x]" for x :: adc_event by (simp add: eval_nat_numeral)
  note base = touch_hold [OF assms(1,2), of 6] hold_last [OF assms(1,2), of cs] poll_up [OF assms(3)] released [OF assms(2)]
  { assume "k \<noteq> 2"
    with base long_press [OF assms(1,2)] show
      "adc_run (Poll down # replicate 7 (Press_Expires down) @ [Long_Expires down, Poll up, Release_Expires]) (ready cs) =
        Some (ready (cs @ [(int k, BTN_STATE_PRESS), (int k, BTN_STATE_RELEASE)]))"
      by (simp add: r7) }
  { assume "k = 2"
    moreover have "(held 2 0 False cs')\<lparr>btn := (replicate 6 \<lparr>activeId = -1, clickCnt = 0, onlyClick = 0\<rparr>)
        [2 := \<lparr>activeId = 0, clickCnt = 0, onlyClick = 0\<rparr>]\<rparr> = spent 2 True False cs'" for cs'
      by (simp add: spent_def held_def)
    ultimately show "adc_run (Poll down # replicate 7 (Press_Expires down) @ [Poll up, Release_Expires]) (ready cs) =
        Some (ready (cs @ [(int k, BTN_STATE_CLICK), (int k, BTN_STATE_RELEASE)]))"
      using base by (simp add: r7) }
qed

text \<open>
  A click is a click and a long press is a long press. Touch a button, hold it for \<open>p\<close> expiries of
  the press timer and let it go: with \<open>p\<close> from 1 to 6 the application hears one click and one release
  of that button; held until the long press timer expires it hears one long press and one release,
  except for the record button, which clicks at the seventh expiry. Each time the state is the one
  before the touch.
\<close>

theorem adc_click_and_press:
  assumes "key_of down = int k" "k < 6" "key_of up = -1"
  shows "(1 \<le> p \<and> p \<le> 6 \<longrightarrow>
      adc_run (Poll down # replicate p (Press_Expires down) @ [Poll up, Press_Expires up, Release_Expires]) (ready cs) =
        Some (ready (cs @ [(int k, BTN_STATE_CLICK), (int k, BTN_STATE_RELEASE)]))) \<and>
    (k \<noteq> 2 \<longrightarrow>
      adc_run (Poll down # replicate 7 (Press_Expires down) @ [Long_Expires down, Poll up, Release_Expires]) (ready cs) =
        Some (ready (cs @ [(int k, BTN_STATE_PRESS), (int k, BTN_STATE_RELEASE)]))) \<and>
    (k = 2 \<longrightarrow>
      adc_run (Poll down # replicate 7 (Press_Expires down) @ [Poll up, Release_Expires]) (ready cs) =
        Some (ready (cs @ [(int k, BTN_STATE_CLICK), (int k, BTN_STATE_RELEASE)])))"
  by (rule click_and_press [OF assms])

theorem adc_click_and_press_witness:
  "adc_run ([Poll (\<lambda>_. 1000)] @ replicate 3 (Press_Expires (\<lambda>_. 1000)) @
      [Poll (\<lambda>_. 0), Press_Expires (\<lambda>_. 0), Release_Expires]) (ready []) =
    Some (ready [(1, BTN_STATE_CLICK), (1, BTN_STATE_RELEASE)])"
proof -
  have "key_of (\<lambda>_. 1000) = int 1" "key_of (\<lambda>_. 0) = -1" by code_simp+
  then show ?thesis using adc_click_and_press [of "\<lambda>_. 1000" 1 "\<lambda>_. 0" 3 "[]"] by simp
qed

text \<open>
  A contact that bounces when it opens locks the button. If one reading of the open contact is
  followed by one of the closed contact, the release timer is stopped, and nothing starts it again:
  after the click the application hears of no release, and as long as only this button is used,
  whatever is read, nothing more is reported.
\<close>

theorem adc_bounce_locks_button:
  assumes "key_of down = int k" "k < 6" "key_of up = -1" "1 \<le> p" "p \<le> 6"
    and "list_all (\<lambda>e. \<exists>sample. e = Poll sample \<and> (key_of sample = -1 \<or> key_of sample = int k)) polls"
  shows "\<exists>s. adc_run (Poll down # replicate p (Press_Expires down) @ [Poll up, Poll down, Poll up, Press_Expires up]) (ready cs) =
      Some s \<and> btn_calls s = cs @ [(int k, BTN_STATE_CLICK)] \<and>
    adc_run polls s = Some s \<and> \<not> pressTmr s \<and> \<not> longPressTmr s \<and> \<not> releaseTmr s"
proof -
  let ?s = "spent k False False (cs @ [(int k, BTN_STATE_CLICK)])"
  let ?h = "(held k (int p) True cs)\<lparr>timerStartflag := False, releaseTmr := False\<rparr>"
  have "buttonPressCb up ?h = Some ?s"
    using let_go [OF assms(3,2), where c = "int p" and flag = False and rel = False and cs = cs] assms(4) by simp
  then have run: "adc_run (Poll down # replicate p (Press_Expires down) @ [Poll up, Poll down, Poll up, Press_Expires up]) (ready cs) = Some ?s"
    using touch_hold [OF assms(1,2,5)] poll_up [OF assms(3)] poll_same [OF assms(1)] by simp
  have "adc_run polls ?s = Some ?s"
    using assms(6)
  proof (induction polls)
    case (Cons e es)
    then obtain sample where "e = Poll sample" "key_of sample = -1 \<or> key_of sample = int k" by auto
    with Cons show ?case using poll_up [of sample ?s] poll_same [of sample k ?s] by auto
  qed simp
  moreover have "btn_calls ?s = cs @ [(int k, BTN_STATE_CLICK)]" by (simp add: spent_def held_def)
  ultimately show ?thesis using run by (intro exI [of _ ?s]) simp
qed

theorem adc_bounce_locks_button_witness:
  "\<exists>s. adc_run [Poll (\<lambda>_. 1000), Press_Expires (\<lambda>_. 1000), Poll (\<lambda>_. 0), Poll (\<lambda>_. 1000), Poll (\<lambda>_. 0), Press_Expires (\<lambda>_. 0)]
      (ready []) = Some s \<and> adc_run [Poll (\<lambda>_. 1000), Poll (\<lambda>_. 0)] s = Some s"
proof -
  have k: "key_of (\<lambda>_. 1000) = int 1" "key_of (\<lambda>_. 0) = -1" by code_simp+
  then have "list_all (\<lambda>e. \<exists>sample. e = Poll sample \<and> (key_of sample = -1 \<or> key_of sample = int 1)) [Poll (\<lambda>_. 1000), Poll (\<lambda>_. 0)]"
    by auto
  from adc_bounce_locks_button [OF k(1) _ k(2) _ _ this, of 1 "[]"] show ?thesis by auto
qed

end
