(* ===== verification/Gpio_Button.thy ===== *)
theory Gpio_Button
  imports Prelude
begin

text \<open>
  Buttons on a GPIO pin, \<open>components/DeviceController/TouchManager/button.c\<close>: an interrupt on each edge
  restarts the timers of the button, and the timer callbacks look at the level that has settled.

  The timers are a table: an entry is a live FreeRTOS timer with the callback structure that is its id
  and whether it is running, or \<open>None\<close> once it is deleted; a timer handle is an index. An expiry of a
  running timer is a step, with the level \<open>gpio_get_level\<close> then returns. Functions are named by numbers,
  and the calls with their arguments are collected in \<open>bd_calls\<close>. \<open>None\<close> is undefined behaviour.
\<close>

section \<open>State\<close>

datatype button_status = BUTTON_STATE_IDLE | BUTTON_STATE_PUSH | BUTTON_STATE_PRESSED

datatype button_cb_type = BUTTON_PUSH_CB | BUTTON_RELEASE_CB | BUTTON_TAP_CB

datatype cb_slot = Tap_Short | Tap_Psh | Tap_Rls | Press_Cb nat

record button_cb =
  cb_interval :: int
  cb_fun :: "nat option"
  cb_arg :: "nat option"
  cb_tmr :: "nat option"
  cb_pbtn :: bool

record button_dev =
  io_num :: nat
  active_level :: nat
  bd_state :: button_status
  tap_short_cb :: button_cb
  tap_psh_cb :: button_cb
  tap_rls_cb :: button_cb
  press_cbs :: "button_cb list"
  bd_timers :: "(cb_slot \<times> bool) option list"
  bd_calls :: "(nat \<times> nat option) list"

fun slot_cb :: "cb_slot \<Rightarrow> button_dev \<Rightarrow> button_cb option" where
  "slot_cb Tap_Short b = Some (tap_short_cb b)"
| "slot_cb Tap_Psh b = Some (tap_psh_cb b)"
| "slot_cb Tap_Rls b = Some (tap_rls_cb b)"
| "slot_cb (Press_Cb i) b = rd (press_cbs b) i"

fun put_cb :: "cb_slot \<Rightarrow> button_cb \<Rightarrow> button_dev \<Rightarrow> button_dev" where
  "put_cb Tap_Short c b = b\<lparr>tap_short_cb := c\<rparr>"
| "put_cb Tap_Psh c b = b\<lparr>tap_psh_cb := c\<rparr>"
| "put_cb Tap_Rls c b = b\<lparr>tap_rls_cb := c\<rparr>"
| "put_cb (Press_Cb i) c b = b\<lparr>press_cbs := (press_cbs b)[i := c]\<rparr>"

section \<open>Timer callbacks and the interrupt\<close>

definition call_cb :: "button_cb \<Rightarrow> button_dev \<Rightarrow> button_dev" where
  "call_cb c b = (case cb_fun c of None \<Rightarrow> b | Some f \<Rightarrow> b\<lparr>bd_calls := bd_calls b @ [(f, cb_arg c)]\<rparr>)"

definition button_press_cb :: "button_cb \<Rightarrow> nat \<Rightarrow> button_dev \<Rightarrow> button_dev" where
  "button_press_cb btn_cb level b =
     (if active_level b = level then call_cb btn_cb (b\<lparr>bd_state := BUTTON_STATE_PRESSED\<rparr>) else b)"

definition button_tap_rls_cb :: "nat \<Rightarrow> button_dev \<Rightarrow> button_dev" where
  "button_tap_rls_cb level b =
     (if active_level b \<noteq> level
      then (let b1 = (if bd_state b = BUTTON_STATE_PUSH then call_cb (tap_short_cb b) b else b);
                b2 = call_cb (tap_rls_cb b1) b1
            in b2\<lparr>bd_state := BUTTON_STATE_IDLE\<rparr>)
      else b)"

definition button_tap_push_cb :: "nat \<Rightarrow> button_dev \<Rightarrow> button_dev" where
  "button_tap_push_cb level b =
     (if active_level b = level then call_cb (tap_psh_cb b) (b\<lparr>bd_state := BUTTON_STATE_PUSH\<rparr>) else b)"

text \<open>The expiry of timer \<open>h\<close>: a one-shot timer stops, then its callback runs.\<close>

definition timer_expires :: "nat \<Rightarrow> nat \<Rightarrow> button_dev \<Rightarrow> button_dev option" where
  "timer_expires h level b =
     (case rd (bd_timers b) h of
        Some (Some (slot, True)) \<Rightarrow>
          (let b1 = b\<lparr>bd_timers := (bd_timers b)[h := Some (slot, False)]\<rparr> in
           case slot_cb slot b1 of
             None \<Rightarrow> None
           | Some c \<Rightarrow>
               if \<not> cb_pbtn c then None
               else Some (case slot of
                   Tap_Short \<Rightarrow> b1
                 | Tap_Psh \<Rightarrow> button_tap_push_cb level b1
                 | Tap_Rls \<Rightarrow> button_tap_rls_cb level b1
                 | Press_Cb _ \<Rightarrow> button_press_cb c level b1))
      | _ \<Rightarrow> Some b)"

text \<open>\<open>xTimerResetFromISR\<close>; the handle of a deleted timer is dangling.\<close>

definition timer_reset :: "nat option \<Rightarrow> button_dev \<Rightarrow> button_dev option" where
  "timer_reset tmr b =
     (case tmr of
        None \<Rightarrow> Some b
      | Some h \<Rightarrow> (case rd (bd_timers b) h of
                    Some (Some (slot, _)) \<Rightarrow> Some (b\<lparr>bd_timers := (bd_timers b)[h := Some (slot, True)]\<rparr>)
                  | _ \<Rightarrow> None))"

fun reset_all :: "button_cb list \<Rightarrow> button_dev \<Rightarrow> button_dev option" where
  "reset_all [] b = Some b"
| "reset_all (c # cs) b = do { b1 \<leftarrow> timer_reset (cb_tmr c) b; reset_all cs b1 }"

definition button_gpio_isr_handler :: "button_dev \<Rightarrow> button_dev option" where
  "button_gpio_isr_handler b =
     do { b1 \<leftarrow> timer_reset (cb_tmr (tap_psh_cb b)) b;
          b2 \<leftarrow> timer_reset (cb_tmr (tap_rls_cb b)) b1;
          reset_all (press_cbs b) b2 }"

section \<open>Set up and tear down\<close>

definition button_free_tmr :: "cb_slot \<Rightarrow> button_dev \<Rightarrow> button_dev option" where
  "button_free_tmr slot b =
     do { c \<leftarrow> slot_cb slot b;
          case cb_tmr c of
            None \<Rightarrow> Some b
          | Some h \<Rightarrow> (case rd (bd_timers b) h of
                        Some (Some _) \<Rightarrow> Some (put_cb slot (c\<lparr>cb_tmr := None\<rparr>) (b\<lparr>bd_timers := (bd_timers b)[h := None]\<rparr>))
                      | _ \<Rightarrow> None) }"

fun free_press_tmrs :: "nat \<Rightarrow> button_dev \<Rightarrow> button_dev option" where
  "free_press_tmrs 0 b = Some b"
| "free_press_tmrs (Suc n) b = do { b1 \<leftarrow> free_press_tmrs n b; button_free_tmr (Press_Cb n) b1 }"

text \<open>What is left of the button: the timers that nobody can delete any more.\<close>

definition button_dev_free :: "button_dev \<Rightarrow> (cb_slot \<times> bool) option list option" where
  "button_dev_free b =
     do { b1 \<leftarrow> button_free_tmr Tap_Rls b;
          b2 \<leftarrow> button_free_tmr Tap_Psh b1;
          b3 \<leftarrow> button_free_tmr Tap_Short b2;
          b4 \<leftarrow> free_press_tmrs (length (press_cbs b)) b3;
          Some (bd_timers b4) }"

definition no_cb :: button_cb where
  "no_cb = \<lparr>cb_interval = 0, cb_fun = None, cb_arg = None, cb_tmr = None, cb_pbtn = False\<rparr>"

text \<open>The structure comes zeroed from \<open>EspAudioAlloc\<close>, and is used without a test.\<close>

definition button_dev_init :: "bool \<Rightarrow> nat \<Rightarrow> nat \<Rightarrow> nat \<Rightarrow> button_dev option" where
  "button_dev_init ok gpio_num cb_num level =
     (if \<not> ok then None else Some \<lparr>io_num = gpio_num, active_level = level, bd_state = BUTTON_STATE_IDLE, tap_short_cb = no_cb,
      tap_psh_cb = no_cb\<lparr>cb_pbtn := True\<rparr>, tap_rls_cb = no_cb\<lparr>cb_pbtn := True\<rparr>,
      press_cbs = replicate cb_num no_cb, bd_timers = [], bd_calls = []\<rparr>)"

fun slot_of :: "button_cb_type \<Rightarrow> cb_slot" where
  "slot_of BUTTON_PUSH_CB = Tap_Psh"
| "slot_of BUTTON_RELEASE_CB = Tap_Rls"
| "slot_of BUTTON_TAP_CB = Tap_Short"

definition button_dev_rm_tap_cb :: "button_cb_type \<Rightarrow> button_dev \<Rightarrow> button_dev option" where
  "button_dev_rm_tap_cb type b =
     do { c \<leftarrow> slot_cb (slot_of type) b;
          button_free_tmr (slot_of type) (put_cb (slot_of type) (c\<lparr>cb_fun := None, cb_arg := None, cb_pbtn := True\<rparr>) b) }"

text \<open>\<open>xTimerCreate\<close> for the structure at \<open>slot\<close>; \<open>ok\<close> says whether there is memory for it.\<close>

definition create_tmr :: "bool \<Rightarrow> cb_slot \<Rightarrow> button_cb \<Rightarrow> button_dev \<Rightarrow> button_dev" where
  "create_tmr ok slot c b =
     (if ok then put_cb slot (c\<lparr>cb_tmr := Some (length (bd_timers b))\<rparr>) (b\<lparr>bd_timers := bd_timers b @ [Some (slot, False)]\<rparr>)
      else put_cb slot (c\<lparr>cb_tmr := None\<rparr>) b)"

definition button_dev_add_tap_cb ::
  "bool \<Rightarrow> button_cb_type \<Rightarrow> nat option \<Rightarrow> nat option \<Rightarrow> int \<Rightarrow> button_dev \<Rightarrow> button_dev option" where
  "button_dev_add_tap_cb ok type f a interval_tick b =
     do { c \<leftarrow> slot_cb (slot_of type) b;
          let c1 = c\<lparr>cb_arg := a, cb_fun := f, cb_interval := interval_tick, cb_pbtn := True\<rparr>;
          if type = BUTTON_TAP_CB then button_free_tmr Tap_Short (put_cb Tap_Short c1 b)
          else Some (create_tmr ok (slot_of type) c1 b) }"

definition button_dev_rm_press_cb :: "nat \<Rightarrow> button_dev \<Rightarrow> button_dev option" where
  "button_dev_rm_press_cb cb_idx b =
     do { c \<leftarrow> slot_cb (Press_Cb cb_idx) b;
          button_free_tmr (Press_Cb cb_idx)
            (put_cb (Press_Cb cb_idx) (c\<lparr>cb_arg := None, cb_fun := None, cb_interval := 50\<rparr>) b) }"

definition button_dev_add_press_cb ::
  "bool \<Rightarrow> nat \<Rightarrow> nat option \<Rightarrow> nat option \<Rightarrow> int \<Rightarrow> button_dev \<Rightarrow> button_dev option" where
  "button_dev_add_press_cb ok cb_idx f a interval_tick b =
     do { c \<leftarrow> slot_cb (Press_Cb cb_idx) b;
          Some (create_tmr ok (Press_Cb cb_idx)
            (c\<lparr>cb_arg := a, cb_fun := f, cb_interval := interval_tick, cb_pbtn := True\<rparr>) b) }"

section \<open>Steps\<close>

inductive button_step :: "button_dev \<Rightarrow> button_dev \<Rightarrow> bool" where
  edge: "button_gpio_isr_handler b = Some b' \<Longrightarrow> button_step b b'"
| expiry: "timer_expires h level b = Some b' \<Longrightarrow> button_step b b'"
| add_tap: "button_dev_add_tap_cb ok type f a interval b = Some b' \<Longrightarrow> button_step b b'"
| rm_tap: "button_dev_rm_tap_cb type b = Some b' \<Longrightarrow> button_step b b'"
| add_press: "button_dev_add_press_cb ok i f a interval b = Some b' \<Longrightarrow> button_step b b'"
| rm_press: "button_dev_rm_press_cb i b = Some b' \<Longrightarrow> button_step b b'"

section \<open>Handles\<close>

text \<open>
  Every handle a structure holds is that of a live timer made for this structure, and every live
  timer was made for a structure that knows its button.
\<close>

definition handles_ok :: "button_dev \<Rightarrow> bool" where
  "handles_ok b \<longleftrightarrow>
     (\<forall>slot c h. slot_cb slot b = Some c \<longrightarrow> cb_tmr c = Some h \<longrightarrow>
        h < length (bd_timers b) \<and> (\<exists>r. bd_timers b ! h = Some (slot, r))) \<and>
     (\<forall>h slot r. h < length (bd_timers b) \<longrightarrow> bd_timers b ! h = Some (slot, r) \<longrightarrow>
        (\<exists>c. slot_cb slot b = Some c \<and> cb_pbtn c))"

lemma handles_okD:
  assumes "handles_ok b"
  shows "slot_cb slot b = Some c \<Longrightarrow> cb_tmr c = Some h \<Longrightarrow> h < length (bd_timers b) \<and> (\<exists>r. bd_timers b ! h = Some (slot, r))"
    and "h < length (bd_timers b) \<Longrightarrow> bd_timers b ! h = Some (slot, r) \<Longrightarrow> \<exists>c. slot_cb slot b = Some c \<and> cb_pbtn c"
  using assms by (auto simp: handles_ok_def)

lemma handles_okI:
  assumes "\<And>slot c h. slot_cb slot b = Some c \<Longrightarrow> cb_tmr c = Some h \<Longrightarrow>
      h < length (bd_timers b) \<and> (\<exists>r. bd_timers b ! h = Some (slot, r))"
    and "\<And>h slot r. h < length (bd_timers b) \<Longrightarrow> bd_timers b ! h = Some (slot, r) \<Longrightarrow> \<exists>c. slot_cb slot b = Some c \<and> cb_pbtn c"
  shows "handles_ok b"
  using assms by (auto simp: handles_ok_def)

lemma slot_cb_put [simp]:
  "slot_cb s b = Some c0 \<Longrightarrow> slot_cb s' (put_cb s c b) = (if s' = s then Some c else slot_cb s' b)"
  by (cases s; cases s') (auto simp: rd_def nth_list_update split: if_splits)

lemma put_timers [simp]: "bd_timers (put_cb s c b) = bd_timers b"
  by (cases s) simp_all

lemma slot_cb_timers [simp]: "slot_cb s (b\<lparr>bd_timers := t\<rparr>) = slot_cb s b"
  by (cases s) simp_all

lemma handles_put:
  assumes "slot_cb s b = Some c" "cb_tmr c' = cb_tmr c" "cb_pbtn c' \<or> cb_pbtn c' = cb_pbtn c" "handles_ok b"
  shows "handles_ok (put_cb s c' b)"
proof (rule handles_okI)
  fix slot d h assume "slot_cb slot (put_cb s c' b) = Some d" "cb_tmr d = Some h"
  then show "h < length (bd_timers (put_cb s c' b)) \<and> (\<exists>r. bd_timers (put_cb s c' b) ! h = Some (slot, r))"
    using assms(1,2) handles_okD(1) [OF assms(4), of slot _ h] by (simp split: if_splits)
next
  fix h slot r assume "h < length (bd_timers (put_cb s c' b))" "bd_timers (put_cb s c' b) ! h = Some (slot, r)"
  then show "\<exists>d. slot_cb slot (put_cb s c' b) = Some d \<and> cb_pbtn d"
    using assms(1,3) handles_okD(2) [OF assms(4), of h slot r] by auto
qed

text \<open>What the operations do to handles: nothing, restart, delete, make.\<close>

lemma handles_restart:
  assumes "handles_ok b" "h < length (bd_timers b)" "bd_timers b ! h = Some (slot, r)"
  shows "handles_ok (b\<lparr>bd_timers := (bd_timers b)[h := Some (slot, r')]\<rparr>)"
proof (rule handles_okI)
  fix s c k assume "slot_cb s (b\<lparr>bd_timers := (bd_timers b)[h := Some (slot, r')]\<rparr>) = Some c" "cb_tmr c = Some k"
  then have "k < length (bd_timers b) \<and> (\<exists>r. bd_timers b ! k = Some (s, r))"
    using handles_okD(1) [OF assms(1)] by simp
  with assms(2,3) show "k < length (bd_timers (b\<lparr>bd_timers := (bd_timers b)[h := Some (slot, r')]\<rparr>)) \<and>
      (\<exists>r. bd_timers (b\<lparr>bd_timers := (bd_timers b)[h := Some (slot, r')]\<rparr>) ! k = Some (s, r))"
    by (auto simp: nth_list_update)
next
  fix k s q assume "k < length (bd_timers (b\<lparr>bd_timers := (bd_timers b)[h := Some (slot, r')]\<rparr>))"
    "bd_timers (b\<lparr>bd_timers := (bd_timers b)[h := Some (slot, r')]\<rparr>) ! k = Some (s, q)"
  then show "\<exists>c. slot_cb s (b\<lparr>bd_timers := (bd_timers b)[h := Some (slot, r')]\<rparr>) = Some c \<and> cb_pbtn c"
    using handles_okD(2) [OF assms(1)] assms(2,3) by (auto simp: nth_list_update split: if_splits)
qed

lemma handles_delete:
  assumes "handles_ok b" "slot_cb slot b = Some c" "cb_tmr c = Some h"
  shows "handles_ok (put_cb slot (c\<lparr>cb_tmr := None\<rparr>) (b\<lparr>bd_timers := (bd_timers b)[h := None]\<rparr>))"
proof (rule handles_okI)
  have h: "h < length (bd_timers b)" "\<exists>r. bd_timers b ! h = Some (slot, r)"
    using handles_okD(1) [OF assms] by simp_all
  let ?b = "put_cb slot (c\<lparr>cb_tmr := None\<rparr>) (b\<lparr>bd_timers := (bd_timers b)[h := None]\<rparr>)"
  fix s c' k
  assume a: "slot_cb s ?b = Some c'" "cb_tmr c' = Some k"
  then have "s \<noteq> slot" "slot_cb s b = Some c'" using assms(2) by (auto split: if_splits)
  with a(2) handles_okD(1) [OF assms(1)] have "k < length (bd_timers b) \<and> (\<exists>r. bd_timers b ! k = Some (s, r))" by blast
  with h \<open>s \<noteq> slot\<close> show "k < length (bd_timers ?b) \<and> (\<exists>r. bd_timers ?b ! k = Some (s, r))"
    by (auto simp: nth_list_update)
next
  let ?b = "put_cb slot (c\<lparr>cb_tmr := None\<rparr>) (b\<lparr>bd_timers := (bd_timers b)[h := None]\<rparr>)"
  fix k s q assume "k < length (bd_timers ?b)" "bd_timers ?b ! k = Some (s, q)"
  then have "k < length (bd_timers b)" "bd_timers b ! k = Some (s, q)"
    by (cases "k = h"; simp)+
  from handles_okD(2) [OF assms(1) this] show "\<exists>c. slot_cb s ?b = Some c \<and> cb_pbtn c"
    using assms(2) by auto
qed

lemma handles_create:
  assumes "handles_ok b" "slot_cb slot b = Some c0" "cb_pbtn c"
  shows "handles_ok (create_tmr ok slot c b)"
proof (rule handles_okI)
  fix s c' k assume "slot_cb s (create_tmr ok slot c b) = Some c'" "cb_tmr c' = Some k"
  then show "k < length (bd_timers (create_tmr ok slot c b)) \<and> (\<exists>r. bd_timers (create_tmr ok slot c b) ! k = Some (s, r))"
    using assms(2) handles_okD(1) [OF assms(1), of s c' k]
    by (auto simp: create_tmr_def nth_append split: if_splits)
next
  fix k s q assume "k < length (bd_timers (create_tmr ok slot c b))" "bd_timers (create_tmr ok slot c b) ! k = Some (s, q)"
  then show "\<exists>c'. slot_cb s (create_tmr ok slot c b) = Some c' \<and> cb_pbtn c'"
    using assms(2,3) handles_okD(2) [OF assms(1), of k s q]
    by (auto simp: create_tmr_def nth_append split: if_splits)
qed

lemma handles_frame:
  assumes "bd_timers b' = bd_timers b" "\<And>s. slot_cb s b' = slot_cb s b"
  shows "handles_ok b' = handles_ok b"
  using assms by (simp add: handles_ok_def)

lemma slot_frame [simp]:
  "slot_cb s (b\<lparr>bd_state := st\<rparr>) = slot_cb s b" "slot_cb s (b\<lparr>bd_calls := cs\<rparr>) = slot_cb s b"
  by (cases s; simp)+

lemma call_cb_frame [simp]: "bd_timers (call_cb c b) = bd_timers b" "slot_cb s (call_cb c b) = slot_cb s b"
  by (simp_all add: call_cb_def split: option.splits)

lemma callbacks_frame [simp]:
  "bd_timers (button_press_cb c l b) = bd_timers b" "slot_cb s (button_press_cb c l b) = slot_cb s b"
  "bd_timers (button_tap_rls_cb l b) = bd_timers b" "slot_cb s (button_tap_rls_cb l b) = slot_cb s b"
  "bd_timers (button_tap_push_cb l b) = bd_timers b" "slot_cb s (button_tap_push_cb l b) = slot_cb s b"
  by (simp_all add: button_press_cb_def button_tap_rls_cb_def button_tap_push_cb_def Let_def)

lemma expires_ok:
  assumes "handles_ok b"
  shows "\<exists>b'. timer_expires h level b = Some b' \<and> handles_ok b'"
proof (cases "\<exists>slot. rd (bd_timers b) h = Some (Some (slot, True))")
  case False
  then have "timer_expires h level b = Some b"
    by (auto simp: timer_expires_def split: option.splits prod.splits bool.splits)
  with assms show ?thesis by simp
next
  case True
  then obtain slot where t: "h < length (bd_timers b)" "bd_timers b ! h = Some (slot, True)"
    by (auto simp: rd_eq_Some_iff)
  let ?b = "b\<lparr>bd_timers := (bd_timers b)[h := Some (slot, False)]\<rparr>"
  obtain c where c: "slot_cb slot b = Some c" "cb_pbtn c" using handles_okD(2) [OF assms t] by blast
  have ok: "handles_ok ?b" by (rule handles_restart [OF assms t])
  then have oks: "handles_ok (button_tap_push_cb level ?b)" "handles_ok (button_tap_rls_cb level ?b)"
    "handles_ok (button_press_cb c level ?b)"
    using handles_frame [of "button_tap_push_cb level ?b" ?b] handles_frame [of "button_tap_rls_cb level ?b" ?b]
      handles_frame [of "button_press_cb c level ?b" ?b] by simp_all
  from t(1) t(2) have "rd (bd_timers b) h = Some (Some (slot, True))" by (simp add: rd_eq_Some_iff)
  with c have "timer_expires h level b = Some (case slot of
      Tap_Short \<Rightarrow> ?b | Tap_Psh \<Rightarrow> button_tap_push_cb level ?b
    | Tap_Rls \<Rightarrow> button_tap_rls_cb level ?b | Press_Cb _ \<Rightarrow> button_press_cb c level ?b)"
    by (simp add: timer_expires_def Let_def)
  then show ?thesis using ok oks by (cases slot) simp_all
qed

lemma reset_ok:
  assumes "handles_ok b" "\<exists>s. slot_cb s b = Some c"
  shows "\<exists>b'. timer_reset (cb_tmr c) b = Some b' \<and> handles_ok b' \<and> (\<forall>s. slot_cb s b' = slot_cb s b)"
proof (cases "cb_tmr c")
  case None
  with assms show ?thesis by (simp add: timer_reset_def)
next
  case (Some h)
  obtain s where s: "slot_cb s b = Some c" using assms(2) by blast
  then obtain r where r: "h < length (bd_timers b)" "bd_timers b ! h = Some (s, r)"
    using handles_okD(1) [OF assms(1)] Some by blast
  then have "rd (bd_timers b) h = Some (Some (s, r))" by (simp add: rd_eq_Some_iff)
  then show ?thesis using Some handles_restart [OF assms(1) r, of True] by (simp add: timer_reset_def)
qed

lemma reset_all_ok:
  "handles_ok b \<Longrightarrow> (\<forall>c \<in> set cs. \<exists>s. slot_cb s b = Some c) \<Longrightarrow> \<exists>b'. reset_all cs b = Some b' \<and> handles_ok b'"
proof (induction cs arbitrary: b)
  case (Cons c cs)
  obtain b1 where "timer_reset (cb_tmr c) b = Some b1" "handles_ok b1" "\<forall>s. slot_cb s b1 = slot_cb s b"
    using reset_ok [OF Cons.prems(1), of c] Cons.prems(2) unfolding list.set by blast
  with Cons.IH [of b1] Cons.prems(2) show ?case by auto
qed simp

lemma isr_ok:
  assumes "handles_ok b"
  shows "\<exists>b'. button_gpio_isr_handler b = Some b' \<and> handles_ok b'"
proof -
  obtain b1 where b1: "timer_reset (cb_tmr (tap_psh_cb b)) b = Some b1" "handles_ok b1" "\<forall>s. slot_cb s b1 = slot_cb s b"
    using reset_ok [OF assms, of "tap_psh_cb b"] by (metis slot_cb.simps(2))
  obtain b2 where b2: "timer_reset (cb_tmr (tap_rls_cb b)) b1 = Some b2" "handles_ok b2" "\<forall>s. slot_cb s b2 = slot_cb s b1"
    using reset_ok [OF b1(2), of "tap_rls_cb b"] b1(3) by (metis slot_cb.simps(3))
  have "\<forall>c \<in> set (press_cbs b). \<exists>s. slot_cb s b2 = Some c"
  proof
    fix c assume "c \<in> set (press_cbs b)"
    then obtain i where "i < length (press_cbs b)" "press_cbs b ! i = c" by (auto simp: in_set_conv_nth)
    then have "slot_cb (Press_Cb i) b2 = Some c" using b1(3) b2(3) by (simp add: rd_eq_Some_iff)
    then show "\<exists>s. slot_cb s b2 = Some c" by blast
  qed
  from reset_all_ok [OF b2(2) this] b1(1) b2(1) show ?thesis by (simp add: button_gpio_isr_handler_def)
qed

lemma free_tmr_ok:
  assumes "handles_ok b" "slot_cb slot b = Some c"
  shows "\<exists>b'. button_free_tmr slot b = Some b' \<and> handles_ok b'"
proof (cases "cb_tmr c")
  case None
  with assms show ?thesis by (simp add: button_free_tmr_def)
next
  case (Some h)
  then obtain r where "h < length (bd_timers b)" "bd_timers b ! h = Some (slot, r)"
    using handles_okD(1) [OF assms(1,2)] by blast
  then have "rd (bd_timers b) h = Some (Some (slot, r))" by (simp add: rd_eq_Some_iff)
  then show ?thesis
    using assms(2) Some handles_delete [OF assms Some] by (simp add: button_free_tmr_def)
qed

lemma init_ok: "button_dev_init ok g n l = Some b \<Longrightarrow> handles_ok b"
proof -
  have "slot_cb s b' = Some c \<Longrightarrow> cb_tmr c = None" if "button_dev_init ok g n l = Some b'" for s c b'
    using that by (cases s) (auto simp: button_dev_init_def no_cb_def rd_def split: if_splits)
  then show "button_dev_init ok g n l = Some b \<Longrightarrow> handles_ok b"
    by (fastforce simp: handles_ok_def button_dev_init_def split: if_splits)
qed

lemma add_tap_ok:
  assumes "handles_ok b"
  shows "\<exists>b'. button_dev_add_tap_cb ok type f a i b = Some b' \<and> handles_ok b'"
proof -
  obtain c where c: "slot_cb (slot_of type) b = Some c" by (cases type) simp_all
  let ?c = "c\<lparr>cb_arg := a, cb_fun := f, cb_interval := i, cb_pbtn := True\<rparr>"
  show ?thesis
  proof (cases "type = BUTTON_TAP_CB")
    case True
    have "handles_ok (put_cb (slot_of type) ?c b)" by (rule handles_put [OF c _ _ assms]) simp_all
    moreover have "slot_cb Tap_Short (put_cb (slot_of type) ?c b) = Some ?c" using c True by simp
    ultimately show ?thesis using c True free_tmr_ok by (simp add: button_dev_add_tap_cb_def Let_def)
  next
    case False
    then show ?thesis using c handles_create [OF assms c, of ?c ok]
      by (simp add: button_dev_add_tap_cb_def Let_def)
  qed
qed

lemma rm_tap_ok:
  assumes "handles_ok b"
  shows "\<exists>b'. button_dev_rm_tap_cb type b = Some b' \<and> handles_ok b'"
proof -
  obtain c where c: "slot_cb (slot_of type) b = Some c" by (cases type) simp_all
  let ?c = "c\<lparr>cb_fun := None, cb_arg := None, cb_pbtn := True\<rparr>"
  have "handles_ok (put_cb (slot_of type) ?c b)" by (rule handles_put [OF c _ _ assms]) simp_all
  moreover have "slot_cb (slot_of type) (put_cb (slot_of type) ?c b) = Some ?c" using c by simp
  ultimately show ?thesis using c free_tmr_ok by (simp add: button_dev_rm_tap_cb_def)
qed

lemma add_press_ok: "handles_ok b \<Longrightarrow> button_dev_add_press_cb ok n f a i b = Some b' \<Longrightarrow> handles_ok b'"
  by (auto simp: button_dev_add_press_cb_def bind_eq_Some_conv intro: handles_create)

lemma rm_press_ok:
  assumes "handles_ok b" "button_dev_rm_press_cb n b = Some b'"
  shows "handles_ok b'"
proof -
  obtain c where c: "slot_cb (Press_Cb n) b = Some c"
    and b': "button_free_tmr (Press_Cb n) (put_cb (Press_Cb n) (c\<lparr>cb_arg := None, cb_fun := None, cb_interval := 50\<rparr>) b) = Some b'"
    using assms(2) by (auto simp: button_dev_rm_press_cb_def bind_eq_Some_conv)
  let ?c = "c\<lparr>cb_arg := None, cb_fun := None, cb_interval := 50\<rparr>"
  have "handles_ok (put_cb (Press_Cb n) ?c b)" by (rule handles_put [OF c _ _ assms(1)]) simp_all
  moreover have "slot_cb (Press_Cb n) (put_cb (Press_Cb n) ?c b) = Some ?c" using slot_cb_put [OF c] by simp
  ultimately show ?thesis using free_tmr_ok [of _ "Press_Cb n" ?c] b' by fastforce
qed

lemma button_step_ok: "button_step b b' \<Longrightarrow> handles_ok b \<Longrightarrow> handles_ok b'"
proof (induction rule: button_step.induct)
  case (edge b b')
  then show ?case using isr_ok [of b] by auto
next
  case (expiry h level b b')
  then show ?case using expires_ok [of b h level] by auto
next
  case (add_tap ok type f a interval b b')
  then show ?case using add_tap_ok [of b ok type f a interval] by auto
next
  case (rm_tap type b b')
  then show ?case using rm_tap_ok [of b type] by auto
qed (auto intro: add_press_ok rm_press_ok)

section \<open>Freeing a button\<close>

definition holds :: "button_dev \<Rightarrow> cb_slot \<Rightarrow> nat \<Rightarrow> bool" where
  "holds b slot h \<longleftrightarrow> (\<exists>c. slot_cb slot b = Some c \<and> cb_tmr c = Some h)"

definition freed :: "cb_slot set \<Rightarrow> button_dev \<Rightarrow> button_dev \<Rightarrow> bool" where
  "freed S b b' \<longleftrightarrow> handles_ok b' \<and>
     (\<forall>s. slot_cb s b' = map_option (\<lambda>c. if s \<in> S then c\<lparr>cb_tmr := None\<rparr> else c) (slot_cb s b)) \<and>
     length (bd_timers b') = length (bd_timers b) \<and>
     (\<forall>h < length (bd_timers b). bd_timers b' ! h = (if \<exists>s \<in> S. holds b s h then None else bd_timers b ! h))"

lemma freed_refl: "handles_ok b \<Longrightarrow> freed {} b b"
  by (auto simp: freed_def option.map_ident)

lemma freed_step:
  assumes "freed S b b1" "slot_cb slot b = Some c" "slot \<notin> S"
  shows "\<exists>b2. button_free_tmr slot b1 = Some b2 \<and> freed (insert slot S) b b2"
proof -
  have c1: "slot_cb slot b1 = Some c" and ok: "handles_ok b1"
    using assms by (auto simp: freed_def)
  obtain b2 where b2: "button_free_tmr slot b1 = Some b2" "handles_ok b2" using free_tmr_ok [OF ok c1] by blast
  have hs: "holds b slot h \<longleftrightarrow> cb_tmr c = Some h" for h using assms(2) by (simp add: holds_def)
  show ?thesis
  proof (cases "cb_tmr c")
    case None
    then have "b2 = b1" using b2(1) c1 by (simp add: button_free_tmr_def)
    moreover have "c\<lparr>cb_tmr := None\<rparr> = c" using None by simp
    ultimately show ?thesis using assms b2 hs None
      by (intro exI [of _ b2]) (auto simp: freed_def option.map_ident intro!: option.map_cong)
  next
    case (Some h)
    then obtain r where h: "h < length (bd_timers b1)" "bd_timers b1 ! h = Some (slot, r)"
      using handles_okD(1) [OF ok c1] by blast
    then have "rd (bd_timers b1) h = Some (Some (slot, r))" by (simp add: rd_eq_Some_iff)
    with b2(1) c1 Some have e: "b2 = put_cb slot (c\<lparr>cb_tmr := None\<rparr>) (b1\<lparr>bd_timers := (bd_timers b1)[h := None]\<rparr>)"
      by (simp add: button_free_tmr_def)
    have "slot_cb s b2 = map_option (\<lambda>c. if s \<in> insert slot S then c\<lparr>cb_tmr := None\<rparr> else c) (slot_cb s b)" for s
      using assms c1 by (auto simp: e freed_def)
    moreover have "\<forall>k < length (bd_timers b).
        bd_timers b2 ! k = (if \<exists>s \<in> insert slot S. holds b s k then None else bd_timers b ! k)"
      using assms(1) h(1) hs Some by (auto simp: e freed_def nth_list_update)
    moreover have "length (bd_timers b2) = length (bd_timers b)" using assms(1) by (simp add: e freed_def)
    ultimately show ?thesis using b2 by (intro exI [of _ b2]) (simp only: freed_def simp_thms)
  qed
qed

lemma free_press:
  assumes "freed {Tap_Rls, Tap_Psh, Tap_Short} b b1"
  shows "n \<le> length (press_cbs b) \<Longrightarrow>
    \<exists>b2. free_press_tmrs n b1 = Some b2 \<and> freed ({Tap_Rls, Tap_Psh, Tap_Short} \<union> Press_Cb ` {..<n}) b b2"
proof (induction n)
  case 0
  with assms show ?case by simp
next
  case (Suc n)
  then obtain b2 where b2: "free_press_tmrs n b1 = Some b2" "freed ({Tap_Rls, Tap_Psh, Tap_Short} \<union> Press_Cb ` {..<n}) b b2"
    by auto
  have "slot_cb (Press_Cb n) b = Some (press_cbs b ! n)" using Suc.prems by (simp add: rd_eq_Some_iff)
  from freed_step [OF b2(2) this] b2(1) show ?case by (auto simp: lessThan_Suc)
qed

lemma freed_all:
  assumes "handles_ok b"
  shows "\<exists>rest. button_dev_free b = Some rest \<and> length rest = length (bd_timers b) \<and>
    (\<forall>h < length (bd_timers b). rest ! h = (if \<exists>s. holds b s h then None else bd_timers b ! h))"
proof -
  obtain b1 where b1: "button_free_tmr Tap_Rls b = Some b1" "freed {Tap_Rls} b b1"
    using freed_step [OF freed_refl [OF assms], of Tap_Rls] by auto
  obtain b2 where b2: "button_free_tmr Tap_Psh b1 = Some b2" "freed {Tap_Psh, Tap_Rls} b b2"
    using freed_step [OF b1(2), of Tap_Psh] by auto
  obtain b3 where b3: "button_free_tmr Tap_Short b2 = Some b3" "freed {Tap_Short, Tap_Psh, Tap_Rls} b b3"
    using freed_step [OF b2(2), of Tap_Short] by auto
  have S: "{Tap_Short, Tap_Psh, Tap_Rls} = {Tap_Rls, Tap_Psh, Tap_Short}" by auto
  have "slot_cb (Press_Cb i) b3 = map_option (\<lambda>c. c) (slot_cb (Press_Cb i) b)" for i
    using b3(2) by (simp add: freed_def)
  then have "rd (press_cbs b3) i = rd (press_cbs b) i" for i by (simp add: option.map_ident)
  then have len: "length (press_cbs b3) = length (press_cbs b)"
    by (metis linorder_neqE_nat not_less_iff_gr_or_eq option.distinct(1) rd_None rd_Some less_or_eq_imp_le)
  obtain b4 where b4: "free_press_tmrs (length (press_cbs b)) b3 = Some b4"
      "freed ({Tap_Rls, Tap_Psh, Tap_Short} \<union> Press_Cb ` {..<length (press_cbs b)}) b b4"
    using free_press [OF b3(2) [unfolded S]] by blast
  have all: "s \<in> {Tap_Rls, Tap_Psh, Tap_Short} \<union> Press_Cb ` {..<length (press_cbs b)}" if "holds b s h" for s h
    using that by (cases s) (auto simp: holds_def rd_eq_Some_iff)
  have "button_dev_free b = Some (bd_timers b4)"
    using b1(1) b2(1) b3(1) b4(1) len by (simp add: button_dev_free_def)
  moreover have "length (bd_timers b4) = length (bd_timers b)" using b4(2) by (simp add: freed_def)
  moreover have "\<forall>h < length (bd_timers b). bd_timers b4 ! h = (if \<exists>s. holds b s h then None else bd_timers b ! h)"
  proof (intro allI impI)
    fix h assume len: "h < length (bd_timers b)"
    have "(\<exists>s \<in> {Tap_Rls, Tap_Psh, Tap_Short} \<union> Press_Cb ` {..<length (press_cbs b)}. holds b s h) \<longleftrightarrow> (\<exists>s. holds b s h)"
      using all by blast
    with b4(2) len show "bd_timers b4 ! h = (if \<exists>s. holds b s h then None else bd_timers b ! h)"
      unfolding freed_def by simp
  qed
  ultimately show ?thesis by (intro exI [of _ "bd_timers b4"] conjI)
qed

lemma reachable_ok: "button_step\<^sup>*\<^sup>* b0 b \<Longrightarrow> handles_ok b0 \<Longrightarrow> handles_ok b"
  by (induction rule: rtranclp_induct) (auto intro: button_step_ok)

text \<open>
  C32. Timer handles never dangle. Whatever callbacks are registered and removed and whatever edges and
  expiries follow, the interrupt handler restarts only live timers and every expiry finds its
  callback structure; freeing the button deletes exactly the timers its structures still hold, so
  what leaks are the timers whose handle was overwritten by a second registration.
\<close>

theorem button_timers_never_dangle:
  assumes "button_dev_init ok gpio_num cb_num level = Some b0" and "button_step\<^sup>*\<^sup>* b0 b"
  shows "button_gpio_isr_handler b \<noteq> None \<and> timer_expires h lev b \<noteq> None \<and>
    (\<exists>rest. button_dev_free b = Some rest \<and> length rest = length (bd_timers b) \<and>
      (\<forall>h < length rest. rest ! h = (if \<exists>slot. holds b slot h then None else bd_timers b ! h)))"
proof -
  have ok: "handles_ok b" using reachable_ok [OF assms(2)] init_ok [OF assms(1)] by blast
  from freed_all [OF ok] isr_ok [OF ok] expires_ok [OF ok, of h lev] show ?thesis by auto
qed

text \<open>A button whose push callback was registered twice: the first timer is never deleted.\<close>

theorem button_timers_never_dangle_witness:
  "\<exists>b0 b1 b. button_dev_init True 36 0 0 = Some b0 \<and>
     button_dev_add_tap_cb True BUTTON_PUSH_CB (Some 1) None 100 b0 = Some b1 \<and>
     button_dev_add_tap_cb True BUTTON_PUSH_CB (Some 2) None 100 b1 = Some b \<and>
     button_gpio_isr_handler b \<noteq> None \<and> button_dev_free b = Some [Some (Tap_Psh, False), None]"
proof -
  obtain b0 b1 b where b: "button_dev_init True 36 0 0 = Some b0"
    "button_dev_add_tap_cb True BUTTON_PUSH_CB (Some 1) None 100 b0 = Some b1"
    "button_dev_add_tap_cb True BUTTON_PUSH_CB (Some 2) None 100 b1 = Some b"
    and bf: "button_dev_free b = Some [Some (Tap_Psh, False), None]"
    by (simp add: button_dev_init_def button_dev_add_tap_cb_def create_tmr_def no_cb_def Let_def
        button_dev_free_def button_free_tmr_def rd_def)
  have "button_step\<^sup>*\<^sup>* b0 b" using button_step.add_tap [OF b(2)] button_step.add_tap [OF b(3)] by auto
  from button_timers_never_dangle [OF b(1) this] b bf show ?thesis by blast
qed

section \<open>Taps and presses\<close>

definition called :: "button_cb \<Rightarrow> (nat \<times> nat option) list" where
  "called c = (case cb_fun c of None \<Rightarrow> [] | Some f \<Rightarrow> [(f, cb_arg c)])"

lemma call_cb_calls: "call_cb c b = b\<lparr>bd_calls := bd_calls b @ called c\<rparr>"
  by (simp add: call_cb_def called_def split: option.splits)

text \<open>
  A tap or a press, not both. When the push timer, possibly a press timer, and then the release
  timer expire, the tap callback is called on release exactly when no press callback was; a timer
  that finds the level back where it was, a glitch, does nothing at all.
\<close>

theorem button_tap_or_press:
  assumes "down = active_level b" and "up \<noteq> active_level b"
  shows "bd_calls (button_tap_rls_cb up (button_tap_push_cb down b)) =
      bd_calls b @ called (tap_psh_cb b) @ called (tap_short_cb b) @ called (tap_rls_cb b) \<and>
    bd_calls (button_tap_rls_cb up (button_press_cb c down (button_tap_push_cb down b))) =
      bd_calls b @ called (tap_psh_cb b) @ called c @ called (tap_rls_cb b) \<and>
    bd_state (button_tap_rls_cb up b) = BUTTON_STATE_IDLE \<and>
    button_tap_push_cb up b = b \<and> button_press_cb c up b = b \<and> button_tap_rls_cb down b = b"
  using assms by (simp add: button_tap_rls_cb_def button_tap_push_cb_def button_press_cb_def call_cb_calls Let_def)

theorem button_tap_or_press_witness:
  "\<exists>b. button_dev_init True 36 1 0 = Some b \<and> button_tap_push_cb 1 b = b \<and> bd_calls (button_tap_rls_cb 1 (button_tap_push_cb 0 b)) = []"
  using button_tap_or_press [of 0 "the (button_dev_init True 36 1 0)" 1]
  by (simp add: button_dev_init_def no_cb_def called_def)

end
