(* ===== verification/Touch_Manager.thy ===== *)
theory Touch_Manager
  imports Adc_Button Gpio_Button
begin

text \<open>
  From buttons to notifications, \<open>components/DeviceController/TouchManager/TouchManager.c\<close>: the callbacks of
  the touch pads, of the GPIO buttons and of the resistor ladder queue messages, and a task turns each
  message into the notification of a key.

  The queue holds eight messages and the senders do not wait, so a message to a full queue is lost.
  The build is that of \<open>sdkconfig\<close>: \<open>IDF_3_0\<close>, the LyraT board with the record button on GPIO 36 and the
  mode button on GPIO 39, no Turing service. The notifications are collected in \<open>tm_notified\<close>.
\<close>

section \<open>Messages\<close>

datatype touchpad_event = TOUCHPAD_EVENT_PUSH | TOUCHPAD_EVENT_RELEASE | TOUCHPAD_EVENT_TAP | TOUCHPAD_EVENT_LONG_PRESS

record touchpad_msg =
  tp_num :: nat
  tp_event :: touchpad_event

datatype DeviceNotifyTouchMsg =
    DEVICE_NOTIFY_KEY_UNDEFINED | DEVICE_NOTIFY_KEY_VOL_UP | DEVICE_NOTIFY_KEY_PREV | DEVICE_NOTIFY_KEY_VOL_DOWN
  | DEVICE_NOTIFY_KEY_NEXT | DEVICE_NOTIFY_KEY_WIFI_SET | DEVICE_NOTIFY_KEY_PLAY | DEVICE_NOTIFY_KEY_REC
  | DEVICE_NOTIFY_KEY_REC_QUIT | DEVICE_NOTIFY_KEY_MODE | DEVICE_NOTIFY_KEY_BT_WIFI_SWITCH
  | DEVICE_NOTIFY_KEY_AIWIFI_WECHAT_SWITCH

abbreviation (input) GPIO_REC :: nat where "GPIO_REC \<equiv> 36"
abbreviation (input) GPIO_MODE :: nat where "GPIO_MODE \<equiv> 39"
abbreviation (input) TOUCH_EVT_QUEUE_LEN :: nat where "TOUCH_EVT_QUEUE_LEN \<equiv> 8"

record touch_manager =
  gpioPadMsg :: touchpad_msg
  AdcBugFixRec :: bool
  AdcBugFixMode :: bool
  TouchPadMsg :: touchpad_msg
  xQueueTouch :: "touchpad_msg list"
  tm_notified :: "DeviceNotifyTouchMsg list"

definition touch_manager0 :: touch_manager where
  "touch_manager0 = \<lparr>gpioPadMsg = \<lparr>tp_num = 0, tp_event = TOUCHPAD_EVENT_PUSH\<rparr>, AdcBugFixRec = False,
     AdcBugFixMode = False, TouchPadMsg = \<lparr>tp_num = 0, tp_event = TOUCHPAD_EVENT_PUSH\<rparr>, xQueueTouch = [], tm_notified = []\<rparr>"

definition queue_send :: "touchpad_msg \<Rightarrow> touch_manager \<Rightarrow> touch_manager" where
  "queue_send msg m =
     (if length (xQueueTouch m) < TOUCH_EVT_QUEUE_LEN then m\<lparr>xQueueTouch := xQueueTouch m @ [msg]\<rparr> else m)"

section \<open>The task\<close>

text \<open>Touch pads 4, 7, 8 and 9, then the two GPIO buttons.\<close>

definition touch_notification :: "nat \<Rightarrow> touchpad_event \<Rightarrow> DeviceNotifyTouchMsg" where
  "touch_notification num ev =
     (if num = 9 then (if ev = TOUCHPAD_EVENT_TAP then DEVICE_NOTIFY_KEY_UNDEFINED
        else if ev = TOUCHPAD_EVENT_LONG_PRESS then DEVICE_NOTIFY_KEY_WIFI_SET else DEVICE_NOTIFY_KEY_UNDEFINED)
      else if num = 7 then (if ev = TOUCHPAD_EVENT_TAP then DEVICE_NOTIFY_KEY_VOL_UP
        else if ev = TOUCHPAD_EVENT_LONG_PRESS then DEVICE_NOTIFY_KEY_PREV else DEVICE_NOTIFY_KEY_UNDEFINED)
      else if num = 8 then (if ev = TOUCHPAD_EVENT_TAP then DEVICE_NOTIFY_KEY_PLAY else DEVICE_NOTIFY_KEY_UNDEFINED)
      else if num = 4 then (if ev = TOUCHPAD_EVENT_TAP then DEVICE_NOTIFY_KEY_VOL_DOWN
        else if ev = TOUCHPAD_EVENT_LONG_PRESS then DEVICE_NOTIFY_KEY_NEXT else DEVICE_NOTIFY_KEY_UNDEFINED)
      else if num = GPIO_REC then (if ev = TOUCHPAD_EVENT_TAP then DEVICE_NOTIFY_KEY_REC
        else if ev = TOUCHPAD_EVENT_LONG_PRESS then DEVICE_NOTIFY_KEY_REC_QUIT else DEVICE_NOTIFY_KEY_UNDEFINED)
      else if num = GPIO_MODE then (if ev = TOUCHPAD_EVENT_TAP then DEVICE_NOTIFY_KEY_MODE
        else if ev = TOUCHPAD_EVENT_LONG_PRESS then DEVICE_NOTIFY_KEY_BT_WIFI_SWITCH else DEVICE_NOTIFY_KEY_UNDEFINED)
      else DEVICE_NOTIFY_KEY_UNDEFINED)"

definition ProcessTouchEvent :: "touchpad_msg \<Rightarrow> touch_manager \<Rightarrow> touch_manager" where
  "ProcessTouchEvent recv_value m =
     (let msg = touch_notification (tp_num recv_value) (tp_event recv_value) in
      if msg \<noteq> DEVICE_NOTIFY_KEY_UNDEFINED then m\<lparr>tm_notified := tm_notified m @ [msg]\<rparr> else m)"

text \<open>One pass of the loop of \<open>TouchManagerEvtTask\<close>; with an empty queue the task blocks.\<close>

definition TouchManagerEvtTask_pass :: "touch_manager \<Rightarrow> touch_manager" where
  "TouchManagerEvtTask_pass m =
     (case xQueueTouch m of
        [] \<Rightarrow> m
      | msg # rest \<Rightarrow> ProcessTouchEvent msg (m\<lparr>xQueueTouch := rest\<rparr>))"

section \<open>The callbacks\<close>

definition send_gpio :: "nat \<Rightarrow> touchpad_event \<Rightarrow> touch_manager \<Rightarrow> touch_manager" where
  "send_gpio num ev m =
     (let msg = \<lparr>tp_num = num, tp_event = ev\<rparr> in queue_send msg (m\<lparr>gpioPadMsg := msg\<rparr>))"

definition GpioRecPushCb :: "touch_manager \<Rightarrow> touch_manager" where
  "GpioRecPushCb m = (send_gpio GPIO_REC TOUCHPAD_EVENT_TAP m)\<lparr>AdcBugFixRec := True\<rparr>"

definition GpioRecReleaseCb :: "touch_manager \<Rightarrow> touch_manager" where
  "GpioRecReleaseCb m =
     (let msg = \<lparr>tp_num = GPIO_REC, tp_event = TOUCHPAD_EVENT_LONG_PRESS\<rparr>; m1 = m\<lparr>gpioPadMsg := msg\<rparr> in
      if AdcBugFixRec m1 then queue_send msg (m1\<lparr>AdcBugFixRec := False\<rparr>) else m1)"

definition GpioModeTapCb :: "touch_manager \<Rightarrow> touch_manager" where
  "GpioModeTapCb m = send_gpio GPIO_MODE TOUCHPAD_EVENT_TAP m"

definition GpioModePushCb :: "touch_manager \<Rightarrow> touch_manager" where
  "GpioModePushCb m = m\<lparr>AdcBugFixMode := True\<rparr>"

definition GpioModeReleaseCb :: "touch_manager \<Rightarrow> touch_manager" where
  "GpioModeReleaseCb m = m"

definition GpioModePressCb :: "touch_manager \<Rightarrow> touch_manager" where
  "GpioModePressCb m =
     (let msg = \<lparr>tp_num = GPIO_MODE, tp_event = TOUCHPAD_EVENT_LONG_PRESS\<rparr>; m1 = m\<lparr>gpioPadMsg := msg\<rparr> in
      if AdcBugFixMode m1 then queue_send msg (m1\<lparr>AdcBugFixMode := False\<rparr>) else m1)"

definition gpiosSetWifiCb :: "touch_manager \<Rightarrow> touch_manager" where
  "gpiosSetWifiCb m = send_gpio 9 TOUCHPAD_EVENT_LONG_PRESS m"

text \<open>The callback of the resistor ladder.\<close>

definition btn_callback :: "int \<Rightarrow> BtnState \<Rightarrow> touch_manager \<Rightarrow> touch_manager" where
  "btn_callback key state m =
     (if key = 0 then (if state = BTN_STATE_CLICK then m
        else if state = BTN_STATE_PRESS then send_gpio 9 TOUCHPAD_EVENT_LONG_PRESS m else m)
      else if key = 1 then (if state = BTN_STATE_CLICK then send_gpio 8 TOUCHPAD_EVENT_TAP m else m)
      else if key = 2 then (if state = BTN_STATE_CLICK then send_gpio GPIO_REC TOUCHPAD_EVENT_TAP m
        else if state = BTN_STATE_RELEASE then send_gpio GPIO_REC TOUCHPAD_EVENT_LONG_PRESS m else m)
      else if key = 3 then (if state = BTN_STATE_CLICK then send_gpio GPIO_MODE TOUCHPAD_EVENT_TAP m
        else if state = BTN_STATE_PRESS then send_gpio GPIO_MODE TOUCHPAD_EVENT_LONG_PRESS m else m)
      else if key = 4 then (if state = BTN_STATE_CLICK then send_gpio 4 TOUCHPAD_EVENT_TAP m
        else if state = BTN_STATE_PRESS then send_gpio 4 TOUCHPAD_EVENT_LONG_PRESS m else m)
      else if key = 5 then (if state = BTN_STATE_CLICK then send_gpio 7 TOUCHPAD_EVENT_TAP m
        else if state = BTN_STATE_PRESS then send_gpio 7 TOUCHPAD_EVENT_LONG_PRESS m else m)
      else m)"

text \<open>The callbacks of touch pad \<open>num\<close>.\<close>

definition touchpad_cb :: "touchpad_event \<Rightarrow> nat \<Rightarrow> touch_manager \<Rightarrow> touch_manager" where
  "touchpad_cb ev num m = (let msg = \<lparr>tp_num = num, tp_event = ev\<rparr> in queue_send msg (m\<lparr>TouchPadMsg := msg\<rparr>))"

definition touchpad_push_cb :: "nat \<Rightarrow> touch_manager \<Rightarrow> touch_manager" where
  "touchpad_push_cb num m = touchpad_cb TOUCHPAD_EVENT_PUSH num m"

definition touchpad_release_cb :: "nat \<Rightarrow> touch_manager \<Rightarrow> touch_manager" where
  "touchpad_release_cb num m = touchpad_cb TOUCHPAD_EVENT_RELEASE num m"

definition touchpad_tap_cb :: "nat \<Rightarrow> touch_manager \<Rightarrow> touch_manager" where
  "touchpad_tap_cb num m = touchpad_cb TOUCHPAD_EVENT_TAP num m"

definition touchpad_long_press_cb :: "nat \<Rightarrow> touch_manager \<Rightarrow> touch_manager" where
  "touchpad_long_press_cb num m = touchpad_cb TOUCHPAD_EVENT_LONG_PRESS num m"

section \<open>The GPIO buttons as \<open>TouchManagerActive\<close> sets them up\<close>

text \<open>The functions are numbered 0 to 5 in the order below.\<close>

fun run_gpio_cb :: "nat \<times> nat option \<Rightarrow> touch_manager \<Rightarrow> touch_manager" where
  "run_gpio_cb (f, _) m =
     (if f = 0 then GpioRecPushCb m else if f = 1 then GpioRecReleaseCb m else if f = 2 then GpioModeTapCb m
      else if f = 3 then GpioModePushCb m else if f = 4 then GpioModeReleaseCb m else GpioModePressCb m)"

definition btnRec :: "button_dev option" where
  "btnRec =
     do { b \<leftarrow> button_dev_init True GPIO_REC 0 0;
          b1 \<leftarrow> button_dev_add_tap_cb True BUTTON_PUSH_CB (Some 0) (Some 0) 100 b;
          button_dev_add_tap_cb True BUTTON_RELEASE_CB (Some 1) (Some 0) 100 b1 }"

definition btnMode :: "button_dev option" where
  "btnMode =
     do { b \<leftarrow> button_dev_init True GPIO_MODE 1 0;
          b1 \<leftarrow> button_dev_add_tap_cb True BUTTON_TAP_CB (Some 2) (Some 0) 100 b;
          b2 \<leftarrow> button_dev_add_tap_cb True BUTTON_PUSH_CB (Some 3) (Some 0) 100 b1;
          b3 \<leftarrow> button_dev_add_tap_cb True BUTTON_RELEASE_CB (Some 4) (Some 0) 100 b2;
          button_dev_add_press_cb True 0 (Some 5) None 2000 b3 }"

section \<open>From a key to its notification\<close>

text \<open>The task serves the whole queue.\<close>

definition drained :: "touch_manager \<Rightarrow> touch_manager" where
  "drained m = (TouchManagerEvtTask_pass ^^ length (xQueueTouch m)) m"

definition after_calls :: "(int \<times> BtnState) list \<Rightarrow> touch_manager \<Rightarrow> touch_manager" where
  "after_calls cs m = fold (\<lambda>(i, st). btn_callback i st) cs m"

fun click_notifies :: "nat \<Rightarrow> DeviceNotifyTouchMsg list" where
  "click_notifies k =
     (if k = 1 then [DEVICE_NOTIFY_KEY_PLAY] else if k = 2 then [DEVICE_NOTIFY_KEY_REC, DEVICE_NOTIFY_KEY_REC_QUIT]
      else if k = 3 then [DEVICE_NOTIFY_KEY_MODE] else if k = 4 then [DEVICE_NOTIFY_KEY_VOL_DOWN]
      else if k = 5 then [DEVICE_NOTIFY_KEY_VOL_UP] else [])"

fun press_notifies :: "nat \<Rightarrow> DeviceNotifyTouchMsg list" where
  "press_notifies k =
     (if k = 0 then [DEVICE_NOTIFY_KEY_WIFI_SET] else if k = 3 then [DEVICE_NOTIFY_KEY_BT_WIFI_SWITCH]
      else if k = 4 then [DEVICE_NOTIFY_KEY_NEXT] else if k = 5 then [DEVICE_NOTIFY_KEY_PREV] else [])"

lemmas touch_defs = after_calls_def drained_def btn_callback_def send_gpio_def queue_send_def
  TouchManagerEvtTask_pass_def ProcessTouchEvent_def touch_notification_def Let_def eval_nat_numeral

lemma key_lt_6: "k < 6 \<Longrightarrow> k = 0 \<or> k = 1 \<or> k = 2 \<or> k = 3 \<or> k = 4 \<or> k = (5 :: nat)"
  by arith

lemma clicked_notifies:
  assumes "k < 6" "xQueueTouch m = []"
  shows "tm_notified (drained (after_calls [(int k, BTN_STATE_CLICK), (int k, BTN_STATE_RELEASE)] m)) = tm_notified m @ click_notifies k"
  using key_lt_6 [OF assms(1)] by (elim disjE) (simp_all add: touch_defs assms(2))

lemma pressed_notifies:
  assumes "k < 6" "k \<noteq> 2" "xQueueTouch m = []"
  shows "tm_notified (drained (after_calls [(int k, BTN_STATE_PRESS), (int k, BTN_STATE_RELEASE)] m)) = tm_notified m @ press_notifies k"
  using key_lt_6 [OF assms(1)] assms(2) by (elim disjE) (simp_all add: touch_defs assms(3))

text \<open>
  A key is one notification. A key of the resistor ladder that is touched, held for up to six
  expiries of the press timer and let go makes the controller hear the key's click notifications, no
  more and no less; held until the long press, those of its long press. The whole path is
  covered: the filter of the converter, the button task, its timers, the queue and the task that
  serves it.
\<close>

theorem adc_key_notifies:
  assumes "key_of down = int k" "k < 6" "key_of up = -1" "1 \<le> p" "p \<le> 6" and "xQueueTouch m = []"
  shows "(\<exists>s. adc_run (Poll down # replicate p (Press_Expires down) @ [Poll up, Press_Expires up, Release_Expires])
        (adc_btn_init True) = Some s \<and>
      tm_notified (drained (after_calls (btn_calls s) m)) = tm_notified m @ click_notifies k) \<and>
    (k \<noteq> 2 \<longrightarrow> (\<exists>s. adc_run (Poll down # replicate 7 (Press_Expires down) @ [Long_Expires down, Poll up, Release_Expires])
        (adc_btn_init True) = Some s \<and>
      tm_notified (drained (after_calls (btn_calls s) m)) = tm_notified m @ press_notifies k))"
proof -
  have r: "adc_btn_init True = ready []" by (simp add: ready_def adc_btn_init_def resetBtn_def)
  have c: "btn_calls (ready cs) = cs" for cs by (simp add: ready_def)
  note run = click_and_press [OF assms(1-3), of p "[]"]
  show ?thesis
    unfolding r using run assms(2,4-6) clicked_notifies [OF assms(2,6)] pressed_notifies [OF assms(2) _ assms(6)]
    by (simp add: c del: click_notifies.simps press_notifies.simps)
qed

theorem adc_key_notifies_witness:
  "\<exists>s. adc_run [Poll (\<lambda>_. 1000), Press_Expires (\<lambda>_. 1000), Poll (\<lambda>_. 0), Press_Expires (\<lambda>_. 0), Release_Expires]
      (adc_btn_init True) = Some s \<and> tm_notified (drained (after_calls (btn_calls s) touch_manager0)) = [DEVICE_NOTIFY_KEY_PLAY]"
proof -
  have "key_of (\<lambda>_. 1000) = int 1" "key_of (\<lambda>_. 0) = -1" by code_simp+
  then show ?thesis
    using adc_key_notifies [of "\<lambda>_. 1000" 1 "\<lambda>_. 0" 1 touch_manager0] by (simp add: touch_manager0_def)
qed

text \<open>The mode button on a GPIO pin: a tap changes the mode, a long press switches between Bluetooth and Wi-Fi.\<close>

definition button_run :: "(nat \<times> nat) option list \<Rightarrow> button_dev \<Rightarrow> button_dev option" where
  "button_run evs b = fold (\<lambda>e ob. do { b1 \<leftarrow> ob; case e of None \<Rightarrow> button_gpio_isr_handler b1
                                        | Some (h, level) \<Rightarrow> timer_expires h level b1 }) evs (Some b)"

lemmas mode_button_defs =
  btnMode_def button_dev_init_def button_dev_add_tap_cb_def button_dev_add_press_cb_def create_tmr_def
  no_cb_def button_free_tmr_def Let_def rd_def button_run_def button_gpio_isr_handler_def timer_reset_def
  timer_expires_def button_tap_push_cb_def button_tap_rls_cb_def button_press_cb_def call_cb_def
  touch_manager0_def drained_def GpioModeTapCb_def GpioModePressCb_def GpioModePushCb_def GpioModeReleaseCb_def
  send_gpio_def queue_send_def TouchManagerEvtTask_pass_def ProcessTouchEvent_def touch_notification_def numeral_2_eq_2

lemma mode_button_tap:
  "\<exists>b s. btnMode = Some b \<and> button_run [None, Some (0, 0), Some (1, 0), None, Some (0, 1), Some (1, 1), Some (2, 1)] b = Some s \<and>
     tm_notified (drained (fold run_gpio_cb (bd_calls s) touch_manager0)) = [DEVICE_NOTIFY_KEY_MODE]"
  by (simp add: mode_button_defs)

lemma mode_button_press:
  "\<exists>b s. btnMode = Some b \<and> button_run [None, Some (0, 0), Some (1, 0), Some (2, 0), None, Some (0, 1), Some (1, 1), Some (2, 1)] b = Some s \<and>
     tm_notified (drained (fold run_gpio_cb (bd_calls s) touch_manager0)) = [DEVICE_NOTIFY_KEY_BT_WIFI_SWITCH]"
  by (simp add: mode_button_defs)

end
