(* ===== verification/Dd_Cloud.thy ===== *)
theory Dd_Cloud
  imports Dd_Http Touch_Manager
begin

text \<open>
  The recording service \<open>main/dd_cloud_service.c\<close>: the record key starts the recorder engine, the
  engine wakes the task, and the task collects what was said and posts it.

  The recorder engine, the file system and the network are outside. What \<open>rec_engine_data_read\<close>
  returns is a list: \<open>Got\<close> a block of \<open>REC_ONE_BLOCK_SIZE\<close> bytes, or \<open>Ended\<close> for the values 0 and -1;
  \<open>can_open\<close> says whether \<open>fopen\<close> succeeds. The recordings handed to \<open>ddcloud_http_data_post\<close> and the
  starts and stops of the engine are collected. \<open>None\<close> is undefined behaviour; \<open>fclose\<close> of the null
  pointer is one.
\<close>

abbreviation (input) REC_ONE_BLOCK_SIZE :: nat where "REC_ONE_BLOCK_SIZE \<equiv> 2880"
abbreviation (input) MIC_1S_BUFFSIZE :: nat where "MIC_1S_BUFFSIZE \<equiv> 16000 * 2"
abbreviation (input) MIC_MAX_SAVE_TIME :: nat where "MIC_MAX_SAVE_TIME \<equiv> 10"
abbreviation (input) MIC_SAVE_BUFFER_SIZE :: nat where "MIC_SAVE_BUFFER_SIZE \<equiv> MIC_1S_BUFFSIZE * MIC_MAX_SAVE_TIME"

section \<open>State\<close>

datatype ddcloud_type = DD_CMD_UNKNOWN | DD_CMD_CONNECTED | DD_CMD_START | DD_CMD_STOP | DD_CMD_QUIT | DD_CMD_WAKEUP

datatype engine_read = Got "byte list" | Ended

datatype engine_call = Trigger_Start | Trigger_Stop

record ddcloud =
  dc_queue :: "ddcloud_type list"
  dc_connected :: bool
  mic_save_buffer :: "byte list"
  mic_save_buffer_size :: nat
  dc_file :: bool
  dc_filecnt :: nat
  dc_sendcnt :: nat
  dc_posted :: "byte list list"
  dc_engine :: "engine_call list"

text \<open>The task as it enters its loop; the service's queue holds five messages.\<close>

definition ddcloud0 :: "byte list \<Rightarrow> ddcloud" where
  "ddcloud0 fresh =
     \<lparr>dc_queue = [], dc_connected = False, mic_save_buffer = fresh, mic_save_buffer_size = 0, dc_file = False,
      dc_filecnt = 0, dc_sendcnt = 0, dc_posted = [], dc_engine = []\<rparr>"

definition zero_buffer :: "ddcloud \<Rightarrow> ddcloud" where
  "zero_buffer s = s\<lparr>mic_save_buffer := replicate MIC_SAVE_BUFFER_SIZE 0\<rparr>"

section \<open>The recording\<close>

text \<open>A block arrives: the file is opened if needed, the block is saved, and written to the file.\<close>

definition open_debug_file :: "bool \<Rightarrow> ddcloud \<Rightarrow> ddcloud" where
  "open_debug_file can_open s =
     (if dc_file s then s else s\<lparr>dc_sendcnt := 0, dc_filecnt := dc_filecnt s + 1, dc_file := can_open\<rparr>)"

definition save_block :: "byte list \<Rightarrow> ddcloud \<Rightarrow> ddcloud option" where
  "save_block voiceData s =
     (if mic_save_buffer_size s + REC_ONE_BLOCK_SIZE \<le> MIC_SAVE_BUFFER_SIZE
      then (let n = mic_save_buffer_size s + REC_ONE_BLOCK_SIZE in
            do { b \<leftarrow> blit (mic_save_buffer s) n voiceData;
                 Some (s\<lparr>mic_save_buffer := b, mic_save_buffer_size := n\<rparr>) })
      else Some s)"

text \<open>The end of a recording: what was saved is posted if it is more than half a second.\<close>

definition end_recording :: "ddcloud \<Rightarrow> ddcloud option" where
  "end_recording s =
     (if \<not> dc_file s then None
      else (let s1 = s\<lparr>dc_file := False\<rparr> in
            do { s2 \<leftarrow> (if mic_save_buffer_size s1 > MIC_1S_BUFFSIZE div 2
                        then (if mic_save_buffer_size s1 \<le> length (mic_save_buffer s1)
                              then Some (s1\<lparr>dc_posted := dc_posted s1 @ [take (mic_save_buffer_size s1) (mic_save_buffer s1)]\<rparr>)
                              else None)
                        else Some s1);
                 Some (zero_buffer (s2\<lparr>mic_save_buffer_size := 0\<rparr>)) }))"

text \<open>The loop that serves one wake-up; it ends with the engine, or when no file can be opened.\<close>

fun record_loop :: "bool \<Rightarrow> engine_read list \<Rightarrow> ddcloud \<Rightarrow> ddcloud option" where
  "record_loop can_open [] s = end_recording s"
| "record_loop can_open (Ended # rs) s = end_recording s"
| "record_loop can_open (Got d # rs) s =
     (let s1 = open_debug_file can_open s in
      if \<not> dc_file s1 then Some s1
      else do { s2 \<leftarrow> save_block d s1; record_loop can_open rs s2 })"

definition ddcloud_task_pass :: "bool \<Rightarrow> engine_read list \<Rightarrow> ddcloud \<Rightarrow> ddcloud option" where
  "ddcloud_task_pass can_open reads s =
     (case dc_queue s of
        [] \<Rightarrow> Some s
      | m # q \<Rightarrow> if m = DD_CMD_WAKEUP then record_loop can_open reads (s\<lparr>dc_queue := q\<rparr>) else Some (s\<lparr>dc_queue := q\<rparr>))"

section \<open>Notifications and callbacks\<close>

definition ddOSEvtSend :: "ddcloud_type \<Rightarrow> bool \<Rightarrow> ddcloud \<Rightarrow> ddcloud" where
  "ddOSEvtSend type front s =
     (if length (dc_queue s) < 5
      then s\<lparr>dc_queue := (if front then type # dc_queue s else dc_queue s @ [type])\<rparr> else s)"

definition ddcloud_key :: "DeviceNotifyTouchMsg \<Rightarrow> ddcloud \<Rightarrow> ddcloud" where
  "ddcloud_key msg s =
     (case msg of
        DEVICE_NOTIFY_KEY_REC \<Rightarrow> s\<lparr>dc_engine := dc_engine s @ [Trigger_Start]\<rparr>
      | DEVICE_NOTIFY_KEY_REC_QUIT \<Rightarrow> s\<lparr>dc_engine := dc_engine s @ [Trigger_Stop]\<rparr>
      | _ \<Rightarrow> s)"

definition ddcloud_got_ip :: "ddcloud \<Rightarrow> ddcloud" where
  "ddcloud_got_ip s = s\<lparr>dc_connected := True\<rparr>"

datatype rec_event_type =
    REC_EVENT_WAKEUP_START | REC_EVENT_WAKEUP_END | REC_EVENT_VAD_START | REC_EVENT_VAD_STOP

definition dd_rec_engine_cb :: "rec_event_type \<Rightarrow> ddcloud \<Rightarrow> ddcloud" where
  "dd_rec_engine_cb type s = (if type = REC_EVENT_WAKEUP_START then ddOSEvtSend DD_CMD_WAKEUP False s else s)"

text \<open>
  The engine's data source: the bytes the recorder returned, with its return code, or silence when
  the microphone is muted. The result is the returned value and the buffer.
\<close>

definition dd_recorder_read :: "bool \<Rightarrow> int \<Rightarrow> byte list \<Rightarrow> byte list \<Rightarrow> nat \<Rightarrow> (int \<times> byte list) option" where
  "dd_recorder_read mic_mute_flag ret recorded data data_size =
     (if mic_mute_flag then do { d \<leftarrow> blit data 0 (replicate data_size 0); Some (int data_size, d) }
      else do { d \<leftarrow> blit data 0 (take data_size recorded);
                Some (if ret = 0 then int (min data_size (length recorded)) else -1, d) })"

section \<open>What is posted\<close>

text \<open>The state between two recordings.\<close>

definition mic_ready :: "ddcloud \<Rightarrow> bool" where
  "mic_ready s \<longleftrightarrow> mic_save_buffer s = replicate MIC_SAVE_BUFFER_SIZE 0 \<and> mic_save_buffer_size s = 0 \<and> \<not> dc_file s"

text \<open>A recording of which \<open>x\<close> was saved: it stands one block behind the beginning.\<close>

definition recording :: "byte list \<Rightarrow> ddcloud \<Rightarrow> bool" where
  "recording x s \<longleftrightarrow> (\<exists>r. length (replicate REC_ONE_BLOCK_SIZE 0 @ x) + r = MIC_SAVE_BUFFER_SIZE \<and>
     mic_save_buffer s = (replicate REC_ONE_BLOCK_SIZE 0 @ x) @ replicate r 0) \<and> mic_save_buffer_size s = length x"

lemma blit_at_end:
  "length a = n \<Longrightarrow> length d \<le> r \<Longrightarrow> blit (a @ replicate r z) n d = Some ((a @ d) @ replicate (r - length d) z)"
  by (simp add: blit_def)

lemma open_true [simp]: "dc_file (open_debug_file True s)"
  "mic_save_buffer (open_debug_file c s) = mic_save_buffer s" "mic_save_buffer_size (open_debug_file c s) = mic_save_buffer_size s"
  "dc_posted (open_debug_file c s) = dc_posted s" "dc_queue (open_debug_file c s) = dc_queue s"
  "dc_engine (open_debug_file c s) = dc_engine s"
  by (simp_all add: open_debug_file_def)

lemma save_block_recording:
  assumes "recording x s" "length d = REC_ONE_BLOCK_SIZE" "length x + 2 * REC_ONE_BLOCK_SIZE \<le> MIC_SAVE_BUFFER_SIZE"
  shows "\<exists>s'. save_block d s = Some s' \<and> recording (x @ d) s' \<and> dc_file s' = dc_file s \<and> dc_posted s' = dc_posted s \<and>
    dc_queue s' = dc_queue s \<and> dc_engine s' = dc_engine s"
proof -
  obtain r where r: "length (replicate REC_ONE_BLOCK_SIZE (0 :: byte) @ x) + r = MIC_SAVE_BUFFER_SIZE"
      "mic_save_buffer s = (replicate REC_ONE_BLOCK_SIZE 0 @ x) @ replicate r 0"
    and n: "mic_save_buffer_size s = length x"
    using assms(1) by (auto simp: recording_def)
  let ?n = "length x + REC_ONE_BLOCK_SIZE"
  let ?a = "replicate REC_ONE_BLOCK_SIZE (0 :: byte) @ x"
  have b: "blit (mic_save_buffer s) ?n d = Some ((?a @ d) @ replicate (r - REC_ONE_BLOCK_SIZE) 0)"
    unfolding r(2) assms(2) [symmetric] by (rule blit_at_end) (use r(1) assms(2,3) in simp_all)
  let ?s = "s\<lparr>mic_save_buffer := (?a @ d) @ replicate (r - REC_ONE_BLOCK_SIZE) 0, mic_save_buffer_size := ?n\<rparr>"
  have "save_block d s = Some ?s" using b n assms(3) by (simp add: save_block_def Let_def)
  moreover have "recording (x @ d) ?s"
    unfolding recording_def using r(1) assms(2,3) by (intro conjI exI [of _ "r - REC_ONE_BLOCK_SIZE"]) simp_all
  ultimately show ?thesis by (intro exI [of _ ?s]) simp
qed

lemma save_block_overrun:
  assumes "recording x s" "length d = REC_ONE_BLOCK_SIZE"
    and "length x + REC_ONE_BLOCK_SIZE \<le> MIC_SAVE_BUFFER_SIZE" "MIC_SAVE_BUFFER_SIZE < length x + 2 * REC_ONE_BLOCK_SIZE"
  shows "save_block d s = None"
proof -
  have "length (mic_save_buffer s) = MIC_SAVE_BUFFER_SIZE" "mic_save_buffer_size s = length x"
    using assms(1) by (auto simp: recording_def)
  then show ?thesis using assms(2-4) by (simp add: save_block_def Let_def blit_def)
qed

lemma end_recording_eq:
  assumes "recording x s" "dc_file s" "length x + REC_ONE_BLOCK_SIZE \<le> MIC_SAVE_BUFFER_SIZE"
  shows "\<exists>s'. end_recording s = Some s' \<and> mic_ready s' \<and>
    dc_posted s' = dc_posted s @ (if length x > 16000 then [take (length x) (replicate REC_ONE_BLOCK_SIZE 0 @ x)] else []) \<and>
    dc_queue s' = dc_queue s \<and> dc_engine s' = dc_engine s"
  using assms by (auto simp: end_recording_def recording_def zero_buffer_def mic_ready_def)

lemma record_blocks:
  assumes "recording x s" "dc_file s \<or> bs \<noteq> []"
    and "list_all (\<lambda>d. length d = REC_ONE_BLOCK_SIZE) bs" "length x = m * REC_ONE_BLOCK_SIZE" "m + length bs \<le> 110"
  shows "\<exists>s'. record_loop True (map Got bs @ Ended # rs) s = Some s' \<and> mic_ready s' \<and>
    dc_posted s' = dc_posted s @ (if length (x @ concat bs) > 16000
      then [take (length (x @ concat bs)) (replicate REC_ONE_BLOCK_SIZE 0 @ x @ concat bs)] else []) \<and>
    dc_queue s' = dc_queue s \<and> dc_engine s' = dc_engine s"
  using assms
proof (induction bs arbitrary: x s m)
  case Nil
  have "dc_file s" "length x + REC_ONE_BLOCK_SIZE \<le> MIC_SAVE_BUFFER_SIZE" using Nil.prems(2,4,5) by simp_all
  from end_recording_eq [OF Nil.prems(1) this] show ?case
    by (simp only: list.map append_Nil record_loop.simps concat.simps append_Nil2)
next
  case (Cons d bs)
  let ?s1 = "open_debug_file True s"
  have r1: "recording x ?s1" using Cons.prems(1) by (simp add: recording_def)
  have d: "length d = REC_ONE_BLOCK_SIZE" using Cons.prems(3) by simp
  have room: "length x + 2 * REC_ONE_BLOCK_SIZE \<le> MIC_SAVE_BUFFER_SIZE" using Cons.prems(4,5) by simp
  obtain s2 where s2: "save_block d ?s1 = Some s2" "recording (x @ d) s2" "dc_file s2" "dc_posted s2 = dc_posted s"
      "dc_queue s2 = dc_queue s" "dc_engine s2 = dc_engine s"
    using save_block_recording [OF r1 d room] by auto
  have "length (x @ d) = Suc m * REC_ONE_BLOCK_SIZE" "Suc m + length bs \<le> 110" using Cons.prems(4,5) d by simp_all
  from Cons.IH [OF s2(2) _ _ this] s2 Cons.prems(3) show ?case by (auto simp: Let_def)
qed

lemma record_overrun:
  assumes "recording x s" "list_all (\<lambda>d. length d = REC_ONE_BLOCK_SIZE) bs" "length x = m * REC_ONE_BLOCK_SIZE"
    and "m \<le> 110" "110 < m + length bs"
  shows "record_loop True (map Got bs @ Ended # rs) s = None"
  using assms
proof (induction bs arbitrary: x s m)
  case (Cons d bs)
  let ?s1 = "open_debug_file True s"
  have r1: "recording x ?s1" using Cons.prems(1) by (simp add: recording_def)
  have d: "length d = REC_ONE_BLOCK_SIZE" using Cons.prems(2) by simp
  show ?case
  proof (cases "m = 110")
    case True
    then have "save_block d ?s1 = None"
      using save_block_overrun [OF r1 d] Cons.prems(3) by simp
    then show ?thesis by (simp add: Let_def)
  next
    case False
    then have room: "length x + 2 * REC_ONE_BLOCK_SIZE \<le> MIC_SAVE_BUFFER_SIZE" using Cons.prems(3,4) by simp
    obtain s2 where s2: "save_block d ?s1 = Some s2" "recording (x @ d) s2"
      using save_block_recording [OF r1 d room] by auto
    have "length (x @ d) = Suc m * REC_ONE_BLOCK_SIZE" "Suc m \<le> 110" "110 < Suc m + length bs"
      using Cons.prems(3-5) d False by simp_all
    from Cons.IH [OF s2(2) _ this] s2(1) Cons.prems(2) show ?thesis by (simp add: Let_def)
  qed
qed simp

lemma ready_recording: "mic_ready s \<Longrightarrow> recording [] s"
  unfolding mic_ready_def recording_def
  by (intro conjI exI [of _ "MIC_SAVE_BUFFER_SIZE - REC_ONE_BLOCK_SIZE"]) (simp_all add: replicate_add [symmetric])

lemma concat_blocks: "list_all (\<lambda>d. length d = n) bs \<Longrightarrow> length (concat bs) = length bs * n"
  by (induction bs) simp_all



section \<open>The record key\<close>

definition hears :: "DeviceNotifyTouchMsg list \<Rightarrow> ddcloud \<Rightarrow> ddcloud" where
  "hears msgs s = fold ddcloud_key msgs s"

lemma hears_click:
  "hears (click_notifies k) s =
     (if k = 2 then s\<lparr>dc_engine := dc_engine s @ [Trigger_Start, Trigger_Stop]\<rparr> else s)"
  by (simp add: hears_def ddcloud_key_def)



end
