(* ===== verification/Device_Notify.thy ===== *)
theory Device_Notify
  imports Dd_Cloud
begin

text \<open>
  The device controller: \<open>DeviceController/DeviceController.c\<close>, \<open>DeviceControllerHelper.c\<close> and
  \<open>NotifyHelper.c\<close>. A manager (touch, Wi-Fi, SD card, auxiliary input, DSP) tells the controller what happened, and the
  controller tells every service.

  A notification is its type with its message; a service is a function on the state of the services,
  \<open>None\<close> in the list for a service without a handler. The state is of any type \<open>'w\<close>; the status of
  the player, which the auxiliary input changes, stands beside it.
\<close>

section \<open>Notifications\<close>

datatype DeviceNotifySDCardMsg =
    DEVICE_NOTIFY_SD_UNDEFINED | DEVICE_NOTIFY_SD_MOUNTED | DEVICE_NOTIFY_SD_UNMOUNTED | DEVICE_NOTIFY_SD_MOUNT_FAILED

datatype DeviceNotifyWifiMsg =
    DEVICE_NOTIFY_WIFI_UNDEFINED | DEVICE_NOTIFY_WIFI_GOT_IP | DEVICE_NOTIFY_WIFI_DISCONNECTED
  | DEVICE_NOTIFY_WIFI_SETTING_TIMEOUT | DEVICE_NOTIFY_WIFI_SC_DISCONNECTED | DEVICE_NOTIFY_WIFI_BLE_DISCONNECTED

datatype DeviceNotifyAuxInMsg = DEVICE_NOTIFY_AUXIN_UNDEFINED | DEVICE_NOTIFY_AUXIN_INSERTED | DEVICE_NOTIFY_AUXIN_REMOVED

datatype DeviceNotifyDspInMsg = DEVICE_NOTIFY_DSP_UNDEFINED | DEVICE_NOTIFY_DSP_WAKEUP

datatype DeviceNotification =
    DEVICE_NOTIFY_TYPE_SDCARD DeviceNotifySDCardMsg
  | DEVICE_NOTIFY_TYPE_TOUCH DeviceNotifyTouchMsg
  | DEVICE_NOTIFY_TYPE_WIFI DeviceNotifyWifiMsg
  | DEVICE_NOTIFY_TYPE_AUXIN DeviceNotifyAuxInMsg
  | DEVICE_NOTIFY_TYPE_DSP DeviceNotifyDspInMsg

datatype AudioStatus =
    AUDIO_STATUS_UNKNOWN | AUDIO_STATUS_PLAYING | AUDIO_STATUS_PAUSED | AUDIO_STATUS_FINISHED | AUDIO_STATUS_STOP
  | AUDIO_STATUS_ERROR | AUDIO_STATUS_AUX_IN

type_synonym 'w service = "(DeviceNotification \<Rightarrow> 'w \<Rightarrow> 'w) option"

section \<open>Telling the services\<close>

text \<open>The services in the order of their list, whose head is not one.\<close>

fun NotifyServices :: "'w service list \<Rightarrow> DeviceNotification \<Rightarrow> 'w \<Rightarrow> 'w" where
  "NotifyServices [] note w = w"
| "NotifyServices (None # ss) note w = NotifyServices ss note w"
| "NotifyServices (Some f # ss) note w = NotifyServices ss note (f note w)"

definition TouchpadEvtNotify :: "'w service list \<Rightarrow> DeviceNotifyTouchMsg \<Rightarrow> 'w \<Rightarrow> 'w" where
  "TouchpadEvtNotify ss msg w = NotifyServices ss (DEVICE_NOTIFY_TYPE_TOUCH msg) w"

definition DspEvtNotify :: "'w service list \<Rightarrow> DeviceNotifyDspInMsg \<Rightarrow> 'w \<Rightarrow> 'w" where
  "DspEvtNotify ss msg w = NotifyServices ss (DEVICE_NOTIFY_TYPE_DSP msg) w"

definition WifiEvtNotify :: "'w service list \<Rightarrow> DeviceNotifyWifiMsg \<Rightarrow> 'w \<Rightarrow> 'w" where
  "WifiEvtNotify ss msg w = NotifyServices ss (DEVICE_NOTIFY_TYPE_WIFI msg) w"

text \<open>The auxiliary input also changes the status of the player; the SD card only goes to the play list.\<close>

definition AuxInEvtNotify ::
  "'w service list \<Rightarrow> DeviceNotifyAuxInMsg \<Rightarrow> AudioStatus \<times> 'w \<Rightarrow> AudioStatus \<times> 'w" where
  "AuxInEvtNotify ss msg sw =
     (let st = (if msg = DEVICE_NOTIFY_AUXIN_INSERTED then AUDIO_STATUS_AUX_IN
                else if msg = DEVICE_NOTIFY_AUXIN_REMOVED then AUDIO_STATUS_PAUSED else fst sw)
      in (st, NotifyServices ss (DEVICE_NOTIFY_TYPE_AUXIN msg) (snd sw)))"

text \<open>\<open>playlist\<close> is the handler of the play list manager, if there is one.\<close>

definition SDCardEvtNotify :: "'w service \<Rightarrow> DeviceNotifySDCardMsg \<Rightarrow> 'w \<Rightarrow> 'w" where
  "SDCardEvtNotify playlist msg w =
     (case playlist of None \<Rightarrow> w | Some f \<Rightarrow> f (DEVICE_NOTIFY_TYPE_SDCARD msg) w)"

section \<open>The managers of the controller\<close>

datatype manager = Wifi_Mgr | SDCard_Mgr | Touch_Mgr | Dsp_Mgr | AuxIn_Mgr

datatype manager_call = Active manager | Smart_Config | Ble_Config | Ble_Config_Stop | Pause_Media | Resume_Media

text \<open>The managers that were enabled, and the calls made of them and of the media control.\<close>

record device_controller =
  dv_enabled :: "manager set"
  dv_calls :: "manager_call list"

definition DeviceCtrlCreate :: device_controller where
  "DeviceCtrlCreate = \<lparr>dv_enabled = {}, dv_calls = []\<rparr>"

definition call_if :: "bool \<Rightarrow> manager_call \<Rightarrow> device_controller \<Rightarrow> device_controller" where
  "call_if b c d = (if b then d\<lparr>dv_calls := dv_calls d @ [c]\<rparr> else d)"

definition ControllerEnable :: "manager \<Rightarrow> device_controller \<Rightarrow> device_controller" where
  "ControllerEnable m d = d\<lparr>dv_enabled := insert m (dv_enabled d)\<rparr>"

definition ControllerActiveManagers :: "device_controller \<Rightarrow> device_controller" where
  "ControllerActiveManagers d =
     fold (\<lambda>m. call_if (m \<in> dv_enabled d) (Active m)) [Wifi_Mgr, SDCard_Mgr, Touch_Mgr, Dsp_Mgr, AuxIn_Mgr] d"

definition ControllerSmartConfig :: "device_controller \<Rightarrow> device_controller" where
  "ControllerSmartConfig d = call_if (Wifi_Mgr \<in> dv_enabled d) Smart_Config d"

definition ControllerBleConfig :: "device_controller \<Rightarrow> device_controller" where
  "ControllerBleConfig d = call_if (Wifi_Mgr \<in> dv_enabled d) Ble_Config d"

definition ControllerBleConfigStop :: "device_controller \<Rightarrow> device_controller" where
  "ControllerBleConfigStop d = call_if (Wifi_Mgr \<in> dv_enabled d) Ble_Config_Stop d"

definition ControllerPauseMedia :: "device_controller \<Rightarrow> device_controller" where
  "ControllerPauseMedia d = call_if True Pause_Media d"

definition ControllerResumeMedia :: "device_controller \<Rightarrow> device_controller" where
  "ControllerResumeMedia d = call_if True Resume_Media d"

lemma active_managers_enabled:
  "set (dv_calls (ControllerActiveManagers d)) = set (dv_calls d) \<union> Active ` dv_enabled d"
proof -
  have "set (dv_calls (fold (\<lambda>m. call_if (m \<in> E) (Active m)) ms d)) = set (dv_calls d) \<union> Active ` (E \<inter> set ms)" for E ms d
    by (induction ms arbitrary: d) (auto simp: call_if_def)
  moreover have "m \<in> set [Wifi_Mgr, SDCard_Mgr, Touch_Mgr, Dsp_Mgr, AuxIn_Mgr]" for m
    by (cases m) simp_all
  then have "set [Wifi_Mgr, SDCard_Mgr, Touch_Mgr, Dsp_Mgr, AuxIn_Mgr] = UNIV" by blast
  ultimately show ?thesis unfolding ControllerActiveManagers_def by (simp only: Int_UNIV_right)
qed

section \<open>The recording service hears the controller\<close>

text \<open>\<open>ddcloudEvtNotif\<close> of \<open>main/dd_cloud_service.c\<close>.\<close>

definition ddcloudEvtNotif :: "DeviceNotification \<Rightarrow> ddcloud \<Rightarrow> ddcloud" where
  "ddcloudEvtNotif note s =
     (case note of
        DEVICE_NOTIFY_TYPE_TOUCH msg \<Rightarrow> ddcloud_key msg s
      | DEVICE_NOTIFY_TYPE_WIFI msg \<Rightarrow> if msg = DEVICE_NOTIFY_WIFI_GOT_IP then ddcloud_got_ip s else s
      | _ \<Rightarrow> s)"

text \<open>A service that works on a part of the state does not see the others.\<close>

definition on_fst :: "(DeviceNotification \<Rightarrow> 'a \<Rightarrow> 'a) \<Rightarrow> DeviceNotification \<Rightarrow> 'a \<times> 'b \<Rightarrow> 'a \<times> 'b" where
  "on_fst f note w = (f note (fst w), snd w)"

definition on_snd :: "(DeviceNotification \<Rightarrow> 'b \<Rightarrow> 'b) \<Rightarrow> DeviceNotification \<Rightarrow> 'a \<times> 'b \<Rightarrow> 'a \<times> 'b" where
  "on_snd f note w = (fst w, f note (snd w))"

lemma notify_fold: "NotifyServices ss note w = fold (\<lambda>s. case s of None \<Rightarrow> id | Some f \<Rightarrow> f note) ss w"
  by (induction ss "note" w rule: NotifyServices.induct) auto

end
