(* ===== verification/Bluetooth.thy ===== *)
theory Bluetooth
  imports Bt_Machines Device_Notify
begin

text \<open>
  The Bluetooth speaker, \<open>Bluetooth/BluetoothControlService.c\<close> and \<open>Bluetooth/bt_app_main.c\<close>: the callbacks
  of the Bluetooth stack, the timers and the keys of the device queue messages, and one task
  handles them; it drives the two machines of theory \<open>Bt_Machines\<close>.

  A message is its handler with the event and the parameter, of which \<open>bt_app_transfer_context\<close> makes a
  copy. The calls of the stack, the player, the LED and the raw stream are collected. \<open>None\<close> is a failed \<open>assert\<close> or a
  null pointer. The build is the one with \<open>IDF_3_0\<close>.
\<close>

section \<open>Messages and state\<close>

datatype a2d_connection = Conn_Connected "byte list" | Conn_Disconnected bool | Conn_Other

datatype a2d_audio_state = ESP_A2D_AUDIO_STATE_STARTED | ESP_A2D_AUDIO_STATE_STOPPED | Audio_Suspended

text \<open>A connection comes with the address of the peer, a loss with whether it was abnormal; the configuration of
  the audio stream with whether it is SBC and with its first octet.\<close>

datatype a2d_event =
    ESP_A2D_CONNECTION_STATE_EVT a2d_connection
  | ESP_A2D_AUDIO_STATE_EVT a2d_audio_state
  | ESP_A2D_AUDIO_CFG_EVT bool byte

datatype rc_event =
    RC_CONNECTION_STATE bool
  | RC_PASSTHROUGH_RSP byte u32 byte
  | RC_KEY_STATE_CHG u32 byte
  | RC_PT_RSP_TO
  | RC_REMOTE_FEATURES

datatype bt_msg =
    Msg_Stack_On
  | Msg_A2d a2d_event
  | Msg_Rc rc_event
  | Msg_Rec_Alarm

datatype bt_call =
    Led_Connect_Ok
  | Led_Disconnect
  | Tone_Success
  | Tone_Reconnect
  | Src_Bt
  | Src_Null
  | Raw_Start
  | Raw_Stop
  | Decoder_Setup int
  | Sink_Connect "byte list"
  | Stack_Set_Up

abbreviation (input) BT_APP_TASK_QUE_LEN :: nat where "BT_APP_TASK_QUE_LEN \<equiv> 10"
abbreviation (input) ESP_BD_ADDR_LEN :: nat where "ESP_BD_ADDR_LEN \<equiv> 6"

abbreviation (input) ESP_AVRC_PT_CMD_PLAY :: u32 where "ESP_AVRC_PT_CMD_PLAY \<equiv> 0x44"
abbreviation (input) ESP_AVRC_PT_CMD_PAUSE :: u32 where "ESP_AVRC_PT_CMD_PAUSE \<equiv> 0x46"
abbreviation (input) ESP_AVRC_PT_CMD_FORWARD :: u32 where "ESP_AVRC_PT_CMD_FORWARD \<equiv> 0x4B"
abbreviation (input) ESP_AVRC_PT_CMD_BACKWARD :: u32 where "ESP_AVRC_PT_CMD_BACKWARD \<equiv> 0x4C"

record bluetooth =
  bt_queue :: "bt_msg list"
  bt_audio_state :: a2d_audio_state
  bt_tone_stopped :: bool
  bt_raw_start :: bool
  bt_avrc_connected :: bool
  bt_tl :: byte
  bt_remote_bda :: "byte list"
  bt_rec :: a2d_rec_cb
  bt_key :: key_act_cb
  bt_play_flag :: bool
  bt_has_tone :: bool
  bt_out :: "bt_call list"

text \<open>Before the stack is on; \<open>has_tone\<close> says whether the service can play tones.\<close>

definition bluetooth0 :: "bool \<Rightarrow> bluetooth" where
  "bluetooth0 has_tone = \<lparr>bt_queue = [], bt_audio_state = ESP_A2D_AUDIO_STATE_STOPPED, bt_tone_stopped = False,
     bt_raw_start = False, bt_avrc_connected = False, bt_tl = 0, bt_remote_bda = replicate ESP_BD_ADDR_LEN 0,
     bt_rec = no_a2d_rec, bt_key = no_key_act, bt_play_flag = True, bt_has_tone = has_tone, bt_out = []\<rparr>"

definition bt_do :: "bt_call list \<Rightarrow> bluetooth \<Rightarrow> bluetooth" where
  "bt_do cs b = b\<lparr>bt_out := bt_out b @ cs\<rparr>"

section \<open>The queue of the task\<close>

definition bt_app_post_msg :: "bt_msg \<Rightarrow> bluetooth \<Rightarrow> bool \<times> bluetooth" where
  "bt_app_post_msg msg b =
     (if length (bt_queue b) < BT_APP_TASK_QUE_LEN then (True, b\<lparr>bt_queue := bt_queue b @ [msg]\<rparr>) else (False, b))"

text \<open>\<open>has_param\<close>: the message has a parameter, and \<open>alloc\<close> says whether it could be copied.\<close>

definition bt_app_transfer_context :: "bool \<Rightarrow> bool \<Rightarrow> bt_msg \<Rightarrow> bluetooth \<Rightarrow> bool \<times> bluetooth" where
  "bt_app_transfer_context alloc has_param msg b =
     (if \<not> has_param \<or> alloc then bt_app_post_msg msg b else (False, b))"

definition bt_app_a2d_sink_cb :: "bool \<Rightarrow> a2d_event \<Rightarrow> bluetooth \<Rightarrow> bluetooth" where
  "bt_app_a2d_sink_cb alloc e b = snd (bt_app_transfer_context alloc True (Msg_A2d e) b)"

definition bt_app_rc_ct_cb :: "bool \<Rightarrow> rc_event \<Rightarrow> bluetooth \<Rightarrow> bluetooth" where
  "bt_app_rc_ct_cb alloc e b = snd (bt_app_transfer_context alloc True (Msg_Rc e) b)"

text \<open>The callbacks of the two timers.\<close>

definition a2d_rec_alarm_to :: "bluetooth \<Rightarrow> bluetooth" where
  "a2d_rec_alarm_to b = snd (bt_app_transfer_context True False Msg_Rec_Alarm b)"

definition key_act_time_out :: "bool \<Rightarrow> bluetooth \<Rightarrow> bluetooth" where
  "key_act_time_out alloc b = snd (bt_app_transfer_context alloc True (Msg_Rc RC_PT_RSP_TO) b)"

section \<open>The handlers\<close>

definition bt_app_a2d_connect :: "bluetooth \<Rightarrow> bluetooth" where
  "bt_app_a2d_connect b =
     (if bt_remote_bda b = replicate ESP_BD_ADDR_LEN 0 then b else bt_do [Sink_Connect (bt_remote_bda b)] b)"

text \<open>An event for the reconnection machine, which may call \<open>bt_app_a2d_connect\<close>.\<close>

definition rec_event :: "a2d_rec_evt \<Rightarrow> bluetooth \<Rightarrow> bluetooth option" where
  "rec_event e b =
     do { r \<leftarrow> a2d_rec_sm_handler e (bt_rec b);
          let b1 = b\<lparr>bt_rec := r\<rparr>;
          Some (if Rec_Connect \<in> set (drop (length (rec_calls (bt_rec b))) (rec_calls r)) then bt_app_a2d_connect b1 else b1) }"

definition stack_on :: "bool \<Rightarrow> bluetooth \<Rightarrow> bluetooth" where
  "stack_on created b =
     bt_do [Stack_Set_Up] (b\<lparr>bt_audio_state := ESP_A2D_AUDIO_STATE_STOPPED, bt_tone_stopped := False, bt_raw_start := False,
       bt_avrc_connected := False, bt_tl := 0, bt_remote_bda := replicate ESP_BD_ADDR_LEN 0,
       bt_rec := snd (a2d_rec_sm_init created True (bt_rec b))\<rparr>)"

definition connection_event :: "a2d_connection \<Rightarrow> bluetooth \<Rightarrow> bluetooth option" where
  "connection_event st b =
     (case st of
        Conn_Connected bda \<Rightarrow>
          do { b1 \<leftarrow> rec_event A2D_REC_EVT_CONNECTED (b\<lparr>bt_remote_bda := bda\<rparr>);
               let b2 = bt_do [Led_Connect_Ok] b1;
               Some (bt_do [Src_Bt] (if bt_has_tone b2 then bt_do [Tone_Success] (b2\<lparr>bt_tone_stopped := False\<rparr>)
                 else b2\<lparr>bt_tone_stopped := True\<rparr>)) }
      | Conn_Disconnected abnormal \<Rightarrow>
          do { b1 \<leftarrow> (if abnormal then rec_event A2D_REC_EVT_DISCONNECTED b else Some b);
               let b2 = bt_do [Src_Null, Led_Disconnect] b1;
               Some (if bt_has_tone b2 then bt_do [Tone_Reconnect] (b2\<lparr>bt_tone_stopped := False\<rparr>) else b2) }
      | Conn_Other \<Rightarrow> Some b)"

definition audio_event :: "a2d_audio_state \<Rightarrow> bluetooth \<Rightarrow> bluetooth" where
  "audio_event st b =
     (if st = ESP_A2D_AUDIO_STATE_STARTED
      then if bt_tone_stopped b then bt_do [Raw_Start] b else b\<lparr>bt_raw_start := True\<rparr>
      else if st = ESP_A2D_AUDIO_STATE_STOPPED then bt_do [Raw_Stop] b else b)\<lparr>bt_audio_state := st\<rparr>"

definition sbc_sample_rate :: "byte \<Rightarrow> int" where
  "sbc_sample_rate oct0 =
     (if bit oct0 6 then 32000 else if bit oct0 5 then 44100 else if bit oct0 4 then 48000 else 16000)"

definition bt_app_handle_evt :: "a2d_event \<Rightarrow> bluetooth \<Rightarrow> bluetooth option" where
  "bt_app_handle_evt e b =
     (case e of
        ESP_A2D_CONNECTION_STATE_EVT st \<Rightarrow> connection_event st b
      | ESP_A2D_AUDIO_STATE_EVT st \<Rightarrow> Some (audio_event st b)
      | ESP_A2D_AUDIO_CFG_EVT sbc oct0 \<Rightarrow> Some (if sbc then bt_do [Decoder_Setup (sbc_sample_rate oct0)] b else b))"

definition to_key_machine :: "key_evt \<Rightarrow> byte \<Rightarrow> u32 \<Rightarrow> byte \<Rightarrow> bluetooth \<Rightarrow> bluetooth" where
  "to_key_machine e lbl key st b =
     b\<lparr>bt_key := key_act_state_machine \<lparr>kp_evt = e, kp_key_code = key, kp_key_state = st, kp_tl = lbl\<rparr> (bt_key b)\<rparr>"

definition bt_app_handle_rc_evt :: "bool \<Rightarrow> rc_event \<Rightarrow> bluetooth \<Rightarrow> bluetooth" where
  "bt_app_handle_rc_evt created e b =
     (case e of
        RC_CONNECTION_STATE connected \<Rightarrow>
          b\<lparr>bt_avrc_connected := connected,
            bt_key := (if connected then snd (key_act_sm_init created (bt_key b)) else key_act_sm_deinit (bt_key b))\<rparr>
      | RC_PASSTHROUGH_RSP lbl key st \<Rightarrow>
          if bt_avrc_connected b then to_key_machine ESP_AVRC_CT_PASSTHROUGH_RSP_EVT lbl key st b else b
      | RC_KEY_STATE_CHG key st \<Rightarrow>
          if bt_avrc_connected b
          then to_key_machine ESP_AVRC_CT_KEY_STATE_CHG_EVT (bt_tl b AND 0x0F) key st (b\<lparr>bt_tl := (bt_tl b + 2) AND 0x0F\<rparr>)
          else b
      | RC_PT_RSP_TO \<Rightarrow>
          if bt_avrc_connected b then to_key_machine ESP_AVRC_CT_PT_RSP_TO_EVT 0 0 0 b else b
      | RC_REMOTE_FEATURES \<Rightarrow> b)"

definition bt_app_handle_rec_evt :: "bluetooth \<Rightarrow> bluetooth option" where
  "bt_app_handle_rec_evt b = rec_event A2D_REC_EVT_ALARM_TO b"

definition m_tsk_que_handler :: "bool \<Rightarrow> bt_msg \<Rightarrow> bluetooth \<Rightarrow> bluetooth option" where
  "m_tsk_que_handler created msg b =
     (case msg of
        Msg_Stack_On \<Rightarrow> Some (stack_on created b)
      | Msg_A2d e \<Rightarrow> bt_app_handle_evt e b
      | Msg_Rc e \<Rightarrow> Some (bt_app_handle_rc_evt created e b)
      | Msg_Rec_Alarm \<Rightarrow> bt_app_handle_rec_evt b)"

text \<open>The player tells the service through a queue of its own, which the task also serves.\<close>

definition player_status_updated :: "AudioStatus \<Rightarrow> bool \<Rightarrow> bluetooth \<Rightarrow> bluetooth" where
  "player_status_updated status tone_mode b =
     (if (status = AUDIO_STATUS_STOP \<or> status = AUDIO_STATUS_ERROR) \<and> tone_mode
      then let b1 = b\<lparr>bt_tone_stopped := True\<rparr>
           in if bt_raw_start b1 then (bt_do [Raw_Start] b1)\<lparr>bt_raw_start := False\<rparr> else b1
      else b)"

text \<open>One pass of \<open>bt_app_task_handler\<close>: a message of the queue, or a status of the player.\<close>

definition bt_app_task_pass :: "bool \<Rightarrow> (AudioStatus \<times> bool) option \<Rightarrow> bluetooth \<Rightarrow> bluetooth option" where
  "bt_app_task_pass created player b =
     (case player of
        Some (status, tone_mode) \<Rightarrow> Some (player_status_updated status tone_mode b)
      | None \<Rightarrow>
          (case bt_queue b of
             [] \<Rightarrow> Some b
           | msg # rest \<Rightarrow> m_tsk_que_handler created msg (b\<lparr>bt_queue := rest\<rparr>)))"

section \<open>The keys of the device\<close>

definition avrcpTransfer :: "bool \<Rightarrow> u32 \<Rightarrow> bluetooth \<Rightarrow> bluetooth" where
  "avrcpTransfer alloc evt b = snd (bt_app_transfer_context alloc True (Msg_Rc (RC_KEY_STATE_CHG evt 0)) b)"

text \<open>\<open>None\<close> is the null pointer, whose type is logged before it is tested.\<close>

definition deviceEvtNotifiedToBt :: "bool \<Rightarrow> DeviceNotification option \<Rightarrow> bluetooth \<Rightarrow> bluetooth option" where
  "deviceEvtNotifiedToBt alloc event b =
     do { note \<leftarrow> event;
          Some (case note of
            DEVICE_NOTIFY_TYPE_TOUCH msg \<Rightarrow>
              if msg = DEVICE_NOTIFY_KEY_NEXT then avrcpTransfer alloc ESP_AVRC_PT_CMD_FORWARD b
              else if msg = DEVICE_NOTIFY_KEY_PREV then avrcpTransfer alloc ESP_AVRC_PT_CMD_BACKWARD b
              else if msg = DEVICE_NOTIFY_KEY_PLAY
              then (avrcpTransfer alloc (if bt_play_flag b then ESP_AVRC_PT_CMD_PLAY else ESP_AVRC_PT_CMD_PAUSE) b)
                     \<lparr>bt_play_flag := \<not> bt_play_flag b\<rparr>
              else b
          | _ \<Rightarrow> b) }"

section \<open>The task is safe\<close>

text \<open>The steps: callbacks of the stack and the timers, keys, and passes of the task, with every outcome of
  the allocations of messages. The timers can be created.\<close>

inductive bt_step :: "bluetooth \<Rightarrow> bluetooth \<Rightarrow> bool" where
  step_a2d: "bt_step b (bt_app_a2d_sink_cb alloc e b)"
| step_rc: "bt_step b (bt_app_rc_ct_cb alloc e b)"
| step_alarm: "bt_step b (a2d_rec_alarm_to b)"
| step_time_out: "bt_step b (key_act_time_out alloc b)"
| step_key: "deviceEvtNotifiedToBt alloc (Some note) b = Some b' \<Longrightarrow> bt_step b b'"
| step_pass: "bt_app_task_pass True player b = Some b' \<Longrightarrow> bt_step b b'"

definition bt_start :: "bool \<Rightarrow> bluetooth" where
  "bt_start has_tone = stack_on True (bluetooth0 has_tone)"

definition bt_ok :: "bluetooth \<Rightarrow> bool" where
  "bt_ok b \<longleftrightarrow> length (bt_queue b) \<le> BT_APP_TASK_QUE_LEN \<and> Msg_Stack_On \<notin> set (bt_queue b) \<and>
     rec_tmr (bt_rec b) \<and> key_ok (bt_key b) \<and> even (bt_tl b) \<and> bt_tl b AND 0x0F = bt_tl b"

lemma bt_ok_bt_do [simp]: "bt_ok (bt_do cs b) = bt_ok b"
  by (simp add: bt_ok_def bt_do_def)

lemma bt_ok_updates [simp]:
  "bt_ok (b\<lparr>bt_audio_state := x1\<rparr>) = bt_ok b" "bt_ok (b\<lparr>bt_tone_stopped := x2\<rparr>) = bt_ok b"
  "bt_ok (b\<lparr>bt_raw_start := x3\<rparr>) = bt_ok b" "bt_ok (b\<lparr>bt_avrc_connected := x4\<rparr>) = bt_ok b"
  "bt_ok (b\<lparr>bt_remote_bda := x5\<rparr>) = bt_ok b" "bt_ok (b\<lparr>bt_play_flag := x6\<rparr>) = bt_ok b"
  by (simp_all add: bt_ok_def)

lemma transfer_ok: "bt_ok b \<Longrightarrow> msg \<noteq> Msg_Stack_On \<Longrightarrow> bt_ok (snd (bt_app_transfer_context alloc p msg b))"
  by (auto simp: bt_app_transfer_context_def bt_app_post_msg_def bt_ok_def)

lemma rec_handler_timer: "a2d_rec_sm_handler e r = Some r' \<Longrightarrow> rec_tmr r' = rec_tmr r"
  by (auto simp: a2d_rec_sm_defs Let_def split: a2d_rec_state.splits if_splits)

lemma rec_handler_total: "rec_tmr r \<Longrightarrow> \<exists>r'. a2d_rec_sm_handler e r = Some r'"
  by (auto simp: a2d_rec_sm_defs Let_def split: a2d_rec_state.splits)

lemma rec_event_ok:
  assumes "bt_ok b"
  shows "\<exists>b'. rec_event e b = Some b' \<and> bt_ok b'"
proof -
  obtain r where r: "a2d_rec_sm_handler e (bt_rec b) = Some r"
    using rec_handler_total [of "bt_rec b" e] assms by (auto simp: bt_ok_def)
  have "bt_ok (b\<lparr>bt_rec := r\<rparr>)" using assms rec_handler_timer [OF r] by (simp add: bt_ok_def)
  then show ?thesis by (simp add: rec_event_def r Let_def bt_app_a2d_connect_def)
qed

lemma connection_event_ok:
  assumes "bt_ok b"
  shows "\<exists>b'. connection_event st b = Some b' \<and> bt_ok b'"
proof (cases st)
  case (Conn_Connected bda)
  then show ?thesis
    using rec_event_ok [of "b\<lparr>bt_remote_bda := bda\<rparr>" A2D_REC_EVT_CONNECTED] assms
    by (auto simp: connection_event_def Let_def)
next
  case (Conn_Disconnected abnormal)
  then show ?thesis
    using rec_event_ok [OF assms, of A2D_REC_EVT_DISCONNECTED] assms
    by (cases abnormal) (auto simp: connection_event_def Let_def)
next
  case Conn_Other
  then show ?thesis using assms by (simp add: connection_event_def)
qed

lemma handle_evt_ok:
  assumes "bt_ok b"
  shows "\<exists>b'. bt_app_handle_evt e b = Some b' \<and> bt_ok b'"
  using connection_event_ok [OF assms] assms
  by (cases e) (auto simp: bt_app_handle_evt_def audio_event_def)

lemma next_label: "even t \<Longrightarrow> even ((t + 2 :: byte) AND 0x0F) \<and> ((t + 2) AND 0x0F) AND 0x0F = (t + 2) AND 0x0F"
  by (auto simp: even_and_iff and.assoc)

lemma to_key_machine_ok: "bt_ok b \<Longrightarrow> bt_ok (to_key_machine e lbl key st b)"
  by (simp add: to_key_machine_def bt_ok_def key_machine_ok)

lemma handle_rc_evt_ok:
  assumes "bt_ok b"
  shows "bt_ok (bt_app_handle_rc_evt created e b)"
proof (cases e)
  case (RC_CONNECTION_STATE connected)
  then show ?thesis
    using assms by (simp add: bt_app_handle_rc_evt_def bt_ok_def key_init_ok key_deinit_ok)
next
  case (RC_KEY_STATE_CHG key st)
  have "bt_ok (b\<lparr>bt_tl := (bt_tl b + 2) AND 0x0F\<rparr>)"
    using assms next_label by (simp add: bt_ok_def)
  then show ?thesis using RC_KEY_STATE_CHG assms by (simp add: bt_app_handle_rc_evt_def to_key_machine_ok)
qed (use assms in \<open>simp_all add: bt_app_handle_rc_evt_def to_key_machine_ok\<close>)

lemma task_pass_ok:
  assumes "bt_ok b"
  shows "\<exists>b'. bt_app_task_pass True player b = Some b' \<and> bt_ok b'"
proof (cases player)
  case (Some p)
  obtain status tone_mode where "p = (status, tone_mode)" by (cases p)
  then show ?thesis using Some assms
    by (auto simp: bt_app_task_pass_def player_status_updated_def Let_def)
next
  case None
  show ?thesis
  proof (cases "bt_queue b")
    case Nil
    then show ?thesis using None assms by (simp add: bt_app_task_pass_def)
  next
    case (Cons msg rest)
    then have ok: "bt_ok (b\<lparr>bt_queue := rest\<rparr>)" and "msg \<noteq> Msg_Stack_On" using assms by (auto simp: bt_ok_def)
    then show ?thesis
      using None Cons handle_evt_ok [OF ok] handle_rc_evt_ok [OF ok, of True] rec_event_ok [OF ok]
      by (cases msg) (auto simp: bt_app_task_pass_def m_tsk_que_handler_def bt_app_handle_rec_evt_def)
  qed
qed

lemma device_key_ok: "bt_ok b \<Longrightarrow> deviceEvtNotifiedToBt alloc (Some ev) b = Some b' \<Longrightarrow> bt_ok b'"
  by (auto simp: deviceEvtNotifiedToBt_def avrcpTransfer_def transfer_ok split: DeviceNotification.splits if_splits)

lemma bt_step_ok: "bt_step b b' \<Longrightarrow> bt_ok b \<Longrightarrow> bt_ok b'"
proof (induction rule: bt_step.induct)
  case (step_key alloc ev b b')
  then show ?case by (rule device_key_ok [rotated])
next
  case (step_pass player b b')
  then show ?case using task_pass_ok [of b player] by auto
qed (simp_all add: bt_app_a2d_sink_cb_def bt_app_rc_ct_cb_def a2d_rec_alarm_to_def key_act_time_out_def transfer_ok)

lemma bt_start_ok: "bt_ok (bt_start has_tone)"
  by (simp add: bt_start_def stack_on_def bluetooth0_def bt_do_def bt_ok_def a2d_rec_sm_init_def no_a2d_rec_def no_key_ok)

lemma bt_reachable_ok: "bt_step\<^sup>*\<^sup>* (bt_start has_tone) b \<Longrightarrow> bt_ok b"
  by (induction rule: rtranclp_induct) (auto intro: bt_start_ok bt_step_ok)



section \<open>From the play key to the remote player\<close>

text \<open>Both services hear the controller; Bluetooth may fail.\<close>

definition bt_service :: "DeviceNotification \<Rightarrow> bluetooth option \<Rightarrow> bluetooth option" where
  "bt_service ev b = do { b1 \<leftarrow> b; deviceEvtNotifiedToBt True (Some ev) b1 }"

definition speaker_services :: "(ddcloud \<times> bluetooth option) service list" where
  "speaker_services = [Some (on_fst ddcloudEvtNotif), Some (on_snd bt_service)]"

definition touched :: "DeviceNotifyTouchMsg list \<Rightarrow> ddcloud \<times> bluetooth option \<Rightarrow> ddcloud \<times> bluetooth option" where
  "touched msgs w = fold (TouchpadEvtNotify speaker_services) msgs w"

text \<open>The task sends the press; the remote player answers it and then the release.\<close>

definition remote_answers :: "byte \<Rightarrow> u32 \<Rightarrow> bluetooth \<Rightarrow> bluetooth option" where
  "remote_answers lbl key b =
     do { b1 \<leftarrow> bt_app_task_pass True None b;
          b2 \<leftarrow> bt_app_task_pass True None (bt_app_rc_ct_cb True (RC_PASSTHROUGH_RSP lbl key ESP_AVRC_PT_CMD_STATE_PRESSED) b1);
          bt_app_task_pass True None
            (bt_app_rc_ct_cb True (RC_PASSTHROUGH_RSP ((lbl + 1) AND 0x0F) key ESP_AVRC_PT_CMD_STATE_RELEASED) b2) }"

definition bt_idle :: "bluetooth \<Rightarrow> bool" where
  "bt_idle b \<longleftrightarrow> bt_queue b = [] \<and> bt_avrc_connected b \<and> ka_state (bt_key b) = KEY_ACT_STATE_IDLE \<and> bt_tl b AND 0x0F = bt_tl b"

definition play_key :: "bluetooth \<Rightarrow> u32" where
  "play_key b = (if bt_play_flag b then ESP_AVRC_PT_CMD_PLAY else ESP_AVRC_PT_CMD_PAUSE)"

lemma answered_play:
  assumes "bt_idle b"
  shows "\<exists>b'. remote_answers (bt_tl b) (play_key b) ((avrcpTransfer True (play_key b) b)\<lparr>bt_play_flag := \<not> bt_play_flag b\<rparr>) = Some b' \<and>
    commands (ka_calls (bt_key b')) = commands (ka_calls (bt_key b)) @
      [(bt_tl b, play_key b, ESP_AVRC_PT_CMD_STATE_PRESSED), ((bt_tl b + 1) AND 0x0F, play_key b, ESP_AVRC_PT_CMD_STATE_RELEASED)] \<and>
    bt_idle b' \<and> bt_tl b' = (bt_tl b + 2) AND 0x0F \<and> bt_play_flag b' = (\<not> bt_play_flag b)"
  using assms
  by (simp add: remote_answers_def avrcpTransfer_def bt_app_transfer_context_def bt_app_post_msg_def bt_idle_def
      bt_app_task_pass_def m_tsk_que_handler_def bt_app_handle_rc_evt_def to_key_machine_def bt_app_rc_ct_cb_def
      key_act_defs and.assoc)

lemma touched_play:
  "touched [DEVICE_NOTIFY_KEY_PLAY] (d, Some b) =
     (d, Some ((avrcpTransfer True (play_key b) b)\<lparr>bt_play_flag := \<not> bt_play_flag b\<rparr>))"
  by (simp add: touched_def TouchpadEvtNotify_def speaker_services_def on_fst_def on_snd_def bt_service_def
      ddcloudEvtNotif_def ddcloud_key_def deviceEvtNotifiedToBt_def play_key_def)

text \<open>
  C8. The play key reaches the remote player. With a remote control connected and no key under way, touching and
  releasing the play key of the resistor ladder makes, when the player answers, exactly one press and
  one release of play or pause, and the next touch will send the other of the two; the recorder
  does not react. The path is the whole one: converter, button task, touch manager, controller,
  services, queue and task of Bluetooth, key machine.
\<close>

theorem play_key_reaches_player:
  assumes "key_of down = 1" "key_of up = -1" "1 \<le> p" "p \<le> 6" "xQueueTouch m = []" "tm_notified m = []" "bt_idle b"
  shows "\<exists>s b1 b2. adc_run (Poll down # replicate p (Press_Expires down) @ [Poll up, Press_Expires up, Release_Expires])
        (adc_btn_init True) = Some s \<and>
    touched (tm_notified (drained (after_calls (btn_calls s) m))) (d, Some b) = (d, Some b1) \<and>
    remote_answers (bt_tl b) (play_key b) b1 = Some b2 \<and>
    commands (ka_calls (bt_key b2)) = commands (ka_calls (bt_key b)) @
      [(bt_tl b, play_key b, ESP_AVRC_PT_CMD_STATE_PRESSED), ((bt_tl b + 1) AND 0x0F, play_key b, ESP_AVRC_PT_CMD_STATE_RELEASED)] \<and>
    bt_idle b2 \<and> bt_play_flag b2 = (\<not> bt_play_flag b)"
proof -
  have r: "adc_btn_init True = ready []" by (simp add: ready_def adc_btn_init_def resetBtn_def)
  have "key_of down = int 1" "(1::nat) < 6" using assms(1) by simp_all
  note run = click_and_press [THEN conjunct1, rule_format, OF this assms(2) conjI [OF assms(3,4)], of "[]"]
    and heard = clicked_notifies [OF this(2) assms(5)]
  define s where "s = ready [(int 1, BTN_STATE_CLICK), (int 1, BTN_STATE_RELEASE)]"
  have "tm_notified (drained (after_calls (btn_calls s) m)) = [DEVICE_NOTIFY_KEY_PLAY]"
    using heard assms(6) by (simp add: s_def ready_def)
  then have t: "touched (tm_notified (drained (after_calls (btn_calls s) m))) (d, Some b) =
      (d, Some ((avrcpTransfer True (play_key b) b)\<lparr>bt_play_flag := \<not> bt_play_flag b\<rparr>))"
    by (simp only: touched_play)
  from answered_play [OF assms(7)] obtain b2 where "remote_answers (bt_tl b) (play_key b)
      ((avrcpTransfer True (play_key b) b)\<lparr>bt_play_flag := \<not> bt_play_flag b\<rparr>) = Some b2"
    "commands (ka_calls (bt_key b2)) = commands (ka_calls (bt_key b)) @
      [(bt_tl b, play_key b, ESP_AVRC_PT_CMD_STATE_PRESSED), ((bt_tl b + 1) AND 0x0F, play_key b, ESP_AVRC_PT_CMD_STATE_RELEASED)]"
    "bt_idle b2" "bt_play_flag b2 = (\<not> bt_play_flag b)" by blast
  then show ?thesis using run t unfolding r s_def append_Nil by blast
qed

text \<open>The state after the stack is on and a remote control is connected.\<close>

definition bt_ready :: bluetooth where
  "bt_ready = bt_app_handle_rc_evt True (RC_CONNECTION_STATE True) (bt_start True)"

theorem play_key_reaches_player_witness:
  "\<exists>s b1 b2. adc_run [Poll (\<lambda>_. 1000), Press_Expires (\<lambda>_. 1000), Poll (\<lambda>_. 0), Press_Expires (\<lambda>_. 0), Release_Expires]
      (adc_btn_init True) = Some s \<and>
    touched (tm_notified (drained (after_calls (btn_calls s) touch_manager0))) (ddcloud0 [], Some bt_ready) = (ddcloud0 [], Some b1) \<and>
    remote_answers 0 ESP_AVRC_PT_CMD_PLAY b1 = Some b2 \<and>
    commands (ka_calls (bt_key b2)) = [(0, ESP_AVRC_PT_CMD_PLAY, 0), (1, ESP_AVRC_PT_CMD_PLAY, 1)] \<and> \<not> bt_play_flag b2"
proof -
  have k: "key_of (\<lambda>_. 1000) = 1" "key_of (\<lambda>_. 0) = -1" by code_simp+
  have q: "xQueueTouch touch_manager0 = []" "tm_notified touch_manager0 = []" by (simp_all add: touch_manager0_def)
  have b: "bt_idle bt_ready" "bt_tl bt_ready = 0" "play_key bt_ready = ESP_AVRC_PT_CMD_PLAY" "bt_play_flag bt_ready"
    "commands (ka_calls (bt_key bt_ready)) = []"
    by (simp_all add: bt_idle_def play_key_def bt_ready_def bt_start_def stack_on_def bluetooth0_def bt_do_def
        bt_app_handle_rc_evt_def key_act_sm_init_def no_key_act_def)
  show ?thesis
    using play_key_reaches_player [OF k order_refl _ q b(1), of "ddcloud0 []"] unfolding b by (simp add: b(4)) blast
qed

text \<open>
  A stream that is stopped while a tone plays is started all the same when the tone ends: the
  request that waits for the tone is not withdrawn.
\<close>

lemma stopped_stream_started:
  assumes "\<not> bt_tone_stopped b"
  shows "bt_out (player_status_updated AUDIO_STATUS_STOP True
    (audio_event ESP_A2D_AUDIO_STATE_STOPPED (audio_event ESP_A2D_AUDIO_STATE_STARTED b))) = bt_out b @ [Raw_Stop, Raw_Start]"
  using assms by (simp add: audio_event_def player_status_updated_def bt_do_def)

text \<open>A stream that starts while a tone plays is started once, when the tone ends.\<close>

lemma stream_waits_for_tone:
  assumes "\<not> bt_tone_stopped b"
  shows "bt_out (audio_event ESP_A2D_AUDIO_STATE_STARTED b) = bt_out b"
    and "bt_out (player_status_updated AUDIO_STATUS_STOP True (audio_event ESP_A2D_AUDIO_STATE_STARTED b)) = bt_out b @ [Raw_Start]"
  using assms by (simp_all add: audio_event_def player_status_updated_def bt_do_def)

text \<open>A play key that cannot be queued still flips the flag, so the next touch sends the wrong command.\<close>

lemma lost_play_key_flips:
  assumes "length (bt_queue b) = BT_APP_TASK_QUE_LEN"
  shows "deviceEvtNotifiedToBt alloc (Some (DEVICE_NOTIFY_TYPE_TOUCH DEVICE_NOTIFY_KEY_PLAY)) b = Some (b\<lparr>bt_play_flag := \<not> bt_play_flag b\<rparr>)"
  using assms by (simp add: deviceEvtNotifiedToBt_def avrcpTransfer_def bt_app_transfer_context_def bt_app_post_msg_def)

end
