(* ===== verification/Wifi_Manager.thy ===== *)
theory Wifi_Manager
  imports Device_Notify
begin

text \<open>
  The Wi-Fi manager, \<open>DeviceController/WifiManager/WifiManager.c\<close> and \<open>wifismartconfig.c\<close>, in the configuration
  of \<open>sdkconfig\<close>: smart config, no BLE. The callback of the Wi-Fi driver turns its events into messages, and a
  task turns these into notifications. A second task, which a key starts, lets a phone send the credentials.

  The driver is outside: the calls made of it are collected in order, what it reports is an event. A
  configuration of the station is a value of any type \<open>'c\<close>; \<open>dflt\<close> is the one compiled in. The queue holds
  four messages and the senders do not wait. The bits of the event group are fields. \<open>None\<close> is a failed
  \<open>ESP_ERROR_CHECK\<close> or the use of the event group before it was created.
\<close>

section \<open>State\<close>

datatype WifiState =
    WifiState_Unknow | WifiState_Config_Timeout | WifiState_Connecting | WifiState_Connected | WifiState_Disconnected
  | WifiState_ConnectFailed | WifiState_GotIp | WifiState_SC_Disconnected | WifiState_BLE_Disconnected | WifiState_BLE_Stop

datatype wifi_event =
    SYSTEM_EVENT_STA_START | SYSTEM_EVENT_STA_CONNECTED | SYSTEM_EVENT_STA_DISCONNECTED | SYSTEM_EVENT_STA_GOT_IP
  | Other_Wifi_Event

datatype 'c wifi_call =
    Wifi_Connect
  | Wifi_Disconnect
  | Wifi_Set_Config 'c
  | Led_Net_Disconnect
  | Led_Net_Ok
  | Smartconfig_Start
  | Smartconfig_Stop

text \<open>Where \<open>WifiConfigTask\<close> is: created, about to call \<open>WifiSmartConnect\<close>, or waiting for the phone.\<close>

datatype config_task = Task_Created | Task_Connect | Task_Wait

abbreviation (input) WIFI_EVT_QUEUE_LEN :: nat where "WIFI_EVT_QUEUE_LEN \<equiv> 4"

record 'c wifi =
  xQueueWifi :: "WifiState list"
  wf_last :: "wifi_event option"
  retry_wifi_times :: int
  wf_config :: 'c
  sc_group :: bool
  SC_PAIRING :: bool
  SC_DONE_EVT :: bool
  SC_STOP_REQ_EVT :: bool
  inSmartconfig :: bool
  sc_mux :: "bool option"
  SmartConfigHandle :: "config_task option"
  wf_calls :: "'c wifi_call list"
  wf_notified :: "DeviceNotifyWifiMsg list"

text \<open>\<open>sc_mux\<close> is the mutex, once it was created: whether it is free.\<close>

definition wifi0 :: "'c \<Rightarrow> 'c wifi" where
  "wifi0 stored = \<lparr>xQueueWifi = [], wf_last = None, retry_wifi_times = 5, wf_config = stored, sc_group = False,
     SC_PAIRING = False, SC_DONE_EVT = False, SC_STOP_REQ_EVT = False, inSmartconfig = False, sc_mux = None,
     SmartConfigHandle = None, wf_calls = [], wf_notified = []\<rparr>"

definition wf_do :: "'c wifi_call list \<Rightarrow> 'c wifi \<Rightarrow> 'c wifi" where
  "wf_do cs w = w\<lparr>wf_calls := wf_calls w @ cs\<rparr>"

definition wf_send :: "WifiState \<Rightarrow> 'c wifi \<Rightarrow> 'c wifi" where
  "wf_send st w = (if length (xQueueWifi w) < WIFI_EVT_QUEUE_LEN then w\<lparr>xQueueWifi := xQueueWifi w @ [st]\<rparr> else w)"

definition wf_set_config :: "'c \<Rightarrow> 'c wifi \<Rightarrow> 'c wifi" where
  "wf_set_config conf w = (wf_do [Wifi_Set_Config conf] w)\<lparr>wf_config := conf\<rparr>"

section \<open>The callback of the driver\<close>

definition sta_disconnected :: "'c \<Rightarrow> 'c wifi \<Rightarrow> 'c wifi option" where
  "sta_disconnected dflt w =
     (if \<not> sc_group w then None
      else let fresh = (wf_last w \<noteq> Some SYSTEM_EVENT_STA_DISCONNECTED);
               w1 = (if fresh then wf_do [Led_Net_Disconnect] w else w);
               pairing = SC_PAIRING w1;
               w2 = w1\<lparr>SC_PAIRING := False\<rparr>;
               w3 = (if \<not> pairing
                     then let a = (if fresh then wf_send WifiState_Disconnected w2 else w2);
                              b = wf_set_config dflt a;
                              c = b\<lparr>retry_wifi_times := retry_wifi_times b - 1\<rparr>
                          in if retry_wifi_times c \<noteq> 0 then wf_do [Wifi_Connect] c else c
                     else if fresh then wf_send WifiState_SC_Disconnected w2 else w2)
           in Some (w3\<lparr>wf_last := Some SYSTEM_EVENT_STA_DISCONNECTED\<rparr>))"

definition sta_got_ip :: "'c wifi \<Rightarrow> 'c wifi" where
  "sta_got_ip w =
     (if wf_last w \<noteq> Some SYSTEM_EVENT_STA_GOT_IP then wf_do [Led_Net_Ok] (wf_send WifiState_GotIp w) else w)
       \<lparr>wf_last := Some SYSTEM_EVENT_STA_GOT_IP, retry_wifi_times := 5\<rparr>"

definition wifiEvtHandlerCb :: "'c \<Rightarrow> wifi_event option \<Rightarrow> 'c wifi \<Rightarrow> (int \<times> 'c wifi) option" where
  "wifiEvtHandlerCb dflt evt w =
     (case evt of
        None \<Rightarrow> Some (ESP_FAIL, w)
      | Some SYSTEM_EVENT_STA_START \<Rightarrow> Some (ESP_OK, wf_send WifiState_Connecting w)
      | Some SYSTEM_EVENT_STA_CONNECTED \<Rightarrow> Some (ESP_OK, wf_send WifiState_Connected w)
      | Some SYSTEM_EVENT_STA_DISCONNECTED \<Rightarrow> do { w1 \<leftarrow> sta_disconnected dflt w; Some (ESP_OK, w1) }
      | Some SYSTEM_EVENT_STA_GOT_IP \<Rightarrow> Some (ESP_OK, sta_got_ip w)
      | Some Other_Wifi_Event \<Rightarrow> Some (ESP_OK, w))"

section \<open>Smart config\<close>

datatype 'c smartconfig_status = SC_STATUS_LINK 'c | SC_STATUS_LINK_OVER | SC_STATUS_OTHER

definition smartconfig_done :: "'c smartconfig_status \<Rightarrow> 'c wifi \<Rightarrow> 'c wifi" where
  "smartconfig_done status w =
     (case status of
        SC_STATUS_LINK conf \<Rightarrow> wf_do [Wifi_Connect] (wf_set_config conf (wf_do [Wifi_Disconnect] w))
      | SC_STATUS_LINK_OVER \<Rightarrow> w\<lparr>SC_DONE_EVT := True\<rparr>
      | SC_STATUS_OTHER \<Rightarrow> w)"

definition SmartconfigSetup :: "bool \<Rightarrow> bool \<Rightarrow> bool \<Rightarrow> bool \<Rightarrow> 'c wifi \<Rightarrow> (int \<times> 'c wifi) option" where
  "SmartconfigSetup group_ok type_ok fast_ok mux_ok w =
     (let mux = (\<lambda>w. Some (if sc_mux w = None
                  then if mux_ok then (ESP_OK, w\<lparr>sc_mux := Some True\<rparr>) else (ESP_FAIL, w\<lparr>sc_group := False\<rparr>)
                  else (ESP_OK, w)))
      in if sc_group w then mux w
         else if \<not> group_ok then Some (ESP_FAIL, w)
         else if \<not> type_ok then None
         else if \<not> fast_ok then Some (ESP_FAIL, w\<lparr>sc_group := True\<rparr>)
         else mux (w\<lparr>sc_group := True\<rparr>))"

text \<open>
  \<open>WifiSmartConnect\<close> up to the wait, with \<open>Inl\<close> the value it returns at once, and its end, for which
  there must be a bit, or the time is over (\<open>timed_out\<close>). A mutex that is taken is not given in time:
  there is only one task.
\<close>

definition smart_connect_begin :: "bool \<Rightarrow> 'c wifi \<Rightarrow> (int \<times> 'c wifi + 'c wifi) option" where
  "smart_connect_begin start_ok w =
     (if inSmartconfig w then Some (Inl (ESP_ERR_INVALID_STATE, w))
      else do { free \<leftarrow> sc_mux w;
                if \<not> free then Some (Inl (ESP_ERR_TIMEOUT, w))
                else if \<not> start_ok then None
                else Some (Inr ((wf_do [Smartconfig_Start] (w\<lparr>sc_mux := Some False, SC_STOP_REQ_EVT := False\<rparr>))
                             \<lparr>inSmartconfig := True\<rparr>)) })"

definition smart_connect_end :: "bool \<Rightarrow> 'c wifi \<Rightarrow> (int \<times> 'c wifi) option" where
  "smart_connect_end timed_out w =
     (if \<not> (SC_DONE_EVT w \<or> SC_STOP_REQ_EVT w \<or> timed_out) then None
      else let ret = (if SC_DONE_EVT w then ESP_OK else if SC_STOP_REQ_EVT w then ESP_FAIL else ESP_ERR_TIMEOUT)
           in Some (ret, (wf_do [Smartconfig_Stop] (w\<lparr>SC_DONE_EVT := False, SC_STOP_REQ_EVT := False\<rparr>))
                \<lparr>inSmartconfig := False, sc_mux := Some True, SC_PAIRING := False\<rparr>))"

section \<open>The task of smart config\<close>

text \<open>The end of the task: a time-out is reported, all other results are only logged.\<close>

definition config_task_end :: "int \<Rightarrow> 'c wifi \<Rightarrow> 'c wifi" where
  "config_task_end res w =
     (if res = ESP_ERR_TIMEOUT then wf_send WifiState_Config_Timeout w else w)\<lparr>SmartConfigHandle := None\<rparr>"

definition config_task_start :: "bool \<Rightarrow> 'c wifi \<Rightarrow> 'c wifi" where
  "config_task_start mode_sta w =
     (wf_do [Wifi_Disconnect] (w\<lparr>SC_PAIRING := True\<rparr>))\<lparr>SmartConfigHandle := (if mode_sta then Some Task_Connect else None)\<rparr>"

text \<open>One step of \<open>WifiConfigTask\<close>: up to the call, the call up to its wait, and the rest.\<close>

definition WifiConfigTask_step :: "bool \<Rightarrow> bool \<Rightarrow> 'c wifi \<Rightarrow> 'c wifi option" where
  "WifiConfigTask_step mode_sta timed_out w =
     (case SmartConfigHandle w of
        None \<Rightarrow> Some w
      | Some Task_Created \<Rightarrow> Some (config_task_start mode_sta w)
      | Some Task_Connect \<Rightarrow>
          do { r \<leftarrow> smart_connect_begin True w;
               Some (case r of Inl (res, w1) \<Rightarrow> config_task_end res w1 | Inr w1 \<Rightarrow> w1\<lparr>SmartConfigHandle := Some Task_Wait\<rparr>) }
      | Some Task_Wait \<Rightarrow>
          Some (case smart_connect_end timed_out w of None \<Rightarrow> w | Some (res, w1) \<Rightarrow> config_task_end res w1))"

text \<open>A task that is still there is deleted, wherever it is.\<close>

definition WifiSmartConfig :: "bool \<Rightarrow> 'c wifi \<Rightarrow> 'c wifi" where
  "WifiSmartConfig created w = w\<lparr>SmartConfigHandle := (if created then Some Task_Created else None)\<rparr>"

section \<open>The manager\<close>

definition wifi_message :: "WifiState \<Rightarrow> DeviceNotifyWifiMsg" where
  "wifi_message st =
     (case st of
        WifiState_GotIp \<Rightarrow> DEVICE_NOTIFY_WIFI_GOT_IP
      | WifiState_Disconnected \<Rightarrow> DEVICE_NOTIFY_WIFI_DISCONNECTED
      | WifiState_SC_Disconnected \<Rightarrow> DEVICE_NOTIFY_WIFI_SC_DISCONNECTED
      | WifiState_BLE_Disconnected \<Rightarrow> DEVICE_NOTIFY_WIFI_BLE_DISCONNECTED
      | WifiState_Config_Timeout \<Rightarrow> DEVICE_NOTIFY_WIFI_SETTING_TIMEOUT
      | _ \<Rightarrow> DEVICE_NOTIFY_WIFI_UNDEFINED)"

definition ProcessWifiEvent :: "WifiState \<Rightarrow> 'c wifi \<Rightarrow> 'c wifi" where
  "ProcessWifiEvent st w =
     (let msg = wifi_message st in
      if msg \<noteq> DEVICE_NOTIFY_WIFI_UNDEFINED then w\<lparr>wf_notified := wf_notified w @ [msg]\<rparr> else w)"

definition WifiManagerEvtTask_pass :: "'c wifi \<Rightarrow> 'c wifi" where
  "WifiManagerEvtTask_pass w =
     (case xQueueWifi w of [] \<Rightarrow> w | st # rest \<Rightarrow> ProcessWifiEvent st (w\<lparr>xQueueWifi := rest\<rparr>))"

text \<open>\<open>WifiStartUp\<close>: \<open>init_ok\<close> says whether the first calls of the driver succeed, \<open>start_ok\<close> the last ones, \<open>get_ok\<close>
  whether the stored configuration can be read, \<open>has_ssid\<close> whether it names a network.\<close>

definition WifiStartUp :: "bool \<Rightarrow> bool \<Rightarrow> bool \<Rightarrow> ('c \<Rightarrow> bool) \<Rightarrow> 'c \<Rightarrow> 'c wifi \<Rightarrow> 'c wifi option" where
  "WifiStartUp init_ok start_ok get_ok has_ssid dflt w =
     (if \<not> init_ok then None
      else if \<not> get_ok then Some w
      else let w1 = wf_set_config (if has_ssid (wf_config w) then wf_config w else dflt) w
           in if \<not> start_ok then None
              else map_option snd (SmartconfigSetup True True True True (wf_do [Wifi_Connect] w1)))"

section \<open>Losses and retries\<close>

lemmas wifi_defs = wf_do_def wf_send_def wf_set_config_def

text \<open>\<open>n\<close> losses in a row.\<close>

fun losses :: "'c \<Rightarrow> nat \<Rightarrow> 'c wifi \<Rightarrow> 'c wifi option" where
  "losses dflt 0 w = Some w"
| "losses dflt (Suc n) w = do { (_, w1) \<leftarrow> wifiEvtHandlerCb dflt (Some SYSTEM_EVENT_STA_DISCONNECTED) w; losses dflt n w1 }"

fun connects :: "'c wifi_call list \<Rightarrow> nat" where
  "connects [] = 0"
| "connects (Wifi_Connect # cs) = Suc (connects cs)"
| "connects (_ # cs) = connects cs"

lemma connects_append [simp]: "connects (xs @ ys) = connects xs + connects ys"
  by (induction xs rule: connects.induct) auto

lemma further_losses:
  assumes "sc_group w" "\<not> SC_PAIRING w" "wf_last w = Some SYSTEM_EVENT_STA_DISCONNECTED"
  shows "\<exists>w'. losses dflt n w = Some w' \<and> xQueueWifi w' = xQueueWifi w \<and> (0 < n \<longrightarrow> wf_config w' = dflt) \<and>
    connects (wf_calls w') = connects (wf_calls w) + card {k. 1 \<le> k \<and> k \<le> int n \<and> k \<noteq> retry_wifi_times w}"
  using assms
proof (induction n arbitrary: w)
  case 0
  have none: "{k. 1 \<le> k \<and> k \<le> (0::int) \<and> k \<noteq> r} = {}" for r by auto
  show ?case by (simp add: none)
next
  case (Suc n)
  let ?w1 = "((if retry_wifi_times w - 1 \<noteq> 0 then wf_do [Wifi_Connect] else id)
    ((wf_set_config dflt (w\<lparr>SC_PAIRING := False\<rparr>))\<lparr>retry_wifi_times := retry_wifi_times w - 1\<rparr>))
      \<lparr>wf_last := Some SYSTEM_EVENT_STA_DISCONNECTED\<rparr>"
  have step: "losses dflt (Suc n) w = losses dflt n ?w1"
    using Suc.prems by (simp add: wifiEvtHandlerCb_def sta_disconnected_def wifi_defs)
  have "sc_group ?w1" "\<not> SC_PAIRING ?w1" "wf_last ?w1 = Some SYSTEM_EVENT_STA_DISCONNECTED"
    using Suc.prems by (simp_all add: wifi_defs)
  from Suc.IH [OF this] obtain w' where w': "losses dflt n ?w1 = Some w'" "xQueueWifi w' = xQueueWifi ?w1"
      "0 < n \<longrightarrow> wf_config w' = dflt"
      "connects (wf_calls w') = connects (wf_calls ?w1) + card {k. 1 \<le> k \<and> k \<le> int n \<and> k \<noteq> retry_wifi_times ?w1}"
    by blast
  have shift: "{k. 1 \<le> k \<and> k \<le> int (Suc n) \<and> k \<noteq> retry_wifi_times w} =
      (if retry_wifi_times w \<noteq> 1 then {1} else {}) \<union> (\<lambda>k. k + 1) ` {k. 1 \<le> k \<and> k \<le> int n \<and> k \<noteq> retry_wifi_times w - 1}"
    (is "?L = ?A \<union> ?f ` ?B")
  proof (rule set_eqI)
    fix k
    show "k \<in> ?L \<longleftrightarrow> k \<in> ?A \<union> ?f ` ?B"
      using image_iff [of k ?f ?B] by (cases "k = 1") (auto intro: rev_image_eqI [of "k - 1"])
  qed
  have "finite ?B" by (rule finite_subset [of _ "{1..int n}"]) auto
  moreover have "?A \<inter> ?f ` ?B = {}" by auto
  ultimately have "card ?L = card ?A + card ?B"
    unfolding shift by (subst card_Un_disjoint) (auto simp: card_image)
  moreover have "retry_wifi_times ?w1 = retry_wifi_times w - 1" by (simp add: wifi_defs)
  moreover have "connects (wf_calls ?w1) = connects (wf_calls w) + card ?A" by (simp add: wifi_defs)
  moreover have "n = 0 \<Longrightarrow> w' = ?w1" using w'(1) by simp
  ultimately show ?case
    using w' step by (intro exI [of _ w']) (auto simp: wifi_defs)
qed

text \<open>A station that has its address.\<close>

definition online :: "'c wifi \<Rightarrow> bool" where
  "online w \<longleftrightarrow> sc_group w \<and> \<not> SC_PAIRING w \<and> wf_last w = Some SYSTEM_EVENT_STA_GOT_IP \<and> retry_wifi_times w = 5"

lemma first_loss:
  assumes "online w" "length (xQueueWifi w) < WIFI_EVT_QUEUE_LEN"
  shows "\<exists>w'. wifiEvtHandlerCb dflt (Some SYSTEM_EVENT_STA_DISCONNECTED) w = Some (ESP_OK, w') \<and>
    xQueueWifi w' = xQueueWifi w @ [WifiState_Disconnected] \<and> wf_config w' = dflt \<and> sc_group w' \<and> \<not> SC_PAIRING w' \<and>
    wf_last w' = Some SYSTEM_EVENT_STA_DISCONNECTED \<and> retry_wifi_times w' = 4 \<and> connects (wf_calls w') = Suc (connects (wf_calls w))"
  using assms by (simp add: wifiEvtHandlerCb_def sta_disconnected_def wifi_defs online_def)

lemma losses_from_online:
  assumes "online w" "length (xQueueWifi w) < WIFI_EVT_QUEUE_LEN" "0 < n"
  shows "\<exists>w'. losses dflt n w = Some w' \<and> xQueueWifi w' = xQueueWifi w @ [WifiState_Disconnected] \<and> wf_config w' = dflt \<and>
    connects (wf_calls w') = connects (wf_calls w) + (if n < 5 then n else n - 1)"
proof -
  obtain m where n: "n = Suc m" using assms(3) by (cases n) auto
  from first_loss [OF assms(1,2)] obtain w1 where w1: "wifiEvtHandlerCb dflt (Some SYSTEM_EVENT_STA_DISCONNECTED) w = Some (ESP_OK, w1)"
    "xQueueWifi w1 = xQueueWifi w @ [WifiState_Disconnected]" "wf_config w1 = dflt" "sc_group w1" "\<not> SC_PAIRING w1"
    "wf_last w1 = Some SYSTEM_EVENT_STA_DISCONNECTED" "retry_wifi_times w1 = 4" "connects (wf_calls w1) = Suc (connects (wf_calls w))"
    by blast
  from further_losses [OF w1(4-6), of dflt m] obtain w' where w': "losses dflt m w1 = Some w'" "xQueueWifi w' = xQueueWifi w1"
    "0 < m \<longrightarrow> wf_config w' = dflt"
    "connects (wf_calls w') = connects (wf_calls w1) + card {k. 1 \<le> k \<and> k \<le> int m \<and> k \<noteq> 4}"
    unfolding w1(7) by blast
  have "{k. 1 \<le> k \<and> k \<le> int m \<and> k \<noteq> 4} = {1..int m} - {4}" by auto
  then have "card {k. 1 \<le> k \<and> k \<le> int m \<and> k \<noteq> 4} = (if m < 4 then m else m - 1)"
    by (simp add: card_Diff_singleton_if)
  moreover have "m = 0 \<Longrightarrow> w' = w1" using w'(1) by simp
  ultimately show ?thesis using w' w1 n by (cases "m = 0") auto
qed

text \<open>
  C16. What happens when the network is lost. Over \<open>n\<close> losses in a row after the station had an
  address, and outside smart config, the services are told once; the driver is set to the
  configuration that was compiled in, whatever the one in use was; and each loss is answered by one attempt to connect but
  for the fifth, after which the device stays offline unless something else connects.
\<close>

theorem lost_network_retries:
  assumes "online w" "length (xQueueWifi w) < WIFI_EVT_QUEUE_LEN" "0 < n"
  shows "\<exists>w'. losses dflt n w = Some w' \<and> xQueueWifi w' = xQueueWifi w @ [WifiState_Disconnected] \<and> wf_config w' = dflt \<and>
    connects (wf_calls w') = connects (wf_calls w) + (if n < 5 then n else n - 1)"
  by (rule losses_from_online [OF assms])

definition started :: "string wifi" where
  "started = the (WifiStartUp True True True (\<lambda>c. c \<noteq> []) ''kun'' (wifi0 ''home''))"

theorem lost_network_retries_witness:
  "\<exists>w'. losses ''kun'' 6 (sta_got_ip started) = Some w' \<and> wf_config w' = ''kun'' \<and> connects (wf_calls w') = 1 + 5"
proof -
  have "online (sta_got_ip started)" "length (xQueueWifi (sta_got_ip started)) < WIFI_EVT_QUEUE_LEN"
    "connects (wf_calls (sta_got_ip started)) = 1"
    by (simp_all add: online_def started_def WifiStartUp_def SmartconfigSetup_def wifi0_def sta_got_ip_def wifi_defs)
  then show ?thesis using lost_network_retries [of "sta_got_ip started" 6 "''kun''"] by auto
qed

section \<open>Smart config that is started twice\<close>

text \<open>Everything that can happen, with every outcome of the environment.\<close>

inductive wifi_step :: "'c \<Rightarrow> 'c wifi \<Rightarrow> 'c wifi \<Rightarrow> bool" for dflt where
  step_event: "wifiEvtHandlerCb dflt evt w = Some (e, w') \<Longrightarrow> wifi_step dflt w w'"
| step_status: "wifi_step dflt w (smartconfig_done status w)"
| step_config: "WifiConfigTask_step mode_sta timed_out w = Some w' \<Longrightarrow> wifi_step dflt w w'"
| step_smart: "wifi_step dflt w (WifiSmartConfig created w)"
| step_task: "wifi_step dflt w (WifiManagerEvtTask_pass w)"

text \<open>Smart config is marked as running, and there is no task in it.\<close>

definition stuck :: "nat \<Rightarrow> 'c wifi \<Rightarrow> bool" where
  "stuck n w \<longleftrightarrow> inSmartconfig w \<and> SmartConfigHandle w \<noteq> Some Task_Wait \<and>
     length (filter (\<lambda>c. c = Smartconfig_Start) (wf_calls w)) = n"

lemma stuck_event: "wifiEvtHandlerCb dflt evt w = Some (e, w') \<Longrightarrow> stuck n w \<Longrightarrow> stuck n w'"
  by (auto simp: wifiEvtHandlerCb_def sta_disconnected_def sta_got_ip_def wifi_defs stuck_def Let_def
      split: option.splits wifi_event.splits if_splits bind_splits)

lemma stuck_config: "WifiConfigTask_step mode_sta timed_out w = Some w' \<Longrightarrow> stuck n w \<Longrightarrow> stuck n w'"
  by (auto simp: WifiConfigTask_step_def config_task_start_def smart_connect_begin_def config_task_end_def wifi_defs stuck_def
      split: option.splits config_task.splits if_splits)

lemma stuck_step: "wifi_step dflt w w' \<Longrightarrow> stuck n w \<Longrightarrow> stuck n w'"
proof (induction rule: wifi_step.induct)
  case (step_status w status)
  then show ?case by (cases status) (simp_all add: smartconfig_done_def wifi_defs stuck_def)
next
  case (step_task w)
  then show ?case
    by (auto simp: WifiManagerEvtTask_pass_def ProcessWifiEvent_def stuck_def Let_def split: list.splits)
next
  case (step_event evt w e w')
  then show ?case by (rule stuck_event)
next
  case (step_config mode_sta timed_out w w')
  then show ?case by (rule stuck_config)
next
  case (step_smart w created)
  then show ?case by (simp add: WifiSmartConfig_def stuck_def)
qed

lemma stuck_for_ever: "(wifi_step dflt)\<^sup>*\<^sup>* w w' \<Longrightarrow> stuck n w \<Longrightarrow> stuck n w'"
  by (induction rule: rtranclp_induct) (auto intro: stuck_step)

text \<open>
  C38. Smart config that is started again while it runs never runs again. The second start deletes the
  task that waits for the phone, which holds the mutex and has set the flag; whatever happens
  afterwards, smart config is not started any more.
\<close>

theorem restarted_smart_config_dead:
  assumes "inSmartconfig w" "(wifi_step dflt)\<^sup>*\<^sup>* (WifiSmartConfig created w) w'"
  shows "inSmartconfig w' \<and> length (filter (\<lambda>c. c = Smartconfig_Start) (wf_calls w')) =
    length (filter (\<lambda>c. c = Smartconfig_Start) (wf_calls w))"
proof -
  have "stuck (length (filter (\<lambda>c. c = Smartconfig_Start) (wf_calls w))) (WifiSmartConfig created w)"
    using assms(1) by (simp add: stuck_def WifiSmartConfig_def)
  from stuck_for_ever [OF assms(2) this] show ?thesis by (simp add: stuck_def)
qed

text \<open>A key starts smart config, it waits for the phone, and the key is touched again.\<close>

definition sc_waiting :: "string wifi" where
  "sc_waiting = the (do { w1 \<leftarrow> WifiConfigTask_step True False (WifiSmartConfig True started); WifiConfigTask_step True False w1 })"

theorem restarted_smart_config_dead_witness:
  "\<exists>w'. WifiConfigTask_step True False (WifiSmartConfig True sc_waiting) = Some w' \<and> inSmartconfig sc_waiting \<and> inSmartconfig w' \<and>
     length (filter (\<lambda>c. c = Smartconfig_Start) (wf_calls w')) = 1"
proof -
  have i: "inSmartconfig sc_waiting" "length (filter (\<lambda>c. c = Smartconfig_Start) (wf_calls sc_waiting)) = 1"
    by (simp_all add: sc_waiting_def started_def WifiStartUp_def SmartconfigSetup_def wifi0_def WifiConfigTask_step_def
        WifiSmartConfig_def config_task_start_def smart_connect_begin_def wifi_defs)
  obtain w' where w': "WifiConfigTask_step True False (WifiSmartConfig True sc_waiting) = Some w'"
    by (simp add: WifiConfigTask_step_def WifiSmartConfig_def)
  have "wifi_step ''kun'' (WifiSmartConfig True sc_waiting) w'" by (rule step_config [OF w'])
  then have "(wifi_step ''kun'')\<^sup>*\<^sup>* (WifiSmartConfig True sc_waiting) w'" by (rule r_into_rtranclp)
  from restarted_smart_config_dead [OF i(1) this] show ?thesis using i w' by auto
qed

section \<open>From the address to the recorder\<close>

text \<open>The task serves the queue, and the controller tells the recording service.\<close>

definition wifi_served :: "'c wifi \<Rightarrow> 'c wifi" where
  "wifi_served w = (WifiManagerEvtTask_pass ^^ length (xQueueWifi w)) w"

definition hear_wifi :: "DeviceNotifyWifiMsg list \<Rightarrow> ddcloud \<Rightarrow> ddcloud" where
  "hear_wifi msgs d = fold (WifiEvtNotify [Some ddcloudEvtNotif]) msgs d"

lemma served_queue:
  "wf_notified ((WifiManagerEvtTask_pass ^^ length q) (w\<lparr>xQueueWifi := q\<rparr>)) =
     wf_notified w @ filter (\<lambda>m. m \<noteq> DEVICE_NOTIFY_WIFI_UNDEFINED) (map wifi_message q)"
proof (induction q arbitrary: w)
  case Nil
  then show ?case by simp
next
  case (Cons st q)
  let ?m = "wifi_message st"
  have "WifiManagerEvtTask_pass (w\<lparr>xQueueWifi := st # q\<rparr>) =
      (if ?m \<noteq> DEVICE_NOTIFY_WIFI_UNDEFINED then w\<lparr>wf_notified := wf_notified w @ [?m]\<rparr> else w)\<lparr>xQueueWifi := q\<rparr>"
    by (simp add: WifiManagerEvtTask_pass_def ProcessWifiEvent_def Let_def)
  then show ?case
    using Cons.IH [of "if ?m \<noteq> DEVICE_NOTIFY_WIFI_UNDEFINED then w\<lparr>wf_notified := wf_notified w @ [?m]\<rparr> else w"]
    by (simp only: length_Cons funpow_Suc_right comp_apply) simp
qed

lemma served_notified:
  "wf_notified (wifi_served w) = wf_notified w @ filter (\<lambda>m. m \<noteq> DEVICE_NOTIFY_WIFI_UNDEFINED) (map wifi_message (xQueueWifi w))"
  using served_queue [of "xQueueWifi w" w] by (simp add: wifi_served_def)

lemma hear_wifi_connected:
  "dc_connected (hear_wifi msgs d) \<longleftrightarrow> dc_connected d \<or> DEVICE_NOTIFY_WIFI_GOT_IP \<in> set msgs"
  by (induction msgs arbitrary: d)
    (auto simp: hear_wifi_def WifiEvtNotify_def ddcloudEvtNotif_def ddcloud_got_ip_def)

lemma address_reaches_recorder:
  assumes "wf_last w \<noteq> Some SYSTEM_EVENT_STA_GOT_IP" "length (xQueueWifi w) < WIFI_EVT_QUEUE_LEN"
  shows "dc_connected (hear_wifi (wf_notified (wifi_served (sta_got_ip w))) d)"
  using assms by (simp add: hear_wifi_connected served_notified sta_got_ip_def wifi_defs wifi_message_def)

text \<open>With a full queue the address is never reported: the next event of the same kind is not sent any more.\<close>

lemma lost_address_not_repeated:
  assumes "length (xQueueWifi w) = WIFI_EVT_QUEUE_LEN"
  shows "xQueueWifi (sta_got_ip w) = xQueueWifi w"
    and "xQueueWifi (sta_got_ip ((sta_got_ip w)\<lparr>xQueueWifi := []\<rparr>)) = []"
  using assms by (simp_all add: sta_got_ip_def wifi_defs)

end
