(* ===== verification/Httpd.thy ===== *)
theory Httpd
  imports Prelude
begin

text \<open>
  The HTTP server, \<open>httpd/httpd.c\<close>: connections, the strings of a request, and the way of a response from
  the CGI functions through the send buffer and the backlog to the socket. Receiving is in theory
  \<open>Httpd_Recv\<close>.

  Pointers into the head of a request are offsets. The flags of a connection are fields. A CGI function of the
  application is a number, and the argument \<open>app\<close> says what it does; it may change the connection. The
  platform's connection stands in \<open>hs_conn\<close> of the connection that points to it, with the results its
  next writes will have and the bytes it wrote. \<open>None\<close> is undefined behaviour: an access outside an
  object, a null pointer or a send buffer that was freed. Whether the allocation in line \<open>n\<close> succeeds is
  \<open>alloc n\<close>.
\<close>

section \<open>State\<close>

abbreviation (input) HTTPD_MAX_CONNECTIONS :: nat where "HTTPD_MAX_CONNECTIONS \<equiv> 20"
abbreviation (input) HTTPD_MAX_HEAD_LEN :: nat where "HTTPD_MAX_HEAD_LEN \<equiv> 1024"
abbreviation (input) HTTPD_MAX_POST_LEN :: nat where "HTTPD_MAX_POST_LEN \<equiv> 2048"
abbreviation (input) HTTPD_MAX_SENDBUFF_LEN :: nat where "HTTPD_MAX_SENDBUFF_LEN \<equiv> 8192"
abbreviation (input) HTTPD_MAX_BACKLOG_SIZE :: nat where "HTTPD_MAX_BACKLOG_SIZE \<equiv> 4 * 1024"

abbreviation (input) HTTPD_CGI_MORE :: int where "HTTPD_CGI_MORE \<equiv> 0"
abbreviation (input) HTTPD_CGI_DONE :: int where "HTTPD_CGI_DONE \<equiv> 1"
abbreviation (input) HTTPD_CGI_NOTFOUND :: int where "HTTPD_CGI_NOTFOUND \<equiv> 2"
abbreviation (input) HTTPD_CGI_AUTHENTICATED :: int where "HTTPD_CGI_AUTHENTICATED \<equiv> 3"

datatype httpd_method =
    HTTPD_METHOD_NONE | HTTPD_METHOD_GET | HTTPD_METHOD_POST | HTTPD_METHOD_SUB | HTTPD_METHOD_UNSUB
  | HTTPD_METHOD_ANNOUNCE | HTTPD_METHOD_SETUP | HTTPD_METHOD_RECORD | HTTPD_METHOD_PAUSE | HTTPD_METHOD_FLUSH
  | HTTPD_METHOD_TEARDOWN | HTTPD_METHOD_OPTIONS | HTTPD_METHOD_GET_PARAMETER | HTTPD_METHOD_SET_PARAMETER
  | HTTPD_METHOD_NOTIFY

fun method_num :: "httpd_method \<Rightarrow> nat" where
  "method_num HTTPD_METHOD_NONE = 0"
| "method_num HTTPD_METHOD_GET = 1"
| "method_num HTTPD_METHOD_POST = 2"
| "method_num HTTPD_METHOD_SUB = 3"
| "method_num HTTPD_METHOD_UNSUB = 4"
| "method_num HTTPD_METHOD_ANNOUNCE = 5"
| "method_num HTTPD_METHOD_SETUP = 6"
| "method_num HTTPD_METHOD_RECORD = 7"
| "method_num HTTPD_METHOD_PAUSE = 8"
| "method_num HTTPD_METHOD_FLUSH = 9"
| "method_num HTTPD_METHOD_TEARDOWN = 10"
| "method_num HTTPD_METHOD_OPTIONS = 11"
| "method_num HTTPD_METHOD_GET_PARAMETER = 12"
| "method_num HTTPD_METHOD_SET_PARAMETER = 13"
| "method_num HTTPD_METHOD_NOTIFY = 14"

text \<open>The connection of the platform, \<open>RtosConnType\<close>: a negative descriptor is a free one.\<close>

record rtos_conn =
  rc_fd :: int
  rc_needWriteDoneNotif :: bool
  rc_needsClose :: bool
  rc_port :: int
  rc_ip :: "byte list"
  rc_writes :: "int list"
  rc_wire :: "byte list"

datatype cgi =
    Cgi_NotFound
  | Cgi_Redirect
  | Cgi_RedirectToHostname
  | Cgi_RedirectApClientToHostname
  | Cgi_App nat

record httpd_post =
  po_len :: int
  po_buffSize :: int
  po_buffLen :: nat
  po_received :: int
  po_buff :: "byte list option"
  po_boundary :: "nat option"

record httpd_conn =
  hs_context :: nat
  hs_conn :: "rtos_conn option"
  hs_requestType :: httpd_method
  hs_url :: "nat option"
  hs_getArgs :: "nat option"
  hs_cgiArg :: "byte list option"
  hs_cgiData :: nat
  hs_hostName :: "nat option"
  hs_cgi :: "cgi option"
  hs_recvHdl :: "nat option"
  hs_post :: httpd_post
  hs_remote_port :: int
  hs_remote_ip :: "byte list"
  hs_head :: "byte list"
  hs_headPos :: nat
  hs_sendBuff :: "byte list option"
  hs_sendBuffLen :: nat
  hs_chunkHdr :: "nat option"
  hs_sendBacklog :: "byte list list"
  hs_sendBacklogSize :: int
  HFL_HTTP11 :: bool
  HFL_CHUNKED :: bool
  HFL_SENDINGBODY :: bool
  HFL_DISCONAFTERSENT :: bool
  HFL_NOCONNECTIONSTR :: bool

section \<open>Strings\<close>

text \<open>The C string at an offset of an object.\<close>

definition str_at :: "byte list \<Rightarrow> nat \<Rightarrow> byte list option" where
  "str_at mem i = c_str (drop i mem)"

definition mimeTypes :: "(byte list \<times> byte list) list" where
  "mimeTypes =
     [(ascii ''htm'', ascii ''text/htm''), (ascii ''html'', ascii ''text/html''), (ascii ''css'', ascii ''text/css''),
      (ascii ''js'', ascii ''text/javascript''), (ascii ''txt'', ascii ''text/plain''), (ascii ''jpg'', ascii ''image/jpeg''),
      (ascii ''jpeg'', ascii ''image/jpeg''), (ascii ''png'', ascii ''image/png''), (ascii ''svg'', ascii ''image/svg+xml''),
      (ascii ''xml'', ascii ''text/xml''), (ascii ''json'', ascii ''application/json'')]"

text \<open>The extension is what follows the last dot, or the whole of a text without one; the empty text is read
  before its beginning.\<close>

definition extension :: "byte list \<Rightarrow> byte list" where
  "extension url =
     (let ext = rev (takeWhile (\<lambda>b. b \<noteq> 0x2E) (rev url))
      in if length ext = length url then url else ext)"

definition httpdGetMimetype :: "byte list \<Rightarrow> byte list option" where
  "httpdGetMimetype url =
     (if url = [] then None
      else Some (case first_with (\<lambda>m. fst m = extension url) mimeTypes of
                   None \<Rightarrow> ascii ''text/html'' | Some m \<Rightarrow> snd m))"

definition httpdHexVal :: "byte \<Rightarrow> nat" where
  "httpdHexVal c =
     (if 48 \<le> unat c \<and> unat c \<le> 57 then unat c - 48
      else if 65 \<le> unat c \<and> unat c \<le> 70 then unat c - 65 + 10
      else if 97 \<le> unat c \<and> unat c \<le> 102 then unat c - 97 + 10
      else 0)"

text \<open>The loop of \<open>httpdUrlDecode\<close> over the bytes of \<open>val\<close>; \<open>esced\<close> counts the characters after a percent
  sign, \<open>escVal\<close> is their value.\<close>

fun url_decode_loop ::
  "byte list \<Rightarrow> nat \<Rightarrow> nat \<Rightarrow> nat \<Rightarrow> nat \<Rightarrow> byte list \<Rightarrow> (nat \<times> byte list) option" where
  "url_decode_loop [] esced escVal d retLen ret = Some (d, ret)"
| "url_decode_loop (c # val) esced escVal d retLen ret =
     (if \<not> d < retLen then Some (d, ret)
      else if esced = 1 then url_decode_loop val 2 (httpdHexVal c * 16) d retLen ret
      else if esced = 2
      then do { r \<leftarrow> wr ret d (of_nat (escVal + httpdHexVal c)); url_decode_loop val 0 (escVal + httpdHexVal c) (d + 1) retLen r }
      else if c = 0x25 then url_decode_loop val 1 escVal d retLen ret
      else do { r \<leftarrow> wr ret d (if c = 0x2B then 0x20 else c); url_decode_loop val esced escVal (d + 1) retLen r })"

definition httpdUrlDecode :: "byte list \<Rightarrow> byte list \<Rightarrow> nat \<Rightarrow> (nat \<times> byte list) option" where
  "httpdUrlDecode val ret retLen =
     do { (d, r) \<leftarrow> url_decode_loop val 0 0 0 retLen ret;
          if d < retLen then do { r' \<leftarrow> wr r d 0; Some (d, r') } else Some (d, r) }"

text \<open>The text up to the next ampersand, and what is behind it.\<close>

definition before_amp :: "byte list \<Rightarrow> byte list" where
  "before_amp s = takeWhile (\<lambda>b. b \<noteq> 0x26) s"

definition after_amp :: "byte list \<Rightarrow> byte list option" where
  "after_amp s = (case dropWhile (\<lambda>b. b \<noteq> 0x26) s of [] \<Rightarrow> None | _ # r \<Rightarrow> Some r)"

lemma after_amp_shorter: "after_amp s = Some r \<Longrightarrow> length r < length s"
  using length_dropWhile_le [of "\<lambda>b. b \<noteq> 0x26" s] by (auto simp: after_amp_def split: list.splits)

text \<open>The result is -1, or the length with the buffer.\<close>

function find_arg_loop :: "byte list \<Rightarrow> byte list \<Rightarrow> byte list \<Rightarrow> nat \<Rightarrow> (int \<times> byte list) option" where
  "find_arg_loop p arg buff buffLen =
     (if p = [] \<or> hd p = 0x0A \<or> hd p = 0x0D then Some (-1, buff)
      else if take (length arg) p = arg \<and> take 1 (drop (length arg) p) = [0x3D]
      then map_option (\<lambda>(n, b). (int n, b)) (httpdUrlDecode (before_amp (drop (length arg + 1) p)) buff buffLen)
      else case after_amp p of None \<Rightarrow> Some (-1, buff) | Some r \<Rightarrow> find_arg_loop r arg buff buffLen)"
  by pat_completeness auto
termination
  by (relation "measure (\<lambda>(p, _, _, _). length p)") (auto dest: after_amp_shorter)

declare find_arg_loop.simps [simp del]

definition httpdFindArg :: "byte list option \<Rightarrow> byte list \<Rightarrow> byte list \<Rightarrow> nat \<Rightarrow> (int \<times> byte list) option" where
  "httpdFindArg line arg buff buffLen =
     (case line of None \<Rightarrow> Some (-1, buff) | Some s \<Rightarrow> find_arg_loop s arg buff buffLen)"

text \<open>
  \<open>httpdGetHeader\<close>: the offset of the first byte in the head at or behind \<open>p\<close> that satisfies the test; a search that
  leaves the object is undefined. A byte of 128 or more is a \<open>char\<close> as the test of line 211 sees it: \<open>char\<close> is unsigned on
  this target.
\<close>

definition scan :: "(byte \<Rightarrow> bool) \<Rightarrow> byte list \<Rightarrow> nat \<Rightarrow> nat option" where
  "scan P mem p = (let q = p + length (takeWhile (\<lambda>b. \<not> P b) (drop p mem)) in if q < length mem then Some q else None)"

lemma scan_SomeD: "scan P mem p = Some q \<Longrightarrow> p \<le> q \<and> q < length mem \<and> P (mem ! q)"
proof -
  assume "scan P mem p = Some q"
  then have q: "q = p + length (takeWhile (\<lambda>b. \<not> P b) (drop p mem))" "q < length mem"
    by (auto simp: scan_def Let_def split: if_splits)
  then have "P (drop p mem ! length (takeWhile (\<lambda>b. \<not> P b) (drop p mem)))"
    using nth_length_takeWhile [of "\<lambda>b. \<not> P b" "drop p mem"] by simp
  then show ?thesis using q by simp
qed

function get_header_loop :: "byte list \<Rightarrow> nat \<Rightarrow> byte list \<Rightarrow> byte list \<Rightarrow> nat \<Rightarrow> nat \<Rightarrow> (nat \<times> byte list) option" where
  "get_header_loop head headPos header ret retLen p =
     (if \<not> p < headPos then Some (0, ret)
      else do {
        p1 \<leftarrow> scan (\<lambda>b. \<not> (unat b \<le> 32 \<and> b \<noteq> 0)) head p;
        line \<leftarrow> str_at head p1;
        if lower (take (length header) line) = lower header \<and> take 1 (drop (length header) line) = [0x3A]
        then (let v = takeWhile (\<lambda>b. b \<noteq> 0x0D \<and> b \<noteq> 0x0A) (dropWhile (\<lambda>b. b = 0x20) (drop (length header + 1) line));
                  t = take (retLen - 1) v
              in do { r \<leftarrow> blit ret 0 (t @ [0]); Some (length t, r) })
        else get_header_loop head headPos header ret retLen (p1 + length line + 1) })"
  by pat_completeness auto
termination
  by (relation "measure (\<lambda>(_, headPos, _, _, _, p). headPos - p)") (auto dest: scan_SomeD)

declare get_header_loop.simps [simp del]

definition httpdGetHeader :: "httpd_conn \<Rightarrow> byte list \<Rightarrow> byte list \<Rightarrow> nat \<Rightarrow> (nat \<times> byte list) option" where
  "httpdGetHeader c header ret retLen =
     do { l1 \<leftarrow> str_at (hs_head c) 0;
          l2 \<leftarrow> str_at (hs_head c) (length l1 + 1);
          get_header_loop (hs_head c) (hs_headPos c) header ret retLen (length l1 + 1 + length l2 + 1) }"

section \<open>The platform\<close>

text \<open>A write takes the next result; bytes that \<open>write\<close> did not take are not written again by anyone.\<close>

definition httpdPlatSendData :: "byte list \<Rightarrow> rtos_conn \<Rightarrow> bool \<times> rtos_conn" where
  "httpdPlatSendData d rc =
     (case rc_writes rc of
        [] \<Rightarrow> (True, rc\<lparr>rc_needWriteDoneNotif := True, rc_wire := rc_wire rc @ d\<rparr>)
      | r # rs \<Rightarrow> (r \<ge> 0, rc\<lparr>rc_needWriteDoneNotif := True, rc_writes := rs, rc_wire := rc_wire rc @ take (nat r) d\<rparr>))"

definition httpdPlatDisconnect :: "rtos_conn \<Rightarrow> rtos_conn" where
  "httpdPlatDisconnect rc = rc\<lparr>rc_needsClose := True, rc_needWriteDoneNotif := True\<rparr>"

section \<open>The send buffer\<close>

text \<open>\<open>httpdSend\<close>: a start of a chunk is put in front of the first data of a body, its length is filled in later.\<close>

definition start_chunk :: "nat \<Rightarrow> httpd_conn \<Rightarrow> httpd_conn option option" where
  "start_chunk len c =
     (if HFL_CHUNKED c \<and> HFL_SENDINGBODY c \<and> hs_chunkHdr c = None
      then if hs_sendBuffLen c + len + 6 > HTTPD_MAX_SENDBUFF_LEN then Some None
           else do { b \<leftarrow> hs_sendBuff c;
                     b' \<leftarrow> blit b (hs_sendBuffLen c) (ascii ''0000'' @ [0x0D, 0x0A, 0]);
                     Some (Some (c\<lparr>hs_chunkHdr := Some (hs_sendBuffLen c), hs_sendBuff := Some b',
                       hs_sendBuffLen := hs_sendBuffLen c + 6\<rparr>)) }
      else Some (Some c))"

definition httpdSend :: "byte list \<Rightarrow> httpd_conn \<Rightarrow> (bool \<times> httpd_conn) option" where
  "httpdSend d c =
     (if hs_conn c = None \<or> d = [] then Some (False, c)
      else do {
        r \<leftarrow> start_chunk (length d) c;
        case r of
          None \<Rightarrow> Some (False, c)
        | Some c1 \<Rightarrow>
            if hs_sendBuffLen c1 + length d > HTTPD_MAX_SENDBUFF_LEN then Some (False, c1)
            else do { b \<leftarrow> hs_sendBuff c1;
                      b' \<leftarrow> blit b (hs_sendBuffLen c1) d;
                      Some (True, c1\<lparr>hs_sendBuff := Some b', hs_sendBuffLen := hs_sendBuffLen c1 + length d\<rparr>) } })"

definition httpdHexNibble :: "int \<Rightarrow> byte" where
  "httpdHexNibble val = (let v = nat (val mod 16) in of_nat (if v < 10 then 48 + v else 65 + (v - 10)))"

text \<open>The chunk is closed: its end and its length.\<close>

definition chunk_digits :: "int \<Rightarrow> byte list" where
  "chunk_digits len = [httpdHexNibble (len div 2 ^ 12), httpdHexNibble (len div 2 ^ 8), httpdHexNibble (len div 2 ^ 4), httpdHexNibble len]"

definition end_chunk :: "httpd_conn \<Rightarrow> httpd_conn option" where
  "end_chunk c =
     (case hs_chunkHdr c of
        None \<Rightarrow> Some c
      | Some h \<Rightarrow> do {
          (_, c1) \<leftarrow> httpdSend [0x0D, 0x0A] c;
          b \<leftarrow> hs_sendBuff c1;
          b' \<leftarrow> blit b h (chunk_digits (int (hs_sendBuffLen c1) - int h - 8));
          Some (c1\<lparr>hs_sendBuff := Some b', hs_chunkHdr := None\<rparr>) })"

definition last_chunk :: "httpd_conn \<Rightarrow> httpd_conn option" where
  "last_chunk c =
     (if HFL_CHUNKED c \<and> HFL_SENDINGBODY c \<and> hs_cgi c = None
      then do { b \<leftarrow> hs_sendBuff c;
                b' \<leftarrow> blit b (hs_sendBuffLen c) [0x30, 0x0D, 0x0A, 0x0D, 0x0A, 0];
                Some (c\<lparr>hs_sendBuff := Some b', hs_sendBuffLen := hs_sendBuffLen c + 5\<rparr>) }
      else Some c)"

text \<open>What cannot be sent now goes to the backlog; without memory it stays in the send buffer.\<close>

definition send_or_keep :: "(nat \<Rightarrow> bool) \<Rightarrow> httpd_conn \<Rightarrow> httpd_conn option" where
  "send_or_keep alloc c =
     (if hs_sendBuffLen c = 0 then Some c
      else do {
        rc \<leftarrow> hs_conn c;
        b \<leftarrow> hs_sendBuff c;
        d \<leftarrow> (if hs_sendBuffLen c \<le> length b then Some (take (hs_sendBuffLen c) b) else None);
        let (r, rc') = httpdPlatSendData d rc;
        let c1 = c\<lparr>hs_conn := Some rc'\<rparr>;
        Some (if r then c1\<lparr>hs_sendBuffLen := 0\<rparr>
              else if hs_sendBacklogSize c1 + int (length d) > int HTTPD_MAX_BACKLOG_SIZE then c1\<lparr>hs_sendBuffLen := 0\<rparr>
              else if \<not> alloc 429 then c1
              else c1\<lparr>hs_sendBacklog := hs_sendBacklog c1 @ [d], hs_sendBacklogSize := hs_sendBacklogSize c1 + int (length d),
                     hs_sendBuffLen := 0\<rparr>) })"

definition httpdFlushSendBuffer :: "(nat \<Rightarrow> bool) \<Rightarrow> httpd_conn \<Rightarrow> httpd_conn option" where
  "httpdFlushSendBuffer alloc c =
     (if hs_conn c = None then Some c
      else do { c1 \<leftarrow> end_chunk c; c2 \<leftarrow> last_chunk c1; send_or_keep alloc c2 })"

section \<open>The parts of a response\<close>

datatype transfer_mode = HTTPD_TRANSFER_CLOSE | HTTPD_TRANSFER_CHUNKED | HTTPD_TRANSFER_NONE

definition httdSetTransferMode :: "transfer_mode \<Rightarrow> httpd_conn \<Rightarrow> httpd_conn" where
  "httdSetTransferMode mode c =
     (case mode of
        HTTPD_TRANSFER_CLOSE \<Rightarrow> c\<lparr>HFL_CHUNKED := False, HFL_NOCONNECTIONSTR := False\<rparr>
      | HTTPD_TRANSFER_CHUNKED \<Rightarrow> c\<lparr>HFL_CHUNKED := True, HFL_NOCONNECTIONSTR := False\<rparr>
      | HTTPD_TRANSFER_NONE \<Rightarrow> c\<lparr>HFL_CHUNKED := False, HFL_NOCONNECTIONSTR := True\<rparr>)"

definition crlf :: "byte list" where
  "crlf = [0x0D, 0x0A]"

definition status_line :: "nat \<Rightarrow> httpd_conn \<Rightarrow> byte list" where
  "status_line code c =
     ascii ''HTTP/1.'' @ ascii (if HFL_HTTP11 c then ''1'' else ''0'') @ [0x20] @ decimal code @ ascii '' OK'' @ crlf @
     ascii ''Server: ESP32 HTTPD/0.4'' @ crlf @
     (if HFL_NOCONNECTIONSTR c then [] else if HFL_CHUNKED c then ascii ''Transfer-Encoding: chunked'' @ crlf
      else ascii ''Connection: close'' @ crlf)"

text \<open>The line is printed into 256 bytes; the codes of the server have three digits.\<close>

definition httpdStartResponse :: "nat \<Rightarrow> httpd_conn \<Rightarrow> httpd_conn option" where
  "httpdStartResponse code c =
     (if length (status_line code c) < 256 then map_option snd (httpdSend (status_line code c) c) else None)"

fun send_all :: "byte list list \<Rightarrow> httpd_conn \<Rightarrow> httpd_conn option" where
  "send_all [] c = Some c"
| "send_all (d # ds) c = do { (_, c1) \<leftarrow> httpdSend d c; send_all ds c1 }"

definition httpdHeader :: "byte list \<Rightarrow> byte list \<Rightarrow> httpd_conn \<Rightarrow> httpd_conn option" where
  "httpdHeader field val c = send_all [field, ascii '': '', val, crlf] c"

definition httpdEndHeaders :: "httpd_conn \<Rightarrow> httpd_conn option" where
  "httpdEndHeaders c = do { c1 \<leftarrow> send_all [crlf] c; Some (c1\<lparr>HFL_SENDINGBODY := True\<rparr>) }"

definition httpdRedirect :: "byte list \<Rightarrow> httpd_conn \<Rightarrow> httpd_conn option" where
  "httpdRedirect newUrl c =
     do { c1 \<leftarrow> httpdStartResponse 302 c;
          c2 \<leftarrow> httpdHeader (ascii ''Location'') newUrl c1;
          c3 \<leftarrow> httpdEndHeaders c2;
          send_all [ascii ''Moved to '', newUrl] c3 }"

section \<open>The CGI functions of the server\<close>

definition cgiRedirect :: "httpd_conn \<Rightarrow> (int \<times> httpd_conn) option" where
  "cgiRedirect c =
     (if hs_conn c = None then Some (HTTPD_CGI_DONE, c)
      else do { url \<leftarrow> hs_cgiArg c; c1 \<leftarrow> httpdRedirect url c; Some (HTTPD_CGI_DONE, c1) })"

definition cgiNotFound :: "httpd_conn \<Rightarrow> (int \<times> httpd_conn) option" where
  "cgiNotFound c =
     (if hs_conn c = None then Some (HTTPD_CGI_DONE, c)
      else do { c1 \<leftarrow> httpdStartResponse 404 c; c2 \<leftarrow> httpdEndHeaders c1;
                c3 \<leftarrow> send_all [ascii ''404 File not found.''] c2; Some (HTTPD_CGI_DONE, c3) })"

definition looks_like_ip :: "byte list \<Rightarrow> bool" where
  "looks_like_ip host \<longleftrightarrow> length host > 8 \<and> list_all (\<lambda>b. b = 0x2E \<or> (48 \<le> unat b \<and> unat b \<le> 57)) host"

definition cgiRedirectToHostname :: "(nat \<Rightarrow> bool) \<Rightarrow> httpd_conn \<Rightarrow> (int \<times> httpd_conn) option" where
  "cgiRedirectToHostname alloc c =
     (if hs_conn c = None then Some (HTTPD_CGI_DONE, c)
      else case hs_hostName c of
        None \<Rightarrow> Some (HTTPD_CGI_NOTFOUND, c)
      | Some h \<Rightarrow> do {
          host \<leftarrow> str_at (hs_head c) h;
          if looks_like_ip host then Some (HTTPD_CGI_NOTFOUND, c)
          else do {
            arg \<leftarrow> hs_cgiArg c;
            if host = arg then Some (HTTPD_CGI_NOTFOUND, c)
            else if \<not> alloc 333 then Some (HTTPD_CGI_DONE, c)
            else do { c1 \<leftarrow> httpdRedirect (ascii ''http://'' @ arg @ ascii ''/'') c; Some (HTTPD_CGI_DONE, c1) } } })"

definition cgiRedirectApClientToHostname :: "httpd_conn \<Rightarrow> (int \<times> httpd_conn) option" where
  "cgiRedirectApClientToHostname c = Some (HTTPD_CGI_NOTFOUND, c)"

type_synonym cgi_app = "nat \<Rightarrow> httpd_conn \<Rightarrow> (int \<times> httpd_conn) option"

fun run_cgi :: "(nat \<Rightarrow> bool) \<Rightarrow> cgi_app \<Rightarrow> cgi \<Rightarrow> httpd_conn \<Rightarrow> (int \<times> httpd_conn) option" where
  "run_cgi alloc app Cgi_NotFound c = cgiNotFound c"
| "run_cgi alloc app Cgi_Redirect c = cgiRedirect c"
| "run_cgi alloc app Cgi_RedirectToHostname c = cgiRedirectToHostname alloc c"
| "run_cgi alloc app Cgi_RedirectApClientToHostname c = cgiRedirectApClientToHostname c"
| "run_cgi alloc app (Cgi_App n) c = app n c"

section \<open>The end of a response\<close>

definition no_flags :: "httpd_conn \<Rightarrow> httpd_conn" where
  "no_flags c = c\<lparr>HFL_HTTP11 := False, HFL_CHUNKED := False, HFL_SENDINGBODY := False, HFL_DISCONAFTERSENT := False,
     HFL_NOCONNECTIONSTR := False\<rparr>"

definition httpdCgiIsDone :: "(nat \<Rightarrow> bool) \<Rightarrow> httpd_conn \<Rightarrow> httpd_conn option" where
  "httpdCgiIsDone alloc c =
     (let c0 = c\<lparr>hs_cgi := None\<rparr> in
      if HFL_CHUNKED c0
      then do { c1 \<leftarrow> httpdFlushSendBuffer alloc c0;
                Some ((no_flags c1)\<lparr>hs_headPos := 0, hs_hostName := None,
                  hs_post := (hs_post c1)\<lparr>po_len := -1, po_buff := None, po_buffLen := 0, po_received := 0\<rparr>\<rparr>) }
      else Some (c0\<lparr>HFL_DISCONAFTERSENT := True\<rparr>))"

text \<open>\<open>httpdContinue\<close> with the lock taken: the backlog first, then the end, then the CGI function.\<close>

definition continue_cgi :: "(nat \<Rightarrow> bool) \<Rightarrow> cgi_app \<Rightarrow> cgi \<Rightarrow> httpd_conn \<Rightarrow> httpd_conn option" where
  "continue_cgi alloc app g c =
     do { (r, c1) \<leftarrow> run_cgi alloc app g (c\<lparr>hs_sendBuff := Some (replicate HTTPD_MAX_SENDBUFF_LEN 0), hs_sendBuffLen := 0\<rparr>);
          c2 \<leftarrow> (if r = HTTPD_CGI_DONE \<or> r = HTTPD_CGI_NOTFOUND \<or> r = HTTPD_CGI_AUTHENTICATED
                then httpdCgiIsDone alloc c1 else Some c1);
          c3 \<leftarrow> httpdFlushSendBuffer alloc c2;
          Some (c3\<lparr>hs_sendBuff := None\<rparr>) }"

definition httpdContinue :: "(nat \<Rightarrow> bool) \<Rightarrow> cgi_app \<Rightarrow> httpd_conn \<Rightarrow> httpd_conn option" where
  "httpdContinue alloc app c =
     (case hs_sendBacklog c of
        d # rest \<Rightarrow> do {
          rc \<leftarrow> hs_conn c;
          Some (c\<lparr>hs_conn := Some (snd (httpdPlatSendData d rc)), hs_sendBacklog := rest,
            hs_sendBacklogSize := hs_sendBacklogSize c - int (length d)\<rparr>) }
      | [] \<Rightarrow>
          if HFL_DISCONAFTERSENT c then do { rc \<leftarrow> hs_conn c; Some (c\<lparr>hs_conn := Some (httpdPlatDisconnect rc)\<rparr>) }
          else case hs_cgi c of
            None \<Rightarrow> Some c
          | Some g \<Rightarrow> if alloc 511 then continue_cgi alloc app g c else Some c)"

definition httpdConnSendStart :: "(nat \<Rightarrow> bool) \<Rightarrow> httpd_conn \<Rightarrow> httpd_conn" where
  "httpdConnSendStart alloc c =
     (if alloc 721 then c\<lparr>hs_sendBuff := Some (replicate HTTPD_MAX_SENDBUFF_LEN 0), hs_sendBuffLen := 0\<rparr> else c)"

definition httpdConnSendFinish :: "(nat \<Rightarrow> bool) \<Rightarrow> httpd_conn \<Rightarrow> httpd_conn option" where
  "httpdConnSendFinish alloc c =
     do { c1 \<leftarrow> (if hs_conn c \<noteq> None then httpdFlushSendBuffer alloc c else Some c); Some (c1\<lparr>hs_sendBuff := None\<rparr>) }"

section \<open>What a response is on the wire\<close>

text \<open>The chunked coding of HTTP, read back: the data up to the last chunk, and what follows.\<close>

definition is_hex :: "byte \<Rightarrow> bool" where
  "is_hex c \<longleftrightarrow> (48 \<le> unat c \<and> unat c \<le> 57) \<or> (65 \<le> unat c \<and> unat c \<le> 70) \<or> (97 \<le> unat c \<and> unat c \<le> 102)"

definition chunk_size :: "byte list \<Rightarrow> nat" where
  "chunk_size ds = fold (\<lambda>d n. n * 16 + httpdHexVal d) ds 0"

function dechunk :: "byte list \<Rightarrow> (byte list \<times> byte list) option" where
  "dechunk s =
     (let ds = takeWhile is_hex s; r = drop (length ds) s; n = chunk_size ds; body = drop 2 r in
      if ds = [] \<or> take 2 r \<noteq> crlf then None
      else if n = 0 then if take 2 body = crlf then Some ([], drop 2 body) else None
      else if length body < n + 2 \<or> take 2 (drop n body) \<noteq> crlf then None
      else map_option (\<lambda>(x, t). (take n body @ x, t)) (dechunk (drop (n + 2) body)))"
  by pat_completeness auto
termination
  by (relation "measure length") auto

declare dechunk.simps [simp del]

text \<open>\<open>c'\<close> is \<open>c\<close> with the text \<open>x\<close> in its send buffer.\<close>

definition filled :: "httpd_conn \<Rightarrow> byte list \<Rightarrow> httpd_conn \<Rightarrow> bool" where
  "filled c x c' \<longleftrightarrow> (\<exists>b. length b = HTTPD_MAX_SENDBUFF_LEN \<and> take (length x) b = x \<and> length x \<le> HTTPD_MAX_SENDBUFF_LEN \<and>
     c' = c\<lparr>hs_sendBuff := Some b, hs_sendBuffLen := length x\<rparr>)"

lemma filled_text:
  assumes "length b = HTTPD_MAX_SENDBUFF_LEN" "take (length x) b = x" "length d = k" "length x + k \<le> HTTPD_MAX_SENDBUFF_LEN"
  shows "blit b (length x) d = Some (x @ d @ drop (length x + k) b)"
  using assms by (simp add: blit_def)

lemma filled_send:
  assumes "filled c x c1" "\<not> HFL_SENDINGBODY c \<or> \<not> HFL_CHUNKED c \<or> hs_chunkHdr c \<noteq> None" "hs_conn c \<noteq> None"
    and "length x + length d \<le> HTTPD_MAX_SENDBUFF_LEN"
  shows "\<exists>ok c2. httpdSend d c1 = Some (ok, c2) \<and> filled c (x @ d) c2"
proof -
  obtain b where b: "length b = HTTPD_MAX_SENDBUFF_LEN" "take (length x) b = x" "length x \<le> HTTPD_MAX_SENDBUFF_LEN"
    and c1: "c1 = c\<lparr>hs_sendBuff := Some b, hs_sendBuffLen := length x\<rparr>"
    using assms(1) by (auto simp: filled_def)
  show ?thesis
  proof (cases "d = []")
    case True
    then have "httpdSend d c1 = Some (False, c1) \<and> filled c (x @ d) c1" using assms(1) by (simp add: httpdSend_def)
    then show ?thesis by blast
  next
    case False
    have "start_chunk (length d) c1 = Some (Some c1)" using assms(2) by (auto simp: start_chunk_def c1)
    then have "httpdSend d c1 = Some (True, c\<lparr>hs_sendBuff := Some (x @ d @ drop (length x + length d) b),
        hs_sendBuffLen := length x + length d\<rparr>)"
      using False assms(3,4) filled_text [OF b(1,2) refl assms(4)] by (simp add: httpdSend_def c1)
    then show ?thesis
      using assms(4) b(1) by (auto simp: filled_def intro!: exI [of _ "x @ d @ drop (length x + length d) b"])
  qed
qed

lemma filled_send_all:
  assumes "filled c x c1" "\<not> HFL_SENDINGBODY c \<or> \<not> HFL_CHUNKED c \<or> hs_chunkHdr c \<noteq> None" "hs_conn c \<noteq> None"
    and "length x + length (concat ds) \<le> HTTPD_MAX_SENDBUFF_LEN"
  shows "\<exists>c2. send_all ds c1 = Some c2 \<and> filled c (x @ concat ds) c2"
  using assms(1,4)
proof (induction ds arbitrary: x c1)
  case Nil
  then show ?case by simp
next
  case (Cons d ds)
  from filled_send [OF Cons.prems(1) assms(2,3), of d] Cons.prems(2) obtain ok c2
    where "httpdSend d c1 = Some (ok, c2)" "filled c (x @ d) c2" by auto
  with Cons.IH [OF this(2)] Cons.prems(2) show ?case by simp
qed

text \<open>The first data of a chunked body opens a chunk.\<close>

definition chunk_head :: "byte list" where
  "chunk_head = ascii ''0000'' @ crlf"

lemma filled_start:
  assumes "filled c x c1" "HFL_SENDINGBODY c" "HFL_CHUNKED c" "hs_chunkHdr c = None" "hs_conn c \<noteq> None" "d \<noteq> []"
    and "length x + 6 + length d \<le> HTTPD_MAX_SENDBUFF_LEN"
  shows "\<exists>c2. httpdSend d c1 = Some (True, c2) \<and> filled (c\<lparr>hs_chunkHdr := Some (length x)\<rparr>) (x @ chunk_head @ d) c2"
proof -
  obtain b where b: "length b = HTTPD_MAX_SENDBUFF_LEN" "take (length x) b = x" "length x \<le> HTTPD_MAX_SENDBUFF_LEN"
    and c1: "c1 = c\<lparr>hs_sendBuff := Some b, hs_sendBuffLen := length x\<rparr>"
    using assms(1) by (auto simp: filled_def)
  let ?h = "ascii ''0000'' @ [0x0D, 0x0A, 0]"
  have h: "length ?h = 7" "length chunk_head = 6" by (simp_all add: chunk_head_def crlf_def ascii_def)
  define b1 where "b1 = x @ ?h @ drop (length x + 7) b"
  have "0 < length d" using assms(6) by simp
  then have k: "length x + 7 \<le> HTTPD_MAX_SENDBUFF_LEN" using assms(7) by linarith
  have bl: "blit b (length x) ?h = Some b1"
    unfolding b1_def using filled_text [OF b(1,2) h(1) k] by this
  have "start_chunk (length d) c1 = Some (Some (c\<lparr>hs_chunkHdr := Some (length x), hs_sendBuff := Some b1,
      hs_sendBuffLen := length x + 6\<rparr>))"
    using assms(2-4,7) bl by (simp add: start_chunk_def c1 del: append_Cons)
  moreover have l: "length b1 = HTTPD_MAX_SENDBUFF_LEN" using b(1) k by (simp add: b1_def ascii_def)
  moreover have t: "take (length (x @ chunk_head)) b1 = x @ chunk_head" by (simp add: b1_def chunk_head_def crlf_def ascii_def)
  moreover have bd: "blit b1 (length x + 6) d = Some ((x @ chunk_head) @ d @ drop (length x + 6 + length d) b1)"
    using filled_text [OF l t refl, of d] assms(7) by (simp add: h(2) add.assoc)
  ultimately have "httpdSend d c1 = Some (True, c\<lparr>hs_chunkHdr := Some (length x),
      hs_sendBuff := Some ((x @ chunk_head) @ d @ drop (length x + 6 + length d) b1), hs_sendBuffLen := length x + 6 + length d\<rparr>)"
    using assms(5-7) by (simp add: httpdSend_def c1)
  then show ?thesis
    using assms(7) l by (auto simp: filled_def h(2) intro!: exI [of _ "x @ chunk_head @ d @ drop (length x + 6 + length d) b1"])
qed

lemma filled_end:
  assumes "filled (c\<lparr>hs_chunkHdr := Some (length x)\<rparr>) (x @ chunk_head @ d) c1" "hs_conn c \<noteq> None"
    and "length x + 6 + length d + 2 \<le> HTTPD_MAX_SENDBUFF_LEN"
  shows "\<exists>c2. end_chunk c1 = Some c2 \<and> filled (c\<lparr>hs_chunkHdr := None\<rparr>) (x @ (chunk_digits (int (length d)) @ crlf) @ d @ crlf) c2"
proof -
  have h: "length chunk_head = 6" by (simp add: chunk_head_def crlf_def ascii_def)
  have hdr: "hs_chunkHdr c1 = Some (length x)" using assms(1) by (auto simp: filled_def)
  from filled_send [OF assms(1), of crlf] assms(2,3) h obtain ok c2
    where s: "httpdSend crlf c1 = Some (ok, c2)" "filled (c\<lparr>hs_chunkHdr := Some (length x)\<rparr>) ((x @ chunk_head @ d) @ crlf) c2"
    by (auto simp: crlf_def)
  then obtain b where b: "length b = HTTPD_MAX_SENDBUFF_LEN" "take (length x + 6 + length d + 2) b = x @ chunk_head @ d @ crlf"
    and c2: "c2 = c\<lparr>hs_chunkHdr := Some (length x), hs_sendBuff := Some b, hs_sendBuffLen := length x + 6 + length d + 2\<rparr>"
    by (auto simp: filled_def h crlf_def ac_simps)
  have dg: "length (chunk_digits n) = 4" for n by (simp add: chunk_digits_def)
  obtain r where r: "b = x @ chunk_head @ d @ crlf @ r" using b(2) append_take_drop_id [of "length x + 6 + length d + 2" b] by (metis append_assoc)
  define p where "p = x @ (chunk_digits (int (length d)) @ crlf) @ d @ crlf"
  have p: "length p = length x + 6 + length d + 2" by (simp add: p_def dg crlf_def)
  have "blit b (length x) (chunk_digits (int (length d))) = Some (p @ r)"
    using b(1) by (simp add: blit_def dg r p_def chunk_head_def crlf_def ascii_def)
  moreover have "int (length x + 6 + length d + 2) - int (length x) - 8 = int (length d)" by simp
  ultimately have e: "end_chunk c1 = Some (c\<lparr>hs_chunkHdr := None, hs_sendBuff := Some (p @ r), hs_sendBuffLen := length p\<rparr>)"
    using s(1) by (simp add: end_chunk_def hdr c2 p crlf_def [symmetric])
  have "length (p @ r) = HTTPD_MAX_SENDBUFF_LEN" using b(1) by (simp add: r p h crlf_def)
  then have "filled (c\<lparr>hs_chunkHdr := None\<rparr>) p (c\<lparr>hs_chunkHdr := None, hs_sendBuff := Some (p @ r), hs_sendBuffLen := length p\<rparr>)"
    unfolding filled_def by (intro exI [of _ "p @ r"]) simp
  with e show ?thesis unfolding p_def [symmetric] by blast
qed

lemma filled_last:
  assumes "filled c x c1" "HFL_SENDINGBODY c" "HFL_CHUNKED c" "hs_cgi c = None" "length x + 6 \<le> HTTPD_MAX_SENDBUFF_LEN"
  shows "\<exists>c2. last_chunk c1 = Some c2 \<and> filled c (x @ [0x30] @ crlf @ crlf) c2"
proof -
  obtain b where b: "length b = HTTPD_MAX_SENDBUFF_LEN" "take (length x) b = x"
    and c1: "c1 = c\<lparr>hs_sendBuff := Some b, hs_sendBuffLen := length x\<rparr>"
    using assms(1) by (auto simp: filled_def)
  have "blit b (length x) [0x30, 0x0D, 0x0A, 0x0D, 0x0A, 0] = Some (x @ [0x30, 0x0D, 0x0A, 0x0D, 0x0A, 0] @ drop (length x + 6) b)"
    using filled_text [OF b, of "[0x30, 0x0D, 0x0A, 0x0D, 0x0A, 0]" 6] assms(5) by (simp del: append_Cons)
  then have "last_chunk c1 = Some (c\<lparr>hs_sendBuff := Some (x @ [0x30, 0x0D, 0x0A, 0x0D, 0x0A, 0] @ drop (length x + 6) b), hs_sendBuffLen := length x + 5\<rparr>)"
    using assms(2-4) by (simp add: last_chunk_def c1 del: append_Cons)
  then show ?thesis
    using assms(5) b(1)
    by (auto simp: filled_def crlf_def intro!: exI [of _ "x @ [0x30, 0x0D, 0x0A, 0x0D, 0x0A, 0] @ drop (length x + 6) b"])
qed

lemma hex_nibble: "httpdHexVal (httpdHexNibble v) = nat (v mod 16)" "is_hex (httpdHexNibble v)"
proof -
  define k where "k = nat (v mod 16)"
  have "k < 16" by (simp add: k_def nat_less_iff)
  then have "k = 0 \<or> k = 1 \<or> k = 2 \<or> k = 3 \<or> k = 4 \<or> k = 5 \<or> k = 6 \<or> k = 7 \<or> k = 8 \<or> k = 9 \<or> k = 10 \<or>
      k = 11 \<or> k = 12 \<or> k = 13 \<or> k = 14 \<or> k = 15" by presburger
  then show "httpdHexVal (httpdHexNibble v) = nat (v mod 16)" "is_hex (httpdHexNibble v)"
    unfolding httpdHexNibble_def k_def [symmetric] Let_def by (elim disjE; simp add: httpdHexVal_def is_hex_def)+
qed

lemma chunk_digits_hex: "list_all is_hex (chunk_digits n)" "length (chunk_digits n) = 4"
  by (simp_all add: chunk_digits_def hex_nibble)

lemma chunk_digits_size:
  assumes "n < 2 ^ 16"
  shows "chunk_size (chunk_digits (int n)) = n"
proof -
  have "nat (int n div int m mod 16) = n div m mod 16" for m
  proof -
    have "int n div int m mod 16 = int (n div m mod 16)" by (simp add: zdiv_int zmod_int)
    then show ?thesis by simp
  qed
  from this [of 4096] this [of 256] this [of 16] this [of 1]
  have "chunk_size (chunk_digits (int n)) = ((n div 2 ^ 12 mod 16 * 16 + n div 2 ^ 8 mod 16) * 16 + n div 2 ^ 4 mod 16) * 16 + n mod 16"
    by (simp add: chunk_size_def chunk_digits_def hex_nibble)
  also have "\<dots> = n"
  proof -
    have d: "n div 256 = n div 16 div 16" "n div 4096 = n div 256 div 16" by (simp_all add: div_mult2_eq [symmetric])
    have "n div 4096 mod 16 = n div 4096" using assms by simp
    then show ?thesis
      using mod_mult_div_eq [of n 16] mod_mult_div_eq [of "n div 16" 16] mod_mult_div_eq [of "n div 256" 16] d by simp
  qed
  finally show ?thesis .
qed

lemma takeWhile_hex: "list_all is_hex ds \<Longrightarrow> takeWhile is_hex (ds @ 0x0D # r) = ds"
  by (induction ds) (simp_all add: is_hex_def)

lemma dechunk_last: "dechunk ([0x30] @ crlf @ crlf) = Some ([], [])"
  by (subst dechunk.simps) (simp add: Let_def crlf_def is_hex_def chunk_size_def httpdHexVal_def)

lemma dechunk_chunk:
  assumes "0 < length d" "length d < 2 ^ 16" "dechunk t = Some (x, y)"
  shows "dechunk ((chunk_digits (int (length d)) @ crlf) @ d @ crlf @ t) = Some (d @ x, y)"
proof -
  have tw: "takeWhile is_hex ((chunk_digits (int (length d)) @ crlf) @ d @ crlf @ t) = chunk_digits (int (length d))"
    using takeWhile_hex [OF chunk_digits_hex(1), of "int (length d)" "0x0A # d @ crlf @ t"] by (simp add: crlf_def)
  have ne: "chunk_digits (int (length d)) \<noteq> []" using chunk_digits_hex(2) [of "int (length d)"] by auto
  show ?thesis
    by (subst dechunk.simps, unfold tw Let_def chunk_digits_size [OF assms(2)])
      (use assms ne in \<open>simp add: crlf_def\<close>)
qed

lemma filled_body:
  assumes "filled c x c1" "HFL_SENDINGBODY c" "HFL_CHUNKED c" "hs_chunkHdr c = None" "hs_conn c \<noteq> None"
    and "length x + 6 + length (concat ds) \<le> HTTPD_MAX_SENDBUFF_LEN"
  shows "\<exists>c2. send_all ds c1 = Some c2 \<and>
     (if concat ds = [] then filled c x c2 else filled (c\<lparr>hs_chunkHdr := Some (length x)\<rparr>) (x @ chunk_head @ concat ds) c2)"
  using assms(6)
proof (induction ds)
  case Nil
  then show ?case using assms(1) by simp
next
  case (Cons d ds)
  show ?case
  proof (cases "d = []")
    case True
    have "httpdSend [] c1 = Some (False, c1)" by (simp add: httpdSend_def)
    then have "send_all (d # ds) c1 = send_all ds c1" "concat (d # ds) = concat ds" using True by simp_all
    then show ?thesis using Cons.IH Cons.prems by (simp only:)
  next
    case False
    have "length x + 6 + length d \<le> HTTPD_MAX_SENDBUFF_LEN" using Cons.prems by simp
    from filled_start [OF assms(1-5) False this] obtain c2
      where c2: "httpdSend d c1 = Some (True, c2)" "filled (c\<lparr>hs_chunkHdr := Some (length x)\<rparr>) (x @ chunk_head @ d) c2" by blast
    have "length (x @ chunk_head @ d) + length (concat ds) \<le> HTTPD_MAX_SENDBUFF_LEN"
      using Cons.prems by (simp add: chunk_head_def crlf_def ascii_def)
    from filled_send_all [OF c2(2) _ _ this] assms(5) obtain c3
      where "send_all ds c2 = Some c3" "filled (c\<lparr>hs_chunkHdr := Some (length x)\<rparr>) ((x @ chunk_head @ d) @ concat ds) c3" by auto
    with c2(1) False show ?thesis by simp
  qed
qed

section \<open>A whole response\<close>

text \<open>The way the CGI functions of the applications answer: a status, headers, the end of the headers, data.\<close>

fun send_headers :: "(byte list \<times> byte list) list \<Rightarrow> httpd_conn \<Rightarrow> httpd_conn option" where
  "send_headers [] c = Some c"
| "send_headers ((f, v) # hs) c = do { c1 \<leftarrow> httpdHeader f v c; send_headers hs c1 }"

definition cgi_respond :: "nat \<Rightarrow> (byte list \<times> byte list) list \<Rightarrow> byte list list \<Rightarrow> httpd_conn \<Rightarrow> (int \<times> httpd_conn) option" where
  "cgi_respond code hs ds c =
     do { c1 \<leftarrow> httpdStartResponse code c; c2 \<leftarrow> send_headers hs c1; c3 \<leftarrow> httpdEndHeaders c2; c4 \<leftarrow> send_all ds c3;
          Some (HTTPD_CGI_DONE, c4) }"

definition response_head :: "nat \<Rightarrow> (byte list \<times> byte list) list \<Rightarrow> httpd_conn \<Rightarrow> byte list" where
  "response_head code hs c = status_line code c @ concat (List.map (\<lambda>(f, v). f @ ascii '': '' @ v @ crlf) hs) @ crlf"

text \<open>A connection whose CGI function is about to answer, and one that waits for the next request.\<close>

definition answering :: "httpd_conn \<Rightarrow> bool" where
  "answering c \<longleftrightarrow> HFL_CHUNKED c \<and> \<not> HFL_SENDINGBODY c \<and> hs_chunkHdr c = None \<and>
     (case hs_conn c of None \<Rightarrow> False | Some rc \<Rightarrow> rc_writes rc = [])"

definition waiting :: "httpd_conn \<Rightarrow> bool" where
  "waiting c \<longleftrightarrow> hs_cgi c = None \<and> hs_headPos c = 0 \<and> po_len (hs_post c) = -1 \<and> po_received (hs_post c) = 0 \<and>
     po_buff (hs_post c) = None \<and> hs_hostName c = None \<and> hs_sendBuff c = None \<and> hs_sendBuffLen c = 0 \<and> hs_chunkHdr c = None \<and>
     no_flags c = c"

lemma filled_status:
  assumes "filled c x c1" "\<not> HFL_SENDINGBODY c" "hs_conn c \<noteq> None" "length (status_line code c) < 256"
    and "length x + length (status_line code c) \<le> HTTPD_MAX_SENDBUFF_LEN"
  shows "\<exists>c2. httpdStartResponse code c1 = Some c2 \<and> filled c (x @ status_line code c) c2"
proof -
  have "status_line code c1 = status_line code c" using assms(1) by (auto simp: filled_def status_line_def)
  moreover from filled_send [OF assms(1) _ assms(3,5)] assms(2) obtain ok c2
    where "httpdSend (status_line code c) c1 = Some (ok, c2)" "filled c (x @ status_line code c) c2" by blast
  ultimately show ?thesis using assms(4) by (simp add: httpdStartResponse_def)
qed

lemma filled_headers:
  assumes "filled c x c1" "\<not> HFL_SENDINGBODY c" "hs_conn c \<noteq> None"
    and "length x + length (concat (List.map (\<lambda>(f, v). f @ ascii '': '' @ v @ crlf) hs)) \<le> HTTPD_MAX_SENDBUFF_LEN"
  shows "\<exists>c2. send_headers hs c1 = Some c2 \<and> filled c (x @ concat (List.map (\<lambda>(f, v). f @ ascii '': '' @ v @ crlf) hs)) c2"
  using assms(1,4)
proof (induction hs arbitrary: x c1)
  case Nil
  then show ?case by simp
next
  case (Cons h hs)
  obtain f v where h: "h = (f, v)" by fastforce
  from filled_send_all [OF Cons.prems(1) _ assms(3), of "[f, ascii '': '', v, crlf]"] Cons.prems(2) assms(2) obtain c2
    where c2: "httpdHeader f v c1 = Some c2" "filled c (x @ f @ ascii '': '' @ v @ crlf) c2"
    by (auto simp: h httpdHeader_def)
  from Cons.IH [OF c2(2)] Cons.prems(2) c2(1) show ?case by (simp add: h)
qed

definition response_body :: "byte list \<Rightarrow> byte list" where
  "response_body d = (if d = [] then [] else (chunk_digits (int (length d)) @ crlf) @ d @ crlf) @ [0x30] @ crlf @ crlf"

lemma dechunk_response_body: "length d < 2 ^ 16 \<Longrightarrow> dechunk (response_body d) = Some (d, [])"
  using dechunk_chunk [OF _ _ dechunk_last, of d] dechunk_last by (auto simp: response_body_def)

lemma filled_respond:
  assumes "filled c [] c1" "answering c" "length (status_line code c) < 256"
    and "length (response_head code hs c) + 6 + length (concat ds) \<le> HTTPD_MAX_SENDBUFF_LEN"
  shows "\<exists>c2. cgi_respond code hs ds c1 = Some (HTTPD_CGI_DONE, c2) \<and>
     (if concat ds = [] then filled (c\<lparr>HFL_SENDINGBODY := True\<rparr>) (response_head code hs c) c2
      else filled (c\<lparr>HFL_SENDINGBODY := True, hs_chunkHdr := Some (length (response_head code hs c))\<rparr>)
             (response_head code hs c @ chunk_head @ concat ds) c2)"
proof -
  let ?hs = "concat (List.map (\<lambda>(f, v). f @ ascii '': '' @ v @ crlf) hs)"
  have c: "HFL_CHUNKED c" "\<not> HFL_SENDINGBODY c" "hs_chunkHdr c = None" "hs_conn c \<noteq> None"
    using assms(2) by (auto simp: answering_def split: option.splits)
  have l: "length (status_line code c) + length ?hs + length crlf + 6 + length (concat ds) \<le> HTTPD_MAX_SENDBUFF_LEN"
    using assms(4) by (simp add: response_head_def)
  from filled_status [OF assms(1) c(2,4) assms(3)] l obtain c2
    where c2: "httpdStartResponse code c1 = Some c2" "filled c (status_line code c) c2" by auto
  from filled_headers [OF c2(2) c(2,4), of hs] l obtain c3
    where c3: "send_headers hs c2 = Some c3" "filled c (status_line code c @ ?hs) c3" by auto
  from filled_send_all [OF c3(2) _ c(4), of "[crlf]"] l c(2) obtain c4
    where c4: "send_all [crlf] c3 = Some c4" "filled c (response_head code hs c) c4" by (auto simp: response_head_def)
  have "filled (c\<lparr>HFL_SENDINGBODY := True\<rparr>) (response_head code hs c) (c4\<lparr>HFL_SENDINGBODY := True\<rparr>)"
    using c4(2) by (auto simp: filled_def)
  from filled_body [OF this _ _ _ _ assms(4)] c obtain c5 where "send_all ds (c4\<lparr>HFL_SENDINGBODY := True\<rparr>) = Some c5"
      "if concat ds = [] then filled (c\<lparr>HFL_SENDINGBODY := True\<rparr>) (response_head code hs c) c5
       else filled (c\<lparr>HFL_SENDINGBODY := True, hs_chunkHdr := Some (length (response_head code hs c))\<rparr>)
             (response_head code hs c @ chunk_head @ concat ds) c5"
    by auto
  moreover have "httpdEndHeaders c3 = Some (c4\<lparr>HFL_SENDINGBODY := True\<rparr>)"
    using c4(1) by (simp add: httpdEndHeaders_def del: send_all.simps)
  ultimately have "cgi_respond code hs ds c1 = Some (HTTPD_CGI_DONE, c5)" using c2(1) c3(1) by (simp add: cgi_respond_def)
  with \<open>if concat ds = [] then filled _ _ c5 else filled _ _ c5\<close> show ?thesis by blast
qed

text \<open>The flush at the end closes the open chunk, appends the last one and writes everything.\<close>

lemma filled_flush:
  assumes "filled c x c1" "hs_conn c = Some rc" "rc_writes rc = []" "x \<noteq> []" "hs_chunkHdr c = None" "HFL_CHUNKED c"
    "HFL_SENDINGBODY c" "hs_cgi c = None" "length x + 6 \<le> HTTPD_MAX_SENDBUFF_LEN"
  shows "\<exists>b. length b = HTTPD_MAX_SENDBUFF_LEN \<and> (do { c2 \<leftarrow> last_chunk c1; send_or_keep alloc c2 }) =
     Some (c\<lparr>hs_conn := Some (rc\<lparr>rc_needWriteDoneNotif := True, rc_wire := rc_wire rc @ x @ [0x30] @ crlf @ crlf\<rparr>),
       hs_sendBuff := Some b, hs_sendBuffLen := 0\<rparr>)"
proof -
  from filled_last [OF assms(1,7,6,8,9)] obtain c2 where c2: "last_chunk c1 = Some c2" "filled c (x @ [0x30] @ crlf @ crlf) c2" by blast
  then obtain b where b: "length b = HTTPD_MAX_SENDBUFF_LEN" "take (length (x @ [0x30] @ crlf @ crlf)) b = x @ [0x30] @ crlf @ crlf"
      "length (x @ [0x30] @ crlf @ crlf) \<le> HTTPD_MAX_SENDBUFF_LEN"
      "c2 = c\<lparr>hs_sendBuff := Some b, hs_sendBuffLen := length (x @ [0x30] @ crlf @ crlf)\<rparr>"
    by (auto simp: filled_def)
  have "send_or_keep alloc c2 = Some (c\<lparr>hs_conn := Some (rc\<lparr>rc_needWriteDoneNotif := True, rc_wire := rc_wire rc @ x @ [0x30] @ crlf @ crlf\<rparr>),
       hs_sendBuff := Some b, hs_sendBuffLen := 0\<rparr>)"
    using b(1-3) assms(2,3) unfolding b(4) send_or_keep_def httpdPlatSendData_def by (simp add: Let_def)
  then show ?thesis using b(1) c2(1) by auto
qed

lemma filled_no_cgi: "filled c x c1 \<Longrightarrow> filled (c\<lparr>hs_cgi := None\<rparr>) x (c1\<lparr>hs_cgi := None\<rparr>)"
  unfolding filled_def by (erule exE, rename_tac b, rule_tac x = b in exI) simp

lemma respond_flushed:
  assumes "filled c [] c1" "answering c" "hs_conn c = Some rc" "length (status_line code c) < 256"
    and "length (response_head code hs c) + length (concat ds) + 14 \<le> HTTPD_MAX_SENDBUFF_LEN"
  shows "\<exists>c2 b. cgi_respond code hs ds c1 = Some (HTTPD_CGI_DONE, c2) \<and> httpdFlushSendBuffer alloc (c2\<lparr>hs_cgi := None\<rparr>) =
     Some (c\<lparr>HFL_SENDINGBODY := True, hs_cgi := None,
       hs_conn := Some (rc\<lparr>rc_needWriteDoneNotif := True,
         rc_wire := rc_wire rc @ response_head code hs c @ response_body (concat ds)\<rparr>),
       hs_sendBuff := Some b, hs_sendBuffLen := 0\<rparr>)"
proof -
  let ?h = "response_head code hs c" and ?d = "concat ds"
  let ?c = "c\<lparr>HFL_SENDINGBODY := True, hs_cgi := None\<rparr>"
  have c: "HFL_CHUNKED c" "hs_chunkHdr c = None" "rc_writes rc = []"
    using assms(2,3) by (auto simp: answering_def)
  have ne: "?h \<noteq> []" by (simp add: response_head_def crlf_def)
  obtain c2 where c2: "cgi_respond code hs ds c1 = Some (HTTPD_CGI_DONE, c2)"
      "if ?d = [] then filled (c\<lparr>HFL_SENDINGBODY := True\<rparr>) ?h c2
       else filled (c\<lparr>HFL_SENDINGBODY := True, hs_chunkHdr := Some (length ?h)\<rparr>) (?h @ chunk_head @ ?d) c2"
    using filled_respond [OF assms(1,2,4), of hs ds] assms(5) by auto
  let ?x = "?h @ (if ?d = [] then [] else (chunk_digits (int (length ?d)) @ crlf) @ ?d @ crlf)"
  have "\<exists>c3. end_chunk (c2\<lparr>hs_cgi := None\<rparr>) = Some c3 \<and> filled ?c ?x c3"
  proof (cases "?d = []")
    case True
    then have f: "filled (c\<lparr>HFL_SENDINGBODY := True\<rparr>) ?h c2" using c2(2) by simp
    then have "end_chunk (c2\<lparr>hs_cgi := None\<rparr>) = Some (c2\<lparr>hs_cgi := None\<rparr>)" using c(2) by (auto simp: filled_def end_chunk_def)
    then show ?thesis using filled_no_cgi [OF f] True by auto
  next
    case False
    then have "filled (c\<lparr>HFL_SENDINGBODY := True, hs_chunkHdr := Some (length ?h)\<rparr>) (?h @ chunk_head @ ?d) c2"
      using c2(2) by (simp only: if_False)
    from filled_no_cgi [OF this]
    moreover have "c\<lparr>HFL_SENDINGBODY := True, hs_chunkHdr := Some (length ?h)\<rparr>\<lparr>hs_cgi := None\<rparr> = ?c\<lparr>hs_chunkHdr := Some (length ?h)\<rparr>"
      by simp
    ultimately have "filled (?c\<lparr>hs_chunkHdr := Some (length ?h)\<rparr>) (?h @ chunk_head @ ?d) (c2\<lparr>hs_cgi := None\<rparr>)" by (simp only:)
    from filled_end [OF this] assms(3,5)
    have "\<exists>c3. end_chunk (c2\<lparr>hs_cgi := None\<rparr>) = Some c3 \<and>
        filled (?c\<lparr>hs_chunkHdr := None\<rparr>) (?h @ (chunk_digits (int (length ?d)) @ crlf) @ ?d @ crlf) c3" by simp
    moreover have "?c\<lparr>hs_chunkHdr := None\<rparr> = ?c" using c(2) by simp
    ultimately show ?thesis using False by (simp only: if_False)
  qed
  then obtain c3 where c3: "end_chunk (c2\<lparr>hs_cgi := None\<rparr>) = Some c3" "filled ?c ?x c3" by blast
  have lx: "length ?x + 6 \<le> HTTPD_MAX_SENDBUFF_LEN" using assms(5) by (simp add: chunk_digits_hex(2) crlf_def)
  have xe: "?x @ [0x30] @ crlf @ crlf = ?h @ response_body ?d" by (simp add: response_body_def)
  obtain b where "do { c4 \<leftarrow> last_chunk c3; send_or_keep alloc c4 } = Some (?c\<lparr>hs_conn := Some (rc\<lparr>rc_needWriteDoneNotif := True,
         rc_wire := rc_wire rc @ ?x @ [0x30] @ crlf @ crlf\<rparr>), hs_sendBuff := Some b, hs_sendBuffLen := 0\<rparr>)"
    using filled_flush [OF c3(2) _ c(3) _ _ _ _ _ lx, of alloc] ne assms(3) c(1,2) by auto
  note this [unfolded xe]
  moreover obtain rc' where "hs_conn (c2\<lparr>hs_cgi := None\<rparr>) = Some rc'" using c2(2) assms(3) by (auto simp: filled_def split: if_splits)
  ultimately have "httpdFlushSendBuffer alloc (c2\<lparr>hs_cgi := None\<rparr>) = Some (?c\<lparr>hs_conn := Some (rc\<lparr>rc_needWriteDoneNotif := True,
         rc_wire := rc_wire rc @ ?h @ response_body ?d\<rparr>), hs_sendBuff := Some b, hs_sendBuffLen := 0\<rparr>)"
    using c3(1) by (simp add: httpdFlushSendBuffer_def)
  with c2(1) show ?thesis by blast
qed

text \<open>The connection behind a response that was put on the wire.\<close>

definition answered :: "httpd_conn \<Rightarrow> rtos_conn \<Rightarrow> byte list \<Rightarrow> byte list \<Rightarrow> httpd_conn" where
  "answered c rc x b =
     (no_flags c)\<lparr>hs_cgi := None, hs_conn := Some (rc\<lparr>rc_needWriteDoneNotif := True, rc_wire := rc_wire rc @ x\<rparr>),
       hs_sendBuff := Some b, hs_sendBuffLen := 0, hs_headPos := 0, hs_hostName := None,
       hs_post := (hs_post c)\<lparr>po_len := -1, po_buff := None, po_buffLen := 0, po_received := 0\<rparr>\<rparr>"

lemma respond_done:
  assumes "filled c [] c1" "answering c" "hs_conn c = Some rc" "length (status_line code c) < 256"
    and "length (response_head code hs c) + length (concat ds) + 14 \<le> HTTPD_MAX_SENDBUFF_LEN"
  shows "\<exists>c2 b. cgi_respond code hs ds c1 = Some (HTTPD_CGI_DONE, c2) \<and>
     httpdCgiIsDone alloc c2 = Some (answered c rc (response_head code hs c @ response_body (concat ds)) b)"
proof -
  have c: "HFL_CHUNKED c" using assms(2) by (simp add: answering_def)
  from respond_flushed [OF assms, of alloc] obtain c2 b where c2: "cgi_respond code hs ds c1 = Some (HTTPD_CGI_DONE, c2)"
      "httpdFlushSendBuffer alloc (c2\<lparr>hs_cgi := None\<rparr>) =
         Some (c\<lparr>HFL_SENDINGBODY := True, hs_cgi := None,
           hs_conn := Some (rc\<lparr>rc_needWriteDoneNotif := True,
             rc_wire := rc_wire rc @ response_head code hs c @ response_body (concat ds)\<rparr>),
           hs_sendBuff := Some b, hs_sendBuffLen := 0\<rparr>)" by blast
  have "HFL_CHUNKED c2"
    using filled_respond [OF assms(1,2,4), of hs ds] assms(5) c2(1) c by (auto simp: filled_def split: if_splits)
  then have "httpdCgiIsDone alloc c2 = Some (answered c rc (response_head code hs c @ response_body (concat ds)) b)"
    using c2(2) by (simp add: httpdCgiIsDone_def no_flags_def answered_def Let_def)
  with c2(1) show ?thesis by blast
qed

lemma answered_flush: "hs_chunkHdr c = None \<Longrightarrow> httpdFlushSendBuffer alloc (answered c rc x b) = Some (answered c rc x b)"
  by (simp add: httpdFlushSendBuffer_def end_chunk_def last_chunk_def send_or_keep_def answered_def no_flags_def)

lemma chunked_response:
  assumes "answering c" "hs_conn c = Some rc" "app n = cgi_respond code hs ds" "length (status_line code c) < 256"
    and "length (response_head code hs c) + length (concat ds) + 14 \<le> HTTPD_MAX_SENDBUFF_LEN"
  shows "\<exists>c' rc'. continue_cgi alloc app (Cgi_App n) c = Some c' \<and> waiting c' \<and> hs_conn c' = Some rc' \<and>
     rc_wire rc' = rc_wire rc @ response_head code hs c @ response_body (concat ds)"
proof -
  let ?z = "replicate HTTPD_MAX_SENDBUFF_LEN (0 :: byte)" and ?x = "response_head code hs c @ response_body (concat ds)"
  have z: "filled c [] (c\<lparr>hs_sendBuff := Some ?z, hs_sendBuffLen := 0\<rparr>)"
    unfolding filled_def by (rule exI [of _ ?z]) simp
  have c: "hs_chunkHdr c = None" using assms(1) by (simp add: answering_def)
  from respond_done [OF z assms(1,2,4,5), of alloc] obtain c2 b
    where "cgi_respond code hs ds (c\<lparr>hs_sendBuff := Some ?z, hs_sendBuffLen := 0\<rparr>) = Some (HTTPD_CGI_DONE, c2)"
      "httpdCgiIsDone alloc c2 = Some (answered c rc ?x b)" by blast
  then have "continue_cgi alloc app (Cgi_App n) c = Some ((answered c rc ?x b)\<lparr>hs_sendBuff := None\<rparr>)"
    by (simp add: continue_cgi_def assms(3) answered_flush [OF c])
  moreover have "waiting ((answered c rc ?x b)\<lparr>hs_sendBuff := None\<rparr>)" using c by (simp add: waiting_def answered_def no_flags_def)
  moreover have "hs_conn ((answered c rc ?x b)\<lparr>hs_sendBuff := None\<rparr>) =
      Some (rc\<lparr>rc_needWriteDoneNotif := True, rc_wire := rc_wire rc @ ?x\<rparr>)" by (simp add: answered_def)
  ultimately show ?thesis by fastforce
qed

text \<open>The answers of the server itself have this form.\<close>

lemma cgiNotFound_responds:
  "hs_conn c \<noteq> None \<Longrightarrow> cgiNotFound c = cgi_respond 404 [] [ascii ''404 File not found.''] c"
  by (auto simp: cgiNotFound_def cgi_respond_def simp del: send_all.simps)

lemma httpdRedirect_responds:
  "map_option (\<lambda>c'. (HTTPD_CGI_DONE, c')) (httpdRedirect u c) =
     cgi_respond 302 [(ascii ''Location'', u)] [ascii ''Moved to '', u] c"
  by (simp add: httpdRedirect_def cgi_respond_def map_conv_bind_option comp_def del: send_all.simps)

text \<open>
  C7. A CGI function that answers a request on a persistent connection is put on the wire whole and readable: when
  \<open>httpdContinue\<close> calls a function that starts a response, sends headers, ends them and sends data in any pieces, and
  head and data fit the send buffer with the 14 bytes of the framing, then the socket receives the status line, the headers and an
  empty line, followed by a body whose chunked coding reads back as the concatenation of the pieces with nothing after it; the
  connection then waits for the next request with its flags, head and POST data cleared and no send buffer.
\<close>

theorem chunked_response_read_back:
  assumes "answering c" "hs_conn c = Some rc" "app n = cgi_respond code hs ds" "length (status_line code c) < 256"
    and "length (response_head code hs c) + length (concat ds) + 14 \<le> HTTPD_MAX_SENDBUFF_LEN"
  shows "\<exists>c' rc' body. continue_cgi alloc app (Cgi_App n) c = Some c' \<and> waiting c' \<and> hs_conn c' = Some rc' \<and>
     rc_wire rc' = rc_wire rc @ response_head code hs c @ body \<and> dechunk body = Some (concat ds, [])"
proof -
  have "length (concat ds) < 2 ^ 16" using assms(5) by simp
  with chunked_response [of c rc app n code hs ds alloc, OF assms] show ?thesis using dechunk_response_body by blast
qed

definition sample_conn :: httpd_conn where
  "sample_conn =
     \<lparr>hs_context = 0,
      hs_conn = Some \<lparr>rc_fd = 7, rc_needWriteDoneNotif = False, rc_needsClose = False, rc_port = 4000, rc_ip = [10, 0, 0, 2],
        rc_writes = [], rc_wire = []\<rparr>,
      hs_requestType = HTTPD_METHOD_GET, hs_url = Some 4, hs_getArgs = None, hs_cgiArg = None, hs_cgiData = 0, hs_hostName = None,
      hs_cgi = Some (Cgi_App 1), hs_recvHdl = None,
      hs_post = \<lparr>po_len = 0, po_buffSize = 0, po_buffLen = 0, po_received = 0, po_buff = None, po_boundary = None\<rparr>,
      hs_remote_port = 4000, hs_remote_ip = [10, 0, 0, 2], hs_head = replicate 1024 0, hs_headPos = 0, hs_sendBuff = None,
      hs_sendBuffLen = 0, hs_chunkHdr = None, hs_sendBacklog = [], hs_sendBacklogSize = 0, HFL_HTTP11 = True, HFL_CHUNKED = True,
      HFL_SENDINGBODY = False, HFL_DISCONAFTERSENT = False, HFL_NOCONNECTIONSTR = False\<rparr>"

lemma sample_status: "length (status_line 200 sample_conn) = 70"
  by (simp add: status_line_def sample_conn_def decimal.simps crlf_def ascii_def)

theorem chunked_response_read_back_witness:
  "\<exists>c' rc' body. continue_cgi (\<lambda>_. True) (\<lambda>n. cgi_respond 200 [] [ascii ''Hello, '', [], ascii ''speaker'']) (Cgi_App 1) sample_conn = Some c' \<and>
     waiting c' \<and> hs_conn c' = Some rc' \<and>
     rc_wire rc' = rc_wire (the (hs_conn sample_conn)) @ response_head 200 [] sample_conn @ body \<and>
     dechunk body = Some (concat [ascii ''Hello, '', [], ascii ''speaker''], [])"
  by (rule chunked_response_read_back)
    (simp_all add: sample_status response_head_def crlf_def ascii_def, simp_all add: sample_conn_def answering_def)

section \<open>A send buffer that is too full\<close>

lemma end_chunk_length:
  assumes "end_chunk c = Some c1" "hs_chunkHdr c = Some h" "hs_conn c \<noteq> None" "hs_sendBuff c = Some b"
  shows "\<exists>b1. hs_sendBuff c1 = Some b1 \<and> length b1 = length b" "hs_cgi c1 = hs_cgi c" "HFL_CHUNKED c1 = HFL_CHUNKED c"
    "HFL_SENDINGBODY c1 = HFL_SENDINGBODY c"
    "hs_sendBuffLen c1 = (if hs_sendBuffLen c + 2 \<le> HTTPD_MAX_SENDBUFF_LEN then hs_sendBuffLen c + 2 else hs_sendBuffLen c)"
  using assms
  by (auto simp: end_chunk_def httpdSend_def start_chunk_def bind_eq_Some_conv blit_length split: if_splits)

lemma flush_overruns:
  assumes "hs_chunkHdr c = Some h" "hs_conn c \<noteq> None" "hs_sendBuff c = Some b" "length b = HTTPD_MAX_SENDBUFF_LEN" "hs_cgi c = None"
    "HFL_CHUNKED c" "HFL_SENDINGBODY c" "hs_sendBuffLen c + 8 > HTTPD_MAX_SENDBUFF_LEN"
  shows "httpdFlushSendBuffer alloc c = None"
proof (cases "end_chunk c")
  case None
  then show ?thesis using assms(2) by (simp add: httpdFlushSendBuffer_def)
next
  case (Some c1)
  note e = end_chunk_length [OF Some assms(1-3)]
  have "last_chunk c1 = None"
    using e assms(4-8) by (auto simp: last_chunk_def blit_def)
  then show ?thesis using assms(2) Some by (simp add: httpdFlushSendBuffer_def)
qed

text \<open>
  C37. The bound of the previous property is sharp, and nothing tells the CGI function: when head and data fit the send buffer
  with the 6 bytes of the chunk's start, so that every \<open>httpdSend\<close> accepts its piece, but not with the 8 more bytes of the end of
  the chunk and of the last chunk, the flush after the function copies the last chunk over the end of the send buffer.
\<close>

theorem full_response_overruns:
  assumes "answering c" "app n = cgi_respond code hs ds" "length (status_line code c) < 256" "concat ds \<noteq> []"
    and "length (response_head code hs c) + 6 + length (concat ds) \<le> HTTPD_MAX_SENDBUFF_LEN"
    and "length (response_head code hs c) + 14 + length (concat ds) > HTTPD_MAX_SENDBUFF_LEN"
  shows "run_cgi alloc app (Cgi_App n) (c\<lparr>hs_sendBuff := Some (replicate HTTPD_MAX_SENDBUFF_LEN 0), hs_sendBuffLen := 0\<rparr>) \<noteq> None \<and>
     continue_cgi alloc app (Cgi_App n) c = None"
proof -
  let ?h = "response_head code hs c" and ?z = "replicate HTTPD_MAX_SENDBUFF_LEN (0 :: byte)"
  have z: "filled c [] (c\<lparr>hs_sendBuff := Some ?z, hs_sendBuffLen := 0\<rparr>)"
    unfolding filled_def by (rule exI [of _ ?z]) simp
  obtain c2 where c2: "cgi_respond code hs ds (c\<lparr>hs_sendBuff := Some ?z, hs_sendBuffLen := 0\<rparr>) = Some (HTTPD_CGI_DONE, c2)"
      "filled (c\<lparr>HFL_SENDINGBODY := True, hs_chunkHdr := Some (length ?h)\<rparr>) (?h @ chunk_head @ concat ds) c2"
    using filled_respond [OF z assms(1,3,5)] assms(4) by (auto simp del: concat_eq_Nil_conv)
  obtain b where b: "length b = HTTPD_MAX_SENDBUFF_LEN" "c2 = c\<lparr>HFL_SENDINGBODY := True, hs_chunkHdr := Some (length ?h),
      hs_sendBuff := Some b, hs_sendBuffLen := length (?h @ chunk_head @ concat ds)\<rparr>"
    using c2(2) by (auto simp: filled_def)
  have "length (?h @ chunk_head @ concat ds) + 8 > HTTPD_MAX_SENDBUFF_LEN"
    using assms(6) by (simp add: chunk_head_def crlf_def ascii_def)
  then have "httpdFlushSendBuffer alloc (c2\<lparr>hs_cgi := None\<rparr>) = None"
    using assms(1) b(1) by (intro flush_overruns [where b = b and h = "length ?h"]) (auto simp: b(2) answering_def split: option.splits)
  moreover have "HFL_CHUNKED c2" using assms(1) by (simp add: b(2) answering_def)
  ultimately have "httpdCgiIsDone alloc c2 = None" by (simp add: httpdCgiIsDone_def Let_def)
  then show ?thesis using c2(1) by (simp add: continue_cgi_def assms(2))
qed

theorem full_response_overruns_witness:
  "run_cgi (\<lambda>_. True) (\<lambda>n. cgi_respond 200 [] [replicate 8114 0x41]) (Cgi_App 1)
       (sample_conn\<lparr>hs_sendBuff := Some (replicate HTTPD_MAX_SENDBUFF_LEN 0), hs_sendBuffLen := 0\<rparr>) \<noteq> None \<and>
     continue_cgi (\<lambda>_. True) (\<lambda>n. cgi_respond 200 [] [replicate 8114 0x41]) (Cgi_App 1) sample_conn = None"
  by (rule full_response_overruns [where code = 200 and hs = "[]" and ds = "[replicate 8114 0x41]"])
    (simp_all add: sample_status response_head_def crlf_def ascii_def, simp_all add: sample_conn_def answering_def)

end
