(* ===== verification/Web_Forms.thy ===== *)
theory Web_Forms
  imports Httpd Dd_Http
begin

text \<open>
  Two components that never call each other but speak one language: the encoding that \<open>URLEncode\<close> of the speech client writes
  (theory \<open>Dd_Http\<close>) and the reader of the HTTP server, \<open>httpdUrlDecode\<close> and \<open>httpdFindArg\<close> (theory \<open>Httpd\<close>).
\<close>

section \<open>One encoded value\<close>

lemma hex_val_upper: "n < 16 \<Longrightarrow> httpdHexVal (upper_hex n) = n"
  using unat_upper_hex [of n] by (simp add: httpdHexVal_def)

lemma percent_value: "of_nat (httpdHexVal (upper_hex (unat c div 16)) * 16 + httpdHexVal (upper_hex (unat c mod 16))) = (c :: byte)"
proof -
  have "unat c < 256" using unsigned_less [of c] by simp
  then have "unat c div 16 < 16" by (simp add: less_mult_imp_div_less)
  then show ?thesis by (simp add: hex_val_upper del: of_nat_add of_nat_mult)
qed

lemma decode_byte:
  assumes "d < retLen" "wr ret d c = Some r"
  shows "url_decode_loop (url_byte c @ s) 0 ev d retLen ret = (if url_plain c \<or> url_mark c \<or> c = 0x20 then url_decode_loop s 0 ev (d + 1) retLen r
    else url_decode_loop s 0 (httpdHexVal (upper_hex (unat c div 16)) * 16 + httpdHexVal (upper_hex (unat c mod 16))) (d + 1) retLen r)"
proof -
  have "(if c = 0x2B then 0x20 else c) = c" if "url_plain c \<or> url_mark c"
    using that url_plain_safe [of c] url_mark_safe [of c] by auto
  then show ?thesis
    using assms url_plain_safe [of c] url_mark_safe [of c] percent_value [of c]
    by (auto simp: url_byte_def percent_def simp del: of_nat_add of_nat_mult)
qed

lemma decode_encoding:
  assumes "d + length s < retLen" "retLen \<le> length ret"
  shows "url_decode_loop (url_encoding s) 0 ev d retLen ret = Some (d + length s, take d ret @ s @ drop (d + length s) ret)"
  using assms
proof (induction s arbitrary: d ret ev)
  case Nil
  then show ?case by simp
next
  case (Cons c s)
  define r where "r = ret[d := c]"
  have w: "wr ret d c = Some r" using Cons.prems by (simp add: wr_def r_def)
  have l: "d + 1 + length s < retLen" "retLen \<le> length r" using Cons.prems by (simp_all add: r_def)
  have e: "take (d + 1) r @ s @ drop (d + 1 + length s) r = take d ret @ (c # s) @ drop (d + length (c # s)) ret"
    using Cons.prems by (simp add: r_def take_Suc_conv_app_nth)
  have "url_decode_loop (url_encoding (c # s)) 0 ev d retLen ret = Some (d + 1 + length s, take (d + 1) r @ s @ drop (d + 1 + length s) r)"
    using decode_byte [OF _ w, of retLen "url_encoding s" ev] Cons.IH [OF l] Cons.prems(1) by simp
  then show ?case unfolding e by simp
qed

section \<open>Forms\<close>

text \<open>A form: encoded values under their names.\<close>

fun form :: "(byte list \<times> byte list) list \<Rightarrow> byte list" where
  "form [] = []"
| "form [(k, v)] = k @ 0x3D # url_encoding v"
| "form ((k, v) # f # fs) = k @ 0x3D # url_encoding v @ 0x26 # form (f # fs)"

definition form_name :: "byte list \<Rightarrow> bool" where
  "form_name k \<longleftrightarrow> k \<noteq> [] \<and> list_all (\<lambda>b. b \<noteq> 0x3D \<and> b \<noteq> 0x26 \<and> b \<noteq> 0x0A \<and> b \<noteq> 0x0D) k"

lemma takeWhile_upto: "y \<notin> set x \<Longrightarrow> takeWhile (\<lambda>b. b \<noteq> y) (x @ y # r) = x" "y \<notin> set x \<Longrightarrow> takeWhile (\<lambda>b. b \<noteq> y) x = x"
  by (induction x) auto

lemma dropWhile_upto: "y \<notin> set x \<Longrightarrow> dropWhile (\<lambda>b. b \<noteq> y) (x @ y # r) = y # r" "y \<notin> set x \<Longrightarrow> dropWhile (\<lambda>b. b \<noteq> y) x = []"
  by (induction x) auto

lemma upper_hex_not_amp: "n < 16 \<Longrightarrow> upper_hex n \<noteq> 0x26"
proof
  assume "n < 16" "upper_hex n = 0x26"
  then have "unat (upper_hex n) = 38" by simp
  with unat_upper_hex [OF \<open>n < 16\<close>] show False by (simp split: if_splits)
qed

lemma encoding_no_amp: "0x26 \<notin> set (url_encoding v)"
proof (induction v)
  case (Cons c v)
  have "unat c < 256" using unsigned_less [of c] by simp
  then have "unat c div 16 < 16" by (simp add: less_mult_imp_div_less)
  moreover have "c \<noteq> 0x26" if "url_plain c \<or> url_mark c" using that by (auto simp: url_plain_def url_mark_def)
  ultimately show ?case
    using Cons upper_hex_not_amp [of "unat c div 16"] upper_hex_not_amp [of "unat c mod 16"]
    by (auto simp: url_byte_def percent_def)
qed simp

lemma decode_value:
  assumes "length v < n" "n \<le> length buff"
  shows "httpdUrlDecode (url_encoding v) buff n = Some (length v, v @ 0 # drop (length v + 1) buff)"
  using assms decode_encoding [of 0 v n buff 0] by (simp add: httpdUrlDecode_def wr_def list_update_append Cons_nth_drop_Suc [symmetric])

lemma name_split:
  assumes "form_name k" "form_name arg"
  shows "take (length arg) (k @ 0x3D # r) = arg \<and> take 1 (drop (length arg) (k @ 0x3D # r)) = [0x3D] \<longleftrightarrow> k = arg"
proof
  assume a: "take (length arg) (k @ 0x3D # r) = arg \<and> take 1 (drop (length arg) (k @ 0x3D # r)) = [0x3D]"
  then obtain t where t: "drop (length arg) (k @ 0x3D # r) = 0x3D # t"
    using a by (cases "drop (length arg) (k @ 0x3D # r)") (simp_all only: take_Suc_Cons take0 One_nat_def list.inject take_Nil, blast+)
  have "k @ 0x3D # r = arg @ 0x3D # t" using a append_take_drop_id [of "length arg" "k @ 0x3D # r"] t by argo
  then have "takeWhile (\<lambda>b. b \<noteq> 0x3D) (k @ 0x3D # r) = takeWhile (\<lambda>b. b \<noteq> 0x3D) (arg @ 0x3D # t)" by simp
  moreover have "0x3D \<notin> set k" "0x3D \<notin> set arg" using assms by (auto simp: form_name_def list_all_iff)
  ultimately show "k = arg" by (simp add: takeWhile_upto)
qed simp

text \<open>A pair, alone or with pairs behind it.\<close>

definition behind :: "byte list \<Rightarrow> byte list" where
  "behind t = (if t = [] then [] else 0x26 # t)"

lemma form_Cons: "form ((k, v) # fs) = k @ 0x3D # url_encoding v @ behind (form fs)"
proof (cases fs)
  case (Cons f gs)
  obtain k' v' where "f = (k', v')" by fastforce
  then have "form (f # gs) \<noteq> []" by (cases gs) auto
  then show ?thesis by (simp add: behind_def Cons)
qed (simp add: behind_def)

lemma value_ends: "before_amp (url_encoding v @ behind t) = url_encoding v"
  using encoding_no_amp [of v] by (auto simp: before_amp_def behind_def takeWhile_upto)

lemma pair_ends: "form_name k \<Longrightarrow> after_amp (k @ 0x3D # url_encoding v @ behind t) = (if t = [] then None else Some t)"
proof -
  assume "form_name k"
  then have "0x26 \<notin> set (k @ 0x3D # url_encoding v)" using encoding_no_amp [of v] by (auto simp: form_name_def list_all_iff)
  from dropWhile_upto [OF this] show ?thesis by (auto simp: after_amp_def behind_def)
qed

lemma find_form:
  assumes "\<forall>(k, v) \<in> set fs. form_name k \<and> length v < n" "form_name arg" "n \<le> length buff"
  shows "find_arg_loop (form fs) arg buff n =
    Some (case map_of fs arg of None \<Rightarrow> (-1, buff) | Some v \<Rightarrow> (int (length v), v @ 0 # drop (length v + 1) buff))"
  using assms(1)
proof (induction fs)
  case Nil
  then show ?case by (simp add: find_arg_loop.simps)
next
  case (Cons f fs)
  obtain k v where f: "f = (k, v)" by fastforce
  let ?p = "k @ 0x3D # url_encoding v @ behind (form fs)"
  have k: "form_name k" "length v < n" using Cons.prems by (auto simp: f)
  then have p: "\<not> (?p = [] \<or> hd ?p = 0x0A \<or> hd ?p = 0x0D)" by (cases k) (auto simp: form_name_def)
  note split = name_split [OF k(1) assms(2), of "url_encoding v @ behind (form fs)"]
  show ?case
  proof (cases "k = arg")
    case True
    have "drop (length arg + 1) ?p = url_encoding v @ behind (form fs)" by (simp add: True)
    then show ?thesis
      using True p split decode_value [OF k(2) assms(3)] by (subst find_arg_loop.simps) (simp add: f form_Cons value_ends)
  next
    case False
    then have "find_arg_loop ?p arg buff n =
        (case after_amp ?p of None \<Rightarrow> Some (-1, buff) | Some r \<Rightarrow> find_arg_loop r arg buff n)"
      using p split by (subst find_arg_loop.simps) (simp only: if_False)
    also have "\<dots> = find_arg_loop (form fs) arg buff n"
      by (simp add: pair_ends [OF k(1)] find_arg_loop.simps [of "[]"])
    finally show ?thesis using False Cons by (simp add: f form_Cons)
  qed
qed

text \<open>
  C19. The server finds a field of a form: in a body or a query of pairs, names in plain characters and values in the encoding
  of \<open>URLEncode\<close>, joined by ampersands, \<open>httpdFindArg\<close> yields the value of the first pair with the name asked for, decoded,
  its length and a terminator behind it, and -1 with the buffer unchanged when there is no such pair; values may hold any bytes
  and must be shorter than the buffer.
\<close>

theorem form_field_read:
  assumes "\<forall>(k, v) \<in> set fs. form_name k \<and> length v < n" "form_name arg" "n \<le> length buff"
  shows "httpdFindArg (Some (form fs)) arg buff n =
    Some (case map_of fs arg of None \<Rightarrow> (-1, buff) | Some v \<Rightarrow> (int (length v), v @ 0 # drop (length v + 1) buff))"
  using find_form [OF assms] by (simp add: httpdFindArg_def)

theorem form_field_read_witness:
  "httpdFindArg (Some (form [(ascii ''a'', ascii ''1''), (ascii ''text'', ascii ''50% & more'')])) (ascii ''text'') (replicate 12 0) 12 =
    Some (10, ascii ''50% & more'' @ [0, 0])"
proof -
  let ?fs = "[(ascii ''a'', ascii ''1''), (ascii ''text'', ascii ''50% & more'')]"
  have "httpdFindArg (Some (form ?fs)) (ascii ''text'') (replicate 12 0) 12 =
      Some (case map_of ?fs (ascii ''text'') of None \<Rightarrow> (-1, replicate 12 0)
        | Some v \<Rightarrow> (int (length v), v @ 0 # drop (length v + 1) (replicate 12 0)))"
    by (rule form_field_read) (simp_all add: form_name_def ascii_def)
  also have "\<dots> = Some (10, ascii ''50% & more'' @ [0, 0])" by (simp add: ascii_def)
  finally show ?thesis .
qed

end
