(* ===== verification/Httpd_Recv.thy ===== *)
theory Httpd_Recv
  imports Httpd
begin

text \<open>
  The HTTP server, receiving: the parser of a head, the choice of the CGI function, the bytes of \<open>httpdRecvCb\<close>, the
  pool of connections and the callbacks of the platform, and one service of a slot by its task
  (\<open>httpd/httpd.c\<close>, \<open>httpd/httpd-freertos.c\<close>).

  \<open>urls\<close> is the list of the built-in URLs in the order of the tree, \<open>app\<close> the CGI functions of the application and
  \<open>rapp\<close> its receive handlers. The loop over CGI functions that decline need not end; it is a partial function.
\<close>

section \<open>Parsing a line of the head\<close>

record builtin_url =
  bu_url :: "byte list"
  bu_cgi :: cgi
  bu_cgiArg :: "byte list option"
  bu_context :: nat

definition starts :: "byte list \<Rightarrow> byte list \<Rightarrow> bool" where
  "starts p s \<longleftrightarrow> take (length p) s = p"

text \<open>\<open>strstr\<close> from an offset of an object, as an offset.\<close>

definition find_at :: "byte list \<Rightarrow> nat \<Rightarrow> byte list \<Rightarrow> nat option option" where
  "find_at mem p needle =
     do { s \<leftarrow> str_at mem p;
          Some (case strstr s needle of None \<Rightarrow> None | Some r \<Rightarrow> Some (p + (length s - length r))) }"

text \<open>\<open>atoi\<close>: undefined when the number does not fit.\<close>

definition atoi_digits :: "byte list \<Rightarrow> int" where
  "atoi_digits s = fold (\<lambda>d n. n * 10 + int (unat (d - 0x30))) (takeWhile (\<lambda>d. 0x30 \<le> d \<and> d \<le> 0x39) s) 0"

definition atoi :: "byte list \<Rightarrow> int option" where
  "atoi s =
     (let t = dropWhile (\<lambda>b. b = 0x20 \<or> (9 \<le> unat b \<and> unat b \<le> 13)) s;
          n = (case t of [] \<Rightarrow> 0
               | b # r \<Rightarrow> if b = 0x2D then - atoi_digits r else if b = 0x2B then atoi_digits r else atoi_digits t)
      in if - (2 ^ 31) \<le> n \<and> n < 2 ^ 31 then Some n else None)"

text \<open>The methods, in the order of the tests; the last two compare 13 characters, without the space.\<close>

definition method_lines :: "(byte list \<times> httpd_method) list" where
  "method_lines =
     [(ascii ''SUBSCRIBE '', HTTPD_METHOD_SUB), (ascii ''UNSUBSCRIBE '', HTTPD_METHOD_UNSUB),
      (ascii ''NOTIFY '', HTTPD_METHOD_NOTIFY), (ascii ''GET '', HTTPD_METHOD_GET), (ascii ''POST '', HTTPD_METHOD_POST),
      (ascii ''ANNOUNCE '', HTTPD_METHOD_ANNOUNCE), (ascii ''RECORD '', HTTPD_METHOD_RECORD),
      (ascii ''SETUP '', HTTPD_METHOD_SETUP), (ascii ''PAUSE '', HTTPD_METHOD_PAUSE), (ascii ''FLUSH '', HTTPD_METHOD_FLUSH),
      (ascii ''TEARDOWN '', HTTPD_METHOD_TEARDOWN), (ascii ''OPTIONS '', HTTPD_METHOD_OPTIONS),
      (ascii ''GET_PARAMETER'', HTTPD_METHOD_GET_PARAMETER), (ascii ''SET_PARAMETER'', HTTPD_METHOD_SET_PARAMETER)]"

definition method_of :: "byte list \<Rightarrow> httpd_method option" where
  "method_of line = map_option snd (first_with (\<lambda>m. starts (fst m) line) method_lines)"

text \<open>The first line: the URL, the protocol and the arguments; the separators are overwritten with terminators.\<close>

definition parse_first :: "nat \<Rightarrow> httpd_conn \<Rightarrow> httpd_conn option" where
  "parse_first h c =
     do { i \<leftarrow> scan (\<lambda>b. b = 0x20) (hs_head c) h;
          let u = i + 1;
          let c1 = c\<lparr>hs_url := Some u\<rparr>;
          sp \<leftarrow> find_at (hs_head c) u [0x20];
          case sp of
            None \<Rightarrow> Some c1
          | Some e \<Rightarrow> do {
              m \<leftarrow> wr (hs_head c) e 0;
              p \<leftarrow> scan (\<lambda>b. b \<noteq> 0x20) m (e + 1);
              proto \<leftarrow> str_at m p;
              let c2 = (if lower proto = lower (ascii ''HTTP/1.1'') \<or> method_num (hs_requestType c) \<ge> 5
                        then c1\<lparr>HFL_HTTP11 := True, HFL_CHUNKED := True\<rparr> else c1);
              qm \<leftarrow> find_at m u [0x3F];
              case qm of
                None \<Rightarrow> Some (c2\<lparr>hs_head := m, hs_getArgs := None\<rparr>)
              | Some q \<Rightarrow> do { m' \<leftarrow> wr m q 0; Some (c2\<lparr>hs_head := m', hs_getArgs := Some (q + 1)\<rparr>) } } }"

definition parse_connection :: "nat \<Rightarrow> httpd_conn \<Rightarrow> httpd_conn option" where
  "parse_connection h c =
     do { i \<leftarrow> scan (\<lambda>b. b \<noteq> 0x20) (hs_head c) (h + 11);
          v \<leftarrow> str_at (hs_head c) i;
          Some (if starts (ascii ''close'') v then c\<lparr>HFL_CHUNKED := False\<rparr> else c) }"

text \<open>The buffer of the body has at most 2048 bytes and one more; a negative length asks for a huge one.\<close>

definition parse_length :: "(nat \<Rightarrow> bool) \<Rightarrow> nat \<Rightarrow> httpd_conn \<Rightarrow> httpd_conn option" where
  "parse_length alloc h c =
     do { i \<leftarrow> scan (\<lambda>b. b \<noteq> 0x20) (hs_head c) (h + 15);
          v \<leftarrow> str_at (hs_head c) i;
          n \<leftarrow> atoi v;
          let size = (if n > int HTTPD_MAX_POST_LEN then int HTTPD_MAX_POST_LEN else n);
          let po = (hs_post c)\<lparr>po_len := n, po_buffSize := size\<rparr>;
          Some (c\<lparr>hs_post := if alloc 696 \<and> size + 1 \<ge> 0 then po\<lparr>po_buff := Some (replicate (nat (size + 1)) 0), po_buffLen := 0\<rparr>
                             else po\<lparr>po_buff := None\<rparr>\<rparr>) }"

definition parse_type :: "nat \<Rightarrow> httpd_conn \<Rightarrow> httpd_conn option" where
  "parse_type h c =
     do { f \<leftarrow> find_at (hs_head c) h (ascii ''multipart/form-data'');
          b \<leftarrow> find_at (hs_head c) h (ascii ''boundary='');
          case (f, b) of
            (Some _, Some b) \<Rightarrow> do { m \<leftarrow> blit (hs_head c) (b + 7) [0x2D, 0x2D];
                                     Some (c\<lparr>hs_head := m, hs_post := (hs_post c)\<lparr>po_boundary := Some (b + 7)\<rparr>\<rparr>) }
          | _ \<Rightarrow> Some c }"

definition httpdParseHeader :: "(nat \<Rightarrow> bool) \<Rightarrow> nat \<Rightarrow> httpd_conn \<Rightarrow> httpd_conn option" where
  "httpdParseHeader alloc h c =
     do { line \<leftarrow> str_at (hs_head c) h;
          case method_of line of
            Some m \<Rightarrow> parse_first h (c\<lparr>hs_requestType := m\<rparr>)
          | None \<Rightarrow>
              if starts (ascii ''Host:'') line
              then do { i \<leftarrow> scan (\<lambda>b. b \<noteq> 0x20) (hs_head c) (h + 5); Some (c\<lparr>hs_hostName := Some i\<rparr>) }
              else if starts (ascii ''Connection:'') line then parse_connection h c
              else if starts (ascii ''Content-Length:'') line then parse_length alloc h c
              else if starts (ascii ''Content-Type: '') line then parse_type h c
              else Some c }"

section \<open>Choosing the CGI function\<close>

definition url_matches :: "byte list \<Rightarrow> byte list \<Rightarrow> bool option" where
  "url_matches u s =
     (if u = [] then None else Some (u = s \<or> (last u = 0x2A \<and> starts (butlast u) s)))"

fun find_url :: "builtin_url list \<Rightarrow> byte list \<Rightarrow> builtin_url option option" where
  "find_url [] s = Some None"
| "find_url (b # bs) s = do { m \<leftarrow> url_matches (bu_url b) s; if m then Some (Some b) else find_url bs s }"

text \<open>One turn of the loop of \<open>httpdProcessRequest\<close>: \<open>Inl\<close> when it returns, \<open>Inr\<close> when it goes on.\<close>

definition choose_cgi :: "builtin_url list \<Rightarrow> byte list \<Rightarrow> httpd_conn \<Rightarrow> (cgi \<times> httpd_conn) option" where
  "choose_cgi urls s c =
     do { b \<leftarrow> find_url urls s;
          Some (case b of
                  None \<Rightarrow> (Cgi_NotFound, c\<lparr>hs_cgi := Some Cgi_NotFound\<rparr>)
                | Some b \<Rightarrow> (bu_cgi b, c\<lparr>hs_cgiData := 0, hs_cgi := Some (bu_cgi b), hs_cgiArg := bu_cgiArg b,
                                        hs_context := bu_context b\<rparr>)) }"

definition process_round ::
  "(nat \<Rightarrow> bool) \<Rightarrow> cgi_app \<Rightarrow> builtin_url list \<Rightarrow> httpd_conn \<Rightarrow> (httpd_conn + httpd_conn) option" where
  "process_round alloc app urls c =
     do { u \<leftarrow> hs_url c;
          s \<leftarrow> str_at (hs_head c) u;
          (g, c1) \<leftarrow> choose_cgi urls s c;
          (r, c2) \<leftarrow> run_cgi alloc app g c1;
          if r = HTTPD_CGI_MORE then map_option Inl (httpdFlushSendBuffer alloc c2)
          else if r = HTTPD_CGI_DONE then map_option Inl (httpdCgiIsDone alloc c2)
          else Some (Inr c2) }"

partial_function (option) process_loop ::
  "(nat \<Rightarrow> bool) \<Rightarrow> cgi_app \<Rightarrow> builtin_url list \<Rightarrow> httpd_conn \<Rightarrow> httpd_conn option" where
  "process_loop alloc app urls c =
     Option.bind (process_round alloc app urls c)
       (\<lambda>r. case r of Inl c1 \<Rightarrow> Some c1 | Inr c1 \<Rightarrow> process_loop alloc app urls c1)"

definition httpdProcessRequest :: "(nat \<Rightarrow> bool) \<Rightarrow> cgi_app \<Rightarrow> builtin_url list \<Rightarrow> httpd_conn \<Rightarrow> httpd_conn option" where
  "httpdProcessRequest alloc app urls c = (if hs_url c = None then Some c else process_loop alloc app urls c)"

section \<open>The bytes of a request\<close>

text \<open>The lines of the head, from \<open>p\<close> up to \<open>fin\<close>, the position four bytes before the end of the head.\<close>

function parse_lines :: "(nat \<Rightarrow> bool) \<Rightarrow> nat \<Rightarrow> nat \<Rightarrow> httpd_conn \<Rightarrow> httpd_conn option" where
  "parse_lines alloc fin p c =
     (if \<not> p < fin then Some c
      else do {
        e \<leftarrow> find_at (hs_head c) p crlf;
        case e of
          None \<Rightarrow> Some c
        | Some e \<Rightarrow> do {
            m \<leftarrow> wr (hs_head c) e 0;
            c1 \<leftarrow> httpdParseHeader alloc p (c\<lparr>hs_head := m\<rparr>);
            parse_lines alloc fin (e + 2) c1 } })"
  by pat_completeness auto
termination
  by (relation "measure (\<lambda>(_, fin, p, _). fin - p)")
    (auto simp: find_at_def bind_eq_Some_conv split: option.splits)

declare parse_lines.simps [simp del]

definition put_head :: "byte \<Rightarrow> httpd_conn \<Rightarrow> httpd_conn option" where
  "put_head b c = do { m \<leftarrow> wr (hs_head c) (hs_headPos c) b; Some (c\<lparr>hs_head := m, hs_headPos := hs_headPos c + 1\<rparr>) }"

text \<open>A byte of the head: a line feed without a carriage return gets one, and the head is terminated behind the byte.\<close>

definition fake_cr :: "byte \<Rightarrow> httpd_conn \<Rightarrow> httpd_conn option" where
  "fake_cr b c =
     (if b = 0x0A \<and> hs_headPos c \<noteq> 0
      then do { l \<leftarrow> rd (hs_head c) (hs_headPos c - 1); if l \<noteq> 0x0D then put_head 0x0D c else Some c }
      else Some c)"

definition store_head :: "byte \<Rightarrow> httpd_conn \<Rightarrow> httpd_conn option" where
  "store_head b c =
     do { c1 \<leftarrow> fake_cr b c;
          c2 \<leftarrow> (if hs_headPos c1 \<noteq> HTTPD_MAX_HEAD_LEN then put_head b c1 else Some c1);
          m \<leftarrow> wr (hs_head c2) (hs_headPos c2) 0;
          Some (c2\<lparr>hs_head := m\<rparr>) }"

text \<open>The end of the head, when the last byte is a line feed and an empty line is in it.\<close>

definition head_ends :: "byte \<Rightarrow> httpd_conn \<Rightarrow> bool option" where
  "head_ends b c = (if b \<noteq> 0x0A then Some False else map_option (\<lambda>e. e \<noteq> None) (find_at (hs_head c) 0 (crlf @ crlf)))"

definition head_done :: "(nat \<Rightarrow> bool) \<Rightarrow> cgi_app \<Rightarrow> builtin_url list \<Rightarrow> httpd_conn \<Rightarrow> httpd_conn option" where
  "head_done alloc app urls c =
     do { c1 \<leftarrow> parse_lines alloc (hs_headPos c - 4) 0 (c\<lparr>hs_post := (hs_post c)\<lparr>po_len := 0\<rparr>, hs_url := None\<rparr>);
          if po_len (hs_post c1) = 0 then httpdProcessRequest alloc app urls c1 else Some c1 }"

definition recv_head :: "(nat \<Rightarrow> bool) \<Rightarrow> cgi_app \<Rightarrow> builtin_url list \<Rightarrow> byte \<Rightarrow> httpd_conn \<Rightarrow> httpd_conn option" where
  "recv_head alloc app urls b c =
     do { c1 \<leftarrow> store_head b c; e \<leftarrow> head_ends b c1; if e then head_done alloc app urls c1 else Some c1 }"

text \<open>A byte of the body; a full buffer, or the end of the body, is handed to the CGI function.\<close>

definition post_done :: "(nat \<Rightarrow> bool) \<Rightarrow> cgi_app \<Rightarrow> builtin_url list \<Rightarrow> httpd_conn \<Rightarrow> httpd_conn option" where
  "post_done alloc app urls c =
     do { c1 \<leftarrow> (case hs_cgi c of
                  Some g \<Rightarrow> do { (r, c1) \<leftarrow> run_cgi alloc app g c; if r = HTTPD_CGI_DONE then httpdCgiIsDone alloc c1 else Some c1 }
                | None \<Rightarrow> httpdProcessRequest alloc app urls c);
          Some (c1\<lparr>hs_post := (hs_post c1)\<lparr>po_buffLen := 0\<rparr>\<rparr>) }"

definition recv_post :: "(nat \<Rightarrow> bool) \<Rightarrow> cgi_app \<Rightarrow> builtin_url list \<Rightarrow> byte \<Rightarrow> httpd_conn \<Rightarrow> httpd_conn option" where
  "recv_post alloc app urls b c =
     do { let po = hs_post c;
          buff \<leftarrow> po_buff po;
          buff1 \<leftarrow> wr buff (po_buffLen po) b;
          let po1 = po\<lparr>po_buff := Some buff1, po_buffLen := po_buffLen po + 1, po_received := po_received po + 1\<rparr>;
          let c1 = c\<lparr>hs_post := po1, hs_hostName := None\<rparr>;
          if int (po_buffLen po1) \<ge> po_buffSize po1 \<or> po_received po1 = po_len po1
          then do { buff2 \<leftarrow> wr buff1 (po_buffLen po1) 0;
                    post_done alloc app urls (c1\<lparr>hs_post := po1\<lparr>po_buff := Some buff2\<rparr>\<rparr>) }
          else Some c1 }"

type_synonym recv_app = "nat \<Rightarrow> byte list \<Rightarrow> httpd_conn \<Rightarrow> (int \<times> httpd_conn) option"

text \<open>Bytes nobody waits for are printed as a string, from the beginning of the receive buffer.\<close>

fun recv_loop ::
  "(nat \<Rightarrow> bool) \<Rightarrow> cgi_app \<Rightarrow> recv_app \<Rightarrow> builtin_url list \<Rightarrow> byte list \<Rightarrow> byte list \<Rightarrow> httpd_conn \<Rightarrow> httpd_conn option" where
  "recv_loop alloc app rapp urls buf [] c = Some c"
| "recv_loop alloc app rapp urls buf (b # bs) c =
     (if po_len (hs_post c) < 0
      then do { c1 \<leftarrow> recv_head alloc app urls b c; recv_loop alloc app rapp urls buf bs c1 }
      else if po_len (hs_post c) \<noteq> 0
      then do { c1 \<leftarrow> recv_post alloc app urls b c; recv_loop alloc app rapp urls buf bs c1 }
      else case hs_recvHdl c of
        Some h \<Rightarrow> do { (r, c1) \<leftarrow> rapp h (b # bs) c; if r = HTTPD_CGI_DONE then httpdCgiIsDone alloc c1 else Some c1 }
      | None \<Rightarrow> do { _ \<leftarrow> c_str buf; recv_loop alloc app rapp urls buf bs c })"

text \<open>One receive on a connection that was found, with memory for the send buffer.\<close>

definition recv_conn ::
  "(nat \<Rightarrow> bool) \<Rightarrow> cgi_app \<Rightarrow> recv_app \<Rightarrow> builtin_url list \<Rightarrow> byte list \<Rightarrow> nat \<Rightarrow> httpd_conn \<Rightarrow> httpd_conn option" where
  "recv_conn alloc app rapp urls buf len c =
     do { c1 \<leftarrow> recv_loop alloc app rapp urls buf (take len buf) (c\<lparr>hs_sendBuff := Some (replicate HTTPD_MAX_SENDBUFF_LEN 0), hs_sendBuffLen := 0\<rparr>);
          c2 \<leftarrow> httpdFlushSendBuffer alloc c1;
          Some (c2\<lparr>hs_sendBuff := None\<rparr>) }"

section \<open>The pool of connections\<close>

text \<open>
  A slot without POST data is what a failed allocation leaves behind: its address and port are still zero. The lock is recursive;
  \<open>hd_lock\<close> counts how often the server's task holds it.
\<close>

datatype slot = Slot_Free | Slot_NoPost | Slot_Conn httpd_conn

record httpd =
  hd_pool :: "slot list"
  hd_urls :: "builtin_url list"
  hd_init :: bool
  hd_port :: int
  hd_lock :: nat

fun slot_is :: "int \<Rightarrow> byte list \<Rightarrow> slot \<Rightarrow> bool" where
  "slot_is port ip Slot_Free = False"
| "slot_is port ip Slot_NoPost = (port = 0 \<and> ip = [0, 0, 0, 0])"
| "slot_is port ip (Slot_Conn c) = (hs_remote_port c = port \<and> hs_remote_ip c = ip)"

fun first_slot :: "(slot \<Rightarrow> bool) \<Rightarrow> slot list \<Rightarrow> nat option" where
  "first_slot P [] = None"
| "first_slot P (s # ss) = (if P s then Some 0 else map_option Suc (first_slot P ss))"

text \<open>The slot and its connection, which now points to the platform's connection.\<close>

definition httpdFindConnData :: "rtos_conn \<Rightarrow> httpd \<Rightarrow> (nat \<times> httpd_conn) option option" where
  "httpdFindConnData rc d =
     (case first_slot (slot_is (rc_port rc) (rc_ip rc)) (hd_pool d) of
        None \<Rightarrow> Some None
      | Some i \<Rightarrow> (case hd_pool d ! i of Slot_Conn c \<Rightarrow> Some (Some (i, c\<lparr>hs_conn := Some rc\<rparr>)) | _ \<Rightarrow> None))"

text \<open>A callback gives back the platform's connection as the connection of the pool left it.\<close>

definition put_slot :: "nat \<Rightarrow> httpd_conn \<Rightarrow> rtos_conn \<Rightarrow> httpd \<Rightarrow> rtos_conn \<times> httpd" where
  "put_slot i c rc d = (case hs_conn c of None \<Rightarrow> rc | Some rc' \<Rightarrow> rc', d\<lparr>hd_pool := (hd_pool d)[i := Slot_Conn c]\<rparr>)"

definition httpdRecvCb ::
  "(nat \<Rightarrow> bool) \<Rightarrow> cgi_app \<Rightarrow> recv_app \<Rightarrow> byte list \<Rightarrow> nat \<Rightarrow> rtos_conn \<Rightarrow> httpd \<Rightarrow> (rtos_conn \<times> httpd) option" where
  "httpdRecvCb alloc app rapp buf len rc d =
     (if \<not> alloc 742 then Some (rc, d)
      else do {
        f \<leftarrow> httpdFindConnData rc d;
        case f of
          None \<Rightarrow> Some (httpdPlatDisconnect rc, d)
        | Some (i, c) \<Rightarrow> do { c1 \<leftarrow> recv_conn alloc app rapp (hd_urls d) buf len c; Some (put_slot i c1 rc d) } })"

text \<open>Without a connection \<open>httpdContinue\<close> returns with the lock taken.\<close>

definition httpdSentCb :: "(nat \<Rightarrow> bool) \<Rightarrow> cgi_app \<Rightarrow> rtos_conn \<Rightarrow> httpd \<Rightarrow> (rtos_conn \<times> httpd) option" where
  "httpdSentCb alloc app rc d =
     do { f \<leftarrow> httpdFindConnData rc d;
          case f of
            None \<Rightarrow> Some (httpdPlatDisconnect rc, d\<lparr>hd_lock := hd_lock d + 1\<rparr>)
          | Some (i, c) \<Rightarrow> do { c1 \<leftarrow> httpdContinue alloc app c; Some (put_slot i c1 rc d) } }"

definition httpdRetireConn :: "nat \<Rightarrow> httpd \<Rightarrow> httpd" where
  "httpdRetireConn i d = d\<lparr>hd_pool := (hd_pool d)[i := Slot_Free]\<rparr>"

definition httpdDisconCb :: "(nat \<Rightarrow> bool) \<Rightarrow> cgi_app \<Rightarrow> rtos_conn \<Rightarrow> httpd \<Rightarrow> (rtos_conn \<times> httpd) option" where
  "httpdDisconCb alloc app rc d =
     do { f \<leftarrow> httpdFindConnData rc d;
          case f of
            None \<Rightarrow> Some (httpdPlatDisconnect rc, d)
          | Some (i, c) \<Rightarrow> do {
              _ \<leftarrow> (case hs_cgi c of None \<Rightarrow> Some (0, c) | Some g \<Rightarrow> run_cgi alloc app g (c\<lparr>hs_conn := None\<rparr>));
              Some (rc, httpdRetireConn i d) } }"

definition new_conn :: "rtos_conn \<Rightarrow> httpd_conn" where
  "new_conn rc =
     \<lparr>hs_context = 0, hs_conn = Some rc, hs_requestType = HTTPD_METHOD_NONE, hs_url = None, hs_getArgs = None, hs_cgiArg = None,
      hs_cgiData = 0, hs_hostName = None, hs_cgi = None, hs_recvHdl = None,
      hs_post = \<lparr>po_len = -1, po_buffSize = 0, po_buffLen = 0, po_received = 0, po_buff = None, po_boundary = None\<rparr>,
      hs_remote_port = rc_port rc, hs_remote_ip = rc_ip rc, hs_head = replicate HTTPD_MAX_HEAD_LEN 0, hs_headPos = 0,
      hs_sendBuff = None, hs_sendBuffLen = 0, hs_chunkHdr = None, hs_sendBacklog = [], hs_sendBacklogSize = 0,
      HFL_HTTP11 = False, HFL_CHUNKED = False, HFL_SENDINGBODY = False, HFL_DISCONAFTERSENT = False, HFL_NOCONNECTIONSTR = False\<rparr>"

definition httpdConnectCb :: "(nat \<Rightarrow> bool) \<Rightarrow> rtos_conn \<Rightarrow> httpd \<Rightarrow> (int \<times> httpd) option" where
  "httpdConnectCb alloc rc d =
     (case first_slot (\<lambda>s. s = Slot_Free) (hd_pool d) of
        None \<Rightarrow> Some (0, d)
      | Some i \<Rightarrow>
          if \<not> alloc 864 then Some (0, d)
          else if \<not> alloc 871 then None
          else if \<not> alloc 876 then Some (0, d\<lparr>hd_pool := (hd_pool d)[i := Slot_NoPost]\<rparr>)
          else Some (1, d\<lparr>hd_pool := (hd_pool d)[i := Slot_Conn (new_conn rc)]\<rparr>))"

definition httpdInit :: "int \<Rightarrow> httpd \<Rightarrow> httpd" where
  "httpdInit port d =
     (if hd_init d then d
      else d\<lparr>hd_init := True, hd_pool := replicate HTTPD_MAX_CONNECTIONS Slot_Free, hd_urls := [], hd_port := port\<rparr>)"

definition httpdAddRouter :: "builtin_url list \<Rightarrow> nat \<Rightarrow> httpd \<Rightarrow> httpd" where
  "httpdAddRouter router context d =
     (let d1 = httpdInit 80 d in d1\<lparr>hd_urls := hd_urls d1 @ map (\<lambda>b. b\<lparr>bu_context := context\<rparr>) router\<rparr>)"

end
