(* ===== verification/Httpd_Answer.thy ===== *)
theory Httpd_Answer
  imports Httpd_Recv
begin

text \<open>
  The way of a request through the HTTP server: what \<open>httpdRecvCb\<close> does with the bytes of a head in any pieces, how the
  head is parsed, which function is called, and what reaches the socket.
\<close>

section \<open>Strings at an offset\<close>

lemma str_at_text: "length A = p \<Longrightarrow> 0 \<notin> set s \<Longrightarrow> str_at (A @ s @ 0 # Z) p = Some s"
  by (simp add: str_at_def c_str_append)

lemma find_at_text:
  "length A = p \<Longrightarrow> 0 \<notin> set s \<Longrightarrow>
     find_at (A @ s @ 0 # Z) p needle = Some (case strstr s needle of None \<Rightarrow> None | Some r \<Rightarrow> Some (p + (length s - length r)))"
  by (simp add: find_at_def str_at_text)

lemma strstr_char: "y \<notin> set x \<Longrightarrow> strstr (x @ y # z) [y] = Some (y # z)" "y \<notin> set x \<Longrightarrow> strstr x [y] = None"
  by (induction x) auto

lemma strstr_crlf: "0x0D \<notin> set l \<Longrightarrow> strstr (l @ crlf @ r) crlf = Some (crlf @ r)"
  by (induction l) (auto simp: crlf_def)

lemma wr_middle: "length A = p \<Longrightarrow> wr (A @ y # Z) p v = Some (A @ v # Z)"
  by (auto simp: wr_def)

lemma scan_at:
  assumes "length A = p" "list_all (\<lambda>b. \<not> P b) s" "P y"
  shows "scan P (A @ s @ y # Z) p = Some (p + length s)"
  using assms by (simp add: scan_def Let_def list_all_iff)

section \<open>The text of a head\<close>

definition head_lines :: "byte list list \<Rightarrow> byte list" where
  "head_lines ls = concat (List.map (\<lambda>l. l @ crlf) ls) @ crlf"

definition line_text :: "byte list \<Rightarrow> bool" where
  "line_text l \<longleftrightarrow> l \<noteq> [] \<and> 0 \<notin> set l \<and> 0x0D \<notin> set l \<and> 0x0A \<notin> set l"

lemma head_lines_simps [simp]: "head_lines [] = crlf" "head_lines (l # ls) = l @ crlf @ head_lines ls"
  by (simp_all add: head_lines_def)

fun no_bare :: "byte \<Rightarrow> byte list \<Rightarrow> bool" where
  "no_bare prev [] = True"
| "no_bare prev (b # bs) = ((b = 0x0A \<longrightarrow> prev = 0x0D) \<and> no_bare b bs)"

lemma no_bare_split: "no_bare prev (Q @ 0x0A # R) \<Longrightarrow> last (prev # Q) = 0x0D"
  by (induction Q arbitrary: prev) auto

lemma no_bare_line: "0x0A \<notin> set l \<Longrightarrow> no_bare prev (l @ crlf @ r) = no_bare 0x0A r"
  by (induction l arbitrary: prev) (auto simp: crlf_def)

lemma head_no_bare: "list_all line_text ls \<Longrightarrow> no_bare prev (head_lines ls)"
  by (induction ls arbitrary: prev) (simp_all add: no_bare_line line_text_def, simp add: crlf_def)

text \<open>The empty line is at the end and nowhere before.\<close>

lemma head_end_only:
  assumes "list_all line_text ls" "head_lines ls = pre @ crlf @ crlf @ r"
  shows "r = []"
  using assms
proof (induction ls arbitrary: pre)
  case Nil
  then have "length crlf = length (pre @ crlf @ crlf @ r)" by simp
  then show ?case by (simp add: crlf_def)
next
  case (Cons l ls)
  then have l: "line_text l" "list_all line_text ls" by simp_all
  from Cons.prems(2) have eq: "l @ crlf @ head_lines ls = pre @ crlf @ crlf @ r" by simp
  then consider us where "l = pre @ us" "us @ crlf @ head_lines ls = crlf @ crlf @ r"
    | us where "l @ us = pre" "crlf @ head_lines ls = us @ crlf @ crlf @ r"
    unfolding append_eq_append_conv2 [of l "crlf @ head_lines ls" pre] by blast
  then show ?case
  proof cases
    case 1
    then have "us = []" using l(1) by (cases us) (auto simp: line_text_def crlf_def)
    with 1 have h: "head_lines ls = crlf @ r" by simp
    show ?thesis
    proof (cases ls)
      case (Cons m ms)
      then obtain x m' where "m = x # m'" using l(2) by (cases m) (auto simp: line_text_def)
      then show ?thesis using h l(2) Cons by (auto simp: line_text_def crlf_def)
    qed (use h in \<open>simp add: crlf_def\<close>)
  next
    case 2
    show ?thesis
    proof (cases us)
      case Nil
      then have h: "head_lines ls = crlf @ r" using 2 by simp
      show ?thesis
      proof (cases ls)
        case (Cons m ms)
        then obtain x m' where "m = x # m'" using l(2) by (cases m) (auto simp: line_text_def)
        then show ?thesis using h l(2) Cons by (auto simp: line_text_def crlf_def)
      qed (use h in \<open>simp add: crlf_def\<close>)
    next
      case (Cons u vs)
      then obtain ws where "us = crlf @ ws" using 2(2) by (cases vs) (auto simp: crlf_def)
      then show ?thesis using 2(2) Cons.IH l(2) by simp
    qed
  qed
qed

lemma head_unfinished:
  assumes "list_all line_text ls" "head_lines ls = Q @ R" "R \<noteq> []"
  shows "strstr Q (crlf @ crlf) = None"
proof (rule ccontr)
  assume "strstr Q (crlf @ crlf) \<noteq> None"
  then obtain r where "strstr Q (crlf @ crlf) = Some r" by blast
  from strstr_SomeD [OF this] obtain pre post where "Q = pre @ crlf @ crlf @ post" by auto
  then show False using head_end_only [OF assms(1), of pre "post @ R"] assms(2,3) by simp
qed

lemma strstr_found: "strstr (pre @ needle @ post) needle \<noteq> None"
proof (induction pre)
  case Nil
  have "take (length needle) (needle @ post) = needle" by simp
  then show ?case by (cases "needle @ post") (auto simp del: append_eq_append_conv2)
qed auto

lemma head_finished: "ls \<noteq> [] \<Longrightarrow> strstr (head_lines ls) (crlf @ crlf) \<noteq> None"
proof -
  assume "ls \<noteq> []"
  then obtain ms m where "ls = ms @ [m]" by (cases ls rule: rev_cases) auto
  then have "head_lines ls = (concat (List.map (\<lambda>l. l @ crlf) ms) @ m) @ (crlf @ crlf) @ []" by (simp add: head_lines_def)
  then show ?thesis using strstr_found by metis
qed

section \<open>The bytes of a head\<close>

text \<open>\<open>c\<close> is \<open>c0\<close> with the text \<open>P\<close> in its head.\<close>

definition heading :: "byte list \<Rightarrow> httpd_conn \<Rightarrow> httpd_conn \<Rightarrow> bool" where
  "heading P c0 c \<longleftrightarrow> (\<exists>Z. length P + length Z = HTTPD_MAX_HEAD_LEN \<and> Z \<noteq> [] \<and> (P \<noteq> [] \<longrightarrow> hd Z = 0) \<and>
     c = c0\<lparr>hs_head := P @ Z, hs_headPos := length P\<rparr>)"

definition head_text :: "byte list \<Rightarrow> bool" where
  "head_text T \<longleftrightarrow> length T < HTTPD_MAX_HEAD_LEN \<and> 0 \<notin> set T \<and> no_bare 0 T \<and>
     (\<forall>Q R. T = Q @ R \<longrightarrow> R \<noteq> [] \<longrightarrow> strstr Q (crlf @ crlf) = None)"

lemma heading_byte:
  assumes "heading P c0 c" "length (P @ [b]) < HTTPD_MAX_HEAD_LEN" "b = 0x0A \<Longrightarrow> last (0 # P) = 0x0D"
  shows "\<exists>c'. store_head b c = Some c' \<and> heading (P @ [b]) c0 c'"
proof -
  obtain Z where h: "length P + length Z = HTTPD_MAX_HEAD_LEN" "c = c0\<lparr>hs_head := P @ Z, hs_headPos := length P\<rparr>"
    using assms(1) unfolding heading_def by blast
  have "2 \<le> length Z" using h(1) assms(2) by simp
  then obtain y z Y where Z: "Z = y # z # Y" by (auto simp: numeral_2_eq_2 Suc_le_length_iff)
  have "fake_cr b c = Some c"
  proof (cases "b = 0x0A \<and> P \<noteq> []")
    case True
    then have "(P @ Z) ! (length P - 1) = 0x0D" using assms(3) by (simp add: nth_append last_conv_nth)
    then show ?thesis using True h(1) assms(2) by (simp add: fake_cr_def rd_def h(2))
  qed (auto simp: fake_cr_def h(2))
  moreover have "put_head b c = Some (c0\<lparr>hs_head := P @ b # z # Y, hs_headPos := length P + 1\<rparr>)"
    by (simp add: put_head_def h(2) Z wr_middle)
  moreover have "wr (P @ b # z # Y) (length P + 1) 0 = Some ((P @ [b]) @ 0 # Y)"
    using wr_middle [of "P @ [b]" "length P + 1" z Y 0] by simp
  ultimately have "store_head b c = Some (c0\<lparr>hs_head := (P @ [b]) @ 0 # Y, hs_headPos := length (P @ [b])\<rparr>)"
    using assms(2) by (simp add: store_head_def h(2))
  moreover have "length (P @ [b]) + length (0 # Y) = HTTPD_MAX_HEAD_LEN" using h(1) by (simp add: Z)
  ultimately show ?thesis unfolding heading_def by fastforce
qed

lemma heading_ends:
  assumes "heading (P @ [b]) c0 c" "0 \<notin> set (P @ [b])"
  shows "head_ends b c = Some (b = 0x0A \<and> strstr (P @ [b]) (crlf @ crlf) \<noteq> None)"
proof -
  obtain Z where "hs_head c = (P @ [b]) @ Z" "Z \<noteq> []" "hd Z = 0" using assms(1) by (auto simp: heading_def)
  then have h: "hs_head c = [] @ (P @ [b]) @ 0 # tl Z" by (cases Z) auto
  have "find_at (hs_head c) 0 (crlf @ crlf) =
      Some (case strstr (P @ [b]) (crlf @ crlf) of None \<Rightarrow> None | Some r \<Rightarrow> Some (0 + (length (P @ [b]) - length r)))"
    unfolding h using assms(2) by (intro find_at_text) simp_all
  then show ?thesis by (auto simp: head_ends_def split: option.splits)
qed

lemma heading_post: "heading P c0 c \<Longrightarrow> hs_post c = hs_post c0"
  by (auto simp: heading_def)

lemma recv_prefix:
  assumes "head_text T" "heading P c0 c" "T = P @ xs @ R" "R \<noteq> []" "po_len (hs_post c0) < 0"
  shows "\<exists>c'. recv_loop alloc app rapp urls buf (xs @ ys) c = recv_loop alloc app rapp urls buf ys c' \<and> heading (P @ xs) c0 c'"
  using assms(2,3)
proof (induction xs arbitrary: P c)
  case Nil
  then show ?case by auto
next
  case (Cons b xs)
  have T: "T = (P @ [b]) @ xs @ R" using Cons.prems(2) by simp
  have "length (P @ [b]) < HTTPD_MAX_HEAD_LEN" using assms(1) T by (simp add: head_text_def)
  moreover have "b = 0x0A \<Longrightarrow> last (0 # P) = 0x0D"
    using assms(1) T no_bare_split [of 0 P "xs @ R"] by (auto simp: head_text_def)
  ultimately obtain c1 where c1: "store_head b c = Some c1" "heading (P @ [b]) c0 c1"
    using heading_byte [OF Cons.prems(1)] by blast
  have "strstr (P @ [b]) (crlf @ crlf) = None" "0 \<notin> set (P @ [b])"
    using assms(1,4) T by (auto simp: head_text_def)
  then have "recv_head alloc app urls b c = Some c1"
    using c1 heading_ends [OF c1(2)] by (simp add: recv_head_def)
  moreover obtain c' where "recv_loop alloc app rapp urls buf (xs @ ys) c1 = recv_loop alloc app rapp urls buf ys c'"
      "heading ((P @ [b]) @ xs) c0 c'"
    using Cons.IH [OF c1(2) T] by blast
  ultimately show ?case using heading_post [OF Cons.prems(1)] assms(5) by auto
qed

section \<open>The lines of a head\<close>

text \<open>A line that neither starts a request nor speaks about its body or its connection.\<close>

definition plain_line :: "byte list \<Rightarrow> bool" where
  "plain_line l \<longleftrightarrow> line_text l \<and> method_of l = None \<and> \<not> starts (ascii ''Connection:'') l \<and> \<not> starts (ascii ''Content-Length:'') l \<and>
     \<not> starts (ascii ''Content-Type: '') l"

lemma scan_stops: "drop p mem = t @ y # Z \<Longrightarrow> P y \<Longrightarrow> \<exists>q. scan P mem p = Some q"
proof -
  assume d: "drop p mem = t @ y # Z" "P y"
  have "length (takeWhile (\<lambda>b. \<not> P b) (t @ y # Z)) \<le> length t" using d(2) by (induction t) auto
  moreover have "length mem - p = length t + 1 + length Z" using arg_cong [OF d(1), of length] by simp
  ultimately show ?thesis by (simp add: scan_def Let_def d(1))
qed

lemma parse_plain:
  assumes "hs_head c = A @ l @ 0 # Z" "length A = p" "plain_line l"
  shows "\<exists>hn. httpdParseHeader alloc p c = Some (c\<lparr>hs_hostName := hn\<rparr>)"
proof -
  have s: "str_at (hs_head c) p = Some l" using assms by (simp add: str_at_text plain_line_def line_text_def)
  show ?thesis
  proof (cases "starts (ascii ''Host:'') l")
    case True
    have "length (take (length (ascii ''Host:'')) l) = length (ascii ''Host:'')" using True unfolding starts_def by simp
    then have "5 \<le> length l" by (simp add: ascii_def)
    then have "drop (p + 5) (hs_head c) = drop 5 l @ 0 # Z" using assms(1,2) by simp
    then obtain q where "scan (\<lambda>b. b \<noteq> 0x20) (hs_head c) (p + 5) = Some q" using scan_stops [of "p + 5"] by fastforce
    then show ?thesis using s True assms(3) by (auto simp: httpdParseHeader_def plain_line_def)
  next
    case False
    then have "httpdParseHeader alloc p c = Some (c\<lparr>hs_hostName := hs_hostName c\<rparr>)"
      using s assms(3) by (simp add: httpdParseHeader_def plain_line_def)
    then show ?thesis by blast
  qed
qed

definition zero_lines :: "byte list list \<Rightarrow> byte list" where
  "zero_lines ls = concat (List.map (\<lambda>l. l @ [0, 0x0A]) ls)"

lemma head_lines_nonzero: "list_all line_text ls \<Longrightarrow> 0 \<notin> set (head_lines ls)"
  by (induction ls) (auto simp: line_text_def crlf_def)

lemma head_lines_length: "2 \<le> length (head_lines ls)"
  by (simp add: head_lines_def crlf_def)

text \<open>The end of a line is found, and overwritten with a terminator.\<close>

lemma line_found:
  assumes "line_text l" "list_all line_text ls" "hs_head c = A @ head_lines (l # ls) @ 0 # Z" "length A = p"
  shows "find_at (hs_head c) p crlf = Some (Some (p + length l))"
    "wr (hs_head c) (p + length l) 0 = Some (A @ l @ 0 # 0x0A # head_lines ls @ 0 # Z)"
proof -
  have n: "0 \<notin> set (head_lines (l # ls))" by (rule head_lines_nonzero) (use assms(1,2) in simp)
  have "strstr (head_lines (l # ls)) crlf = Some (crlf @ head_lines ls)"
    using assms(1) strstr_crlf [of l "head_lines ls"] by (simp add: line_text_def)
  moreover have "length (head_lines (l # ls)) - length (crlf @ head_lines ls) = length l" by simp
  ultimately show "find_at (hs_head c) p crlf = Some (Some (p + length l))"
    unfolding assms(3) using find_at_text [OF assms(4) n, of Z crlf] by (simp only: option.case)
  show "wr (hs_head c) (p + length l) 0 = Some (A @ l @ 0 # 0x0A # head_lines ls @ 0 # Z)"
    using wr_middle [of "A @ l" "p + length l" "0x0D" "0x0A # head_lines ls @ 0 # Z" 0] assms(3,4) by (simp add: crlf_def)
qed

lemma plain_lines_parsed:
  assumes "list_all plain_line ls" "hs_head c = A @ head_lines ls @ 0 # Z" "length A = p" "fin = p + length (head_lines ls) - 4"
  shows "\<exists>hn. parse_lines alloc fin p c = Some (c\<lparr>hs_head := A @ zero_lines ls @ crlf @ 0 # Z, hs_hostName := hn\<rparr>)"
  using assms
proof (induction ls arbitrary: A p c)
  case Nil
  have "c\<lparr>hs_head := hs_head c, hs_hostName := hs_hostName c\<rparr> = c" by simp
  moreover have "A @ zero_lines [] @ crlf @ 0 # Z = hs_head c" using Nil.prems(2) by (simp add: zero_lines_def)
  moreover have "\<not> p < fin" using Nil.prems(4) by (simp add: crlf_def)
  then have "parse_lines alloc fin p c = Some c" by (simp add: parse_lines.simps)
  ultimately show ?case by metis
next
  case (Cons l ls)
  have l: "plain_line l" "line_text l" "list_all line_text ls"
    using Cons.prems(1) by (auto simp: plain_line_def list_all_iff)
  note f = line_found [OF l(2,3) Cons.prems(2,3)]
  let ?c = "c\<lparr>hs_head := A @ l @ 0 # 0x0A # head_lines ls @ 0 # Z\<rparr>"
  obtain hn where hn: "httpdParseHeader alloc p ?c = Some (?c\<lparr>hs_hostName := hn\<rparr>)"
    using parse_plain [of ?c A l _ p] Cons.prems(3) l(1) by auto
  have "0 < length l" using l(2) by (simp add: line_text_def)
  moreover have "length (head_lines (l # ls)) = length l + 2 + length (head_lines ls)" by (simp add: crlf_def)
  ultimately have lt: "p < fin" using Cons.prems(4) head_lines_length [of ls] by linarith
  have step: "parse_lines alloc fin p c = parse_lines alloc fin (p + length l + 2) (?c\<lparr>hs_hostName := hn\<rparr>)"
    by (subst parse_lines.simps) (use lt f hn in simp)
  have "\<exists>hn'. parse_lines alloc fin (p + length l + 2) (?c\<lparr>hs_hostName := hn\<rparr>) =
      Some (?c\<lparr>hs_hostName := hn\<rparr>\<lparr>hs_head := (A @ l @ [0, 0x0A]) @ zero_lines ls @ crlf @ 0 # Z, hs_hostName := hn'\<rparr>)"
    by (rule Cons.IH) (use Cons.prems in \<open>simp_all add: crlf_def\<close>)
  then show ?case unfolding step by (simp add: zero_lines_def)
qed

section \<open>The first line\<close>

definition query_text :: "byte list option \<Rightarrow> byte list" where
  "query_text q = (case q of None \<Rightarrow> [] | Some a \<Rightarrow> 0x3F # a)"

definition get_line :: "byte list \<Rightarrow> byte list option \<Rightarrow> byte list" where
  "get_line u q = ascii ''GET '' @ u @ query_text q @ ascii '' HTTP/1.1''"

definition url_text :: "byte list \<Rightarrow> byte list option \<Rightarrow> bool" where
  "url_text u q \<longleftrightarrow> 0x3F \<notin> set u \<and> list_all (\<lambda>b. b \<noteq> 0 \<and> b \<noteq> 0x20 \<and> b \<noteq> 0x0D \<and> b \<noteq> 0x0A) (u @ query_text q)"

text \<open>The head with the terminators that the parser puts into it.\<close>

definition split_line :: "byte list \<Rightarrow> byte list option \<Rightarrow> byte list" where
  "split_line u q = ascii ''GET '' @ u @ (case q of None \<Rightarrow> [] | Some a \<Rightarrow> 0 # a) @ 0 # ascii ''HTTP/1.1''"

lemma parse_get:
  assumes "hs_head c = get_line u q @ 0 # Z" "url_text u q"
  shows "httpdParseHeader alloc 0 c = Some (c\<lparr>hs_requestType := HTTPD_METHOD_GET, hs_url := Some 4,
    HFL_HTTP11 := True, HFL_CHUNKED := True, hs_head := split_line u q @ 0 # Z,
    hs_getArgs := (case q of None \<Rightarrow> None | Some a \<Rightarrow> Some (4 + length u + 1))\<rparr>)"
proof -
  let ?u = "u @ query_text q" and ?p = "ascii ''HTTP/1.1''" and ?g = "ascii ''GET ''"
  let ?c = "c\<lparr>hs_requestType := HTTPD_METHOD_GET\<rparr>"
  have u: "0 \<notin> set ?u" "0x20 \<notin> set ?u" "0x3F \<notin> set u" using assms(2) by (auto simp: url_text_def list_all_iff)
  have p: "0 \<notin> set ?p" "?p = 0x48 # tl ?p" by (simp_all add: ascii_def)
  have g: "length ?g = 4" "?g = ascii ''GET'' @ [0x20]" by (simp_all add: ascii_def)
  have m: "method_of (get_line u q) = Some HTTPD_METHOD_GET"
    by (simp add: method_of_def method_lines_def starts_def get_line_def ascii_def)
  have h: "hs_head c = ?g @ (?u @ 0x20 # ?p) @ 0 # Z" using assms(1) by (simp add: get_line_def ascii_def)
  have line: "str_at (hs_head c) 0 = Some (get_line u q)"
    unfolding assms(1) using str_at_text [of "[]" 0 "get_line u q" Z] u(1) by (simp add: get_line_def ascii_def)
  have i: "scan (\<lambda>b. b = 0x20) (hs_head c) 0 = Some 3"
    using scan_at [of "[]" 0 "\<lambda>b. b = 0x20" "ascii ''GET''" "0x20" "(?u @ 0x20 # ?p) @ 0 # Z"] by (simp add: h g ascii_def)
  have sp: "find_at (hs_head c) 4 [0x20] = Some (Some (4 + length ?u))"
    unfolding h using find_at_text [OF g(1), of "?u @ 0x20 # ?p" Z "[0x20]"] u p(1) strstr_char(1) [OF u(2), of ?p]
    by (simp only: option.case) (simp add: ascii_def)
  let ?m = "?g @ ?u @ 0 # ?p @ 0 # Z"
  have w: "wr (hs_head c) (4 + length ?u) 0 = Some ?m"
    using wr_middle [of "?g @ ?u" "4 + length ?u" "0x20" "?p @ 0 # Z" 0] by (simp add: h g(1))
  have e: "scan (\<lambda>b. b \<noteq> 0x20) ?m (4 + length ?u + 1) = Some (4 + length ?u + 1)"
    using scan_at [of "?g @ ?u @ [0]" "4 + length ?u + 1" "\<lambda>b. b \<noteq> 0x20" "[]" "0x48" "tl ?p @ 0 # Z"] p(2) by (simp add: g(1) ascii_def)
  have pr: "str_at ?m (4 + length ?u + 1) = Some ?p"
    using str_at_text [of "?g @ ?u @ [0]" "4 + length ?u + 1" ?p Z] p(1) by (simp add: g(1))
  show ?thesis
  proof (cases q)
    case None
    have "find_at ?m 4 [0x3F] = Some None"
      using find_at_text [OF g(1) u(1), of "?p @ 0 # Z" "[0x3F]"] strstr_char(2) [OF u(3)] by (simp add: None query_text_def)
    then show ?thesis
      using line m i sp w e pr by (simp add: httpdParseHeader_def parse_first_def Let_def split_line_def None query_text_def)
  next
    case (Some a)
    have "find_at ?m 4 [0x3F] = Some (Some (4 + length u))"
      using find_at_text [OF g(1) u(1), of "?p @ 0 # Z" "[0x3F]"] strstr_char(1) [OF u(3), of a] by (simp add: Some query_text_def)
    moreover have "wr ?m (4 + length u) 0 = Some (?g @ u @ 0 # a @ 0 # ?p @ 0 # Z)"
      using wr_middle [of "?g @ u" "4 + length u" "0x3F" "a @ 0 # ?p @ 0 # Z" 0] by (simp add: g(1) Some query_text_def)
    ultimately show ?thesis
      using line m i sp w e pr by (simp add: httpdParseHeader_def parse_first_def Let_def split_line_def Some query_text_def)
  qed
qed

section \<open>From the bytes to the answer\<close>

text \<open>What a CGI function sees of a request.\<close>

definition view :: "httpd_conn \<Rightarrow> httpd_method \<times> byte list option \<times> byte list option" where
  "view c = (hs_requestType c, Option.bind (hs_url c) (str_at (hs_head c)), Option.bind (hs_getArgs c) (str_at (hs_head c)))"

definition request_text :: "byte list \<Rightarrow> byte list option \<Rightarrow> byte list list \<Rightarrow> byte list" where
  "request_text u q ls = head_lines (get_line u q # ls)"

definition app_cgi :: "builtin_url list \<Rightarrow> byte list \<Rightarrow> nat option" where
  "app_cgi urls u =
     (case find_url urls u of Some (Some b) \<Rightarrow> (case bu_cgi b of Cgi_App n \<Rightarrow> Some n | _ \<Rightarrow> None) | _ \<Rightarrow> None)"

definition reply_head :: "nat \<Rightarrow> (byte list \<times> byte list) list \<Rightarrow> byte list" where
  "reply_head code hs =
     ascii ''HTTP/1.1 '' @ decimal code @ ascii '' OK'' @ crlf @ ascii ''Server: ESP32 HTTPD/0.4'' @ crlf @
     ascii ''Transfer-Encoding: chunked'' @ crlf @ concat (List.map (\<lambda>(f, v). f @ ascii '': '' @ v @ crlf) hs) @ crlf"

lemma reply_head_sent:
  "HFL_HTTP11 c \<Longrightarrow> HFL_CHUNKED c \<Longrightarrow> \<not> HFL_NOCONNECTIONSTR c \<Longrightarrow> response_head code hs c = reply_head code hs"
  by (simp add: response_head_def reply_head_def status_line_def) (simp add: ascii_def)

lemma get_line_text: "url_text u q \<Longrightarrow> line_text (get_line u q)"
  by (auto simp: url_text_def line_text_def get_line_def list_all_iff ascii_def)

lemma request_head_text:
  assumes "url_text u q" "list_all plain_line ls" "length (request_text u q ls) < HTTPD_MAX_HEAD_LEN"
  shows "head_text (request_text u q ls)"
proof -
  have l: "list_all line_text (get_line u q # ls)"
    using assms(2) get_line_text [OF assms(1)] by (auto simp: plain_line_def list_all_iff)
  show ?thesis
    unfolding head_text_def request_text_def
    using assms(3) head_lines_nonzero [OF l] head_no_bare [OF l] head_unfinished [OF l] by (auto simp: request_text_def)
qed

lemma head_parsed:
  assumes "url_text u q" "list_all plain_line ls" "hs_head c = request_text u q ls @ 0 # Z"
  shows "\<exists>hn. parse_lines alloc (length (request_text u q ls) - 4) 0 c =
    Some (c\<lparr>hs_requestType := HTTPD_METHOD_GET, hs_url := Some 4, HFL_HTTP11 := True, HFL_CHUNKED := True,
      hs_getArgs := (case q of None \<Rightarrow> None | Some a \<Rightarrow> Some (4 + length u + 1)),
      hs_head := split_line u q @ 0 # 0x0A # zero_lines ls @ crlf @ 0 # Z, hs_hostName := hn\<rparr>)"
proof -
  let ?l = "get_line u q" and ?fin = "length (request_text u q ls) - 4"
  have l: "line_text ?l" "list_all line_text ls"
    using assms(2) get_line_text [OF assms(1)] by (auto simp: plain_line_def list_all_iff)
  have hc: "hs_head c = [] @ head_lines (?l # ls) @ 0 # Z" using assms(3) by (simp add: request_text_def)
  have f: "find_at (hs_head c) 0 crlf = Some (Some (length ?l))"
      "wr (hs_head c) (length ?l) 0 = Some (?l @ 0 # 0x0A # head_lines ls @ 0 # Z)"
    using line_found [OF l hc, of 0] by simp_all
  let ?c = "c\<lparr>hs_head := ?l @ 0 # 0x0A # head_lines ls @ 0 # Z\<rparr>"
  have g: "httpdParseHeader alloc 0 ?c = Some (?c\<lparr>hs_requestType := HTTPD_METHOD_GET, hs_url := Some 4,
      HFL_HTTP11 := True, HFL_CHUNKED := True, hs_head := split_line u q @ 0 # 0x0A # head_lines ls @ 0 # Z,
      hs_getArgs := (case q of None \<Rightarrow> None | Some a \<Rightarrow> Some (4 + length u + 1))\<rparr>)"
    by (rule parse_get [OF _ assms(1)]) simp
  let ?d = "?c\<lparr>hs_requestType := HTTPD_METHOD_GET, hs_url := Some 4,
      HFL_HTTP11 := True, HFL_CHUNKED := True, hs_head := split_line u q @ 0 # 0x0A # head_lines ls @ 0 # Z,
      hs_getArgs := (case q of None \<Rightarrow> None | Some a \<Rightarrow> Some (4 + length u + 1))\<rparr>"
  have sl: "length (split_line u q) = length ?l"
    by (simp add: split_line_def get_line_def query_text_def ascii_def split: option.splits)
  have lt: "0 < ?fin" by (simp add: request_text_def get_line_def crlf_def ascii_def)
  have "parse_lines alloc ?fin 0 c = parse_lines alloc ?fin (length ?l + 2) ?d"
    by (subst parse_lines.simps) (use lt f g in simp)
  moreover have "\<exists>hn. parse_lines alloc ?fin (length ?l + 2) ?d =
      Some (?d\<lparr>hs_head := (split_line u q @ [0, 0x0A]) @ zero_lines ls @ crlf @ 0 # Z, hs_hostName := hn\<rparr>)"
    by (rule plain_lines_parsed) (use assms(2) sl in \<open>simp_all add: request_text_def crlf_def\<close>)
  ultimately show ?thesis by simp
qed

text \<open>A connection that waits for a request.\<close>

definition idle :: "httpd_conn \<Rightarrow> bool" where
  "idle c \<longleftrightarrow> length (hs_head c) = HTTPD_MAX_HEAD_LEN \<and> hs_headPos c = 0 \<and> po_len (hs_post c) = -1 \<and> hs_sendBuff c = None \<and>
     hs_sendBuffLen c = 0 \<and> hs_chunkHdr c = None \<and> no_flags c = c \<and>
     (case hs_conn c of None \<Rightarrow> False | Some rc \<Rightarrow> rc_writes rc = [])"

lemma view_parsed:
  assumes "url_text u q" "hs_url c = Some 4" "hs_requestType c = m"
    "hs_getArgs c = (case q of None \<Rightarrow> None | Some a \<Rightarrow> Some (4 + length u + 1))" "hs_head c = split_line u q @ 0 # Z"
  shows "str_at (hs_head c) 4 = Some u" "view c = (m, Some u, q)"
proof -
  have g: "length (ascii ''GET '') = 4" by (simp add: ascii_def)
  have u: "0 \<notin> set u" "\<And>a. q = Some a \<Longrightarrow> 0 \<notin> set a"
    using assms(1) by (auto simp: url_text_def query_text_def list_all_iff)
  show 1: "str_at (hs_head c) 4 = Some u"
  proof (cases q)
    case None
    then show ?thesis using str_at_text [OF g u(1)] by (simp add: assms(5) split_line_def)
  next
    case (Some a)
    then show ?thesis using str_at_text [OF g u(1)] by (simp add: assms(5) split_line_def)
  qed
  show "view c = (m, Some u, q)"
  proof (cases q)
    case None
    then show ?thesis using 1 by (simp add: view_def assms(2-4))
  next
    case (Some a)
    have "str_at (hs_head c) (4 + length u + 1) = Some a"
      using str_at_text [of "ascii ''GET '' @ u @ [0]" "4 + length u + 1" a "ascii ''HTTP/1.1'' @ 0 # Z"] u(2) [OF Some] g
      by (simp add: assms(5) split_line_def Some)
    then show ?thesis using 1 by (simp add: view_def assms(2-4) Some)
  qed
qed

lemma round_answers:
  assumes "hs_url c = Some 4" "str_at (hs_head c) 4 = Some u" "app_cgi urls u = Some n"
    and "\<And>c. app n c = cgi_respond code hs (ans (view c)) c"
    and "HFL_HTTP11 c" "\<not> HFL_NOCONNECTIONSTR c" "answering c" "hs_conn c = Some rc"
    and "hs_sendBuff c = Some (replicate HTTPD_MAX_SENDBUFF_LEN 0)" "hs_sendBuffLen c = 0" "length (reply_head code []) < 256"
    and "length (reply_head code hs) + length (concat (ans (view c))) + 14 \<le> HTTPD_MAX_SENDBUFF_LEN"
  shows "\<exists>b g d k. process_round alloc app urls c =
    Some (Inl (answered (c\<lparr>hs_cgiData := 0, hs_cgi := g, hs_cgiArg := d, hs_context := k\<rparr>) rc
      (reply_head code hs @ response_body (concat (ans (view c)))) b))"
proof -
  obtain b where b: "find_url urls u = Some (Some b)" "bu_cgi b = Cgi_App n"
    using assms(3) by (auto simp: app_cgi_def split: option.splits cgi.splits)
  let ?c = "c\<lparr>hs_cgiData := 0, hs_cgi := Some (bu_cgi b), hs_cgiArg := bu_cgiArg b, hs_context := bu_context b\<rparr>"
  have v: "view ?c = view c" by (simp add: view_def)
  have ch: "HFL_CHUNKED c" using assms(7) by (simp add: answering_def)
  have f: "filled ?c [] ?c"
    unfolding filled_def by (rule exI [of _ "replicate HTTPD_MAX_SENDBUFF_LEN 0"]) (simp add: assms(9) [symmetric] assms(10))
  have rh: "response_head code hs ?c = reply_head code hs" for hs by (rule reply_head_sent) (use assms(5,6) ch in simp_all)
  have "length (status_line code ?c) + length crlf = length (reply_head code [])"
    using arg_cong [OF rh [of "[]"], of length] by (simp add: response_head_def)
  then have "length (status_line code ?c) < 256" using assms(11) by linarith
  moreover have "answering ?c" using assms(7) by (simp add: answering_def)
  moreover have "hs_conn ?c = Some rc" using assms(8) by simp
  ultimately obtain c2 b' where "cgi_respond code hs (ans (view c)) ?c = Some (HTTPD_CGI_DONE, c2)"
      "httpdCgiIsDone alloc c2 = Some (answered ?c rc (reply_head code hs @ response_body (concat (ans (view c)))) b')"
    using respond_done [OF f, of rc code hs "ans (view c)" alloc] assms(12) unfolding rh by auto
  then have "process_round alloc app urls c =
      Some (Inl (answered ?c rc (reply_head code hs @ response_body (concat (ans (view c)))) b'))"
    by (simp add: process_round_def assms(1,2,4) choose_cgi_def b v [unfolded b(2)])
  then show ?thesis by blast
qed

text \<open>What a request must satisfy, what an application does with it, and what it gets.\<close>

definition request_ok :: "builtin_url list \<Rightarrow> byte list \<Rightarrow> byte list option \<Rightarrow> byte list list \<Rightarrow> bool" where
  "request_ok urls u q ls \<longleftrightarrow> url_text u q \<and> list_all plain_line ls \<and> length (request_text u q ls) < HTTPD_MAX_HEAD_LEN \<and>
     app_cgi urls u \<noteq> None"

type_synonym answers = "httpd_method \<times> byte list option \<times> byte list option \<Rightarrow> byte list list"

definition answers_with ::
  "cgi_app \<Rightarrow> (nat \<Rightarrow> nat) \<Rightarrow> (nat \<Rightarrow> (byte list \<times> byte list) list) \<Rightarrow> (nat \<Rightarrow> answers) \<Rightarrow> bool" where
  "answers_with app code hs ans \<longleftrightarrow> (\<forall>n c. app n c = cgi_respond (code n) (hs n) (ans n (view c)) c)"

definition fits ::
  "builtin_url list \<Rightarrow> (nat \<Rightarrow> nat) \<Rightarrow> (nat \<Rightarrow> (byte list \<times> byte list) list) \<Rightarrow> (nat \<Rightarrow> answers) \<Rightarrow> byte list \<Rightarrow> byte list option \<Rightarrow> bool" where
  "fits urls code hs ans u q \<longleftrightarrow>
     (let n = the (app_cgi urls u) in
      length (reply_head (code n) []) < 256 \<and>
      length (reply_head (code n) (hs n)) + length (concat (ans n (HTTPD_METHOD_GET, Some u, q))) + 14 \<le> HTTPD_MAX_SENDBUFF_LEN)"

definition reply_to ::
  "builtin_url list \<Rightarrow> (nat \<Rightarrow> nat) \<Rightarrow> (nat \<Rightarrow> (byte list \<times> byte list) list) \<Rightarrow> (nat \<Rightarrow> answers) \<Rightarrow> byte list \<Rightarrow> byte list option \<Rightarrow> byte list" where
  "reply_to urls code hs ans u q =
     (let n = the (app_cgi urls u) in
      reply_head (code n) (hs n) @ response_body (concat (ans n (HTTPD_METHOD_GET, Some u, q))))"

lemma head_answered:
  assumes "request_ok urls u q ls" "answers_with app code hs ans" "fits urls code hs ans u q" "idle c0" "hs_conn c0 = Some rc"
    and "heading (request_text u q ls) (c0\<lparr>hs_sendBuff := Some (replicate HTTPD_MAX_SENDBUFF_LEN 0), hs_sendBuffLen := 0\<rparr>) c"
  shows "\<exists>c1 b. head_done alloc app urls c = Some (answered c1 rc (reply_to urls code hs ans u q) b) \<and>
     length (hs_head c1) = HTTPD_MAX_HEAD_LEN \<and> hs_chunkHdr c1 = None"
proof -
  let ?z = "replicate HTTPD_MAX_SENDBUFF_LEN (0 :: byte)" and ?T = "request_text u q ls"
  have ok: "url_text u q" "list_all plain_line ls" using assms(1) by (simp_all add: request_ok_def)
  obtain n where n: "app_cgi urls u = Some n" using assms(1) by (auto simp: request_ok_def)
  have ne: "?T \<noteq> []" by (simp add: request_text_def crlf_def)
  obtain Z where Z: "length ?T + length Z = HTTPD_MAX_HEAD_LEN" "Z \<noteq> []" "hd Z = 0"
      "c = c0\<lparr>hs_sendBuff := Some ?z, hs_sendBuffLen := 0\<rparr>\<lparr>hs_head := ?T @ Z, hs_headPos := length ?T\<rparr>"
    using assms(6) ne unfolding heading_def by blast
  then obtain Y where Y: "Z = 0 # Y" by (cases Z) auto
  let ?c = "c\<lparr>hs_post := (hs_post c)\<lparr>po_len := 0\<rparr>, hs_url := None\<rparr>"
  have "hs_head ?c = ?T @ 0 # Y" by (simp add: Z(4) Y)
  from head_parsed [OF ok this, of alloc] obtain hn
    where p: "parse_lines alloc (length ?T - 4) 0 ?c =
      Some (?c\<lparr>hs_requestType := HTTPD_METHOD_GET, hs_url := Some 4, HFL_HTTP11 := True, HFL_CHUNKED := True,
        hs_getArgs := (case q of None \<Rightarrow> None | Some a \<Rightarrow> Some (4 + length u + 1)),
        hs_head := split_line u q @ 0 # 0x0A # zero_lines ls @ crlf @ 0 # Y, hs_hostName := hn\<rparr>)" by blast
  define d where "d = ?c\<lparr>hs_requestType := HTTPD_METHOD_GET, hs_url := Some 4, HFL_HTTP11 := True, HFL_CHUNKED := True,
        hs_getArgs := (case q of None \<Rightarrow> None | Some a \<Rightarrow> Some (4 + length u + 1)),
        hs_head := split_line u q @ 0 # 0x0A # zero_lines ls @ crlf @ 0 # Y, hs_hostName := hn\<rparr>"
  have pd: "parse_lines alloc (length ?T - 4) 0 ?c = Some d" using p unfolding d_def by (simp only:)
  have len: "length (hs_head d) = HTTPD_MAX_HEAD_LEN"
  proof -
    have "length (zero_lines ls) = length (concat (List.map (\<lambda>l. l @ crlf) ls))" by (induction ls) (simp_all add: zero_lines_def crlf_def)
    then show ?thesis
      using Z(1) by (simp add: d_def Y request_text_def head_lines_def split_line_def get_line_def query_text_def crlf_def ascii_def split: option.splits)
  qed
  have i: "\<not> HFL_SENDINGBODY c0" "\<not> HFL_NOCONNECTIONSTR c0" "hs_chunkHdr c0 = None" "rc_writes rc = []"
    using assms(4,5) by (auto simp: idle_def no_flags_def dest: arg_cong [of _ _ HFL_SENDINGBODY] arg_cong [of _ _ HFL_NOCONNECTIONSTR])
  have v: "str_at (hs_head d) 4 = Some u" "view d = (HTTPD_METHOD_GET, Some u, q)"
    by (rule view_parsed [OF ok(1)]; simp add: d_def)+
  have "\<exists>b g e k. process_round alloc app urls d =
    Some (Inl (answered (d\<lparr>hs_cgiData := 0, hs_cgi := g, hs_cgiArg := e, hs_context := k\<rparr>) rc
      (reply_head (code n) (hs n) @ response_body (concat (ans n (view d)))) b))"
    by (rule round_answers [OF _ v(1) n])
      (use assms(2,3,5) i in \<open>simp_all add: d_def [symmetric] v(2), simp_all add: d_def Z(4) answering_def answers_with_def fits_def n\<close>)
  then obtain b g e k where r: "process_round alloc app urls d =
    Some (Inl (answered (d\<lparr>hs_cgiData := 0, hs_cgi := g, hs_cgiArg := e, hs_context := k\<rparr>) rc (reply_to urls code hs ans u q) b))"
    by (auto simp: v(2) reply_to_def n)
  have "hs_url d = Some 4" "po_len (hs_post d) = 0" "hs_headPos c = length ?T" "hs_chunkHdr d = None"
    using i by (simp_all add: d_def Z(4))
  then have "head_done alloc app urls c =
      Some (answered (d\<lparr>hs_cgiData := 0, hs_cgi := g, hs_cgiArg := e, hs_context := k\<rparr>) rc (reply_to urls code hs ans u q) b)"
    using pd r by (simp add: head_done_def httpdProcessRequest_def process_loop.simps [of alloc app urls d])
  moreover have "length (hs_head (d\<lparr>hs_cgiData := 0, hs_cgi := g, hs_cgiArg := e, hs_context := k\<rparr>)) = HTTPD_MAX_HEAD_LEN \<and>
      hs_chunkHdr (d\<lparr>hs_cgiData := 0, hs_cgi := g, hs_cgiArg := e, hs_context := k\<rparr>) = None"
    using len \<open>hs_chunkHdr d = None\<close> by simp
  ultimately show ?thesis by blast
qed

section \<open>A request in pieces\<close>

text \<open>The task receives into 2048 zeroed bytes and hands over each piece as it comes.\<close>

definition recv_piece ::
  "(nat \<Rightarrow> bool) \<Rightarrow> cgi_app \<Rightarrow> recv_app \<Rightarrow> builtin_url list \<Rightarrow> byte list \<Rightarrow> httpd_conn \<Rightarrow> httpd_conn option" where
  "recv_piece alloc app rapp urls d c = recv_conn alloc app rapp urls (d @ replicate (2048 - length d) 0) (length d) c"

fun recv_pieces ::
  "(nat \<Rightarrow> bool) \<Rightarrow> cgi_app \<Rightarrow> recv_app \<Rightarrow> builtin_url list \<Rightarrow> byte list list \<Rightarrow> httpd_conn \<Rightarrow> httpd_conn option" where
  "recv_pieces alloc app rapp urls [] c = Some c"
| "recv_pieces alloc app rapp urls (d # ds) c = do { c1 \<leftarrow> recv_piece alloc app rapp urls d c; recv_pieces alloc app rapp urls ds c1 }"

lemma recv_pieces_append:
  "recv_pieces alloc app rapp urls (xs @ ys) c = do { c1 \<leftarrow> recv_pieces alloc app rapp urls xs c; recv_pieces alloc app rapp urls ys c1 }"
proof (induction xs arbitrary: c)
  case (Cons d xs)
  then show ?case by (cases "recv_piece alloc app rapp urls d c") simp_all
qed simp

abbreviation (input) live :: "httpd_conn \<Rightarrow> httpd_conn" where
  "live c \<equiv> c\<lparr>hs_sendBuff := Some (replicate HTTPD_MAX_SENDBUFF_LEN 0), hs_sendBuffLen := 0\<rparr>"

lemma heading_live: "heading P c0 c \<Longrightarrow> heading P (live c0) (live c)"
  unfolding heading_def by (erule exE, rename_tac Z, rule_tac x = Z in exI) simp

lemma idle_flags: "idle c \<Longrightarrow> \<not> HFL_CHUNKED c \<and> \<not> HFL_SENDINGBODY c"
  by (auto simp: idle_def no_flags_def dest: arg_cong [of _ _ HFL_CHUNKED] arg_cong [of _ _ HFL_SENDINGBODY])

lemma piece_inside:
  assumes "head_text T" "heading P c0 c" "T = P @ d @ R" "R \<noteq> []" "idle c0"
  shows "\<exists>c'. recv_piece alloc app rapp urls d c = Some c' \<and> heading (P @ d) c0 c'"
proof -
  have "po_len (hs_post (live c0)) < 0" using assms(5) by (simp add: idle_def)
  from recv_prefix [OF assms(1) heading_live [OF assms(2)] assms(3,4) this, of alloc app rapp urls "d @ replicate (2048 - length d) 0" "[]"]
  obtain c1 where c1: "recv_loop alloc app rapp urls (d @ replicate (2048 - length d) 0) d (live c) = Some c1" "heading (P @ d) (live c0) c1"
    by auto
  then obtain Z where Z: "length (P @ d) + length Z = HTTPD_MAX_HEAD_LEN" "Z \<noteq> []" "P @ d \<noteq> [] \<longrightarrow> hd Z = 0"
      "c1 = live c0\<lparr>hs_head := (P @ d) @ Z, hs_headPos := length (P @ d)\<rparr>"
    unfolding heading_def by blast
  have i: "hs_chunkHdr c0 = None" "hs_sendBuff c0 = None" "hs_sendBuffLen c0 = 0" using assms(5) by (simp_all add: idle_def)
  have "httpdFlushSendBuffer alloc c1 = Some c1"
    using i idle_flags [OF assms(5)] by (simp add: httpdFlushSendBuffer_def end_chunk_def last_chunk_def send_or_keep_def Z(4))
  then have "recv_piece alloc app rapp urls d c = Some (c1\<lparr>hs_sendBuff := None\<rparr>)"
    using c1(1) by (simp add: recv_piece_def recv_conn_def)
  moreover have "c1\<lparr>hs_sendBuff := None\<rparr> = c0\<lparr>hs_head := (P @ d) @ Z, hs_headPos := length (P @ d)\<rparr>"
    using i by (simp add: Z(4))
  then have "heading (P @ d) c0 (c1\<lparr>hs_sendBuff := None\<rparr>)" using Z(1-3) unfolding heading_def by blast
  ultimately show ?thesis by blast
qed

lemma piece_last:
  assumes "request_ok urls u q ls" "answers_with app code hs ans" "fits urls code hs ans u q" "idle c0" "hs_conn c0 = Some rc"
    and "heading P c0 c" "request_text u q ls = P @ d" "d \<noteq> []"
  shows "\<exists>c'. recv_piece alloc app rapp urls d c = Some c' \<and> idle c' \<and>
     hs_conn c' = Some (rc\<lparr>rc_needWriteDoneNotif := True, rc_wire := rc_wire rc @ reply_to urls code hs ans u q\<rparr>)"
proof -
  let ?T = "request_text u q ls" and ?buf = "d @ replicate (2048 - length d) 0"
  have ok: "url_text u q" "list_all plain_line ls" "length ?T < HTTPD_MAX_HEAD_LEN" using assms(1) by (simp_all add: request_ok_def)
  have T: "head_text ?T" by (rule request_head_text [OF ok])
  obtain xs b where d: "d = xs @ [b]" using assms(8) by (cases d rule: rev_cases) auto
  have po: "po_len (hs_post (live c0)) < 0" using assms(4) by (simp add: idle_def)
  have TP: "?T = P @ xs @ [b]" using assms(7) d by simp
  from recv_prefix [OF T heading_live [OF assms(6)] TP _ po, of alloc app rapp urls ?buf "[b]"]
  obtain c1 where c1: "recv_loop alloc app rapp urls ?buf d (live c) = recv_loop alloc app rapp urls ?buf [b] c1"
      "heading (P @ xs) (live c0) c1" by (auto simp: d)
  have "b = 0x0A \<Longrightarrow> last (0 # P @ xs) = 0x0D"
    using T TP no_bare_split [of 0 "P @ xs" "[]"] by (auto simp: head_text_def)
  moreover have "length ((P @ xs) @ [b]) < HTTPD_MAX_HEAD_LEN" using ok(3) TP by simp
  ultimately obtain c2 where c2: "store_head b c1 = Some c2" "heading ((P @ xs) @ [b]) (live c0) c2"
    using heading_byte [OF c1(2)] by blast
  have e: "(P @ xs) @ [b] = ?T" using TP by simp
  have "last ?T = 0x0A" by (simp add: request_text_def head_lines_def crlf_def)
  then have b: "b = 0x0A" using e by (metis last_snoc)
  have "head_ends b c2 = Some True"
    using heading_ends [OF c2(2)] T head_finished [of "get_line u q # ls"] b unfolding e by (simp add: head_text_def request_text_def)
  moreover from head_answered [OF assms(1-5) c2(2) [unfolded e], of alloc] obtain c3 bb
    where c3: "head_done alloc app urls c2 = Some (answered c3 rc (reply_to urls code hs ans u q) bb)"
      "length (hs_head c3) = HTTPD_MAX_HEAD_LEN" "hs_chunkHdr c3 = None" by blast
  ultimately have "recv_head alloc app urls b c1 = Some (answered c3 rc (reply_to urls code hs ans u q) bb)"
    using c2(1) by (simp add: recv_head_def)
  moreover have "hs_post c1 = hs_post c0" using heading_post [OF c1(2)] by simp
  ultimately have "recv_piece alloc app rapp urls d c = Some ((answered c3 rc (reply_to urls code hs ans u q) bb)\<lparr>hs_sendBuff := None\<rparr>)"
    using c1(1) po by (simp add: recv_piece_def recv_conn_def answered_flush [OF c3(3)])
  moreover have "idle ((answered c3 rc (reply_to urls code hs ans u q) bb)\<lparr>hs_sendBuff := None\<rparr>)"
    using c3(2,3) assms(4,5) by (simp add: idle_def answered_def no_flags_def)
  ultimately show ?thesis by (simp add: answered_def)
qed

lemma pieces_answered:
  assumes "request_ok urls u q ls" "answers_with app code hs ans" "fits urls code hs ans u q" "idle c0" "hs_conn c0 = Some rc"
    and "heading P c0 c" "request_text u q ls = P @ concat ds" "ds \<noteq> []" "[] \<notin> set ds"
  shows "\<exists>c'. recv_pieces alloc app rapp urls ds c = Some c' \<and> idle c' \<and>
     hs_conn c' = Some (rc\<lparr>rc_needWriteDoneNotif := True, rc_wire := rc_wire rc @ reply_to urls code hs ans u q\<rparr>)"
  using assms(6-9)
proof (induction ds arbitrary: P c)
  case (Cons d ds)
  show ?case
  proof (cases "ds = []")
    case True
    then obtain c' where "recv_piece alloc app rapp urls d c = Some c'" "idle c'"
        "hs_conn c' = Some (rc\<lparr>rc_needWriteDoneNotif := True, rc_wire := rc_wire rc @ reply_to urls code hs ans u q\<rparr>)"
      using piece_last [OF assms(1-5) Cons.prems(1), of d alloc rapp] Cons.prems by auto
    then show ?thesis by (simp add: True)
  next
    case False
    have T: "head_text (request_text u q ls)" using assms(1) by (intro request_head_text) (simp_all add: request_ok_def)
    have ne: "concat ds \<noteq> []" using False Cons.prems(4) by (cases ds) auto
    have "request_text u q ls = P @ d @ concat ds" using Cons.prems(2) by simp
    from piece_inside [OF T Cons.prems(1) this ne assms(4), of alloc app rapp urls] obtain c1
      where c1: "recv_piece alloc app rapp urls d c = Some c1" "heading (P @ d) c0 c1" by blast
    then show ?thesis using Cons.IH [OF c1(2)] Cons.prems False by simp
  qed
qed simp

type_synonym sent_request = "byte list \<times> byte list option \<times> byte list list \<times> byte list list"

lemma requests_in_order:
  assumes "answers_with app code hs ans"
    and "\<forall>(u, q, ls, ds) \<in> set rs. request_ok urls u q ls \<and> fits urls code hs ans u q \<and>
      concat ds = request_text u q ls \<and> [] \<notin> set ds"
    and "idle c" "hs_conn c = Some rc"
  shows "\<exists>c' rc'. recv_pieces alloc app rapp urls (concat (List.map (\<lambda>(u, q, ls, ds). ds) rs)) c = Some c' \<and> idle c' \<and>
     hs_conn c' = Some rc' \<and> rc_wire rc' = rc_wire rc @ concat (List.map (\<lambda>(u, q, ls, ds). reply_to urls code hs ans u q) rs)"
  using assms(2-4)
proof (induction rs arbitrary: c rc)
  case Nil
  then show ?case by simp
next
  case (Cons r rs)
  obtain u q ls ds where r: "r = (u, q, ls, ds)" by (cases r)
  then have ok: "request_ok urls u q ls" "fits urls code hs ans u q" "concat ds = request_text u q ls" "[] \<notin> set ds"
    using Cons.prems(1) by auto
  have "heading [] c c"
    unfolding heading_def
    by (rule exI [of _ "hs_head c"]) (use Cons.prems(2) in \<open>auto simp: idle_def\<close>)
  moreover have "ds \<noteq> []" using ok(3) by (auto simp: request_text_def crlf_def)
  ultimately obtain c1 where c1: "recv_pieces alloc app rapp urls ds c = Some c1" "idle c1"
      "hs_conn c1 = Some (rc\<lparr>rc_needWriteDoneNotif := True, rc_wire := rc_wire rc @ reply_to urls code hs ans u q\<rparr>)"
    using pieces_answered [OF ok(1) assms(1) ok(2) Cons.prems(2,3), of "[]" c ds] ok(3,4) by auto
  from Cons.IH [OF _ c1(2,3)] Cons.prems(1) show ?case using c1(1) by (simp add: r recv_pieces_append)
qed

text \<open>
  C5. The server answers what it is asked: GET requests that arrive on a persistent connection one after the other, each
  with any plain header lines and cut into any pieces, are answered in order, each by the function that is registered first
  for its URL. The function sees the method, the URL up to the question mark and the arguments behind it; what reaches the socket
  is the status line, its headers and its data in chunked coding, and afterwards the connection waits for the next request.
  The head must stay below 1024 bytes and the answer within the send buffer.
\<close>

theorem requests_answered:
  assumes "answers_with app code hs ans"
    and "\<forall>(u, q, ls, ds) \<in> set rs. request_ok urls u q ls \<and> fits urls code hs ans u q \<and>
      concat ds = request_text u q ls \<and> [] \<notin> set ds"
    and "idle c" "hs_conn c = Some rc"
  shows "\<exists>c' rc'. recv_pieces alloc app rapp urls (concat (List.map (\<lambda>(u, q, ls, ds). ds) rs)) c = Some c' \<and> idle c' \<and>
     hs_conn c' = Some rc' \<and> rc_wire rc' = rc_wire rc @ concat (List.map (\<lambda>(u, q, ls, ds). reply_to urls code hs ans u q) rs)"
  by (rule requests_in_order [OF assms])

definition sample_urls :: "builtin_url list" where
  "sample_urls = [\<lparr>bu_url = ascii ''/old'', bu_cgi = Cgi_Redirect, bu_cgiArg = Some (ascii ''/new''), bu_context = 0\<rparr>,
     \<lparr>bu_url = ascii ''/say*'', bu_cgi = Cgi_App 1, bu_cgiArg = None, bu_context = 0\<rparr>]"

definition sample_ans :: "nat \<Rightarrow> answers" where
  "sample_ans n v = [case snd (snd v) of None \<Rightarrow> ascii ''nothing'' | Some a \<Rightarrow> a]"

definition sample_app :: cgi_app where
  "sample_app n c = cgi_respond 200 [] (sample_ans n (view c)) c"

definition sample_rconn :: rtos_conn where
  "sample_rconn = \<lparr>rc_fd = 7, rc_needWriteDoneNotif = False, rc_needsClose = False, rc_port = 4000, rc_ip = [10, 0, 0, 2],
     rc_writes = [], rc_wire = []\<rparr>"

definition sample_request :: sent_request where
  "sample_request = (let u = ascii ''/say/it''; q = Some (ascii ''text=1''); ls = [ascii ''Host: speaker'']; t = request_text u q ls
     in (u, q, ls, [take 30 t, drop 30 t]))"

lemma sample_ok: "request_ok sample_urls (ascii ''/say/it'') (Some (ascii ''text=1'')) [ascii ''Host: speaker'']"
  by (simp add: request_ok_def url_text_def query_text_def plain_line_def line_text_def method_of_def method_lines_def starts_def
    request_text_def get_line_def app_cgi_def sample_urls_def url_matches_def crlf_def ascii_def)

lemma sample_fits: "fits sample_urls (\<lambda>_. 200) (\<lambda>_. []) sample_ans (ascii ''/say/it'') (Some (ascii ''text=1''))"
  by (simp add: fits_def Let_def reply_head_def sample_ans_def decimal.simps crlf_def ascii_def)

lemma sample_idle: "idle (new_conn sample_rconn)" "hs_conn (new_conn sample_rconn) = Some sample_rconn"
  by (simp_all add: idle_def new_conn_def no_flags_def sample_rconn_def)

theorem requests_answered_witness:
  "\<exists>c' rc'. recv_pieces (\<lambda>_. True) sample_app (\<lambda>_ _ _. None) sample_urls
       (concat (List.map (\<lambda>(u, q, ls, ds). ds) [sample_request, sample_request])) (new_conn sample_rconn) = Some c' \<and> idle c' \<and>
     hs_conn c' = Some rc' \<and> rc_wire rc' = rc_wire sample_rconn @ concat (List.map (\<lambda>(u, q, ls, ds).
       reply_to sample_urls (\<lambda>_. 200) (\<lambda>_. []) sample_ans u q) [sample_request, sample_request])"
proof (rule requests_answered [OF _ _ sample_idle])
  show "answers_with sample_app (\<lambda>_. 200) (\<lambda>_. []) sample_ans" by (simp add: answers_with_def sample_app_def)
  have "30 < length (request_text (ascii ''/say/it'') (Some (ascii ''text=1'')) [ascii ''Host: speaker''])"
    by (simp add: request_text_def get_line_def query_text_def crlf_def ascii_def)
  then show "\<forall>(u, q, ls, ds) \<in> set [sample_request, sample_request]. request_ok sample_urls u q ls \<and>
      fits sample_urls (\<lambda>_. 200) (\<lambda>_. []) sample_ans u q \<and> concat ds = request_text u q ls \<and> [] \<notin> set ds"
    using sample_ok sample_fits by (auto simp: sample_request_def Let_def)
qed

section \<open>A function that declines\<close>

lemma declined_round:
  assumes "hs_url c = Some u" "str_at (hs_head c) u = Some s" "find_url urls s = Some (Some b)" "r \<noteq> HTTPD_CGI_MORE" "r \<noteq> HTTPD_CGI_DONE"
    and "run_cgi alloc app (bu_cgi b) (c\<lparr>hs_cgiData := 0, hs_cgi := Some (bu_cgi b), hs_cgiArg := bu_cgiArg b, hs_context := bu_context b\<rparr>) =
      Some (r, c\<lparr>hs_cgiData := 0, hs_cgi := Some (bu_cgi b), hs_cgiArg := bu_cgiArg b, hs_context := bu_context b\<rparr>)"
  shows "process_round alloc app urls c =
    Some (Inr (c\<lparr>hs_cgiData := 0, hs_cgi := Some (bu_cgi b), hs_cgiArg := bu_cgiArg b, hs_context := bu_context b\<rparr>))"
  using assms by (simp add: process_round_def choose_cgi_def)

lemma stuck_never_returns:
  assumes "process_loop alloc app urls c = Some c'"
  shows "process_round alloc app urls c \<noteq> Some (Inr c)"
proof (rule process_loop.raw_induct [where P = "\<lambda>alloc app urls c c'. process_round alloc app urls c \<noteq> Some (Inr c)",
    OF _ assms], goal_cases)
  case (1 f alloc app urls c c')
  show ?case
  proof
    assume s: "process_round alloc app urls c = Some (Inr c)"
    then have "f alloc app urls c = Some c'" using 1(2) by simp
    from 1(1) [OF this] s show False by simp
  qed
qed

text \<open>
  C35. A function that declines a request is asked again, for ever: the loop of \<open>httpdProcessRequest\<close> looks the URL up
  from the beginning of the table each time, so when the first entry that matches answers that it does not want the request and
  leaves the connection as it is, every further turn calls the same function on the same connection, no later entry and no error
  page is ever reached, and the server's task does not come back. \<open>cgiRedirectApClientToHostname\<close> always declines, and
  \<open>cgiRedirectToHostname\<close> declines requests to the right host.
\<close>

theorem declined_request_hangs:
  assumes "hs_url c = Some u" "str_at (hs_head c) u = Some s" "find_url urls s = Some (Some b)" "r \<noteq> HTTPD_CGI_MORE" "r \<noteq> HTTPD_CGI_DONE"
    and "c1 = c\<lparr>hs_cgiData := 0, hs_cgi := Some (bu_cgi b), hs_cgiArg := bu_cgiArg b, hs_context := bu_context b\<rparr>"
    and "run_cgi alloc app (bu_cgi b) c1 = Some (r, c1)"
  shows "process_round alloc app urls c = Some (Inr c1) \<and> process_round alloc app urls c1 = Some (Inr c1) \<and>
    httpdProcessRequest alloc app urls c = None"
proof -
  have 1: "process_round alloc app urls c = Some (Inr c1)"
    using declined_round [OF assms(1-5)] assms(6,7) by blast
  have "hs_url c1 = Some u" "str_at (hs_head c1) u = Some s" using assms(1,2,6) by simp_all
  from declined_round [OF this assms(3-5)] have 2: "process_round alloc app urls c1 = Some (Inr c1)" using assms(6,7) by simp
  have "process_loop alloc app urls c1 = None" using stuck_never_returns [of alloc app urls c1] 2 by fastforce
  then have "process_loop alloc app urls c = None" using 1 by (simp add: process_loop.simps [of alloc app urls c])
  with 1 2 show ?thesis using assms(1) by (simp add: httpdProcessRequest_def)
qed

theorem declined_request_hangs_witness:
  "let urls = [\<lparr>bu_url = [0x2A], bu_cgi = Cgi_RedirectApClientToHostname, bu_cgiArg = None, bu_context = 0\<rparr>,
        \<lparr>bu_url = ascii ''/index'', bu_cgi = Cgi_App 1, bu_cgiArg = None, bu_context = 0\<rparr>];
      c = (new_conn sample_rconn)\<lparr>hs_url := Some 0, hs_head := ascii ''/index'' @ replicate 1018 0\<rparr>
   in httpdProcessRequest (\<lambda>_. True) sample_app urls c = None"
proof -
  let ?b = "\<lparr>bu_url = [0x2A], bu_cgi = Cgi_RedirectApClientToHostname, bu_cgiArg = None, bu_context = 0\<rparr>"
  let ?urls = "[?b, \<lparr>bu_url = ascii ''/index'', bu_cgi = Cgi_App 1, bu_cgiArg = None, bu_context = 0\<rparr>]"
  let ?c = "(new_conn sample_rconn)\<lparr>hs_url := Some 0, hs_head := ascii ''/index'' @ replicate 1018 0\<rparr>"
  have "replicate 1018 0 = (0 :: byte) # replicate 1017 0" by (simp add: replicate_Suc [symmetric] del: replicate_Suc)
  then have s: "str_at (hs_head ?c) 0 = Some (ascii ''/index'')"
    using str_at_text [of "[]" 0 "ascii ''/index''" "replicate 1017 0"] by (simp add: ascii_def)
  have f: "find_url ?urls (ascii ''/index'') = Some (Some ?b)" by (simp add: url_matches_def starts_def)
  have "httpdProcessRequest (\<lambda>_. True) sample_app ?urls ?c = None"
    using declined_request_hangs [OF _ s f, of 2 _ "\<lambda>_. True" sample_app] by (simp add: cgiRedirectApClientToHostname_def)
  then show ?thesis by (simp only: Let_def)
qed

section \<open>A head that is too long\<close>

lemma store_many:
  assumes "heading P c0 c" "length P + length xs < HTTPD_MAX_HEAD_LEN" "0x0A \<notin> set xs" "po_len (hs_post c0) < 0"
  shows "\<exists>c'. recv_loop alloc app rapp urls buf (xs @ ys) c = recv_loop alloc app rapp urls buf ys c' \<and> heading (P @ xs) c0 c'"
  using assms(1-3)
proof (induction xs arbitrary: P c)
  case Nil
  then show ?case by auto
next
  case (Cons b xs)
  then obtain c1 where c1: "store_head b c = Some c1" "heading (P @ [b]) c0 c1"
    using heading_byte [OF Cons.prems(1), of b] by auto
  then have "recv_head alloc app urls b c = Some c1" using Cons.prems(3) by (simp add: recv_head_def head_ends_def)
  moreover obtain c' where "recv_loop alloc app rapp urls buf (xs @ ys) c1 = recv_loop alloc app rapp urls buf ys c'"
      "heading ((P @ [b]) @ xs) c0 c'"
    using Cons.IH [OF c1(2)] Cons.prems(2,3) by auto
  ultimately show ?case using heading_post [OF Cons.prems(1)] assms(4) by auto
qed

text \<open>
  C36. A long first line overruns the head: the test for the limit only guards the store of the byte itself, and the terminator
  behind it is written at every byte, so the 1024th byte of a head without a line feed, on an idle connection, writes outside
  the buffer, whatever follows.
\<close>

theorem long_head_overruns:
  assumes "idle c" "length xs = HTTPD_MAX_HEAD_LEN" "0x0A \<notin> set xs"
  shows "recv_loop alloc app rapp urls buf (xs @ ys) c = None"
proof -
  obtain zs b where xs: "xs = zs @ [b]" using assms(2) by (cases xs rule: rev_cases) auto
  have "heading [] c c" unfolding heading_def by (rule exI [of _ "hs_head c"]) (use assms(1) in \<open>auto simp: idle_def\<close>)
  moreover have po: "po_len (hs_post c) < 0" using assms(1) by (simp add: idle_def)
  ultimately obtain c1 where c1: "recv_loop alloc app rapp urls buf (zs @ b # ys) c = recv_loop alloc app rapp urls buf (b # ys) c1"
      "heading zs c c1"
    using store_many [of "[]" c c zs alloc app rapp urls buf "b # ys"] assms(2,3) xs by auto
  obtain Z where Z: "length zs + length Z = HTTPD_MAX_HEAD_LEN" "c1 = c\<lparr>hs_head := zs @ Z, hs_headPos := length zs\<rparr>"
    using c1(2) unfolding heading_def by blast
  have l: "length zs = 1023" "b \<noteq> 0x0A" using assms(2,3) xs by simp_all
  then have "store_head b c1 = None" using Z by (simp add: store_head_def fake_cr_def put_head_def wr_def)
  then show ?thesis using c1(1) po by (simp add: xs Z(2) recv_head_def)
qed

theorem long_head_overruns_witness:
  "recv_loop (\<lambda>_. True) sample_app (\<lambda>_ _ _. None) sample_urls [] (replicate HTTPD_MAX_HEAD_LEN 0x41 @ []) (new_conn sample_rconn) = None"
  by (rule long_head_overruns [OF sample_idle(1)]) simp_all

end
