(* ===== verification/Httpd_Server.thy ===== *)
theory Httpd_Server
  imports Httpd_Answer
begin

text \<open>
  The task of the HTTP server, \<open>httpd/httpd-freertos.c\<close>: the platform's connections, accepting one, and the service
  of a slot after \<open>select\<close>; and the invariant that keeps the platform's connections and the pool of \<open>httpd.c\<close> in step.

  \<open>readable\<close> and \<open>writable\<close> are the descriptors that \<open>select\<close> left in its sets, \<open>recv\<close> what each descriptor gives;
  the test of a set for the descriptor -1, which the code makes after it closed a connection, is \<open>readable (-1)\<close>.
\<close>

section \<open>The task\<close>

record server =
  sv_httpd :: httpd
  sv_rconn :: "rtos_conn list"

definition RECV_BUF_SIZE :: nat where "RECV_BUF_SIZE = 2048"

fun first_free :: "rtos_conn list \<Rightarrow> nat option" where
  "first_free [] = None"
| "first_free (r # rs) = (if rc_fd r = -1 then Some 0 else map_option Suc (first_free rs))"

text \<open>A new connection; the result of the callback is not looked at. \<open>writes\<close> is what its next writes will do.\<close>

definition accept_conn ::
  "(nat \<Rightarrow> bool) \<Rightarrow> int \<Rightarrow> int \<Rightarrow> byte list \<Rightarrow> int list \<Rightarrow> server \<Rightarrow> server option" where
  "accept_conn alloc fd port ip writes s =
     (case first_free (sv_rconn s) of
        None \<Rightarrow> Some s
      | Some x \<Rightarrow> do {
          let rc = \<lparr>rc_fd = fd, rc_needWriteDoneNotif = False, rc_needsClose = False, rc_port = port, rc_ip = ip,
            rc_writes = writes, rc_wire = []\<rparr>;
          (_, d) \<leftarrow> httpdConnectCb alloc rc (sv_httpd s);
          Some (s\<lparr>sv_httpd := d, sv_rconn := (sv_rconn s)[x := rc]\<rparr>) })"

definition close_slot :: "(nat \<Rightarrow> bool) \<Rightarrow> cgi_app \<Rightarrow> nat \<Rightarrow> server \<Rightarrow> server option" where
  "close_slot alloc app x s =
     do { (rc, d) \<leftarrow> httpdDisconCb alloc app (sv_rconn s ! x) (sv_httpd s);
          Some (s\<lparr>sv_httpd := d, sv_rconn := (sv_rconn s)[x := rc\<lparr>rc_fd := -1\<rparr>]\<rparr>) }"

definition serve_write :: "(nat \<Rightarrow> bool) \<Rightarrow> cgi_app \<Rightarrow> (int \<Rightarrow> bool) \<Rightarrow> nat \<Rightarrow> server \<Rightarrow> server option" where
  "serve_write alloc app writable x s =
     (let rc = sv_rconn s ! x in
      if \<not> (rc_needWriteDoneNotif rc \<and> writable (rc_fd rc)) then Some s
      else let rc1 = rc\<lparr>rc_needWriteDoneNotif := False\<rparr>; s1 = s\<lparr>sv_rconn := (sv_rconn s)[x := rc1]\<rparr> in
           if rc_needsClose rc1 then close_slot alloc app x s1
           else do { (rc2, d) \<leftarrow> httpdSentCb alloc app rc1 (sv_httpd s1);
                     Some (s1\<lparr>sv_httpd := d, sv_rconn := (sv_rconn s1)[x := rc2]\<rparr>) })"

text \<open>Without memory for the receive buffer the connection is closed, and received from all the same.\<close>

definition serve_read ::
  "(nat \<Rightarrow> bool) \<Rightarrow> cgi_app \<Rightarrow> recv_app \<Rightarrow> (int \<Rightarrow> bool) \<Rightarrow> (int \<Rightarrow> byte list option) \<Rightarrow> nat \<Rightarrow> server \<Rightarrow> server option" where
  "serve_read alloc app rapp readable recv x s =
     (if \<not> readable (rc_fd (sv_rconn s ! x)) then Some s
      else do {
        s1 \<leftarrow> (if alloc 242 then Some s else close_slot alloc app x s);
        case recv (rc_fd (sv_rconn s1 ! x)) of
          None \<Rightarrow> close_slot alloc app x s1
        | Some d \<Rightarrow>
            if \<not> alloc 242 \<or> length d > RECV_BUF_SIZE then None
            else do { (rc, h) \<leftarrow> httpdRecvCb alloc app rapp (d @ replicate (RECV_BUF_SIZE - length d) 0) (length d) (sv_rconn s1 ! x) (sv_httpd s1);
                      Some (s1\<lparr>sv_httpd := h, sv_rconn := (sv_rconn s1)[x := rc]\<rparr>) } })"

definition serve_slot ::
  "(nat \<Rightarrow> bool) \<Rightarrow> cgi_app \<Rightarrow> recv_app \<Rightarrow> (int \<Rightarrow> bool) \<Rightarrow> (int \<Rightarrow> bool) \<Rightarrow> (int \<Rightarrow> byte list option) \<Rightarrow> nat \<Rightarrow> server \<Rightarrow> server option" where
  "serve_slot alloc app rapp writable readable recv x s =
     (if rc_fd (sv_rconn s ! x) = -1 then Some s
      else do { s1 \<leftarrow> serve_write alloc app writable x s; serve_read alloc app rapp readable recv x s1 })"

fun serve_all ::
  "(nat \<Rightarrow> bool) \<Rightarrow> cgi_app \<Rightarrow> recv_app \<Rightarrow> (int \<Rightarrow> bool) \<Rightarrow> (int \<Rightarrow> bool) \<Rightarrow> (int \<Rightarrow> byte list option) \<Rightarrow> nat list \<Rightarrow> server \<Rightarrow> server option" where
  "serve_all alloc app rapp writable readable recv [] s = Some s"
| "serve_all alloc app rapp writable readable recv (x # xs) s =
     do { s1 \<leftarrow> serve_slot alloc app rapp writable readable recv x s; serve_all alloc app rapp writable readable recv xs s1 }"

text \<open>
  One turn of the task after a successful \<open>select\<close>. The new connection is what \<open>accept\<close> and \<open>getpeername\<close> say, when the listening
  descriptor is readable; without a free slot the rest of the turn is left out.
\<close>

definition server_turn ::
  "(nat \<Rightarrow> bool) \<Rightarrow> cgi_app \<Rightarrow> recv_app \<Rightarrow> (int \<times> int \<times> byte list \<times> int list) option \<Rightarrow> (int \<Rightarrow> bool) \<Rightarrow> (int \<Rightarrow> bool) \<Rightarrow>
     (int \<Rightarrow> byte list option) \<Rightarrow> server \<Rightarrow> server option" where
  "server_turn alloc app rapp new writable readable recv s =
     (case new of
        None \<Rightarrow> serve_all alloc app rapp writable readable recv [0..<HTTPD_MAX_CONNECTIONS] s
      | Some (fd, port, ip, writes) \<Rightarrow>
          if fd < 0 \<or> first_free (sv_rconn s) = None then Some s
          else do { s1 \<leftarrow> accept_conn alloc fd port ip writes s;
                    serve_all alloc app rapp writable readable recv [0..<HTTPD_MAX_CONNECTIONS] s1 })"

text \<open>The start of the task after \<open>httpdInit\<close>: every slot is free.\<close>

definition server_start :: "rtos_conn list \<Rightarrow> httpd \<Rightarrow> server" where
  "server_start rcs d = \<lparr>sv_httpd = d, sv_rconn = List.map (\<lambda>r. r\<lparr>rc_fd := -1\<rparr>) rcs\<rparr>"

section \<open>What no operation changes\<close>

text \<open>The address a connection is found by, and the platform's connection it points to.\<close>

definition tag :: "httpd_conn \<Rightarrow> int \<times> byte list \<times> (int \<times> int \<times> byte list) option" where
  "tag c = (hs_remote_port c, hs_remote_ip c, map_option (\<lambda>r. (rc_fd r, rc_port r, rc_ip r)) (hs_conn c))"

definition app_keeps :: "cgi_app \<Rightarrow> bool" where
  "app_keeps app \<longleftrightarrow> (\<forall>n c r c'. app n c = Some (r, c') \<longrightarrow> tag c' = tag c)"

definition rapp_keeps :: "recv_app \<Rightarrow> bool" where
  "rapp_keeps rapp \<longleftrightarrow> (\<forall>n d c r c'. rapp n d c = Some (r, c') \<longrightarrow> tag c' = tag c)"

lemma tag_updates [simp]:
  "tag (c\<lparr>hs_context := a1\<rparr>) = tag c" "tag (c\<lparr>hs_requestType := a2\<rparr>) = tag c" "tag (c\<lparr>hs_url := a3\<rparr>) = tag c"
  "tag (c\<lparr>hs_getArgs := a3\<rparr>) = tag c" "tag (c\<lparr>hs_cgiArg := a4\<rparr>) = tag c" "tag (c\<lparr>hs_cgiData := a1\<rparr>) = tag c"
  "tag (c\<lparr>hs_hostName := a3\<rparr>) = tag c" "tag (c\<lparr>hs_cgi := a5\<rparr>) = tag c" "tag (c\<lparr>hs_post := a6\<rparr>) = tag c"
  "tag (c\<lparr>hs_head := a7\<rparr>) = tag c" "tag (c\<lparr>hs_headPos := a1\<rparr>) = tag c" "tag (c\<lparr>hs_sendBuff := a4\<rparr>) = tag c"
  "tag (c\<lparr>hs_sendBuffLen := a1\<rparr>) = tag c" "tag (c\<lparr>hs_chunkHdr := a3\<rparr>) = tag c" "tag (c\<lparr>hs_sendBacklog := a8\<rparr>) = tag c"
  "tag (c\<lparr>hs_sendBacklogSize := a9\<rparr>) = tag c" "tag (c\<lparr>HFL_HTTP11 := b\<rparr>) = tag c" "tag (c\<lparr>HFL_CHUNKED := b\<rparr>) = tag c"
  "tag (c\<lparr>HFL_SENDINGBODY := b\<rparr>) = tag c" "tag (c\<lparr>HFL_DISCONAFTERSENT := b\<rparr>) = tag c" "tag (c\<lparr>HFL_NOCONNECTIONSTR := b\<rparr>) = tag c"
  by (simp_all add: tag_def)

lemma tag_send_data: "hs_conn c = Some rc \<Longrightarrow> tag (c\<lparr>hs_conn := Some (snd (httpdPlatSendData d rc))\<rparr>) = tag c"
  by (simp add: tag_def httpdPlatSendData_def split: list.splits)

lemma tag_disconnect: "hs_conn c = Some rc \<Longrightarrow> tag (c\<lparr>hs_conn := Some (httpdPlatDisconnect rc)\<rparr>) = tag c"
  by (simp add: tag_def httpdPlatDisconnect_def)

lemma tag_httpdSend: "httpdSend d c = Some (r, c') \<Longrightarrow> tag c' = tag c"
  by (auto simp: httpdSend_def start_chunk_def bind_eq_Some_conv split: if_splits option.splits)

lemma tag_send_all: "send_all ds c = Some c' \<Longrightarrow> tag c' = tag c"
  by (induction ds arbitrary: c) (auto simp: bind_eq_Some_conv dest!: tag_httpdSend)

lemma tag_start: "httpdStartResponse code c = Some c' \<Longrightarrow> tag c' = tag c"
  by (auto simp: httpdStartResponse_def dest!: tag_httpdSend split: if_splits)

lemma tag_header: "httpdHeader f v c = Some c' \<Longrightarrow> tag c' = tag c"
  unfolding httpdHeader_def by (rule tag_send_all)

lemma tag_end_headers: "httpdEndHeaders c = Some c' \<Longrightarrow> tag c' = tag c"
  unfolding httpdEndHeaders_def by (auto simp: bind_eq_Some_conv simp del: send_all.simps dest!: tag_send_all)

lemma tag_redirect: "httpdRedirect u c = Some c' \<Longrightarrow> tag c' = tag c"
  unfolding httpdRedirect_def
  by (auto simp: bind_eq_Some_conv simp del: send_all.simps dest!: tag_start tag_header tag_end_headers tag_send_all)

lemma tag_not_found: "cgiNotFound c = Some (r, c') \<Longrightarrow> tag c' = tag c"
  unfolding cgiNotFound_def
  by (auto simp: bind_eq_Some_conv simp del: send_all.simps dest!: tag_start tag_end_headers tag_send_all split: if_splits)

lemma tag_run_cgi: "app_keeps app \<Longrightarrow> run_cgi alloc app g c = Some (r, c') \<Longrightarrow> tag c' = tag c"
  by (cases g)
    (auto simp: app_keeps_def cgiRedirect_def cgiRedirectToHostname_def cgiRedirectApClientToHostname_def bind_eq_Some_conv
      dest!: tag_not_found tag_redirect split: if_splits option.splits)

lemma tag_end_chunk: "end_chunk c = Some c' \<Longrightarrow> tag c' = tag c"
  by (auto simp: end_chunk_def bind_eq_Some_conv dest!: tag_httpdSend split: option.splits)

lemma tag_last_chunk: "last_chunk c = Some c' \<Longrightarrow> tag c' = tag c"
  by (auto simp: last_chunk_def bind_eq_Some_conv split: if_splits)

lemma tag_send_or_keep: "send_or_keep alloc c = Some c' \<Longrightarrow> tag c' = tag c"
  using tag_send_data [of c]
  by (auto simp: send_or_keep_def bind_eq_Some_conv Let_def split: if_splits prod.splits) (metis snd_conv tag_updates(13,15,16))+

lemma tag_flush: "httpdFlushSendBuffer alloc c = Some c' \<Longrightarrow> tag c' = tag c"
  by (auto simp: httpdFlushSendBuffer_def bind_eq_Some_conv dest!: tag_end_chunk tag_last_chunk tag_send_or_keep split: if_splits)

lemma tag_no_flags [simp]: "tag (no_flags c) = tag c"
  by (simp add: no_flags_def)

lemma tag_done: "httpdCgiIsDone alloc c = Some c' \<Longrightarrow> tag c' = tag c"
  by (auto simp: httpdCgiIsDone_def bind_eq_Some_conv Let_def dest!: tag_flush split: if_splits)

lemma tag_parse_first: "parse_first h c = Some c' \<Longrightarrow> tag c' = tag c"
  unfolding parse_first_def Let_def
  by ((simp split: Option.bind_splits option.splits if_splits; safe); simp (no_asm))

lemma tag_parse_connection: "parse_connection h c = Some c' \<Longrightarrow> tag c' = tag c"
  by (auto simp: parse_connection_def bind_eq_Some_conv split: if_splits)

lemma tag_parse_length: "parse_length alloc h c = Some c' \<Longrightarrow> tag c' = tag c"
  by (auto simp: parse_length_def bind_eq_Some_conv Let_def)

lemma tag_parse_type: "parse_type h c = Some c' \<Longrightarrow> tag c' = tag c"
  by (auto simp: parse_type_def bind_eq_Some_conv split: option.splits)

lemma tag_parse_header: "httpdParseHeader alloc h c = Some c' \<Longrightarrow> tag c' = tag c"
  by (auto simp: httpdParseHeader_def bind_eq_Some_conv split: if_splits option.splits
    dest!: tag_parse_first tag_parse_connection tag_parse_length tag_parse_type)

lemma tag_parse_lines: "parse_lines alloc fin p c = Some c' \<Longrightarrow> tag c' = tag c"
proof (induction alloc fin p c arbitrary: c' rule: parse_lines.induct)
  case (1 alloc fin p c)
  show ?case
  proof (cases "p < fin")
    case True
    then obtain e where e: "find_at (hs_head c) p crlf = Some e"
        "(case e of None \<Rightarrow> Some c | Some e \<Rightarrow> do { m \<leftarrow> wr (hs_head c) e 0; c1 \<leftarrow> httpdParseHeader alloc p (c\<lparr>hs_head := m\<rparr>);
            parse_lines alloc fin (e + 2) c1 }) = Some c'"
      using 1(2) unfolding parse_lines.simps [of alloc fin p c] bind_eq_Some_conv if_not_P [OF not_not [THEN iffD2, OF True]] by blast
    show ?thesis
    proof (cases e)
      case None
      then show ?thesis using e(2) by simp
    next
      case (Some i)
      then obtain m c1 where m: "wr (hs_head c) i 0 = Some m" "httpdParseHeader alloc p (c\<lparr>hs_head := m\<rparr>) = Some c1"
          "parse_lines alloc fin (i + 2) c1 = Some c'" using e(2) by (auto simp: bind_eq_Some_conv)
      have "tag c' = tag c1" using 1(1) [of e i m c1 c'] True e(1) Some m by simp
      then show ?thesis using tag_parse_header [OF m(2)] by simp
    qed
  next
    case False
    then show ?thesis using 1(2) by (subst (asm) parse_lines.simps) simp
  qed
qed

lemma tag_choose: "choose_cgi urls s c = Some (g, c') \<Longrightarrow> tag c' = tag c"
  by (auto simp: choose_cgi_def bind_eq_Some_conv split: option.splits)

lemma tag_round:
  assumes "app_keeps app" "process_round alloc app urls c = Some r"
  shows "case r of Inl c' \<Rightarrow> tag c' = tag c | Inr c' \<Rightarrow> tag c' = tag c"
  using assms(2)
  by (auto simp: process_round_def bind_eq_Some_conv split: if_splits
    dest!: tag_choose tag_run_cgi [OF assms(1)] tag_flush tag_done)

lemma tag_process_loop:
  assumes "process_loop alloc app urls c = Some c'" "app_keeps app"
  shows "tag c' = tag c"
proof -
  have "app_keeps app \<longrightarrow> tag c' = tag c"
  proof (rule process_loop.raw_induct [where P = "\<lambda>alloc app urls c c'. app_keeps app \<longrightarrow> tag c' = tag c", OF _ assms(1)], goal_cases)
    case (1 f alloc app urls c c')
    from 1(2) obtain r where r: "process_round alloc app urls c = Some r"
        "(case r of Inl c1 \<Rightarrow> Some c1 | Inr c1 \<Rightarrow> f alloc app urls c1) = Some c'" by (auto simp: bind_eq_Some_conv)
    show ?case
    proof
      assume k: "app_keeps app"
      show "tag c' = tag c"
      proof (cases r)
        case (Inl a)
        then show ?thesis using tag_round [OF k r(1)] r(2) by simp
      next
        case (Inr a)
        then have "tag c' = tag a" using 1(1) [of alloc app urls a c'] r(2) k by simp
        then show ?thesis using tag_round [OF k r(1)] Inr by simp
      qed
    qed
  qed
  then show ?thesis using assms(2) by simp
qed

lemma tag_process: "app_keeps app \<Longrightarrow> httpdProcessRequest alloc app urls c = Some c' \<Longrightarrow> tag c' = tag c"
  by (auto simp: httpdProcessRequest_def dest: tag_process_loop split: if_splits)

lemma tag_put_head: "put_head b c = Some c' \<Longrightarrow> tag c' = tag c"
  by (auto simp: put_head_def bind_eq_Some_conv)

lemma tag_fake_cr: "fake_cr b c = Some c' \<Longrightarrow> tag c' = tag c"
  by (auto simp: fake_cr_def bind_eq_Some_conv split: if_splits dest: tag_put_head)

lemma tag_store_head: "store_head b c = Some c' \<Longrightarrow> tag c' = tag c"
  by (auto simp: store_head_def bind_eq_Some_conv split: if_splits dest!: tag_put_head tag_fake_cr)

lemma tag_head_done: "app_keeps app \<Longrightarrow> head_done alloc app urls c = Some c' \<Longrightarrow> tag c' = tag c"
proof -
  assume k: "app_keeps app" and h: "head_done alloc app urls c = Some c'"
  obtain c1 where c1: "parse_lines alloc (hs_headPos c - 4) 0 (c\<lparr>hs_post := (hs_post c)\<lparr>po_len := 0\<rparr>, hs_url := None\<rparr>) = Some c1"
      "(if po_len (hs_post c1) = 0 then httpdProcessRequest alloc app urls c1 else Some c1) = Some c'"
    using h unfolding head_done_def bind_eq_Some_conv by blast
  have "tag c1 = tag c" using tag_parse_lines [OF c1(1)] by simp
  moreover have "tag c' = tag c1" using c1(2) tag_process [OF k] by (simp split: if_splits)
  ultimately show ?thesis by simp
qed

lemma tag_recv_head:
  assumes k: "app_keeps app" and h: "recv_head alloc app urls b c = Some c'"
  shows "tag c' = tag c"
proof -
  obtain c1 e where "store_head b c = Some c1" "(if e then head_done alloc app urls c1 else Some c1) = Some c'"
    using h unfolding recv_head_def bind_eq_Some_conv by blast
  then show ?thesis using tag_store_head tag_head_done [OF k] by (cases e) fastforce+
qed

lemma tag_call_done:
  assumes k: "app_keeps app"
    and h: "do { (r, c1) \<leftarrow> run_cgi alloc app g c; if P r then httpdCgiIsDone alloc c1 else Some c1 } = Some c'"
  shows "tag c' = tag c"
proof -
  obtain r c1 where c1: "run_cgi alloc app g c = Some (r, c1)" "(if P r then httpdCgiIsDone alloc c1 else Some c1) = Some c'"
    using h by (auto simp: bind_eq_Some_conv)
  have "tag c' = tag c1" using c1(2) tag_done by (simp split: if_splits)
  then show ?thesis using tag_run_cgi [OF k c1(1)] by simp
qed

lemma tag_post_done:
  assumes k: "app_keeps app" and h: "post_done alloc app urls c = Some c'"
  shows "tag c' = tag c"
proof -
  obtain c1 where c1: "(case hs_cgi c of
        Some g \<Rightarrow> do { (r, c1) \<leftarrow> run_cgi alloc app g c; if r = HTTPD_CGI_DONE then httpdCgiIsDone alloc c1 else Some c1 }
      | None \<Rightarrow> httpdProcessRequest alloc app urls c) = Some c1" "c' = c1\<lparr>hs_post := (hs_post c1)\<lparr>po_buffLen := 0\<rparr>\<rparr>"
    using h unfolding post_done_def bind_eq_Some_conv by blast
  have "tag c1 = tag c"
  proof (cases "hs_cgi c")
    case None
    then show ?thesis using c1(1) tag_process [OF k] by simp
  next
    case (Some g)
    then show ?thesis using c1(1) tag_call_done [OF k, of alloc g c "\<lambda>r. r = HTTPD_CGI_DONE" c1] by simp
  qed
  then show ?thesis by (simp add: c1(2))
qed

lemma tag_recv_post: "app_keeps app \<Longrightarrow> recv_post alloc app urls b c = Some c' \<Longrightarrow> tag c' = tag c"
  unfolding recv_post_def Let_def
  by (simp split: Option.bind_splits if_splits) (auto dest!: tag_post_done)

lemma tag_recv_loop:
  assumes k: "app_keeps app" "rapp_keeps rapp"
  shows "recv_loop alloc app rapp urls buf xs c = Some c' \<Longrightarrow> tag c' = tag c"
proof (induction xs arbitrary: c)
  case (Cons b xs)
  consider "po_len (hs_post c) < 0" | "po_len (hs_post c) > 0"
    | h where "po_len (hs_post c) = 0" "hs_recvHdl c = Some h" | "po_len (hs_post c) = 0" "hs_recvHdl c = None"
    by (cases "hs_recvHdl c") force+
  then show ?case
  proof cases
    case 1
    then obtain c1 where "recv_head alloc app urls b c = Some c1" "recv_loop alloc app rapp urls buf xs c1 = Some c'"
      using Cons.prems by (auto simp: bind_eq_Some_conv)
    then show ?thesis using tag_recv_head [OF k(1)] Cons.IH by metis
  next
    case 2
    then obtain c1 where "recv_post alloc app urls b c = Some c1" "recv_loop alloc app rapp urls buf xs c1 = Some c'"
      using Cons.prems by (auto simp: bind_eq_Some_conv)
    then show ?thesis using tag_recv_post [OF k(1)] Cons.IH by metis
  next
    case 3
    then obtain r c1 where r: "rapp h (b # xs) c = Some (r, c1)" "(if r = HTTPD_CGI_DONE then httpdCgiIsDone alloc c1 else Some c1) = Some c'"
      using Cons.prems by (auto simp: bind_eq_Some_conv)
    have "tag c1 = tag c" using k(2) r(1) unfolding rapp_keeps_def by blast
    then show ?thesis using r(2) tag_done by (metis option.inject)
  next
    case 4
    then show ?thesis using Cons.prems Cons.IH by (auto simp: bind_eq_Some_conv)
  qed
qed simp

lemma tag_recv_conn:
  assumes k: "app_keeps app" "rapp_keeps rapp" and r: "recv_conn alloc app rapp urls buf len c = Some c'"
  shows "tag c' = tag c"
proof -
  obtain c1 c2 where "recv_loop alloc app rapp urls buf (take len buf)
        (c\<lparr>hs_sendBuff := Some (replicate HTTPD_MAX_SENDBUFF_LEN 0), hs_sendBuffLen := 0\<rparr>) = Some c1"
      "httpdFlushSendBuffer alloc c1 = Some c2" "c' = c2\<lparr>hs_sendBuff := None\<rparr>"
    using r unfolding recv_conn_def bind_eq_Some_conv by blast
  then show ?thesis using tag_recv_loop [OF k, of alloc urls buf "take len buf"] tag_flush by fastforce
qed

lemma tag_continue_cgi:
  assumes k: "app_keeps app" and r: "continue_cgi alloc app g c = Some c'"
  shows "tag c' = tag c"
proof -
  let ?c = "c\<lparr>hs_sendBuff := Some (replicate HTTPD_MAX_SENDBUFF_LEN 0), hs_sendBuffLen := 0\<rparr>"
  obtain r c1 c2 c3 where "run_cgi alloc app g ?c = Some (r, c1)"
      "(if r = HTTPD_CGI_DONE \<or> r = HTTPD_CGI_NOTFOUND \<or> r = HTTPD_CGI_AUTHENTICATED then httpdCgiIsDone alloc c1 else Some c1) = Some c2"
      "httpdFlushSendBuffer alloc c2 = Some c3" "c' = c3\<lparr>hs_sendBuff := None\<rparr>"
    using r by (auto simp: continue_cgi_def bind_eq_Some_conv)
  moreover from this have "tag c2 = tag c1" using tag_done by (metis option.inject)
  ultimately show ?thesis using tag_run_cgi [OF k, of alloc g ?c] tag_flush [of alloc c2] by simp
qed

lemma tag_continue:
  assumes k: "app_keeps app" and r: "httpdContinue alloc app c = Some c'"
  shows "tag c' = tag c"
proof (cases "hs_sendBacklog c")
  case (Cons d rest)
  then show ?thesis using r by (auto simp: httpdContinue_def bind_eq_Some_conv tag_send_data)
next
  case Nil
  then show ?thesis
    using r tag_continue_cgi [OF k]
    by (auto simp: httpdContinue_def bind_eq_Some_conv tag_disconnect split: if_splits option.splits)
qed

section \<open>The connections of both sides stay in step\<close>

definition addr :: "rtos_conn \<Rightarrow> int \<times> byte list" where
  "addr rc = (rc_port rc, rc_ip rc)"

fun slot_addr :: "slot \<Rightarrow> (int \<times> byte list) option" where
  "slot_addr (Slot_Conn c) = Some (hs_remote_port c, hs_remote_ip c)"
| "slot_addr _ = None"

definition pooled :: "httpd \<Rightarrow> int \<times> byte list \<Rightarrow> bool" where
  "pooled d a \<longleftrightarrow> Some a \<in> set (List.map slot_addr (hd_pool d))"

text \<open>A write notification is pending on an open connection that is not to be closed.\<close>

definition notifies :: "rtos_conn \<Rightarrow> bool" where
  "notifies rc \<longleftrightarrow> rc_fd rc \<noteq> -1 \<and> rc_needWriteDoneNotif rc \<and> \<not> rc_needsClose rc"

definition in_step :: "server \<Rightarrow> bool" where
  "in_step s \<longleftrightarrow> hd_lock (sv_httpd s) = 0 \<and>
     (\<forall>x < length (sv_rconn s). \<forall>y < length (sv_rconn s). x \<noteq> y \<longrightarrow> rc_fd (sv_rconn s ! x) \<noteq> -1 \<longrightarrow> rc_fd (sv_rconn s ! y) \<noteq> -1 \<longrightarrow>
        addr (sv_rconn s ! x) \<noteq> addr (sv_rconn s ! y)) \<and>
     (\<forall>x < length (sv_rconn s). notifies (sv_rconn s ! x) \<longrightarrow> pooled (sv_httpd s) (addr (sv_rconn s ! x)))"

lemma first_slot_None: "first_slot P ss = None \<longleftrightarrow> (\<forall>s \<in> set ss. \<not> P s)"
  by (induction ss) auto

lemma first_slot_Some: "first_slot P ss = Some i \<Longrightarrow> i < length ss \<and> P (ss ! i)"
  by (induction ss arbitrary: i) (auto split: if_splits)

lemma find_conn:
  assumes "httpdFindConnData rc d = Some (Some (i, c))"
  shows "i < length (hd_pool d)" "\<exists>c0. hd_pool d ! i = Slot_Conn c0 \<and> c = c0\<lparr>hs_conn := Some rc\<rparr> \<and> (hs_remote_port c0, hs_remote_ip c0) = addr rc"
  using assms first_slot_Some [of "slot_is (rc_port rc) (rc_ip rc)" "hd_pool d" i]
  by (auto simp: httpdFindConnData_def addr_def split: option.splits slot.splits)

lemma find_none: "httpdFindConnData rc d = Some None \<Longrightarrow> \<not> pooled d (addr rc)"
proof -
  assume "httpdFindConnData rc d = Some None"
  then have n: "\<forall>s \<in> set (hd_pool d). \<not> slot_is (rc_port rc) (rc_ip rc) s"
    by (auto simp: httpdFindConnData_def first_slot_None split: option.splits slot.splits)
  have "slot_addr s \<noteq> Some (addr rc)" if "s \<in> set (hd_pool d)" for s
    using n that by (cases s) (auto simp: addr_def)
  then show ?thesis unfolding pooled_def by fastforce
qed

lemma find_defined: "rc_port rc \<noteq> 0 \<Longrightarrow> httpdFindConnData rc d \<noteq> None"
proof -
  assume p: "rc_port rc \<noteq> 0"
  show ?thesis
  proof (cases "first_slot (slot_is (rc_port rc) (rc_ip rc)) (hd_pool d)")
    case (Some i)
    then show ?thesis using first_slot_Some [OF Some] p by (cases "hd_pool d ! i") (simp_all add: httpdFindConnData_def)
  qed (simp add: httpdFindConnData_def)
qed

text \<open>A slot that keeps its address keeps every address of the pool; a freed slot takes away only its own.\<close>

lemma pooled_update:
  assumes "hd_pool d ! i = Slot_Conn c0" "hs_remote_port c = hs_remote_port c0" "hs_remote_ip c = hs_remote_ip c0" "i < length (hd_pool d)"
  shows "pooled (d\<lparr>hd_pool := (hd_pool d)[i := Slot_Conn c]\<rparr>) a = pooled d a"
proof -
  have "slot_addr (Slot_Conn c) = List.map slot_addr (hd_pool d) ! i" using assms by simp
  then have "List.map slot_addr ((hd_pool d)[i := Slot_Conn c]) = List.map slot_addr (hd_pool d)"
    unfolding map_update by (metis list_update_id)
  then show ?thesis by (simp add: pooled_def del: set_map)
qed

lemma kept_elsewhere: "y \<in> set xs \<Longrightarrow> xs ! i \<noteq> y \<Longrightarrow> y \<in> set (xs[i := z])"
  by (metis in_set_conv_nth length_list_update nth_list_update_neq)

lemma pooled_free:
  assumes "pooled d a" "hd_pool d ! i = Slot_Conn c0" "(hs_remote_port c0, hs_remote_ip c0) \<noteq> a" "i < length (hd_pool d)"
  shows "pooled (httpdRetireConn i d) a"
  using assms kept_elsewhere [of "Some a" "List.map slot_addr (hd_pool d)" i None]
  by (simp add: pooled_def httpdRetireConn_def map_update del: set_map)

text \<open>What a callback does to the two sides, seen from the invariant.\<close>

lemma put_slot_step:
  assumes "httpdFindConnData rc d = Some (Some (i, c))" "tag c1 = tag c" "put_slot i c1 rc d = (rc', d')"
  shows "rc_fd rc' = rc_fd rc" "addr rc' = addr rc" "pooled d' a = pooled d a" "hd_lock d' = hd_lock d" "pooled d' (addr rc)"
proof -
  obtain c0 where c0: "i < length (hd_pool d)" "hd_pool d ! i = Slot_Conn c0" "c = c0\<lparr>hs_conn := Some rc\<rparr>"
      "(hs_remote_port c0, hs_remote_ip c0) = addr rc"
    using find_conn [OF assms(1)] by blast
  have t: "hs_remote_port c1 = hs_remote_port c0" "hs_remote_ip c1 = hs_remote_ip c0"
      "map_option (\<lambda>r. (rc_fd r, rc_port r, rc_ip r)) (hs_conn c1) = Some (rc_fd rc, rc_port rc, rc_ip rc)"
    using assms(2) by (auto simp: tag_def c0(3))
  then obtain r1 where "hs_conn c1 = Some r1" "rc_fd r1 = rc_fd rc" "rc_port r1 = rc_port rc" "rc_ip r1 = rc_ip rc" by auto
  then show "rc_fd rc' = rc_fd rc" "addr rc' = addr rc" "hd_lock d' = hd_lock d"
    using assms(3) by (auto simp: put_slot_def addr_def)
  have d': "d' = d\<lparr>hd_pool := (hd_pool d)[i := Slot_Conn c1]\<rparr>" using assms(3) by (simp add: put_slot_def)
  show p: "pooled d' a = pooled d a" for a unfolding d' by (rule pooled_update [OF c0(2) t(1,2) c0(1)])
  have "slot_addr (hd_pool d ! i) = Some (addr rc)" using c0(2,4) by simp
  then have "pooled d (addr rc)" using c0(1) unfolding pooled_def by (metis length_map nth_map nth_mem)
  then show "pooled d' (addr rc)" by (simp add: p)
qed

lemma recv_step:
  assumes k: "app_keeps app" "rapp_keeps rapp" and r: "httpdRecvCb alloc app rapp buf len rc d = Some (rc', d')"
  shows "rc_fd rc' = rc_fd rc" "addr rc' = addr rc" "pooled d' a = pooled d a" "hd_lock d' = hd_lock d"
    "notifies rc' \<Longrightarrow> pooled d (addr rc) \<or> notifies rc"
proof -
  consider "rc' = rc" "d' = d" | "rc' = httpdPlatDisconnect rc" "d' = d"
    | i c c1 where "httpdFindConnData rc d = Some (Some (i, c))" "recv_conn alloc app rapp (hd_urls d) buf len c = Some c1"
        "put_slot i c1 rc d = (rc', d')"
    using r by (auto simp: httpdRecvCb_def bind_eq_Some_conv split: if_splits option.splits)
  then have "rc_fd rc' = rc_fd rc \<and> addr rc' = addr rc \<and> (\<forall>a. pooled d' a = pooled d a) \<and> hd_lock d' = hd_lock d \<and>
      (notifies rc' \<longrightarrow> pooled d (addr rc) \<or> notifies rc)"
  proof cases
    case 3
    note s = put_slot_step [OF 3(1) tag_recv_conn [OF k 3(2)] 3(3)]
    show ?thesis using s by blast
  qed (auto simp: httpdPlatDisconnect_def addr_def notifies_def)
  then show "rc_fd rc' = rc_fd rc" "addr rc' = addr rc" "pooled d' a = pooled d a" "hd_lock d' = hd_lock d"
    "notifies rc' \<Longrightarrow> pooled d (addr rc) \<or> notifies rc" by blast+
qed

lemma sent_step:
  assumes k: "app_keeps app" and p: "pooled d (addr rc)" and r: "httpdSentCb alloc app rc d = Some (rc', d')"
  shows "rc_fd rc' = rc_fd rc" "addr rc' = addr rc" "pooled d' a = pooled d a" "hd_lock d' = hd_lock d"
proof -
  obtain f where f: "httpdFindConnData rc d = Some f" using r by (auto simp: httpdSentCb_def bind_eq_Some_conv)
  then obtain i c where 0: "f = Some (i, c)" using find_none [of rc d] p by (cases f) auto
  then obtain c1 where "httpdContinue alloc app c = Some c1" "put_slot i c1 rc d = (rc', d')"
    using r f by (auto simp: httpdSentCb_def bind_eq_Some_conv)
  note 1 = f [unfolded 0] this
  note s = put_slot_step [OF 1(1) tag_continue [OF k 1(2)] 1(3)]
  show "rc_fd rc' = rc_fd rc" "addr rc' = addr rc" "pooled d' a = pooled d a" "hd_lock d' = hd_lock d" using s by blast+
qed

lemma discon_step:
  assumes r: "httpdDisconCb alloc app rc d = Some (rc', d')"
  shows "addr rc' = addr rc" "a \<noteq> addr rc \<Longrightarrow> pooled d a \<Longrightarrow> pooled d' a" "hd_lock d' = hd_lock d"
proof -
  consider "rc' = httpdPlatDisconnect rc" "d' = d"
    | i c where "httpdFindConnData rc d = Some (Some (i, c))" "rc' = rc" "d' = httpdRetireConn i d"
  proof -
    obtain f where f: "httpdFindConnData rc d = Some f" using r by (auto simp: httpdDisconCb_def bind_eq_Some_conv)
    show ?thesis
    proof (cases f)
      case None
      then have "(httpdPlatDisconnect rc, d) = (rc', d')" using r f by (simp add: httpdDisconCb_def)
      then show ?thesis using that(1) by blast
    next
      case (Some p)
      obtain i c where p: "p = (i, c)" by fastforce
      have "(rc, httpdRetireConn i d) = (rc', d')"
        using r f unfolding httpdDisconCb_def Some p by (auto simp: bind_eq_Some_conv)
      then show ?thesis using that(2) f Some p by blast
    qed
  qed
  then have "addr rc' = addr rc \<and> (\<forall>a. a \<noteq> addr rc \<longrightarrow> pooled d a \<longrightarrow> pooled d' a) \<and> hd_lock d' = hd_lock d"
  proof cases
    case 2
    obtain c0 where "hd_pool d ! i = Slot_Conn c0" "(hs_remote_port c0, hs_remote_ip c0) = addr rc" "i < length (hd_pool d)"
      using find_conn [OF 2(1)] by blast
    then have "\<forall>a. a \<noteq> addr rc \<longrightarrow> pooled d a \<longrightarrow> pooled d' a" using pooled_free [of d _ i c0] unfolding 2(3) by metis
    moreover have "hd_lock d' = hd_lock d" unfolding 2(3) by (simp add: httpdRetireConn_def)
    ultimately show ?thesis unfolding 2(2) by blast
  next
    case 1
    then show ?thesis by (simp add: httpdPlatDisconnect_def addr_def)
  qed
  then show "addr rc' = addr rc" "a \<noteq> addr rc \<Longrightarrow> pooled d a \<Longrightarrow> pooled d' a" "hd_lock d' = hd_lock d" by blast+
qed

definition apart :: "nat \<Rightarrow> server \<Rightarrow> bool" where
  "apart x s \<longleftrightarrow> (\<forall>y < length (sv_rconn s). y \<noteq> x \<longrightarrow> rc_fd (sv_rconn s ! y) \<noteq> -1 \<longrightarrow> addr (sv_rconn s ! y) \<noteq> addr (sv_rconn s ! x))"

definition good_at :: "nat \<Rightarrow> server \<Rightarrow> bool" where
  "good_at x s \<longleftrightarrow> x < length (sv_rconn s) \<and> in_step s \<and> apart x s"

text \<open>A slot's connection is replaced by one with the same address, the pool keeps the addresses of the others.\<close>

lemma good_at_update:
  assumes "good_at x s" "hd_lock d = 0" "addr rc = addr (sv_rconn s ! x)" "rc_fd rc \<noteq> -1 \<Longrightarrow> rc_fd (sv_rconn s ! x) \<noteq> -1"
    and "notifies rc \<Longrightarrow> pooled d (addr rc)"
    and "\<And>a. a \<noteq> addr (sv_rconn s ! x) \<Longrightarrow> pooled (sv_httpd s) a \<Longrightarrow> pooled d a"
  shows "good_at x (s\<lparr>sv_httpd := d, sv_rconn := (sv_rconn s)[x := rc]\<rparr>)"
proof -
  let ?r = "sv_rconn s"
  have x: "x < length ?r" "in_step s" "apart x s" using assms(1) by (simp_all add: good_at_def)
  have same: "addr (?r[x := rc] ! y) = addr (?r ! y)" if "y < length ?r" for y
    using that assms(3) x(1) by (simp add: nth_list_update)
  have open_before: "rc_fd (?r ! y) \<noteq> -1" if "y < length ?r" "rc_fd (?r[x := rc] ! y) \<noteq> -1" for y
    using that assms(4) x(1) by (auto simp: nth_list_update split: if_splits)
  have "pooled d (addr (?r ! y))" if y: "y < length ?r" "notifies (?r[x := rc] ! y)" for y
  proof (cases "y = x")
    case True
    then show ?thesis using y assms(3,5) x(1) by simp
  next
    case False
    then have "notifies (?r ! y)" using y by simp
    then have "pooled (sv_httpd s) (addr (?r ! y))" "rc_fd (?r ! y) \<noteq> -1"
      using x(2) y(1) by (auto simp: in_step_def notifies_def)
    then show ?thesis using assms(6) x(3) False y(1) by (simp add: apart_def)
  qed
  then show ?thesis
    using x assms(2) same open_before by (simp add: good_at_def in_step_def apart_def assms(3))
qed

lemma good_at_close:
  assumes "good_at x s" "close_slot alloc app x s = Some s'"
  shows "good_at x s'"
proof -
  obtain rc d where r: "httpdDisconCb alloc app (sv_rconn s ! x) (sv_httpd s) = Some (rc, d)"
      "s' = s\<lparr>sv_httpd := d, sv_rconn := (sv_rconn s)[x := rc\<lparr>rc_fd := -1\<rparr>]\<rparr>"
    using assms(2) by (auto simp: close_slot_def bind_eq_Some_conv)
  have "hd_lock (sv_httpd s) = 0" using assms(1) by (simp add: good_at_def in_step_def)
  then show ?thesis
    unfolding r(2) using discon_step [OF r(1)]
    by (intro good_at_update [OF assms(1)]) (simp_all add: addr_def notifies_def)
qed

lemma good_at_write:
  assumes k: "app_keeps app" and g: "good_at x s" "rc_fd (sv_rconn s ! x) \<noteq> -1"
    and r: "serve_write alloc app writable x s = Some s'"
  shows "good_at x s'"
proof -
  let ?rc = "sv_rconn s ! x"
  let ?rc1 = "?rc\<lparr>rc_needWriteDoneNotif := False\<rparr>"
  let ?s1 = "s\<lparr>sv_httpd := sv_httpd s, sv_rconn := (sv_rconn s)[x := ?rc1]\<rparr>"
  have x: "x < length (sv_rconn s)" "hd_lock (sv_httpd s) = 0" using g(1) by (simp_all add: good_at_def in_step_def)
  have s1: "good_at x ?s1" by (rule good_at_update [OF g(1) x(2)]) (simp_all add: addr_def notifies_def)
  show ?thesis
  proof (cases "rc_needWriteDoneNotif ?rc \<and> writable (rc_fd ?rc)")
    case False
    then have "serve_write alloc app writable x s = Some s" unfolding serve_write_def Let_def by simp
    then show ?thesis using r g(1) by simp
  next
    case w: True
    show ?thesis
    proof (cases "rc_needsClose ?rc")
      case True
      then have "serve_write alloc app writable x s = close_slot alloc app x ?s1"
        using w unfolding serve_write_def Let_def by simp
      then show ?thesis using r good_at_close [OF s1] by simp
    next
      case False
      then have e: "serve_write alloc app writable x s = do { (rc2, d) \<leftarrow> httpdSentCb alloc app ?rc1 (sv_httpd s);
          Some (s\<lparr>sv_httpd := d, sv_rconn := (sv_rconn s)[x := rc2]\<rparr>) }"
        using w unfolding serve_write_def Let_def by simp
      obtain p where p: "httpdSentCb alloc app ?rc1 (sv_httpd s) = Some p"
        using r unfolding e by (cases "httpdSentCb alloc app ?rc1 (sv_httpd s)") auto
      obtain rc2 d where "p = (rc2, d)" by fastforce
      then have s2: "httpdSentCb alloc app ?rc1 (sv_httpd s) = Some (rc2, d)" "s' = s\<lparr>sv_httpd := d, sv_rconn := (sv_rconn s)[x := rc2]\<rparr>"
        using p r unfolding e by simp_all
      have "notifies ?rc" using w False g(2) by (simp add: notifies_def)
      then have p: "pooled (sv_httpd s) (addr ?rc1)" using g(1) x(1) by (simp add: good_at_def in_step_def addr_def)
      note st = sent_step [OF k p s2(1)]
      have "pooled d (addr rc2)" using st(2,3) p by simp
      then show ?thesis
        unfolding s2(2) using st x g(2) by (intro good_at_update [OF g(1)]) (simp_all add: addr_def)
    qed
  qed
qed

lemma good_at_read:
  assumes k: "app_keeps app" "rapp_keeps rapp" and g: "good_at x s"
    and r: "serve_read alloc app rapp readable recv x s = Some s'"
  shows "good_at x s'"
proof (cases "readable (rc_fd (sv_rconn s ! x))")
  case True
  then obtain s1 where s1: "(if alloc 242 then Some s else close_slot alloc app x s) = Some s1"
      "(case recv (rc_fd (sv_rconn s1 ! x)) of
          None \<Rightarrow> close_slot alloc app x s1
        | Some d \<Rightarrow>
            if \<not> alloc 242 \<or> length d > RECV_BUF_SIZE then None
            else do { (rc, h) \<leftarrow> httpdRecvCb alloc app rapp (d @ replicate (RECV_BUF_SIZE - length d) 0) (length d) (sv_rconn s1 ! x) (sv_httpd s1);
                      Some (s1\<lparr>sv_httpd := h, sv_rconn := (sv_rconn s1)[x := rc]\<rparr>) }) = Some s'"
    using r by (auto simp: serve_read_def bind_eq_Some_conv)
  have g1: "good_at x s1" using s1(1) g good_at_close by (auto split: if_splits)
  then have z: "hd_lock (sv_httpd s1) = 0" "x < length (sv_rconn s1)" by (simp_all add: good_at_def in_step_def)
  show ?thesis
  proof (cases "recv (rc_fd (sv_rconn s1 ! x))")
    case None
    then show ?thesis using s1(2) good_at_close [OF g1] by simp
  next
    case (Some d)
    then obtain rc h where h: "httpdRecvCb alloc app rapp (d @ replicate (RECV_BUF_SIZE - length d) 0) (length d) (sv_rconn s1 ! x) (sv_httpd s1) = Some (rc, h)"
        "s' = s1\<lparr>sv_httpd := h, sv_rconn := (sv_rconn s1)[x := rc]\<rparr>"
      using s1(2) by (auto simp: bind_eq_Some_conv split: if_splits)
    note st = recv_step [OF k h(1)]
    have "pooled h (addr rc)" if "notifies rc"
      using st(5) [OF that] st(2,3) g1 z(2) by (auto simp: good_at_def in_step_def)
    then show ?thesis
      unfolding h(2) using st(1-4) z by (intro good_at_update [OF g1]) simp_all
  qed
next
  case False
  then show ?thesis using r g by (simp add: serve_read_def)
qed

lemma serve_slot_in_step:
  assumes k: "app_keeps app" "rapp_keeps rapp" and g: "in_step s" "x < length (sv_rconn s)"
    and r: "serve_slot alloc app rapp writable readable recv x s = Some s'"
  shows "in_step s' \<and> length (sv_rconn s') = length (sv_rconn s)"
proof (cases "rc_fd (sv_rconn s ! x) = -1")
  case True
  then show ?thesis using r g by (simp add: serve_slot_def)
next
  case False
  then have x: "good_at x s" using g by (auto simp: good_at_def apart_def in_step_def)
  obtain s1 where s1: "serve_write alloc app writable x s = Some s1" "serve_read alloc app rapp readable recv x s1 = Some s'"
    using r False by (auto simp: serve_slot_def bind_eq_Some_conv)
  have "length (sv_rconn s1) = length (sv_rconn s)"
    using s1(1) by (auto simp: serve_write_def close_slot_def Let_def bind_eq_Some_conv split: if_splits)
  moreover have "length (sv_rconn s') = length (sv_rconn s1)"
    using s1(2) by (auto simp: serve_read_def close_slot_def bind_eq_Some_conv split: if_splits option.splits)
  moreover have "good_at x s'" by (rule good_at_read [OF k good_at_write [OF k(1) x False s1(1)] s1(2)])
  ultimately show ?thesis by (simp add: good_at_def)
qed

lemma serve_all_in_step:
  assumes k: "app_keeps app" "rapp_keeps rapp"
  shows "in_step s \<Longrightarrow> \<forall>x \<in> set xs. x < length (sv_rconn s) \<Longrightarrow> serve_all alloc app rapp writable readable recv xs s = Some s' \<Longrightarrow>
    in_step s' \<and> length (sv_rconn s') = length (sv_rconn s)"
proof (induction xs arbitrary: s)
  case (Cons x xs)
  then obtain s1 where s1: "serve_slot alloc app rapp writable readable recv x s = Some s1"
      "serve_all alloc app rapp writable readable recv xs s1 = Some s'" by (auto simp: bind_eq_Some_conv)
  have "in_step s1 \<and> length (sv_rconn s1) = length (sv_rconn s)"
    by (rule serve_slot_in_step [OF k Cons.prems(1) _ s1(1)]) (use Cons.prems(2) in simp)
  then show ?case using Cons.IH [OF _ _ s1(2)] Cons.prems(2) by simp
qed simp

section \<open>The states the task can reach\<close>

text \<open>A new connection comes from an address none of the open ones has.\<close>

definition new_peer :: "(int \<times> int \<times> byte list \<times> int list) option \<Rightarrow> server \<Rightarrow> bool" where
  "new_peer new s \<longleftrightarrow>
     (case new of
        None \<Rightarrow> True
      | Some (fd, port, ip, writes) \<Rightarrow> list_all (\<lambda>rc. rc_fd rc \<noteq> -1 \<longrightarrow> addr rc \<noteq> (port, ip)) (sv_rconn s))"

inductive server_reaches :: "cgi_app \<Rightarrow> recv_app \<Rightarrow> server \<Rightarrow> bool" for app rapp where
  start: "length rcs = HTTPD_MAX_CONNECTIONS \<Longrightarrow> hd_lock d = 0 \<Longrightarrow> server_reaches app rapp (server_start rcs (httpdAddRouter router k (httpdInit port d)))"
| turn: "server_reaches app rapp s \<Longrightarrow> new_peer new s \<Longrightarrow> server_turn alloc app rapp new writable readable recv s = Some s' \<Longrightarrow>
    server_reaches app rapp s'"

lemma first_free_Some: "first_free rs = Some x \<Longrightarrow> x < length rs \<and> rc_fd (rs ! x) = -1"
  by (induction rs arbitrary: x) (auto split: if_splits)

lemma connect_keeps:
  assumes "httpdConnectCb alloc rc d = Some (r, d')"
  shows "hd_lock d' = hd_lock d" "pooled d a \<Longrightarrow> pooled d' a"
proof -
  have "d' = d \<or> (\<exists>i z. hd_pool d ! i = Slot_Free \<and> d' = d\<lparr>hd_pool := (hd_pool d)[i := z]\<rparr>) \<and> True"
    using assms first_slot_Some [of "\<lambda>s. s = Slot_Free" "hd_pool d"]
    by (auto simp: httpdConnectCb_def split: option.splits if_splits)
  moreover have "pooled (d\<lparr>hd_pool := (hd_pool d)[i := z]\<rparr>) a" if "pooled d a" "hd_pool d ! i = Slot_Free" for i z
  proof (cases "i < length (hd_pool d)")
    case True
    then show ?thesis
      using that kept_elsewhere [of "Some a" "List.map slot_addr (hd_pool d)" i "slot_addr z"]
      by (simp add: pooled_def map_update del: set_map)
  next
    case False
    then show ?thesis using that(1) by (simp add: pooled_def list_update_beyond del: set_map)
  qed
  ultimately show "hd_lock d' = hd_lock d" "pooled d a \<Longrightarrow> pooled d' a" by auto
qed

lemma accept_in_step:
  assumes "in_step s" "new_peer (Some (fd, port, ip, writes)) s" "accept_conn alloc fd port ip writes s = Some s'"
  shows "in_step s' \<and> length (sv_rconn s') = length (sv_rconn s)"
proof (cases "first_free (sv_rconn s)")
  case None
  then show ?thesis using assms(1,3) by (simp add: accept_conn_def)
next
  case (Some x)
  let ?rc = "\<lparr>rc_fd = fd, rc_needWriteDoneNotif = False, rc_needsClose = False, rc_port = port, rc_ip = ip, rc_writes = writes, rc_wire = []\<rparr>"
  have x: "x < length (sv_rconn s)" using first_free_Some [OF Some] by blast
  obtain r d where d: "httpdConnectCb alloc ?rc (sv_httpd s) = Some (r, d)" "s' = s\<lparr>sv_httpd := d, sv_rconn := (sv_rconn s)[x := ?rc]\<rparr>"
    using assms(3) Some by (auto simp: accept_conn_def Let_def bind_eq_Some_conv)
  have n: "addr (sv_rconn s ! y) \<noteq> (port, ip)" if "y < length (sv_rconn s)" "rc_fd (sv_rconn s ! y) \<noteq> -1" for y
    using assms(2) that by (simp add: new_peer_def list_all_length)
  have a: "addr ?rc = (port, ip)" "\<not> notifies ?rc" by (simp_all add: addr_def notifies_def)
  have "in_step s'"
    unfolding in_step_def d(2)
  proof (intro conjI allI impI, goal_cases)
    case 1
    then show ?case using connect_keeps(1) [OF d(1)] assms(1) by (simp add: in_step_def)
  next
    case (2 y z)
    then show ?case
      using n [of y] n [of z] x assms(1) by (auto simp: nth_list_update a in_step_def split: if_splits)
  next
    case (3 y)
    then have "y \<noteq> x" using a(2) x by auto
    then show ?case using 3 connect_keeps(2) [OF d(1)] assms(1) by (simp add: in_step_def)
  qed
  then show ?thesis by (simp add: d(2))
qed

lemma reaches_in_step:
  assumes "server_reaches app rapp s" "app_keeps app" "rapp_keeps rapp"
  shows "in_step s \<and> length (sv_rconn s) = HTTPD_MAX_CONNECTIONS"
  using assms(1)
proof (induction rule: server_reaches.induct)
  case (start rcs d router k port)
  then show ?case
    by (simp add: in_step_def server_start_def httpdAddRouter_def httpdInit_def Let_def notifies_def)
next
  case (turn s new alloc writable readable recv s')
  have r: "\<forall>x \<in> set [0..<HTTPD_MAX_CONNECTIONS]. x < length (sv_rconn s)" using turn.IH by simp
  show ?case
  proof (cases new)
    case None
    then show ?thesis using serve_all_in_step [OF assms(2,3) _ r] turn by (simp add: server_turn_def)
  next
    case (Some p)
    obtain fd port ip writes where p: "p = (fd, port, ip, writes)" by (cases p)
    show ?thesis
    proof (cases "fd < 0 \<or> first_free (sv_rconn s) = None")
      case True
      then show ?thesis using turn by (simp add: server_turn_def Some p)
    next
      case False
      then obtain s1 where s1: "accept_conn alloc fd port ip writes s = Some s1"
          "serve_all alloc app rapp writable readable recv [0..<HTTPD_MAX_CONNECTIONS] s1 = Some s'"
        using turn.hyps(3) unfolding server_turn_def Some p by (auto simp: bind_eq_Some_conv)
      have "in_step s1 \<and> length (sv_rconn s1) = length (sv_rconn s)"
        by (rule accept_in_step [OF _ _ s1(1)]) (use turn.IH turn.hyps(2) in \<open>simp_all add: Some p\<close>)
      then show ?thesis using serve_all_in_step [OF assms(2,3) _ _ s1(2)] r turn.IH by simp
    qed
  qed
qed

text \<open>
  C6. The server's task and its pool of connections stay in step: in every state the task reaches, whatever arrives, is
  written, fails to be allocated or is closed, the lock is released (its count is zero), the open connections have different
  addresses, and every open connection for which a write notification is pending, and which is not to be closed, has its entry
  in the pool (a peer's port is not 0), so that \<open>httpdSentCb\<close> finds it and does not return with the lock taken. The CGI functions may do anything to
  a connection but change its address, and new connections come from addresses that no open one has.
\<close>

theorem server_in_step:
  assumes "server_reaches app rapp s" "app_keeps app" "rapp_keeps rapp"
  shows "hd_lock (sv_httpd s) = 0 \<and>
    (\<forall>x < length (sv_rconn s). \<forall>y < length (sv_rconn s). x \<noteq> y \<longrightarrow> rc_fd (sv_rconn s ! x) \<noteq> -1 \<longrightarrow> rc_fd (sv_rconn s ! y) \<noteq> -1 \<longrightarrow>
       addr (sv_rconn s ! x) \<noteq> addr (sv_rconn s ! y)) \<and>
    (\<forall>x < length (sv_rconn s). notifies (sv_rconn s ! x) \<longrightarrow> rc_port (sv_rconn s ! x) \<noteq> 0 \<longrightarrow>
       (\<exists>i c. httpdFindConnData (sv_rconn s ! x) (sv_httpd s) = Some (Some (i, c))))"
proof -
  have i: "in_step s" using reaches_in_step [OF assms] by blast
  have "\<exists>i c. httpdFindConnData (sv_rconn s ! x) (sv_httpd s) = Some (Some (i, c))"
    if "x < length (sv_rconn s)" "notifies (sv_rconn s ! x)" "rc_port (sv_rconn s ! x) \<noteq> 0" for x
    using i that find_none [of "sv_rconn s ! x" "sv_httpd s"] find_defined [OF that(3), of "sv_httpd s"]
    unfolding in_step_def by (metis not_None_eq surj_pair)
  then show ?thesis using i unfolding in_step_def by blast
qed

lemma quiet_slots: "serve_all alloc app rapp (\<lambda>_. False) (\<lambda>_. False) recv xs s = Some s"
  by (induction xs) (simp_all add: serve_slot_def serve_write_def serve_read_def Let_def)

lemma sample_keeps: "app_keeps sample_app" "rapp_keeps (\<lambda>_ _ _. None)"
  by (auto simp: app_keeps_def rapp_keeps_def sample_app_def cgi_respond_def bind_eq_Some_conv simp del: send_all.simps
    dest!: tag_start tag_end_headers tag_send_all)

definition sample_server :: server where
  "sample_server = server_start (replicate HTTPD_MAX_CONNECTIONS sample_rconn)
     (httpdAddRouter sample_urls 0 (httpdInit 80 \<lparr>hd_pool = [], hd_urls = [], hd_init = False, hd_port = 0, hd_lock = 0\<rparr>))"

theorem server_in_step_witness:
  "\<exists>s. server_reaches sample_app (\<lambda>_ _ _. None) s \<and> rc_fd (sv_rconn s ! 0) = 7 \<and> hd_lock (sv_httpd s) = 0"
proof -
  let ?new = "Some (7, 4000, [10, 0, 0, 2], []) :: (int \<times> int \<times> byte list \<times> int list) option"
  have s0: "server_reaches sample_app (\<lambda>_ _ _. None) sample_server"
    unfolding sample_server_def by (rule server_reaches.start) simp_all
  have r: "sv_rconn sample_server = (sample_rconn\<lparr>rc_fd := -1\<rparr>) # replicate 19 (sample_rconn\<lparr>rc_fd := -1\<rparr>)"
    by (simp add: sample_server_def server_start_def numeral_eq_Suc)
  have p: "hd_pool (sv_httpd sample_server) = Slot_Free # replicate 19 Slot_Free"
    by (simp add: sample_server_def server_start_def httpdAddRouter_def httpdInit_def Let_def numeral_eq_Suc)
  obtain s where s: "server_turn (\<lambda>_. True) sample_app (\<lambda>_ _ _. None) ?new (\<lambda>_. False) (\<lambda>_. False) (\<lambda>_. None) sample_server = Some s"
      "rc_fd (sv_rconn s ! 0) = 7"
    by (simp add: server_turn_def accept_conn_def httpdConnectCb_def r p quiet_slots Let_def del: serve_all.simps)
  have "new_peer ?new sample_server" by (simp add: new_peer_def r list_all_iff)
  from server_reaches.turn [OF s0 this s(1)] have "server_reaches sample_app (\<lambda>_ _ _. None) s" .
  with server_in_step [OF this sample_keeps] s(2) show ?thesis by blast
qed

end
