(* ===== verification/Spec2Isabelle.thy ===== *)
theory Spec2Isabelle
  imports Utf8 Alarm_Service Dd_Mqtt Http_Types Bluetooth Wifi_Manager Web_Forms Httpd_Server
begin

text \<open>
  A verification library for the ddmz firmware, a network speaker on an ESP32: keys and a microphone
  on one side, a speech service and an MQTT server on the other, a player in between, with Wi-Fi,
  Bluetooth and an HTTP server around them.

  \<^bold>\<open>The program and the theories.\<close> The application is in \<open>src/main\<close>, its components are in
  \<open>src/components\<close>. What is modelled are the parts that decide what the device does; each theory follows one
  or two source files, with the names of the source.

    \<^item> \<open>Adc_Button\<close> (\<open>TouchManager/AdcButton.c\<close>) and \<open>Gpio_Button\<close> (\<open>TouchManager/button.c\<close>): keys on a
      resistor ladder and on pins. The state of the first is \<open>adc_btn\<close>: the six entries of \<open>btn\<close>, three
      timers, \<open>timerStartflag\<close>, \<open>firstId\<close>; of the second \<open>button_dev\<close>, with a table of timers.
    \<^item> \<open>Touch_Manager\<close> (\<open>TouchManager/TouchManager.c\<close>): their callbacks fill a queue of eight messages, the
      task of the manager turns each into a notification of a key.
    \<^item> \<open>Device_Notify\<close> (\<open>DeviceController.c\<close>, \<open>DeviceControllerHelper.c\<close>, \<open>NotifyHelper.c\<close>): the list of
      services that are notified, and what the controller passes on.
    \<^item> \<open>Wifi_Manager\<close> (\<open>WifiManager.c\<close>, \<open>wifismartconfig.c\<close>): the callback of the driver with its retry
      counter, smart config with its task, and the notifications of the state of the network.
    \<^item> \<open>Bt_Machines\<close> (\<open>reconnect_sm.c\<close>, \<open>key_control.c\<close>) and \<open>Bluetooth\<close> (\<open>BluetoothControlService.c\<close>,
      \<open>bt_app_main.c\<close>): the two state machines, the queue and task of the service, the handlers of the
      events of the stack, the player and the keys.
    \<^item> \<open>Dd_Cloud\<close> (\<open>main/dd_cloud_service.c\<close>): the notification of the record key drives the recorder
      engine; the task collects the recording and posts it.
    \<^item> \<open>Dd_Http\<close> (\<open>main/dd_http.c\<close>): the posted recording is answered by a JSON text, whose answer is
      URL encoded and sent to speech synthesis.
    \<^item> \<open>Http_Header\<close>, \<open>Http_Auth\<close>, \<open>Http_Client\<close> (\<open>esp_http_client\<close>): the header list and string
      utilities, Basic and Digest values, and the client: configuration, URL, request, response,
      redirection and authentication. \<open>Http_Exchange\<close> holds the theory of an exchange, \<open>Http_Types\<close> the type
      invariant that every call of the interface keeps.
    \<^item> \<open>Httpd\<close>, \<open>Httpd_Recv\<close>, \<open>Httpd_Server\<close> (\<open>httpd/httpd.c\<close>, \<open>httpd/httpd-freertos.c\<close>): the HTTP server:
      strings and the send buffer; the parser, the choice of the CGI function and the pool; the task.
      \<open>Httpd_Answer\<close> follows a request from its bytes to the answer, \<open>Web_Forms\<close> joins the reader of forms
      with the encoder of the speech client.
    \<^item> \<open>Utf8\<close> (\<open>main/utf8.c\<close>): the codec and the character classes of the answers.
    \<^item> \<open>Mqtt_Msg\<close>, \<open>Mqtt_Outbox\<close>, \<open>Transport\<close>, \<open>Transport_Ws\<close>, \<open>Mqtt_Client\<close> (\<open>espmqtt\<close>): packets, the queue of
      messages that wait for an acknowledgement, the table of transports with TCP, the WebSocket
      transport on top of TCP, and the client: its configuration, connection, receive path, requests
      and task. \<open>Mqtt_Delivery\<close> and \<open>Mqtt_Session\<close> hold the theory of the client. \<open>Dd_Mqtt\<close>
      (\<open>main/dd_mqtt.c\<close>) is the handler of the client's events, which plays what is published.
    \<^item> \<open>Alarm_Parser\<close> (\<open>AlarmService/alarmparser.c\<close>) and \<open>Alarm_Service\<close> (\<open>AlarmService.c\<close>, \<open>alarm.c\<close>): alarm
      strings, the linked list of alarms and the poll that triggers them.
    \<^item> \<open>Prelude\<close>: objects in memory, strings, searched lists, and the interfaces below.

  \<^bold>\<open>Conventions.\<close> An object of C is the list of its cells. Undefined behaviour (an access outside an
  object, a null pointer, a dangling timer handle) is \<open>None\<close> of the option monad; error codes of C are
  values inside \<open>Some\<close>. So \<open>f x \<noteq> None\<close> and \<open>\<exists>y. f x = Some y\<close> are memory-safety statements. Fixed-width
  integers are words where they can wrap; an \<open>int\<close> whose range is not at stake is an \<open>int\<close>. State is
  passed explicitly, in records with the fields of the source. One call of a handler, one pass of a
  task's loop and one expiry of a timer are single steps; interleavings are sequences of steps,
  given as lists (\<open>adc_run\<close>, \<open>run_all\<close>) or as step relations (\<open>mqtt_step\<close>, \<open>button_step\<close>, \<open>adc_reachable\<close>,
  \<open>server_reaches\<close>). Whether an allocation succeeds is an argument, by the line of the call (\<open>alloc\<close>).

  \<^bold>\<open>The environment.\<close> Sockets are the script \<open>net\<close> of \<open>Transport\<close>: the results the calls will have; the
  server's writes are scripted in its connections, and what \<open>select\<close> and \<open>recv\<close> give are arguments of a
  turn of its task. Clocks, random numbers and converter samples are lists or functions. Libraries
  outside the sources are arguments: base64 and SHA-1 for the WebSocket handshake, MD5 for Digest
  values, \<open>http_parser\<close> for responses and URLs, cJSON for the speech services. CGI functions of
  applications are an argument of the server. Calls of the player, the recorder engine, the Bluetooth
  stack, the Wi-Fi driver and the application's callbacks are collected in lists.

  \<^bold>\<open>Interfaces.\<close> The locales of the library and what they are interpreted on: \<open>prefix_codec\<close> (encodings
  that can be read off a stream; UTF-8 and URL encoding), \<open>keyed_list\<close> and \<open>keyed_store\<close> (lists searched by a
  key; the MQTT outbox, the alarm list and the header list of the HTTP client), \<open>stream_reader\<close> and
  \<open>stream_writer\<close> (the TCP transport), \<open>ws_tunnel\<close> (WebSocket framing over any such stream; interpreted
  over TCP).

  \<^bold>\<open>What is shown.\<close>

    \<^item> Round trips: UTF-8, MQTT publish messages and acknowledgements, alarm strings, URL encoding, forms
      between the speech client and the HTTP server, chunked responses.
    \<^item> Types and safety: every call on the HTTP client keeps its buffers and lengths well formed; the UTF-8
      decoder and the readers of MQTT packets never leave their buffers; the WebSocket client only connects
      when the key of the answer is right; the task of the Bluetooth service is safe for every sequence
      of messages; the button task never indexes its table with -1; accepted alarms lie in the future.
    \<^item> Invariants and steps: the session of the MQTT client over all passes of its task and all requests,
      the distinct handles of the alarm list, the timer table of a button, the connections of the HTTP
      server's task and pool, whose lock is always released.
    \<^item> Refinement and equivalence: the alarm service is a map from handles to alarms, the header list a map
      from names to values; the Digest value is the one of the standard; the reading of the converter is the
      mean of the sorted samples without the extremes, which one bad sample cannot move.
    \<^item> Delivery: a publish message in chunks of any size reaches the handler whole and in order; a message
      of quality 1 or 2 is acknowledged once; a silent server is found out; an absolute alarm fires once;
      a request of the HTTP client is on the wire as it was configured, and the body of the response
      reaches the handler whatever the reads return; requests to the HTTP server in any pieces are answered in
      order, each by the function registered for its URL.
    \<^item> Termination: \<open>esp_http_client_perform\<close> ends within the redirections it is allowed; a period of an
      alarm is advanced to its first occurrence after the present; and, as a fault, the loop of the HTTP
      server over functions that decline does not end.
    \<^item> Composition: from the samples of the converter to the notification of a key, and on to the start and
      stop of the recorder or to the player over Bluetooth; from the chunks of the HTTP reply to the body of the
      synthesis request; from the events of the MQTT client to the player.
    \<^item> Faults, where the code has them: a stale CONNACK opens a session, a bounce locks a button, the posted
      recording is shifted by a block and its buffer overrun after ten seconds, a masked WebSocket frame
      is unmasked with an overwritten key, commands are played as URLs, a restarted smart config is dead, a
      used-up HTTP client never succeeds, a full answer or a long head overruns the buffers of the server.

  \<^bold>\<open>Bounds and fuel.\<close> Loops over buffers recurse on a list or on the number of bytes left, so they need no
  fuel. Loops whose end depends on data are \<open>function\<close>s with a measure: \<open>deliver_loop\<close> (the bytes of the
  message still missing), the loops of the HTTP client over header items and unsent bytes, and of the server over
  arguments, header lines and chunks (the bytes behind the position). Loops that need not end are partial
  functions, whose value is \<open>None\<close> when they do not: \<open>advance\<close> of the alarm parser, \<open>fetch_loop\<close>, \<open>body_loop\<close>,
  \<open>read_loop\<close> and \<open>esp_http_client_perform\<close>, for which theorems say when they return, and \<open>process_loop\<close>, for
  which one says when it does and one when it does not. The bounds of the theorems are those of the code: remaining
  lengths of MQTT messages below 16384 in the round trips, 1024 bytes for a head and 8192 for the send buffer of
  the server; what happens beyond is in the list of findings.

  \<^bold>\<open>Not modelled.\<close> Drivers and set-up of boards, codecs, DSPs and LEDs; audio codecs and players that come
  as binary libraries with headers; OTA; the older request library; the DuerOS, DLNA and terminal services; SSL,
  which the configuration leaves out of the MQTT client; the provisioning over BLE, which is not compiled in;
  the SNTP task, listening sockets and the creation of services, which only call the operating system. Logging is
  dropped everywhere, but for the places where it reads memory that may not be there.
\<close>

end
